(* ===== verification/ZB_Prelude.thy ===== *)
theory ZB_Prelude
  imports Main "HOL-Library.Word" "HOL-Library.Signed_Division"
begin

unbundle bit_operations_syntax

text \<open>
  Shared vocabulary of the development: the machine integers of the C++ sources as words of
  their width, byte strings, the little-endian byte codecs, \<open>memcpy\<close> at an offset of a
  buffer, and the decimal printing of \<open>std::to_string\<close>.  The lemmas here are the
  automation the component theories rest on; they are collected in \<open>codec_simps\<close> (byte codecs
  and buffer reads) and \<open>word_nat\<close> (from words to their unsigned values).
\<close>

named_theorems codec_simps "round trips of byte codecs and reads from written buffers"
named_theorems word_nat "unsigned values of word expressions that do not wrap"

type_synonym u8 = "8 word"
type_synonym u16 = "16 word"
type_synonym u32 = "32 word"
type_synonym u64 = "64 word"
type_synonym u128 = "128 word"

text \<open>A \<open>std::string\<close> that holds binary data is a list of bytes.\<close>

type_synonym bytes = "u8 list"

section \<open>Little-endian codecs\<close>

text \<open>
  \<open>append_le n w\<close> are the \<open>n\<close> bytes a loop
  \<open>push_back((value >> (i * 8)) & 0xFF)\<close> for \<open>i < n\<close> appends; \<open>decode_le n bs\<close> is the loop
  \<open>value |= data[i] << (i * 8)\<close> that reads them.
\<close>

definition append_le :: "nat \<Rightarrow> 'a::len word \<Rightarrow> bytes" where
  "append_le n w = map (\<lambda>i. ucast (drop_bit (8 * i) w AND 255)) [0..<n]"

definition decode_le :: "nat \<Rightarrow> bytes \<Rightarrow> 'a::len word" where
  "decode_le n bs = foldl (\<lambda>v i. v OR push_bit (8 * i) (ucast (bs ! i))) 0 [0..<n]"

text \<open>\<open>memcpy\<close> into and out of a buffer at an offset.\<close>

definition poke :: "bytes \<Rightarrow> nat \<Rightarrow> bytes \<Rightarrow> bytes" where
  "poke buf off bs = take off buf @ bs @ drop (off + length bs) buf"

definition peek :: "bytes \<Rightarrow> nat \<Rightarrow> nat \<Rightarrow> bytes" where
  "peek buf off n = take n (drop off buf)"

text \<open>
  A sequence of \<open>memcpy\<close> writes, and the condition that they stay inside the buffer and do not
  overlap: what is needed to read every field of a fixed layout back.
\<close>

definition pokes :: "(nat \<times> bytes) list \<Rightarrow> bytes \<Rightarrow> bytes" where
  "pokes ws buf = foldl (\<lambda>b (off, bs). poke b off bs) buf ws"

definition writes_ok :: "nat \<Rightarrow> (nat \<times> bytes) list \<Rightarrow> bool" where
  "writes_ok n ws \<longleftrightarrow> list_all (\<lambda>(off, bs). off + length bs \<le> n) ws \<and>
     sorted_wrt (\<lambda>(o1, b1) (o2, b2). o1 + length b1 \<le> o2 \<or> o2 + length b2 \<le> o1) ws"

section \<open>Decimal numerals\<close>

fun dec_digits :: "nat \<Rightarrow> string" where
  "dec_digits n = (if n < 10 then [char_of (48 + n)]
                   else dec_digits (n div 10) @ [char_of (48 + n mod 10)])"

declare dec_digits.simps [simp del]

text \<open>\<open>std::to_string\<close> of an unsigned integer.\<close>

definition to_string :: "'a::len word \<Rightarrow> string" where
  "to_string w = dec_digits (unat w)"

definition is_digit :: "char \<Rightarrow> bool" where
  "is_digit c \<longleftrightarrow> 48 \<le> (of_char c :: nat) \<and> (of_char c :: nat) \<le> 57"

definition digit_val :: "char \<Rightarrow> nat" where
  "digit_val c = of_char c - 48"

definition dec_val :: "string \<Rightarrow> nat" where
  "dec_val s = foldl (\<lambda>v c. 10 * v + digit_val c) 0 s"

section \<open>Lemmas on the little-endian codecs\<close>

lemma length_append_le [simp]: "length (append_le n w) = n"
  by (simp add: append_le_def)

lemma nth_append_le: "i < n \<Longrightarrow> append_le n w ! i = ucast (drop_bit (8 * i) w AND 255)"
  by (simp add: append_le_def)

lemma bit_append_le:
  fixes w :: "'a::len word"
  assumes "i < n" "j < 8"
  shows "bit (append_le n w ! i) j = bit w (8 * i + j)"
proof -
  have "bit (255 :: 'a word) j \<or> \<not> j < LENGTH('a)"
    using assms(2) by (auto simp: less_Suc_eq numeral_eq_Suc bit_Suc bit_0)
  with assms show ?thesis
    by (auto simp: nth_append_le bit_ucast_iff bit_and_iff bit_drop_bit_eq dest: bit_imp_le_length)
qed

lemma bit_decode_le:
  fixes k :: nat
  shows "bit (decode_le n bs :: 'a::len word) k \<longleftrightarrow>
         k < LENGTH('a) \<and> k div 8 < n \<and> bit (bs ! (k div 8)) (k mod 8)"
proof (induction n)
  case 0
  then show ?case by (simp add: decode_le_def)
next
  case (Suc n)
  have step: "(decode_le (Suc n) bs :: 'a word) = decode_le n bs OR push_bit (8 * n) (ucast (bs ! n))"
    by (simp add: decode_le_def)
  have mid: "bit (bs ! n) (k - 8 * n) \<and> 8 * n \<le> k \<longleftrightarrow> k div 8 = n \<and> bit (bs ! n) (k mod 8)"
  proof (cases "8 * n \<le> k \<and> k < 8 * n + 8")
    case True
    then obtain j where "k = 8 * n + j" "j < 8"
      by (metis le_Suc_ex nat_add_left_cancel_less)
    then show ?thesis by simp
  next
    case False
    then have "\<not> (bit (bs ! n) (k - 8 * n) \<and> 8 * n \<le> k)" "k div 8 \<noteq> n"
      by (auto dest: bit_imp_le_length)
    then show ?thesis by simp
  qed
  have new: "bit (push_bit (8 * n) (ucast (bs ! n)) :: 'a word) k \<longleftrightarrow>
      k < LENGTH('a) \<and> k div 8 = n \<and> bit (bs ! n) (k mod 8)"
  proof -
    have "bit (push_bit (8 * n) (ucast (bs ! n)) :: 'a word) k \<longleftrightarrow>
        k < LENGTH('a) \<and> (bit (bs ! n) (k - 8 * n) \<and> 8 * n \<le> k)"
      by (simp add: bit_push_bit_iff bit_ucast_iff, linarith)
    then show ?thesis unfolding mid by blast
  qed
  show ?case
    unfolding step bit_or_iff Suc.IH new by (auto simp: less_Suc_eq)
qed

text \<open>Reading back what was appended: the value is recovered when \<open>n\<close> bytes hold all its bits.\<close>

lemma decode_append_le [codec_simps]:
  fixes w :: "'a::len word"
  assumes "LENGTH('a) = 8 * n"
  shows "decode_le n (append_le n w) = w"
proof (rule bit_word_eqI)
  fix k assume k: "k < LENGTH('a)"
  then have "k div 8 < n" using assms by (simp add: less_mult_imp_div_less mult.commute)
  then have "bit (append_le n w ! (k div 8)) (k mod 8) = bit w (8 * (k div 8) + k mod 8)"
    by (intro bit_append_le) simp_all
  with k \<open>k div 8 < n\<close> show "bit (decode_le n (append_le n w) :: 'a word) k = bit w k"
    by (simp add: bit_decode_le)
qed

lemma decode_le_cong: "(\<And>i. i < n \<Longrightarrow> bs ! i = cs ! i) \<Longrightarrow> decode_le n bs = decode_le n cs"
  unfolding decode_le_def by (rule foldl_cong) auto

lemma decode_le_take [codec_simps]: "decode_le n (take n bs) = decode_le n bs"
  by (rule decode_le_cong) simp

lemma decode_le_append:
  "length bs = n \<Longrightarrow> decode_le n (bs @ cs) = decode_le n bs"
  by (rule decode_le_cong) (simp add: nth_append)

lemma decode_le_zeros [codec_simps]: "decode_le n (replicate n 0) = (0 :: 'a::len word)"
  by (rule bit_word_eqI) (simp add: bit_decode_le)

text \<open>The converse round trip: the bytes are recovered from the value they encode.\<close>

lemma append_decode_le [codec_simps]:
  assumes "LENGTH('a::len) = 8 * n" "length bs = n"
  shows "append_le n (decode_le n bs :: 'a word) = bs"
proof (rule nth_equalityI)
  show "length (append_le n (decode_le n bs :: 'a word)) = length bs"
    using assms(2) by simp
next
  fix i assume "i < length (append_le n (decode_le n bs :: 'a word))"
  then have i: "i < n" by simp
  show "append_le n (decode_le n bs :: 'a word) ! i = bs ! i"
  proof (rule bit_word_eqI)
    fix j assume "j < LENGTH(8)"
    then have j: "j < 8" by simp
    then have "(8 * i + j) div 8 = i" "(8 * i + j) mod 8 = j" by simp_all
    with i j assms(1) show "bit (append_le n (decode_le n bs :: 'a word) ! i) j = bit (bs ! i) j"
      by (simp add: bit_append_le bit_decode_le)
  qed
qed

section \<open>Lemmas on buffers\<close>

lemma length_poke [simp]: "off + length bs \<le> length buf \<Longrightarrow> length (poke buf off bs) = length buf"
  by (simp add: poke_def)

lemma peek_poke_same [codec_simps]:
  "off + length bs \<le> length buf \<Longrightarrow> n = length bs \<Longrightarrow> peek (poke buf off bs) off n = bs"
  by (simp add: peek_def poke_def)

lemma nth_poke:
  assumes "off + length bs \<le> length buf" "i < length buf"
  shows "poke buf off bs ! i =
    (if i < off then buf ! i else if i < off + length bs then bs ! (i - off) else buf ! i)"
  using assms by (simp add: poke_def nth_append add.commute less_diff_conv2)

lemma peek_eqI:
  assumes "length buf = length buf'" "\<And>i. off \<le> i \<Longrightarrow> i < off + n \<Longrightarrow> i < length buf \<Longrightarrow> buf ! i = buf' ! i"
  shows "peek buf off n = peek buf' off n"
  unfolding peek_def using assms by (intro nth_equalityI) auto

lemma peek_poke_disjoint [codec_simps]:
  assumes "off' + length bs \<le> length buf" "off + n \<le> off' \<or> off' + length bs \<le> off"
  shows "peek (poke buf off' bs) off n = peek buf off n"
  using assms by (intro peek_eqI) (auto simp: nth_poke)

lemma length_peek [simp]: "off + n \<le> length buf \<Longrightarrow> length (peek buf off n) = n"
  by (simp add: peek_def)

lemma peek_replicate [codec_simps]: "off + n \<le> k \<Longrightarrow> peek (replicate k b) off n = replicate n b"
  by (simp add: peek_def)

lemma nth_eq_peek: "i < length buf \<Longrightarrow> buf ! i = hd (peek buf i 1)"
  by (simp add: peek_def hd_drop_conv_nth take_Suc)

lemma poke_singleton: "i < length buf \<Longrightarrow> buf[i := b] = poke buf i [b]"
  by (simp add: poke_def upd_conv_take_nth_drop)

lemma pokes_simps [simp]:
  "pokes [] buf = buf"
  "pokes ((off, bs) # ws) buf = pokes ws (poke buf off bs)"
  by (simp_all add: pokes_def)

lemma length_pokes [simp]:
  "list_all (\<lambda>(off, bs). off + length bs \<le> length buf) ws \<Longrightarrow> length (pokes ws buf) = length buf"
  by (induction ws arbitrary: buf) auto

lemma peek_pokes_outside:
  assumes "list_all (\<lambda>(off, bs). off + length bs \<le> length buf) ws"
    and "list_all (\<lambda>(off', bs). off + n \<le> off' \<or> off' + length bs \<le> off) ws"
  shows "peek (pokes ws buf) off n = peek buf off n"
  using assms by (induction ws arbitrary: buf) (auto simp: peek_poke_disjoint)

lemma peek_pokes:
  assumes "writes_ok (length buf) ws" "(off, bs) \<in> set ws"
  shows "peek (pokes ws buf) off (length bs) = bs"
  using assms
proof (induction ws arbitrary: buf)
  case (Cons w ws)
  obtain o1 b1 where w: "w = (o1, b1)" by force
  show ?case
  proof (cases "(off, bs) \<in> set ws")
    case True
    with Cons.prems Cons.IH[of "poke buf o1 b1"] show ?thesis by (simp add: w writes_ok_def)
  next
    case False
    with Cons.prems have "o1 = off" "b1 = bs" by (auto simp: w)
    with Cons.prems have "peek (pokes ws (poke buf off bs)) off (length bs) =
        peek (poke buf off bs) off (length bs)"
      by (intro peek_pokes_outside) (auto simp: w writes_ok_def list_all_iff)
    with Cons.prems \<open>o1 = off\<close> \<open>b1 = bs\<close> show ?thesis
      by (simp add: w writes_ok_def peek_poke_same)
  qed
qed simp

section \<open>Bounds of machine integers\<close>

lemma unat_lt_power: "unat (w :: 'a::len word) < 2 ^ LENGTH('a)"
  by (rule unsigned_less)

lemma unat_u8_lt: "unat (w :: u8) < 256"
  using unat_lt_power[of w] by simp

lemma unat_u16_lt: "unat (w :: u16) < 2 ^ 16"
  using unat_lt_power[of w] by simp

lemma unat_u32_lt: "unat (w :: u32) < 2 ^ 32"
  using unat_lt_power[of w] by simp

lemma unat_u64_lt: "unat (w :: u64) < 2 ^ 64"
  using unat_lt_power[of w] by simp

lemma unat_u128_lt: "unat (w :: u128) < 2 ^ 128"
  using unat_lt_power[of w] by simp

lemma unat_add_no_wrap [word_nat]:
  "unat v + unat w < 2 ^ LENGTH('a) \<Longrightarrow> unat (v + w :: 'a::len word) = unat v + unat w"
  by (simp add: unat_word_ariths)

lemma unat_suc_less: "w < v \<Longrightarrow> unat (w + 1 :: 'a::len word) = Suc (unat w)"
proof -
  assume "w < v"
  then have "unat w + 1 < 2 ^ LENGTH('a)"
    using unat_lt_power[of v] unfolding word_less_nat_alt by linarith
  then show ?thesis by (simp add: unat_word_ariths)
qed

lemma unat_mult_no_wrap [word_nat]:
  "unat v * unat w < 2 ^ LENGTH('a) \<Longrightarrow> unat (v * w :: 'a::len word) = unat v * unat w"
  by (simp add: unat_word_ariths)

lemma unat_sub_no_wrap [word_nat]: "w \<le> v \<Longrightarrow> unat (v - w :: 'a::len word) = unat v - unat w"
  by (rule unat_sub)

lemma unat_ucast_mod: "unat (ucast (w :: 'a::len word) :: 'b::len word) = unat w mod 2 ^ LENGTH('b)"
  by (simp add: unsigned_ucast_eq unsigned_take_bit_eq take_bit_eq_mod)

lemma unat_ucast_up [word_nat]:
  assumes "LENGTH('a) \<le> LENGTH('b)"
  shows "unat (ucast (w :: 'a::len word) :: 'b::len word) = unat w"
proof -
  have "unat w < 2 ^ LENGTH('a)" by (rule unat_lt_power)
  also have "(2::nat) ^ LENGTH('a) \<le> 2 ^ LENGTH('b)" using assms by (rule power_increasing) simp
  finally show ?thesis by (simp add: unat_ucast_mod)
qed

section \<open>Lemmas on decimal numerals\<close>

lemma of_char_digit [simp]: "n < 10 \<Longrightarrow> (of_char (char_of (48 + n) :: char) :: nat) = 48 + n"
  by (simp add: of_char_of)

lemma is_digit_char_of [simp]: "(n::nat) < 10 \<Longrightarrow> is_digit (char_of (48 + n))"
  by (simp add: is_digit_def)

lemma digit_val_char_of [simp]: "(n::nat) < 10 \<Longrightarrow> digit_val (char_of (48 + n)) = n"
  by (simp add: digit_val_def)

lemma digit_val_lt: "is_digit c \<Longrightarrow> digit_val c < 10"
  unfolding is_digit_def digit_val_def by linarith

lemma char_of_digit_val: "is_digit c \<Longrightarrow> char_of (48 + digit_val c) = c"
  by (simp add: is_digit_def digit_val_def)

lemma dec_val_Nil [simp]: "dec_val [] = 0"
  by (simp add: dec_val_def)

lemma dec_val_snoc [simp]: "dec_val (s @ [c]) = 10 * dec_val s + digit_val c"
  by (simp add: dec_val_def)

lemma dec_val_append: "dec_val (s @ t) = dec_val s * 10 ^ length t + dec_val t"
proof (induction t rule: rev_induct)
  case Nil
  then show ?case by simp
next
  case (snoc c t)
  have "dec_val (s @ t @ [c]) = 10 * dec_val (s @ t) + digit_val c"
    using dec_val_snoc[of "s @ t" c] by simp
  with snoc show ?case by (simp add: algebra_simps)
qed

lemma dec_val_Cons: "dec_val (c # s) = digit_val c * 10 ^ length s + dec_val s"
  using dec_val_append[of "[c]" s] by (simp add: dec_val_def)

lemma dec_val_less: "\<forall>c \<in> set s. is_digit c \<Longrightarrow> dec_val s < 10 ^ length s"
proof (induction s rule: rev_induct)
  case Nil
  then show ?case by simp
next
  case (snoc c s)
  then have "dec_val s + 1 \<le> 10 ^ length s" "digit_val c < 10" by (auto simp: digit_val_lt)
  then have "10 * dec_val s + digit_val c < 10 * 10 ^ length s" by linarith
  then show ?case by simp
qed

lemma dec_digits_nonempty [simp]: "dec_digits n \<noteq> []"
  by (subst dec_digits.simps) simp

lemma dec_digits_all_digits: "c \<in> set (dec_digits n) \<Longrightarrow> is_digit c"
proof (induction n rule: dec_digits.induct)
  case (1 n)
  then show ?case by (subst (asm) dec_digits.simps) (auto split: if_splits)
qed

lemma dec_val_dec_digits [simp]: "dec_val (dec_digits n) = n"
proof (induction n rule: dec_digits.induct)
  case (1 n)
  show ?case
  proof (cases "n < 10")
    case True
    then show ?thesis by (subst dec_digits.simps) (simp add: dec_val_def)
  next
    case False
    with 1 have "dec_val (dec_digits (n div 10)) = n div 10" by simp
    with False show ?thesis by (subst dec_digits.simps) simp
  qed
qed

lemma dec_digits_no_leading_zero: "n \<noteq> 0 \<Longrightarrow> hd (dec_digits n) \<noteq> CHR ''0''"
proof (induction n rule: dec_digits.induct)
  case (1 n)
  show ?case
  proof (cases "n < 10")
    case True
    have "char_of (48 + n) \<noteq> CHR ''0''"
    proof
      assume "char_of (48 + n) = CHR ''0''"
      then have "(of_char (char_of (48 + n) :: char) :: nat) = 48" by simp
      with True 1(2) show False by (subst (asm) of_char_digit) simp_all
    qed
    with True show ?thesis by (subst dec_digits.simps) simp
  next
    case False
    with 1 show ?thesis by (subst dec_digits.simps) simp
  qed
qed

lemma dec_digits_inject: "dec_digits m = dec_digits n \<longleftrightarrow> m = n"
  by (metis dec_val_dec_digits)

lemma to_string_inject: "to_string (v :: 'a::len word) = to_string w \<longleftrightarrow> v = w"
  by (simp add: to_string_def dec_digits_inject word_unat_eq_iff)

end
