(* ===== verification/Unified_Inode.thy ===== *)
theory Unified_Inode
  imports ZB_Prelude
begin

unbundle bit_operations_syntax

text \<open>
  The 256-byte inode record of the metadata server
  (\<open>src/src/mds/storage/UnifiedInodeRecord.h\<close> and \<open>.cpp\<close>): its normalisation, its encoder and
  decoder, and the conversions to and from the \<open>InodeAttr\<close> message.  Fields of the two structs
  carry the prefixes \<open>u_\<close> (\<open>UnifiedInodeRecord\<close>) and \<open>a_\<close> (\<open>InodeAttr\<close>).  An enumerator of the
  protocol is its number; \<open>std::memcpy\<close> of an integer is its little-endian bytes, the byte order of
  the hosts the system runs on.  Shown here: what the encoder accepts, that decoding an encoded
  record gives its canonical form and re-encoding that form gives the same bytes, which byte strings
  the decoder rejects, and what survives the trip through \<open>InodeAttr\<close>.
\<close>

section \<open>The record and its layout\<close>

record UnifiedInodeRecord =
  u_version :: u8
  u_inode_type :: u8
  u_storage_tier :: u8
  u_flags :: u8
  u_file_name_len :: u16
  u_location_format :: u8
  u_inode_id :: u64
  u_parent_inode_id :: u64
  u_size_bytes :: u64
  u_atime :: u64
  u_mtime :: u64
  u_ctime :: u64
  u_version_no :: u64
  u_mode :: u32
  u_uid :: u32
  u_gid :: u32
  u_nlink :: u32
  u_blksize :: u32
  u_file_archive_state :: u32
  u_blocks_512 :: u64
  u_storage_loc0 :: u64
  u_storage_loc1 :: u64
  u_rdev_major :: u32
  u_rdev_minor :: u32
  u_object_unit_size :: u64
  u_replica :: u32
  u_disk_node_id :: u64
  u_disk_id :: u32
  u_optical_node_id :: u64
  u_optical_disk_id :: u64
  u_optical_image_id :: u32
  u_file_name :: bytes

text \<open>The default member initialisers.\<close>

definition default_record :: UnifiedInodeRecord where
  "default_record = \<lparr>u_version = 3, u_inode_type = 0, u_storage_tier = 0, u_flags = 0,
     u_file_name_len = 0, u_location_format = 0, u_inode_id = 0, u_parent_inode_id = 0,
     u_size_bytes = 0, u_atime = 0, u_mtime = 0, u_ctime = 0, u_version_no = 0, u_mode = 0,
     u_uid = 0, u_gid = 0, u_nlink = 0, u_blksize = 0, u_file_archive_state = 0, u_blocks_512 = 0,
     u_storage_loc0 = 0, u_storage_loc1 = 0, u_rdev_major = 0, u_rdev_minor = 0,
     u_object_unit_size = 0, u_replica = 0, u_disk_node_id = 0, u_disk_id = 0,
     u_optical_node_id = 0, u_optical_disk_id = 0, u_optical_image_id = 0, u_file_name = []\<rparr>"

text \<open>\<open>UnifiedStorageTier\<close> and \<open>UnifiedLocationFormat\<close> are 8-bit enums with the values 0, 1, 2.\<close>

abbreviation "TierNone \<equiv> (0 :: u8)"
abbreviation "TierDisk \<equiv> (1 :: u8)"
abbreviation "TierOptical \<equiv> (2 :: u8)"
abbreviation "FormatNone \<equiv> (0 :: u8)"
abbreviation "FormatDisk \<equiv> (1 :: u8)"
abbreviation "FormatOpticalPacked \<equiv> (2 :: u8)"

abbreviation "INODE_FILE \<equiv> (0 :: u8)"
abbreviation "INODE_DIR \<equiv> (1 :: u8)"
abbreviation "INODE_STORAGE_NONE \<equiv> (0 :: u32)"
abbreviation "INODE_STORAGE_DISK \<equiv> (1 :: u32)"
abbreviation "INODE_STORAGE_OPTICAL \<equiv> (2 :: u32)"
abbreviation "INODE_ARCHIVE_IMAGE_READY \<equiv> (3 :: u32)"

definition kUnifiedFlagVirtualDiskNode :: u8 where
  "kUnifiedFlagVirtualDiskNode = 1"

definition kRecordSize :: nat where "kRecordSize = 256"
definition kVersion :: u8 where "kVersion = 3"
definition kFileNameSize :: nat where "kFileNameSize = 64"
definition kReservedOffset :: nat where "kReservedOffset = 192"
definition kDefaultBlockSize :: u32 where "kDefaultBlockSize = 4096"
definition kBlocksUnitBytes :: u64 where "kBlocksUnitBytes = 512"
definition kArchiveTag :: u32 where "kArchiveTag = 0x31435241"

text \<open>One constructor per error message of \<open>UnifiedInodeRecord.cpp\<close> (and of the codecs over it).\<close>

datatype inode_error =
    InvalidSize | VersionMismatch | InvalidInodeType | InvalidStorageTier | InvalidLocationFormat
  | InvalidFileNameLen | InvalidArchiveState | FileNameTooLong | ObjectUnitSizeRange | ReplicaRange
  | OpticalDiskIdRange | UnsupportedFormat | InvalidRebasedImage

section \<open>Validation and normalisation\<close>

definition WriteU16 :: "bytes \<Rightarrow> nat \<Rightarrow> u16 \<Rightarrow> bytes" where
  "WriteU16 out offset v = poke out offset (append_le 2 v)"

definition WriteU32 :: "bytes \<Rightarrow> nat \<Rightarrow> u32 \<Rightarrow> bytes" where
  "WriteU32 out offset v = poke out offset (append_le 4 v)"

definition WriteU64 :: "bytes \<Rightarrow> nat \<Rightarrow> u64 \<Rightarrow> bytes" where
  "WriteU64 out offset v = poke out offset (append_le 8 v)"

definition ReadU16 :: "bytes \<Rightarrow> nat \<Rightarrow> u16" where
  "ReadU16 data offset = decode_le 2 (peek data offset 2)"

definition ReadU32 :: "bytes \<Rightarrow> nat \<Rightarrow> u32" where
  "ReadU32 data offset = decode_le 4 (peek data offset 4)"

definition ReadU64 :: "bytes \<Rightarrow> nat \<Rightarrow> u64" where
  "ReadU64 data offset = decode_le 8 (peek data offset 8)"

definition IsValidInodeType :: "u8 \<Rightarrow> bool" where
  "IsValidInodeType v \<longleftrightarrow> v = INODE_FILE \<or> v = INODE_DIR"

definition IsValidStorageTier :: "u8 \<Rightarrow> bool" where
  "IsValidStorageTier v \<longleftrightarrow> v \<le> TierOptical"

definition IsValidLocationFormat :: "u8 \<Rightarrow> bool" where
  "IsValidLocationFormat v \<longleftrightarrow> v \<le> FormatOpticalPacked"

definition IsValidArchiveState :: "u32 \<Rightarrow> bool" where
  "IsValidArchiveState v \<longleftrightarrow> v \<le> INODE_ARCHIVE_IMAGE_READY"

definition ToProtoStorageTier :: "u8 \<Rightarrow> u32" where
  "ToProtoStorageTier t = (if t = TierDisk then INODE_STORAGE_DISK
     else if t = TierOptical then INODE_STORAGE_OPTICAL else INODE_STORAGE_NONE)"

definition ToUnifiedStorageTier :: "u32 \<Rightarrow> u8" where
  "ToUnifiedStorageTier t = (if t = INODE_STORAGE_DISK then TierDisk
     else if t = INODE_STORAGE_OPTICAL then TierOptical else TierNone)"

definition CeilDiv :: "u64 \<Rightarrow> u64 \<Rightarrow> u64" where
  "CeilDiv v divisor = (if divisor = 0 then 0 else (v + divisor - 1) div divisor)"

definition NormalizeDirectorySize :: "u8 \<Rightarrow> u64 \<Rightarrow> u64" where
  "NormalizeDirectorySize inode_type size_bytes =
     (if inode_type = INODE_DIR \<and> size_bytes = 0 then ucast kDefaultBlockSize else size_bytes)"

definition NormalizeBlockSize :: "u32 \<Rightarrow> u32" where
  "NormalizeBlockSize requested = (if requested = 0 then kDefaultBlockSize else requested)"

definition NormalizeBlocks512 :: "u64 \<Rightarrow> u64 \<Rightarrow> u64" where
  "NormalizeBlocks512 requested size_bytes =
     (if requested \<noteq> 0 then requested else CeilDiv size_bytes kBlocksUnitBytes)"

definition NormalizePackedLocation :: "UnifiedInodeRecord \<Rightarrow> inode_error + UnifiedInodeRecord" where
  "NormalizePackedLocation rec0 =
     (let rec = rec0\<lparr>u_location_format := FormatNone, u_storage_loc0 := 0, u_storage_loc1 := 0\<rparr>
      in if u_storage_tier rec = TierDisk then
           Inr (rec\<lparr>u_location_format := FormatDisk, u_storage_loc0 := u_disk_node_id rec,
                    u_storage_loc1 := ucast (u_disk_id rec)\<rparr>)
         else if u_storage_tier rec = TierOptical then
           (if u_optical_disk_id rec > 0xFFFFFFFF then Inl OpticalDiskIdRange
            else Inr (rec\<lparr>u_location_format := FormatOpticalPacked,
                         u_storage_loc0 := u_optical_node_id rec,
                         u_storage_loc1 := push_bit 32 (u_optical_disk_id rec) OR
                                           ucast (u_optical_image_id rec)\<rparr>))
         else Inr rec)"

definition ExpandPackedLocation :: "UnifiedInodeRecord \<Rightarrow> UnifiedInodeRecord" where
  "ExpandPackedLocation rec0 =
     (let rec = rec0\<lparr>u_disk_node_id := 0, u_disk_id := 0, u_optical_node_id := 0,
                     u_optical_disk_id := 0, u_optical_image_id := 0\<rparr>
      in if u_location_format rec = FormatDisk then
           rec\<lparr>u_disk_node_id := u_storage_loc0 rec, u_disk_id := ucast (u_storage_loc1 rec)\<rparr>
         else if u_location_format rec = FormatOpticalPacked then
           rec\<lparr>u_optical_node_id := u_storage_loc0 rec,
               u_optical_disk_id := drop_bit 32 (u_storage_loc1 rec),
               u_optical_image_id := ucast (u_storage_loc1 rec AND 0xFFFFFFFF)\<rparr>
         else rec)"

definition FillDerivedPosixFields :: "bool \<Rightarrow> UnifiedInodeRecord \<Rightarrow> UnifiedInodeRecord" where
  "FillDerivedPosixFields normalize_dir_size rec0 =
     (let r1 = (if normalize_dir_size
                then rec0\<lparr>u_size_bytes := NormalizeDirectorySize (u_inode_type rec0) (u_size_bytes rec0)\<rparr>
                else rec0);
          r2 = r1\<lparr>u_blksize := NormalizeBlockSize (u_blksize r1)\<rparr>;
          r3 = r2\<lparr>u_blocks_512 := NormalizeBlocks512 (u_blocks_512 r2) (u_size_bytes r2)\<rparr>
      in r3\<lparr>u_file_name_len := of_nat (length (u_file_name r3))\<rparr>)"

section \<open>Encoder and decoder\<close>

text \<open>The writes of the encoder, in source order, into a zeroed buffer of \<open>kRecordSize\<close> bytes.\<close>

definition write_record :: "UnifiedInodeRecord \<Rightarrow> bytes" where
  "write_record n =
     (let out = replicate kRecordSize 0;
          out = out[0 := u_version n];
          out = out[1 := u_inode_type n];
          out = out[2 := u_storage_tier n];
          out = out[3 := u_flags n];
          out = out[4 := ucast (u_file_name_len n)];
          out = out[5 := u_location_format n];
          out = WriteU16 out 6 0;
          out = WriteU64 out 8 (u_inode_id n);
          out = WriteU64 out 16 (u_parent_inode_id n);
          out = WriteU64 out 24 (u_size_bytes n);
          out = WriteU64 out 32 (u_atime n);
          out = WriteU64 out 40 (u_mtime n);
          out = WriteU64 out 48 (u_ctime n);
          out = WriteU64 out 56 (u_version_no n);
          out = WriteU32 out 64 (u_mode n);
          out = WriteU32 out 68 (u_uid n);
          out = WriteU32 out 72 (u_gid n);
          out = WriteU32 out 76 (u_nlink n);
          out = WriteU32 out 80 (u_blksize n);
          out = WriteU32 out 84 (u_file_archive_state n);
          out = WriteU64 out 88 (u_blocks_512 n);
          out = WriteU64 out 96 (u_storage_loc0 n);
          out = WriteU64 out 104 (u_storage_loc1 n);
          out = WriteU32 out 112 (u_rdev_major n);
          out = WriteU32 out 116 (u_rdev_minor n);
          out = WriteU32 out 120 (ucast (u_object_unit_size n));
          out = WriteU16 out 124 (ucast (u_replica n));
          out = WriteU16 out 126 0;
          out = (if u_storage_tier n = TierDisk \<and> u_optical_image_id n \<noteq> 0 then
                   let out = WriteU32 out kReservedOffset kArchiveTag;
                       out = WriteU32 out (kReservedOffset + 4) (u_optical_image_id n);
                       out = WriteU64 out (kReservedOffset + 8) (u_optical_disk_id n)
                   in WriteU64 out (kReservedOffset + 16) (u_optical_node_id n)
                 else out)
      in if u_file_name n \<noteq> [] then poke out 128 (u_file_name n) else out)"

definition EncodeUnifiedInodeRecord :: "UnifiedInodeRecord \<Rightarrow> inode_error + bytes" where
  "EncodeUnifiedInodeRecord rec =
     (if \<not> IsValidInodeType (u_inode_type rec) then Inl InvalidInodeType
      else if \<not> IsValidStorageTier (u_storage_tier rec) then Inl InvalidStorageTier
      else if \<not> IsValidArchiveState (u_file_archive_state rec) then Inl InvalidArchiveState
      else if length (u_file_name rec) > kFileNameSize then Inl FileNameTooLong
      else if u_object_unit_size rec > 0xFFFFFFFF then Inl ObjectUnitSizeRange
      else if u_replica rec > 0xFFFF then Inl ReplicaRange
      else case NormalizePackedLocation (FillDerivedPosixFields True (rec\<lparr>u_version := kVersion\<rparr>)) of
             Inl e \<Rightarrow> Inl e
           | Inr normalized \<Rightarrow> Inr (write_record normalized))"

definition read_record :: "bytes \<Rightarrow> UnifiedInodeRecord" where
  "read_record data = default_record\<lparr>u_version := kVersion,
     u_inode_type := data ! 1,
     u_storage_tier := data ! 2,
     u_flags := data ! 3,
     u_file_name_len := ucast (data ! 4),
     u_location_format := data ! 5,
     u_inode_id := ReadU64 data 8,
     u_parent_inode_id := ReadU64 data 16,
     u_size_bytes := ReadU64 data 24,
     u_atime := ReadU64 data 32,
     u_mtime := ReadU64 data 40,
     u_ctime := ReadU64 data 48,
     u_version_no := ReadU64 data 56,
     u_mode := ReadU32 data 64,
     u_uid := ReadU32 data 68,
     u_gid := ReadU32 data 72,
     u_nlink := ReadU32 data 76,
     u_blksize := ReadU32 data 80,
     u_file_archive_state := ReadU32 data 84,
     u_blocks_512 := ReadU64 data 88,
     u_storage_loc0 := ReadU64 data 96,
     u_storage_loc1 := ReadU64 data 104,
     u_rdev_major := ReadU32 data 112,
     u_rdev_minor := ReadU32 data 116,
     u_object_unit_size := ucast (ReadU32 data 120),
     u_replica := ucast (ReadU16 data 124),
     u_file_name := peek data 128 (unat (data ! 4))\<rparr>"

definition DecodeV3UnifiedInodeRecord :: "bytes \<Rightarrow> inode_error + UnifiedInodeRecord" where
  "DecodeV3UnifiedInodeRecord data =
     (if length data \<noteq> kRecordSize then Inl InvalidSize
      else if \<not> IsValidInodeType (data ! 1) then Inl InvalidInodeType
      else if \<not> IsValidStorageTier (data ! 2) then Inl InvalidStorageTier
      else if \<not> IsValidLocationFormat (data ! 5) then Inl InvalidLocationFormat
      else if unat (data ! 4) > kFileNameSize then Inl InvalidFileNameLen
      else if \<not> IsValidArchiveState (ReadU32 data 84) then Inl InvalidArchiveState
      else let rec = ExpandPackedLocation (read_record data);
               rec = (if u_storage_tier rec = TierDisk \<and> ReadU32 data kReservedOffset = kArchiveTag then
                        rec\<lparr>u_optical_image_id := ReadU32 data (kReservedOffset + 4),
                            u_optical_disk_id := ReadU64 data (kReservedOffset + 8),
                            u_optical_node_id := ReadU64 data (kReservedOffset + 16)\<rparr>
                      else rec)
           in Inr (FillDerivedPosixFields False rec))"

definition DecodeUnifiedInodeRecord :: "bytes \<Rightarrow> inode_error + UnifiedInodeRecord" where
  "DecodeUnifiedInodeRecord data =
     (if length data \<noteq> kRecordSize then Inl InvalidSize
      else if data ! 0 = kVersion then DecodeV3UnifiedInodeRecord data
      else Inl VersionMismatch)"

section \<open>Conversion to and from the protocol message\<close>

record InodeAttr =
  a_inode_id :: u64
  a_type :: u32
  a_mode :: u32
  a_uid :: u32
  a_gid :: u32
  a_size :: u64
  a_atime :: u64
  a_mtime :: u64
  a_ctime :: u64
  a_nlink :: u32
  a_object_unit_size :: u64
  a_replica :: u32
  a_version :: u64
  a_file_archive_state :: u32
  a_file_name :: bytes
  a_storage_tier :: u32
  a_disk_node_id :: u64
  a_disk_id :: u32
  a_optical_node_id :: u64
  a_optical_disk_id :: u64
  a_optical_image_id :: u32
  a_disk_node_is_virtual :: bool
  a_blksize :: u32
  a_blocks_512 :: u64
  a_rdev_major :: u32
  a_rdev_minor :: u32

definition UnifiedInodeRecordToAttr :: "UnifiedInodeRecord \<Rightarrow> InodeAttr" where
  "UnifiedInodeRecordToAttr rec =
     (let attr = \<lparr>a_inode_id = u_inode_id rec, a_type = ucast (u_inode_type rec), a_mode = u_mode rec,
            a_uid = u_uid rec, a_gid = u_gid rec, a_size = u_size_bytes rec, a_atime = u_atime rec,
            a_mtime = u_mtime rec, a_ctime = u_ctime rec, a_nlink = u_nlink rec,
            a_object_unit_size = u_object_unit_size rec, a_replica = u_replica rec,
            a_version = u_version_no rec, a_file_archive_state = u_file_archive_state rec,
            a_file_name = u_file_name rec, a_storage_tier = ToProtoStorageTier (u_storage_tier rec),
            a_disk_node_id = 0, a_disk_id = 0, a_optical_node_id = 0, a_optical_disk_id = 0,
            a_optical_image_id = 0, a_disk_node_is_virtual = False, a_blksize = u_blksize rec,
            a_blocks_512 = u_blocks_512 rec, a_rdev_major = u_rdev_major rec,
            a_rdev_minor = u_rdev_minor rec\<rparr>
      in if u_storage_tier rec = TierDisk then
           attr\<lparr>a_disk_node_id := u_disk_node_id rec, a_disk_id := u_disk_id rec,
                a_disk_node_is_virtual := (u_flags rec AND kUnifiedFlagVirtualDiskNode \<noteq> 0),
                a_optical_node_id := u_optical_node_id rec,
                a_optical_disk_id := u_optical_disk_id rec,
                a_optical_image_id := u_optical_image_id rec\<rparr>
         else if u_storage_tier rec = TierOptical then
           attr\<lparr>a_optical_node_id := u_optical_node_id rec,
                a_optical_disk_id := u_optical_disk_id rec,
                a_optical_image_id := u_optical_image_id rec\<rparr>
         else attr)"

definition attr_fields :: "InodeAttr \<Rightarrow> u64 \<Rightarrow> u8 \<Rightarrow> UnifiedInodeRecord" where
  "attr_fields attr parent_inode_id storage_tier = default_record\<lparr>u_version := kVersion,
     u_inode_type := ucast (a_type attr),
     u_storage_tier := (if a_storage_tier attr = INODE_STORAGE_NONE then storage_tier
                        else ToUnifiedStorageTier (a_storage_tier attr)),
     u_inode_id := a_inode_id attr, u_parent_inode_id := parent_inode_id,
     u_size_bytes := a_size attr, u_atime := a_atime attr, u_mtime := a_mtime attr,
     u_ctime := a_ctime attr, u_version_no := a_version attr, u_mode := a_mode attr,
     u_uid := a_uid attr, u_gid := a_gid attr, u_nlink := a_nlink attr, u_blksize := a_blksize attr,
     u_file_archive_state := a_file_archive_state attr, u_blocks_512 := a_blocks_512 attr,
     u_rdev_major := a_rdev_major attr, u_rdev_minor := a_rdev_minor attr,
     u_object_unit_size := a_object_unit_size attr, u_replica := a_replica attr,
     u_file_name := a_file_name attr, u_file_name_len := of_nat (length (a_file_name attr)),
     u_disk_node_id := a_disk_node_id attr, u_disk_id := a_disk_id attr,
     u_optical_node_id := a_optical_node_id attr, u_optical_disk_id := a_optical_disk_id attr,
     u_optical_image_id := a_optical_image_id attr,
     u_flags := (if a_disk_node_is_virtual attr then 0 OR kUnifiedFlagVirtualDiskNode else 0)\<rparr>"

definition clear_other_tiers :: "UnifiedInodeRecord \<Rightarrow> UnifiedInodeRecord" where
  "clear_other_tiers rec =
     (if u_storage_tier rec = TierDisk then
        rec\<lparr>u_optical_node_id := 0, u_optical_disk_id := 0, u_optical_image_id := 0\<rparr>
      else if u_storage_tier rec = TierOptical then
        rec\<lparr>u_disk_node_id := 0, u_disk_id := 0,
            u_flags := u_flags rec AND NOT kUnifiedFlagVirtualDiskNode\<rparr>
      else rec\<lparr>u_disk_node_id := 0, u_disk_id := 0, u_optical_node_id := 0, u_optical_disk_id := 0,
               u_optical_image_id := 0, u_flags := u_flags rec AND NOT kUnifiedFlagVirtualDiskNode\<rparr>)"

definition AttrToUnifiedInodeRecord ::
  "InodeAttr \<Rightarrow> u64 \<Rightarrow> u8 \<Rightarrow> inode_error + UnifiedInodeRecord" where
  "AttrToUnifiedInodeRecord attr parent_inode_id storage_tier =
     (if \<not> IsValidInodeType (ucast (a_type attr)) then Inl InvalidInodeType
      else if length (a_file_name attr) > kFileNameSize then Inl FileNameTooLong
      else if a_object_unit_size attr > 0xFFFFFFFF then Inl ObjectUnitSizeRange
      else if a_replica attr > 0xFFFF then Inl ReplicaRange
      else if a_optical_disk_id attr > 0xFFFFFFFF then Inl OpticalDiskIdRange
      else NormalizePackedLocation (FillDerivedPosixFields True
             (clear_other_tiers (attr_fields attr parent_inode_id storage_tier))))"

section \<open>Canonical records\<close>

text \<open>
  What the stored bytes keep of a record: the derived POSIX fields filled in, the packed location of
  the tier, and the ids of the tier only -- except that a disk record keeps the location of its
  archived copy when that has a nonzero image id.
\<close>

definition packed_format :: "UnifiedInodeRecord \<Rightarrow> u8" where
  "packed_format r = (if u_storage_tier r = TierDisk then FormatDisk
     else if u_storage_tier r = TierOptical then FormatOpticalPacked else FormatNone)"

definition keeps_optical :: "UnifiedInodeRecord \<Rightarrow> bool" where
  "keeps_optical r \<longleftrightarrow> u_storage_tier r = TierOptical \<or>
     u_storage_tier r = TierDisk \<and> u_optical_image_id r \<noteq> 0"

definition canonical_record :: "UnifiedInodeRecord \<Rightarrow> UnifiedInodeRecord" where
  "canonical_record r =
     (let size = NormalizeDirectorySize (u_inode_type r) (u_size_bytes r);
          disk = (u_storage_tier r = TierDisk); opt = (u_storage_tier r = TierOptical)
      in r\<lparr>u_version := 3, u_size_bytes := size, u_blksize := NormalizeBlockSize (u_blksize r),
           u_blocks_512 := NormalizeBlocks512 (u_blocks_512 r) size,
           u_file_name_len := of_nat (length (u_file_name r)),
           u_location_format := packed_format r,
           u_storage_loc0 := (if disk then u_disk_node_id r else if opt then u_optical_node_id r else 0),
           u_storage_loc1 := (if disk then ucast (u_disk_id r)
              else if opt then push_bit 32 (u_optical_disk_id r) OR ucast (u_optical_image_id r) else 0),
           u_disk_node_id := (if disk then u_disk_node_id r else 0),
           u_disk_id := (if disk then u_disk_id r else 0),
           u_optical_node_id := (if keeps_optical r then u_optical_node_id r else 0),
           u_optical_disk_id := (if keeps_optical r then u_optical_disk_id r else 0),
           u_optical_image_id := (if keeps_optical r then u_optical_image_id r else 0)\<rparr>)"

text \<open>The records the encoder accepts.\<close>

definition encodable :: "UnifiedInodeRecord \<Rightarrow> bool" where
  "encodable r \<longleftrightarrow> u_inode_type r \<in> {INODE_FILE, INODE_DIR} \<and> u_storage_tier r \<le> TierOptical \<and>
     u_file_archive_state r \<le> INODE_ARCHIVE_IMAGE_READY \<and> length (u_file_name r) \<le> 64 \<and>
     u_object_unit_size r \<le> 0xFFFFFFFF \<and> u_replica r \<le> 0xFFFF \<and>
     (u_storage_tier r = TierOptical \<longrightarrow> u_optical_disk_id r \<le> 0xFFFFFFFF)"

section \<open>Reading the layout back\<close>

definition has_archive_copy :: "UnifiedInodeRecord \<Rightarrow> bool" where
  "has_archive_copy n \<longleftrightarrow> u_storage_tier n = TierDisk \<and> u_optical_image_id n \<noteq> 0"

definition record_writes :: "UnifiedInodeRecord \<Rightarrow> (nat \<times> bytes) list" where
  "record_writes n =
     [(0, [u_version n]), (1, [u_inode_type n]), (2, [u_storage_tier n]), (3, [u_flags n]),
      (4, [ucast (u_file_name_len n)]), (5, [u_location_format n]), (6, append_le 2 (0 :: u16)),
      (8, append_le 8 (u_inode_id n)), (16, append_le 8 (u_parent_inode_id n)),
      (24, append_le 8 (u_size_bytes n)), (32, append_le 8 (u_atime n)),
      (40, append_le 8 (u_mtime n)), (48, append_le 8 (u_ctime n)),
      (56, append_le 8 (u_version_no n)), (64, append_le 4 (u_mode n)),
      (68, append_le 4 (u_uid n)), (72, append_le 4 (u_gid n)), (76, append_le 4 (u_nlink n)),
      (80, append_le 4 (u_blksize n)), (84, append_le 4 (u_file_archive_state n)),
      (88, append_le 8 (u_blocks_512 n)), (96, append_le 8 (u_storage_loc0 n)),
      (104, append_le 8 (u_storage_loc1 n)), (112, append_le 4 (u_rdev_major n)),
      (116, append_le 4 (u_rdev_minor n)),
      (120, append_le 4 (ucast (u_object_unit_size n) :: u32)),
      (124, append_le 2 (ucast (u_replica n) :: u16)), (126, append_le 2 (0 :: u16))] @
     (if has_archive_copy n then
        [(192, append_le 4 kArchiveTag), (196, append_le 4 (u_optical_image_id n)),
         (200, append_le 8 (u_optical_disk_id n)), (208, append_le 8 (u_optical_node_id n))]
      else []) @
     (if u_file_name n \<noteq> [] then [(128, u_file_name n)] else [])"

lemmas layout_defs = WriteU16_def WriteU32_def WriteU64_def kRecordSize_def kReservedOffset_def

lemma write_record_pokes: "write_record n = pokes (record_writes n) (replicate 256 0)"
  by (simp add: write_record_def record_writes_def layout_defs poke_singleton has_archive_copy_def Let_def)

lemma record_writes_ok: "length (u_file_name n) \<le> 64 \<Longrightarrow> writes_ok 256 (record_writes n)"
  by (cases "has_archive_copy n"; cases "u_file_name n = []")
    (simp_all add: record_writes_def writes_ok_def)

lemma length_write_record [simp]: "length (u_file_name n) \<le> 64 \<Longrightarrow> length (write_record n) = 256"
  using record_writes_ok[of n] unfolding write_record_pokes writes_ok_def by (subst length_pokes) auto

lemma read_back:
  assumes "length (u_file_name n) \<le> 64" "(off, bs) \<in> set (record_writes n)"
  shows "peek (write_record n) off (length bs) = bs"
  unfolding write_record_pokes using assms by (intro peek_pokes) (auto simp: record_writes_ok)

lemma read_back_byte:
  assumes "length (u_file_name n) \<le> 64" "(off, [b]) \<in> set (record_writes n)" "off < 256"
  shows "write_record n ! off = b"
  using read_back[OF assms(1,2)] assms by (simp add: nth_eq_peek)

lemma read_back_int:
  assumes "length (u_file_name n) \<le> 64"
  shows "(off, append_le 2 v2) \<in> set (record_writes n) \<Longrightarrow> ReadU16 (write_record n) off = v2"
    and "(off, append_le 4 v4) \<in> set (record_writes n) \<Longrightarrow> ReadU32 (write_record n) off = v4"
    and "(off, append_le 8 v8) \<in> set (record_writes n) \<Longrightarrow> ReadU64 (write_record n) off = v8"
  using read_back[OF assms] unfolding ReadU16_def ReadU32_def ReadU64_def
  by (fastforce simp: decode_append_le)+

lemma read_back_fields:
  assumes "length (u_file_name n) \<le> 64"
  shows "write_record n ! 0 = u_version n" "write_record n ! Suc 0 = u_inode_type n"
    "write_record n ! 2 = u_storage_tier n" "write_record n ! 3 = u_flags n"
    "write_record n ! 4 = ucast (u_file_name_len n)" "write_record n ! 5 = u_location_format n"
    "ReadU64 (write_record n) 8 = u_inode_id n" "ReadU64 (write_record n) 16 = u_parent_inode_id n"
    "ReadU64 (write_record n) 24 = u_size_bytes n" "ReadU64 (write_record n) 32 = u_atime n"
    "ReadU64 (write_record n) 40 = u_mtime n" "ReadU64 (write_record n) 48 = u_ctime n"
    "ReadU64 (write_record n) 56 = u_version_no n" "ReadU32 (write_record n) 64 = u_mode n"
    "ReadU32 (write_record n) 68 = u_uid n" "ReadU32 (write_record n) 72 = u_gid n"
    "ReadU32 (write_record n) 76 = u_nlink n" "ReadU32 (write_record n) 80 = u_blksize n"
    "ReadU32 (write_record n) 84 = u_file_archive_state n"
    "ReadU64 (write_record n) 88 = u_blocks_512 n" "ReadU64 (write_record n) 96 = u_storage_loc0 n"
    "ReadU64 (write_record n) 104 = u_storage_loc1 n"
    "ReadU32 (write_record n) 112 = u_rdev_major n" "ReadU32 (write_record n) 116 = u_rdev_minor n"
    "ReadU32 (write_record n) 120 = ucast (u_object_unit_size n)"
    "ReadU16 (write_record n) 124 = ucast (u_replica n)"
  using assms by (auto intro!: read_back_byte read_back_int simp: record_writes_def)

lemma read_back_name:
  assumes "length (u_file_name n) \<le> 64"
  shows "peek (write_record n) 128 (length (u_file_name n)) = u_file_name n"
proof (cases "u_file_name n = []")
  case False
  then show ?thesis using assms by (intro read_back) (simp_all add: record_writes_def)
qed (simp add: peek_def)

lemma read_back_archive:
  assumes "length (u_file_name n) \<le> 64" "has_archive_copy n"
  shows "ReadU32 (write_record n) 192 = kArchiveTag"
    "ReadU32 (write_record n) 196 = u_optical_image_id n"
    "ReadU64 (write_record n) 200 = u_optical_disk_id n"
    "ReadU64 (write_record n) 208 = u_optical_node_id n"
  using assms by (auto intro!: read_back_int simp: record_writes_def)

lemma read_back_no_archive:
  assumes "length (u_file_name n) \<le> 64" "\<not> has_archive_copy n"
  shows "ReadU32 (write_record n) 192 = 0"
proof -
  have "peek (write_record n) 192 4 = peek (replicate 256 0) 192 4"
    unfolding write_record_pokes using assms
    by (intro peek_pokes_outside) (auto simp: record_writes_def)
  then show ?thesis by (simp add: ReadU32_def codec_simps)
qed

section \<open>Packed locations\<close>

lemma packed_optical_disk:
  assumes "d \<le> (0xFFFFFFFF :: u64)"
  shows "drop_bit 32 (push_bit 32 d OR ucast (i :: u32)) = d"
proof (rule bit_word_eqI)
  fix k assume "k < LENGTH(64)"
  moreover have "\<not> bit d m" if "m \<ge> 32" for m
  proof -
    have "take_bit 32 d = d"
      using assms by (simp add: word_unat_eq_iff unsigned_take_bit_eq take_bit_nat_eq_self word_le_nat_alt)
    with that show ?thesis by (metis bit_take_bit_iff not_le)
  qed
  ultimately show "bit (drop_bit 32 (push_bit 32 d OR ucast i)) k = bit d k"
    by (cases "k < 32")
      (auto simp: bit_drop_bit_eq bit_or_iff bit_push_bit_iff bit_ucast_iff dest: bit_imp_le_length)
qed

lemma packed_optical_image:
  "(ucast ((push_bit 32 d OR ucast i) AND 0xFFFFFFFF :: u64) :: u32) = i"
proof -
  have m: "(0xFFFFFFFF :: u64) = mask 32" by (simp add: mask_eq_exp_minus_1)
  show ?thesis
    by (rule bit_word_eqI)
      (auto simp: m bit_ucast_iff bit_and_iff bit_or_iff bit_push_bit_iff bit_mask_iff)
qed

lemma ucast_u64_u32: "v \<le> 0xFFFFFFFF \<Longrightarrow> (ucast (ucast (v :: u64) :: u32) :: u64) = v"
  by (simp add: word_unat_eq_iff word_le_nat_alt unat_ucast_mod)

lemma ucast_u32_u16: "v \<le> 0xFFFF \<Longrightarrow> (ucast (ucast (v :: u32) :: u16) :: u32) = v"
  by (simp add: word_unat_eq_iff word_le_nat_alt unat_ucast_mod)

lemma ucast_u32_u64_u32 [simp]: "(ucast (ucast (v :: u32) :: u64) :: u32) = v"
  using unat_u32_lt[of v] by (simp add: word_unat_eq_iff unat_ucast_mod)

lemma name_len_byte: "n \<le> 64 \<Longrightarrow> unat (ucast (of_nat n :: u16) :: u8) = n"
  by (simp add: unat_ucast_mod unat_of_nat)

lemma NormalizeBlocks512_idem [simp]:
  "NormalizeBlocks512 (NormalizeBlocks512 q s) s = NormalizeBlocks512 q s"
  by (simp add: NormalizeBlocks512_def)

lemma NormalizeBlockSize_idem [simp]: "NormalizeBlockSize (NormalizeBlockSize q) = NormalizeBlockSize q"
  by (simp add: NormalizeBlockSize_def kDefaultBlockSize_def)

lemma NormalizeDirectorySize_idem [simp]:
  "NormalizeDirectorySize t (NormalizeDirectorySize t s) = NormalizeDirectorySize t s"
  by (simp add: NormalizeDirectorySize_def)

section \<open>Encoding and decoding\<close>

lemmas encode_defs = EncodeUnifiedInodeRecord_def NormalizePackedLocation_def
  FillDerivedPosixFields_def IsValidInodeType_def IsValidStorageTier_def IsValidArchiveState_def
  kFileNameSize_def kVersion_def

text \<open>The record the encoder writes: its input with the derived fields and the packed location.\<close>

definition normalized_record :: "UnifiedInodeRecord \<Rightarrow> UnifiedInodeRecord" where
  "normalized_record r = (canonical_record r)\<lparr>u_disk_node_id := u_disk_node_id r,
     u_disk_id := u_disk_id r, u_optical_node_id := u_optical_node_id r,
     u_optical_disk_id := u_optical_disk_id r, u_optical_image_id := u_optical_image_id r\<rparr>"

lemma tier_cases: "(t :: u8) \<le> TierOptical \<Longrightarrow> t = 0 \<or> t = 1 \<or> t = 2"
proof -
  assume "t \<le> TierOptical"
  then have "unat t \<le> 2" by (simp add: word_le_nat_alt)
  then have "unat t = 0 \<or> unat t = 1 \<or> unat t = 2" by linarith
  then show ?thesis by (auto simp: word_unat_eq_iff)
qed

lemma Encode_encodable:
  "encodable r \<Longrightarrow> EncodeUnifiedInodeRecord r = Inr (write_record (normalized_record r))"
  by (auto simp: encode_defs encodable_def normalized_record_def canonical_record_def packed_format_def
      Let_def not_less not_le)

lemma Encode_not_encodable: "\<not> encodable r \<Longrightarrow> \<exists>e. EncodeUnifiedInodeRecord r = Inl e"
  by (auto simp: encode_defs encodable_def Let_def not_less not_le)

lemma normalized_record_sel [simp]:
  "u_file_name (normalized_record r) = u_file_name r"
  "u_storage_tier (normalized_record r) = u_storage_tier r"
  "u_optical_image_id (normalized_record r) = u_optical_image_id r"
  by (simp_all add: normalized_record_def canonical_record_def Let_def)

definition without_ids :: "UnifiedInodeRecord \<Rightarrow> UnifiedInodeRecord" where
  "without_ids n = n\<lparr>u_disk_node_id := 0, u_disk_id := 0, u_optical_node_id := 0,
     u_optical_disk_id := 0, u_optical_image_id := 0\<rparr>"

lemma read_write_record:
  assumes len: "length (u_file_name n) \<le> 64" and "u_version n = 3"
    and "u_file_name_len n = of_nat (length (u_file_name n))"
    and "u_object_unit_size n \<le> 0xFFFFFFFF" "u_replica n \<le> 0xFFFF"
  shows "read_record (write_record n) = without_ids n"
proof -
  have "(ucast (ucast (u_file_name_len n) :: u8) :: u16) = u_file_name_len n"
    using len assms(3) by (simp add: word_unat_eq_iff unat_ucast_mod unat_of_nat)
  then show ?thesis
    using assms by (intro UnifiedInodeRecord.equality)
      (simp_all add: read_record_def default_record_def without_ids_def read_back_fields read_back_name
        ucast_u64_u32 ucast_u32_u16 name_len_byte kVersion_def)
qed

lemma read_write_normalized:
  assumes "encodable r"
  shows "read_record (write_record (normalized_record r)) = without_ids (normalized_record r)"
  using assms by (intro read_write_record)
    (auto simp: encodable_def normalized_record_def canonical_record_def Let_def)

lemmas location_defs = ExpandPackedLocation_def without_ids_def normalized_record_def
  canonical_record_def packed_format_def Let_def

text \<open>The two steps that rebuild the location fields from the packed words.\<close>

lemma expand_normalized:
  assumes "encodable r"
  shows "ExpandPackedLocation (without_ids (normalized_record r)) =
    (canonical_record r)\<lparr>u_optical_node_id := (if u_storage_tier r = TierOptical then u_optical_node_id r else 0),
       u_optical_disk_id := (if u_storage_tier r = TierOptical then u_optical_disk_id r else 0),
       u_optical_image_id := (if u_storage_tier r = TierOptical then u_optical_image_id r else 0)\<rparr>"
proof (cases "u_storage_tier r = TierOptical")
  case True
  with assms have d: "u_optical_disk_id r \<le> 0xFFFFFFFF" by (simp add: encodable_def)
  from True show ?thesis
    by (simp add: location_defs packed_optical_disk[OF d] packed_optical_image del: drop_bit_or)
next
  case False
  then show ?thesis by (cases "u_storage_tier r = TierDisk") (simp_all add: location_defs)
qed

lemma fill_canonical [simp]: "FillDerivedPosixFields b (canonical_record r) = canonical_record r"
  by (simp add: FillDerivedPosixFields_def canonical_record_def Let_def)

lemma Decode_write_normalized:
  assumes "encodable r"
  shows "DecodeUnifiedInodeRecord (write_record (normalized_record r)) = Inr (canonical_record r)"
proof -
  let ?n = "normalized_record r"
  have len: "length (u_file_name ?n) \<le> 64" using assms by (simp add: encodable_def)
  have arch: "(u_storage_tier r = TierDisk \<and> ReadU32 (write_record ?n) 192 = kArchiveTag) = has_archive_copy r"
    using read_back_archive(1)[OF len] read_back_no_archive[OF len]
    by (cases "has_archive_copy r") (auto simp: has_archive_copy_def kArchiveTag_def)
  have fields: "u_version ?n = 3" "u_inode_type ?n = u_inode_type r" "u_location_format ?n = packed_format r"
    "u_file_name_len ?n = of_nat (length (u_file_name r))"
    "u_file_archive_state ?n = u_file_archive_state r"
    by (simp_all add: normalized_record_def canonical_record_def Let_def)
  have valid: "packed_format r \<le> FormatOpticalPacked" by (simp add: packed_format_def)
  have opt: "u_optical_node_id ?n = u_optical_node_id r" "u_optical_disk_id ?n = u_optical_disk_id r"
    by (simp_all add: normalized_record_def)
  let ?rec = "ExpandPackedLocation (without_ids ?n)"
  have final: "(if has_archive_copy r then ?rec\<lparr>u_optical_image_id := ReadU32 (write_record ?n) 196,
       u_optical_disk_id := ReadU64 (write_record ?n) 200,
       u_optical_node_id := ReadU64 (write_record ?n) 208\<rparr> else ?rec) = canonical_record r"
  proof (cases "has_archive_copy r")
    case True
    then have "has_archive_copy ?n" by (simp add: has_archive_copy_def)
    note read = read_back_archive[OF len this]
    from True show ?thesis
      by (simp add: read opt expand_normalized[OF assms] canonical_record_def keeps_optical_def
          has_archive_copy_def Let_def)
  next
    case False
    then have "keeps_optical r = (u_storage_tier r = TierOptical)"
      by (auto simp: keeps_optical_def has_archive_copy_def)
    with False show ?thesis
      by (simp add: expand_normalized[OF assms] canonical_record_def Let_def)
  qed
  have tier: "u_storage_tier ?rec = u_storage_tier r"
    by (simp add: expand_normalized[OF assms]) (simp add: canonical_record_def Let_def)
  from assms valid len have "DecodeUnifiedInodeRecord (write_record ?n) =
     Inr (FillDerivedPosixFields False
       (if has_archive_copy r then ?rec\<lparr>u_optical_image_id := ReadU32 (write_record ?n) 196,
          u_optical_disk_id := ReadU64 (write_record ?n) 200,
          u_optical_node_id := ReadU64 (write_record ?n) 208\<rparr> else ?rec))"
    by (auto simp: DecodeUnifiedInodeRecord_def DecodeV3UnifiedInodeRecord_def read_write_normalized
        read_back_fields fields encode_defs(4-8) IsValidLocationFormat_def kRecordSize_def
        kReservedOffset_def encodable_def name_len_byte Let_def arch tier)
  then show ?thesis unfolding final by simp
qed

lemma canonical_idem [simp]: "canonical_record (canonical_record r) = canonical_record r"
  by (cases "u_storage_tier r = TierDisk"; cases "u_storage_tier r = TierOptical";
      cases "u_optical_image_id r = 0")
    (simp_all add: canonical_record_def packed_format_def keeps_optical_def Let_def)

lemma encodable_canonical [simp]: "encodable (canonical_record r) = encodable r"
  by (auto simp: encodable_def canonical_record_def keeps_optical_def Let_def)

lemma write_normalized_canonical:
  "write_record (normalized_record (canonical_record r)) = write_record (normalized_record r)"
proof -
  have "normalized_record (canonical_record r) = canonical_record r"
    unfolding normalized_record_def canonical_idem by simp
  moreover have "has_archive_copy (canonical_record r) = has_archive_copy r"
    "has_archive_copy (normalized_record r) = has_archive_copy r"
    by (simp_all add: has_archive_copy_def canonical_record_def keeps_optical_def Let_def)
  moreover have "has_archive_copy r \<Longrightarrow> keeps_optical r"
    by (simp add: has_archive_copy_def keeps_optical_def)
  ultimately have "record_writes (normalized_record (canonical_record r)) = record_writes (normalized_record r)"
    by (simp add: record_writes_def) (simp add: normalized_record_def canonical_record_def Let_def)
  then show ?thesis by (simp add: write_record_pokes)
qed

text \<open>C33: Every record the encoder accepts is written to exactly 256 bytes, and decoding them gives
  the record in canonical form: every POSIX field, the name and the ids of its tier.  The canonical
  form is a fixed point: encoding it again produces the same bytes.\<close>

theorem EncodeUnifiedInodeRecord_round_trip:
  assumes "encodable r"
  shows "\<exists>bs. EncodeUnifiedInodeRecord r = Inr bs \<and> length bs = 256 \<and>
    DecodeUnifiedInodeRecord bs = Inr (canonical_record r) \<and>
    EncodeUnifiedInodeRecord (canonical_record r) = Inr bs"
proof -
  have "length (write_record (normalized_record r)) = 256"
    using assms by (intro length_write_record) (simp add: encodable_def)
  with assms show ?thesis
    by (simp add: Encode_encodable Decode_write_normalized write_normalized_canonical)
qed

definition sample_record :: UnifiedInodeRecord where
  "sample_record = default_record\<lparr>u_storage_tier := TierDisk, u_inode_id := 7, u_size_bytes := 1000,
     u_disk_node_id := 3, u_disk_id := 2, u_optical_node_id := 5, u_optical_disk_id := 9,
     u_optical_image_id := 4, u_file_name := [97, 98]\<rparr>"

lemma sample_record_encodable: "encodable sample_record"
  by (simp add: encodable_def sample_record_def default_record_def)

theorem EncodeUnifiedInodeRecord_round_trip_witness:
  "\<exists>bs. EncodeUnifiedInodeRecord sample_record = Inr bs \<and> length bs = 256 \<and>
     DecodeUnifiedInodeRecord bs = Inr (canonical_record sample_record) \<and>
     EncodeUnifiedInodeRecord (canonical_record sample_record) = Inr bs"
  by (rule EncodeUnifiedInodeRecord_round_trip) (rule sample_record_encodable)

text \<open>The encoder fails exactly on the records outside its ranges: a bad inode type, tier or
  archive state, a name of more than 64 bytes, an object unit, replica count or (for an optical
  record) disk id that does not fit its field.\<close>

theorem EncodeUnifiedInodeRecord_accepts_iff:
  "(\<exists>bs. EncodeUnifiedInodeRecord r = Inr bs) = encodable r"
  by (cases "encodable r") (auto simp: Encode_encodable dest: Encode_not_encodable)

section \<open>What the decoder accepts\<close>

lemma DecodeV3_InrD:
  assumes "DecodeV3UnifiedInodeRecord data = Inr r"
  shows "length data = 256 \<and> IsValidInodeType (data ! 1) \<and> IsValidStorageTier (data ! 2) \<and>
    IsValidLocationFormat (data ! 5) \<and> unat (data ! 4) \<le> 64 \<and> IsValidArchiveState (ReadU32 data 84) \<and>
    (\<exists>img d n. r = FillDerivedPosixFields False (ExpandPackedLocation (read_record data)) \<or>
       data ! 2 = TierDisk \<and>
       r = FillDerivedPosixFields False ((ExpandPackedLocation (read_record data))
             \<lparr>u_optical_image_id := img, u_optical_disk_id := d, u_optical_node_id := n\<rparr>))"
  using assms
  by (auto simp: DecodeV3UnifiedInodeRecord_def kRecordSize_def kFileNameSize_def Let_def read_record_def
      ExpandPackedLocation_def split: if_splits)

lemma drop_bit_32_le: "drop_bit 32 (w :: u64) \<le> 0xFFFFFFFF"
proof -
  have "unat (drop_bit 32 w) = unat w div 2 ^ 32" by (simp add: drop_bit_eq_div unat_div)
  then show ?thesis using unat_u64_lt[of w] by (simp add: word_le_nat_alt)
qed

lemma ucast_u32_le: "(ucast (w :: u32) :: u64) \<le> 0xFFFFFFFF" "(ucast (v :: u16) :: u32) \<le> 0xFFFF"
  using unat_u32_lt[of w] unat_u16_lt[of v] by (simp_all add: word_le_nat_alt unat_ucast_up)

lemma encodable_fill: "encodable (FillDerivedPosixFields False x) = encodable x"
  by (simp add: encodable_def FillDerivedPosixFields_def Let_def)

lemma expand_sel:
  "u_inode_type (ExpandPackedLocation x) = u_inode_type x"
  "u_storage_tier (ExpandPackedLocation x) = u_storage_tier x"
  "u_file_archive_state (ExpandPackedLocation x) = u_file_archive_state x"
  "u_file_name (ExpandPackedLocation x) = u_file_name x"
  "u_object_unit_size (ExpandPackedLocation x) = u_object_unit_size x"
  "u_replica (ExpandPackedLocation x) = u_replica x"
  "u_optical_disk_id (ExpandPackedLocation x) \<le> 0xFFFFFFFF"
  by (simp_all add: ExpandPackedLocation_def Let_def drop_bit_32_le)

lemma encodable_expand_read:
  assumes "IsValidInodeType (data ! 1)" "IsValidStorageTier (data ! 2)"
    "unat (data ! 4) \<le> 64" "IsValidArchiveState (ReadU32 data 84)"
  shows "encodable (ExpandPackedLocation (read_record data))"
proof -
  have "length (u_file_name (read_record data)) \<le> 64"
    using assms(3) by (simp add: read_record_def peek_def)
  moreover have "u_object_unit_size (read_record data) \<le> 0xFFFFFFFF" "u_replica (read_record data) \<le> 0xFFFF"
    "u_inode_type (read_record data) = data ! 1" "u_storage_tier (read_record data) = data ! 2"
    "u_file_archive_state (read_record data) = ReadU32 data 84"
    by (simp_all add: read_record_def ucast_u32_le)
  ultimately show ?thesis
    using assms unfolding encodable_def expand_sel encode_defs(4-6) by (simp add: expand_sel)
qed

lemma Decode_accepted:
  assumes "DecodeUnifiedInodeRecord data = Inr r"
  shows "encodable r \<and> length data = 256 \<and> data ! 0 = 3"
proof -
  have v3: "DecodeV3UnifiedInodeRecord data = Inr r" "length data = 256" "data ! 0 = 3"
    using assms by (auto simp: DecodeUnifiedInodeRecord_def kRecordSize_def kVersion_def split: if_splits)
  note facts = DecodeV3_InrD[OF v3(1)]
  have enc: "encodable (ExpandPackedLocation (read_record data))"
    using facts by (intro encodable_expand_read) simp_all
  have tier: "u_storage_tier (ExpandPackedLocation (read_record data)) = data ! 2"
    by (simp add: expand_sel read_record_def)
  from facts obtain img d n where
    "r = FillDerivedPosixFields False (ExpandPackedLocation (read_record data)) \<or>
     data ! 2 = TierDisk \<and> r = FillDerivedPosixFields False ((ExpandPackedLocation (read_record data))
             \<lparr>u_optical_image_id := img, u_optical_disk_id := d, u_optical_node_id := n\<rparr>)" by blast
  then have "encodable r"
    using enc tier by (elim disjE conjE) (simp_all add: encodable_fill, simp add: encodable_def)
  with v3 show ?thesis by simp
qed

text \<open>Whatever bytes the decoder accepts, the record it returns is one the encoder accepts, so
  a record read from storage can always be written back; and it only accepts 256 bytes that start
  with the version byte 3.\<close>

theorem DecodeUnifiedInodeRecord_encodable:
  assumes "DecodeUnifiedInodeRecord data = Inr r"
  shows "encodable r \<and> length data = 256 \<and> data ! 0 = 3"
  using assms by (rule Decode_accepted)

theorem DecodeUnifiedInodeRecord_encodable_witness:
  "encodable (canonical_record sample_record)"
proof -
  obtain bs where "DecodeUnifiedInodeRecord bs = Inr (canonical_record sample_record)"
    using Decode_write_normalized[OF sample_record_encodable] by blast
  then show ?thesis by (rule DecodeUnifiedInodeRecord_encodable[THEN conjunct1])
qed

section \<open>The trip through the protocol message\<close>

lemma flag_set:
  "b AND kUnifiedFlagVirtualDiskNode \<noteq> 0 \<Longrightarrow> b AND kUnifiedFlagVirtualDiskNode = kUnifiedFlagVirtualDiskNode"
  by (simp add: kUnifiedFlagVirtualDiskNode_def and_one_eq mod_2_eq_odd split: if_splits)

lemma ucast_u8_u32_u8 [simp]: "(ucast (ucast (v :: u8) :: u32) :: u8) = v"
  using unat_u8_lt[of v] by (simp add: word_unat_eq_iff unat_ucast_mod)

lemma canonical_fields:
  assumes "canonical_record r = r"
  shows "u_version r = 3" "NormalizeDirectorySize (u_inode_type r) (u_size_bytes r) = u_size_bytes r"
    "NormalizeBlockSize (u_blksize r) = u_blksize r"
    "NormalizeBlocks512 (u_blocks_512 r) (u_size_bytes r) = u_blocks_512 r"
    "u_file_name_len r = of_nat (length (u_file_name r))" "u_location_format r = packed_format r"
    "u_storage_loc0 r = (if u_storage_tier r = TierDisk then u_disk_node_id r
       else if u_storage_tier r = TierOptical then u_optical_node_id r else 0)"
    "u_storage_loc1 r = (if u_storage_tier r = TierDisk then ucast (u_disk_id r)
       else if u_storage_tier r = TierOptical
            then push_bit 32 (u_optical_disk_id r) OR ucast (u_optical_image_id r) else 0)"
    "u_storage_tier r \<noteq> TierDisk \<Longrightarrow> u_disk_node_id r = 0"
    "u_storage_tier r \<noteq> TierDisk \<Longrightarrow> u_disk_id r = 0"
    "\<not> keeps_optical r \<Longrightarrow> u_optical_node_id r = 0"
    "\<not> keeps_optical r \<Longrightarrow> u_optical_disk_id r = 0"
    "\<not> keeps_optical r \<Longrightarrow> u_optical_image_id r = 0"
proof -
  show size: "NormalizeDirectorySize (u_inode_type r) (u_size_bytes r) = u_size_bytes r"
    using arg_cong[OF assms, of u_size_bytes] by (simp add: canonical_record_def Let_def)
  note canon = assms[unfolded canonical_record_def Let_def size]
  show "u_version r = 3" using arg_cong[OF canon, of u_version] by simp
  show "NormalizeBlockSize (u_blksize r) = u_blksize r" using arg_cong[OF canon, of u_blksize] by simp
  show "NormalizeBlocks512 (u_blocks_512 r) (u_size_bytes r) = u_blocks_512 r"
    using arg_cong[OF canon, of u_blocks_512] by simp
  show "u_file_name_len r = of_nat (length (u_file_name r))"
    using arg_cong[OF canon, of u_file_name_len] by simp
  show "u_location_format r = packed_format r" using arg_cong[OF canon, of u_location_format] by simp
  show "u_storage_loc0 r = (if u_storage_tier r = TierDisk then u_disk_node_id r
       else if u_storage_tier r = TierOptical then u_optical_node_id r else 0)"
    using arg_cong[OF canon, of u_storage_loc0] by simp
  show "u_storage_loc1 r = (if u_storage_tier r = TierDisk then ucast (u_disk_id r)
       else if u_storage_tier r = TierOptical
            then push_bit 32 (u_optical_disk_id r) OR ucast (u_optical_image_id r) else 0)"
    using arg_cong[OF canon, of u_storage_loc1] by simp
  show "u_disk_node_id r = 0" if "u_storage_tier r \<noteq> TierDisk"
    using arg_cong[OF canon, of u_disk_node_id] that by simp
  show "u_disk_id r = 0" if "u_storage_tier r \<noteq> TierDisk"
    using arg_cong[OF canon, of u_disk_id] that by simp
  show "u_optical_node_id r = 0" if "\<not> keeps_optical r"
    using arg_cong[OF canon, of u_optical_node_id] that by simp
  show "u_optical_disk_id r = 0" if "\<not> keeps_optical r"
    using arg_cong[OF canon, of u_optical_disk_id] that by simp
  show "u_optical_image_id r = 0" if "\<not> keeps_optical r"
    using arg_cong[OF canon, of u_optical_image_id] that by simp
qed

lemma ToAttr_sel:
  "a_type (UnifiedInodeRecordToAttr r) = ucast (u_inode_type r)"
  "a_file_name (UnifiedInodeRecordToAttr r) = u_file_name r"
  "a_object_unit_size (UnifiedInodeRecordToAttr r) = u_object_unit_size r"
  "a_replica (UnifiedInodeRecordToAttr r) = u_replica r"
  by (simp_all add: UnifiedInodeRecordToAttr_def Let_def)

lemma ToAttr_optical_disk: "u_optical_disk_id r \<le> b \<Longrightarrow> a_optical_disk_id (UnifiedInodeRecordToAttr r) \<le> b"
  by (simp add: UnifiedInodeRecordToAttr_def Let_def)

lemmas attr_defs = attr_fields_def clear_other_tiers_def default_record_def UnifiedInodeRecordToAttr_def
  ToProtoStorageTier_def ToUnifiedStorageTier_def FillDerivedPosixFields_def NormalizePackedLocation_def
  packed_format_def keeps_optical_def kVersion_def

text \<open>Converting a canonical record to its protocol message and back keeps every field of its
  tier, with two exceptions that the statement makes precise: only the virtual-node flag survives,
  and a disk record loses the location of its archived copy although the message carries it.\<close>

theorem AttrToUnifiedInodeRecord_round_trip:
  assumes "encodable r" "canonical_record r = r" "u_optical_disk_id r \<le> 0xFFFFFFFF"
  shows "AttrToUnifiedInodeRecord (UnifiedInodeRecordToAttr r) (u_parent_inode_id r) (u_storage_tier r) =
    Inr (r\<lparr>u_flags := (if u_storage_tier r = TierDisk then u_flags r AND kUnifiedFlagVirtualDiskNode else 0),
           u_optical_node_id := (if u_storage_tier r = TierDisk then 0 else u_optical_node_id r),
           u_optical_disk_id := (if u_storage_tier r = TierDisk then 0 else u_optical_disk_id r),
           u_optical_image_id := (if u_storage_tier r = TierDisk then 0 else u_optical_image_id r)\<rparr>)"
    (is "_ = Inr ?r")
proof -
  note canon = canonical_fields[OF assms(2)]
  have "AttrToUnifiedInodeRecord (UnifiedInodeRecordToAttr r) (u_parent_inode_id r) (u_storage_tier r) =
      NormalizePackedLocation (FillDerivedPosixFields True (clear_other_tiers
        (attr_fields (UnifiedInodeRecordToAttr r) (u_parent_inode_id r) (u_storage_tier r))))"
    using assms(1) ToAttr_optical_disk[OF assms(3)]
    by (auto simp: AttrToUnifiedInodeRecord_def ToAttr_sel encodable_def IsValidInodeType_def
        kFileNameSize_def dest: leD)
  moreover have "u_storage_tier r = 0 \<or> u_storage_tier r = 1 \<or> u_storage_tier r = 2"
    using assms(1) by (intro tier_cases) (simp add: encodable_def)
  then have "NormalizePackedLocation (FillDerivedPosixFields True (clear_other_tiers
        (attr_fields (UnifiedInodeRecordToAttr r) (u_parent_inode_id r) (u_storage_tier r)))) = Inr ?r"
  proof (elim disjE)
    assume t: "u_storage_tier r = 0"
    then show ?thesis
      by (simp add: attr_defs Let_def)
        (intro UnifiedInodeRecord.equality; simp add: canon attr_defs)
  next
    assume t: "u_storage_tier r = 1"
    show ?thesis
    proof (cases "u_flags r AND kUnifiedFlagVirtualDiskNode = 0")
      case True
      with t show ?thesis
        by (simp add: attr_defs Let_def)
          (intro UnifiedInodeRecord.equality; simp add: canon attr_defs)
    next
      case False
      note set_flag = flag_set[OF False]
      from False set_flag have "kUnifiedFlagVirtualDiskNode \<noteq> 0" by simp
      with t set_flag show ?thesis
        by (simp add: attr_defs Let_def)
          (intro UnifiedInodeRecord.equality; simp add: canon attr_defs)
    qed
  next
    assume t: "u_storage_tier r = 2"
    with leD[OF assms(3)] show ?thesis
      by (simp add: attr_defs Let_def)
        (intro UnifiedInodeRecord.equality; simp add: canon attr_defs)
  qed
  ultimately show ?thesis by simp
qed

theorem AttrToUnifiedInodeRecord_round_trip_witness:
  "AttrToUnifiedInodeRecord (UnifiedInodeRecordToAttr (canonical_record sample_record)) 0 TierDisk =
    Inr ((canonical_record sample_record)\<lparr>u_flags := 0, u_optical_node_id := 0,
           u_optical_disk_id := 0, u_optical_image_id := 0\<rparr>)"
proof -
  have sel: "u_parent_inode_id (canonical_record sample_record) = 0"
    "u_storage_tier (canonical_record sample_record) = TierDisk"
    "u_flags (canonical_record sample_record) = 0"
    "u_optical_disk_id (canonical_record sample_record) = 9"
    by (simp_all add: canonical_record_def sample_record_def default_record_def keeps_optical_def Let_def)
  show ?thesis
    using AttrToUnifiedInodeRecord_round_trip[of "canonical_record sample_record"]
    by (simp add: sel sample_record_encodable)
qed

end
