(* ===== verification/Inode_Location.thy ===== *)
theory Inode_Location
  imports Unified_Inode
begin

unbundle bit_operations_syntax

text \<open>
  The location helpers of \<open>src/src/mds/storage/UnifiedInodeLocation.h\<close>: textual node, disk and image
  ids, and the functions that move a file location between the inode record, the inode attributes and
  the location messages of the protocol.  Shown here: a location written into a record or attribute
  and read back names the same node, disk and image; applying a location leaves no trace of the tier
  it replaces; and the positions for which no location can be produced.
\<close>

section \<open>Textual ids\<close>

text \<open>
  \<open>TryParseTrailingUint64\<close> reads the maximal suffix of decimal digits; \<open>std::stoull\<close> throws on
  values of 2^64 and more, which the function turns into failure.
\<close>

definition trailing_digits :: "string \<Rightarrow> string" where
  "trailing_digits text = rev (takeWhile is_digit (rev text))"

definition TryParseTrailingUint64 :: "string \<Rightarrow> u64 option" where
  "TryParseTrailingUint64 text =
     (if text = [] then None
      else let digits = trailing_digits text
           in if digits = [] then None
              else if dec_val digits \<ge> 2 ^ 64 then None
              else Some (of_nat (dec_val digits)))"

definition TryParseTrailingUint32 :: "string \<Rightarrow> u32 option" where
  "TryParseTrailingUint32 text =
     (case TryParseTrailingUint64 text of
        None \<Rightarrow> None
      | Some parsed \<Rightarrow> if parsed > 0xFFFFFFFF then None else Some (ucast parsed))"

text \<open>\<open>std::string::find\<close> of a pattern, as far as its callers look at it.\<close>

fun contains_pattern :: "string \<Rightarrow> string \<Rightarrow> bool" where
  "contains_pattern pat [] = (pat = [])"
| "contains_pattern pat (c # s) = (take (length pat) (c # s) = pat \<or> contains_pattern pat s)"

definition IsVirtualDiskNodeId :: "string \<Rightarrow> bool" where
  "IsVirtualDiskNodeId node_id = contains_pattern ''-v'' node_id"

text \<open>\<open>std::setw(2) << std::setfill('0')\<close>\<close>

definition pad2 :: "string \<Rightarrow> string" where
  "pad2 s = replicate (2 - length s) (CHR ''0'') @ s"

definition FormatRealNodeId :: "u64 \<Rightarrow> string" where
  "FormatRealNodeId numeric_id = ''node-real-'' @ pad2 (to_string numeric_id)"

definition FormatVirtualNodeId :: "u64 \<Rightarrow> string" where
  "FormatVirtualNodeId numeric_id = ''vpool-v'' @ to_string numeric_id"

definition FormatDiskIdForTier :: "u32 \<Rightarrow> bool \<Rightarrow> string" where
  "FormatDiskIdForTier numeric_id is_virtual =
     (if is_virtual then ''disk'' @ to_string numeric_id else ''disk-'' @ pad2 (to_string numeric_id))"

definition FormatOpticalNodeId :: "u64 \<Rightarrow> string" where
  "FormatOpticalNodeId numeric_id = ''optical-node-'' @ to_string numeric_id"

definition FormatOpticalDiskId :: "u64 \<Rightarrow> string" where
  "FormatOpticalDiskId numeric_id = ''disk-'' @ to_string numeric_id"

definition FormatOpticalImageId :: "u64 \<Rightarrow> u64 \<Rightarrow> u32 \<Rightarrow> string" where
  "FormatOpticalImageId node disk img =
     ''img-'' @ to_string node @ ''-'' @ to_string disk @ ''-'' @ to_string img"

section \<open>Location messages\<close>

record DiskFileLocation =
  dl_node_id :: string
  dl_node_address :: string
  dl_disk_id :: string
  dl_instance_generation :: u64

record OpticalFileLocation =
  ol_node_id :: string
  ol_node_address :: string
  ol_disk_id :: string
  ol_image_id :: string
  ol_file_id :: string
  ol_file_path :: string
  ol_instance_generation :: u64

definition empty_disk_location :: DiskFileLocation where
  "empty_disk_location = \<lparr>dl_node_id = [], dl_node_address = [], dl_disk_id = [], dl_instance_generation = 0\<rparr>"

definition empty_optical_location :: OpticalFileLocation where
  "empty_optical_location = \<lparr>ol_node_id = [], ol_node_address = [], ol_disk_id = [], ol_image_id = [],
     ol_file_id = [], ol_file_path = [], ol_instance_generation = 0\<rparr>"

section \<open>Attributes\<close>

definition ApplyAttrToUnifiedRecord :: "InodeAttr \<Rightarrow> UnifiedInodeRecord \<Rightarrow> UnifiedInodeRecord" where
  "ApplyAttrToUnifiedRecord attr rec0 =
     (let rec = rec0\<lparr>u_version := kVersion, u_inode_type := ucast (a_type attr),
            u_inode_id := a_inode_id attr, u_size_bytes := a_size attr, u_atime := a_atime attr,
            u_mtime := a_mtime attr, u_ctime := a_ctime attr, u_version_no := a_version attr,
            u_blksize := a_blksize attr, u_blocks_512 := a_blocks_512 attr,
            u_rdev_major := a_rdev_major attr, u_rdev_minor := a_rdev_minor attr,
            u_object_unit_size := a_object_unit_size attr, u_mode := a_mode attr, u_uid := a_uid attr,
            u_gid := a_gid attr, u_nlink := a_nlink attr, u_replica := a_replica attr,
            u_file_archive_state := a_file_archive_state attr\<rparr>
      in if a_file_name attr \<noteq> [] \<or> u_file_name rec = []
         then rec\<lparr>u_file_name := a_file_name attr, u_file_name_len := of_nat (length (a_file_name attr))\<rparr>
         else rec)"

definition ClearLocationInAttr :: "InodeAttr \<Rightarrow> InodeAttr" where
  "ClearLocationInAttr attr = attr\<lparr>a_storage_tier := INODE_STORAGE_NONE, a_disk_node_id := 0,
     a_disk_id := 0, a_optical_node_id := 0, a_optical_disk_id := 0, a_optical_image_id := 0,
     a_disk_node_is_virtual := False\<rparr>"

text \<open>An out-parameter initialised to zero and a parse result that is ignored.\<close>

definition or_zero :: "'a::len word option \<Rightarrow> 'a word" where
  "or_zero v = (case v of None \<Rightarrow> 0 | Some w \<Rightarrow> w)"

definition ApplyDiskLocationToAttr :: "DiskFileLocation \<Rightarrow> InodeAttr \<Rightarrow> InodeAttr" where
  "ApplyDiskLocationToAttr location attr = (ClearLocationInAttr attr)\<lparr>
     a_storage_tier := INODE_STORAGE_DISK,
     a_disk_node_id := or_zero (TryParseTrailingUint64 (dl_node_id location)),
     a_disk_id := or_zero (TryParseTrailingUint32 (dl_disk_id location)),
     a_disk_node_is_virtual := IsVirtualDiskNodeId (dl_node_id location)\<rparr>"

definition ApplyOpticalLocationToAttr :: "OpticalFileLocation \<Rightarrow> InodeAttr \<Rightarrow> InodeAttr" where
  "ApplyOpticalLocationToAttr location attr = (ClearLocationInAttr attr)\<lparr>
     a_storage_tier := INODE_STORAGE_OPTICAL,
     a_optical_node_id := or_zero (TryParseTrailingUint64 (ol_node_id location)),
     a_optical_disk_id := or_zero (TryParseTrailingUint64 (ol_disk_id location)),
     a_optical_image_id := or_zero (TryParseTrailingUint32 (ol_image_id location))\<rparr>"

definition PopulateDiskFileLocationFromInodeAttr :: "InodeAttr \<Rightarrow> DiskFileLocation option" where
  "PopulateDiskFileLocationFromInodeAttr attr =
     (if a_storage_tier attr \<noteq> INODE_STORAGE_DISK then None
      else let is_virtual = a_disk_node_is_virtual attr
           in if \<not> is_virtual \<and> a_disk_node_id attr = 0 then None
              else Some (empty_disk_location\<lparr>
                dl_node_id := (if is_virtual then FormatVirtualNodeId (a_disk_node_id attr)
                               else FormatRealNodeId (a_disk_node_id attr)),
                dl_disk_id := FormatDiskIdForTier (a_disk_id attr) is_virtual\<rparr>))"

definition PopulateOpticalFileLocationFromInodeAttr ::
  "InodeAttr \<Rightarrow> u64 \<Rightarrow> OpticalFileLocation option" where
  "PopulateOpticalFileLocationFromInodeAttr attr inode_id =
     (if inode_id = 0 \<or> a_storage_tier attr \<noteq> INODE_STORAGE_OPTICAL \<or> a_optical_node_id attr = 0
      then None
      else Some (empty_optical_location\<lparr>
        ol_node_id := FormatOpticalNodeId (a_optical_node_id attr),
        ol_disk_id := FormatOpticalDiskId (a_optical_disk_id attr),
        ol_image_id := FormatOpticalImageId (a_optical_node_id attr) (a_optical_disk_id attr)
                                            (a_optical_image_id attr),
        ol_file_id := ''obj-'' @ to_string inode_id @ ''-0''\<rparr>))"

section \<open>Records\<close>

definition ClearDiskLocationInUnifiedRecord :: "UnifiedInodeRecord \<Rightarrow> UnifiedInodeRecord" where
  "ClearDiskLocationInUnifiedRecord rec0 =
     (let r1 = rec0\<lparr>u_disk_node_id := 0, u_disk_id := 0\<rparr>;
          r2 = (if u_location_format r1 = FormatDisk
                then r1\<lparr>u_location_format := FormatNone, u_storage_loc0 := 0, u_storage_loc1 := 0\<rparr>
                else r1)
      in r2\<lparr>u_flags := u_flags r2 AND NOT kUnifiedFlagVirtualDiskNode\<rparr>)"

definition ClearOpticalLocationInUnifiedRecord :: "UnifiedInodeRecord \<Rightarrow> UnifiedInodeRecord" where
  "ClearOpticalLocationInUnifiedRecord rec0 =
     (let r1 = rec0\<lparr>u_optical_node_id := 0, u_optical_disk_id := 0, u_optical_image_id := 0\<rparr>
      in if u_location_format r1 = FormatOpticalPacked
         then r1\<lparr>u_location_format := FormatNone, u_storage_loc0 := 0, u_storage_loc1 := 0\<rparr>
         else r1)"

text \<open>Here a failed parse leaves the record field as it was.\<close>

definition or_keep :: "'a option \<Rightarrow> 'a \<Rightarrow> 'a" where
  "or_keep v old = (case v of None \<Rightarrow> old | Some w \<Rightarrow> w)"

definition ApplyDiskLocationToUnifiedRecord ::
  "DiskFileLocation \<Rightarrow> UnifiedInodeRecord \<Rightarrow> UnifiedInodeRecord" where
  "ApplyDiskLocationToUnifiedRecord location rec0 =
     (let r1 = ClearDiskLocationInUnifiedRecord
                 (ClearOpticalLocationInUnifiedRecord (rec0\<lparr>u_storage_tier := TierDisk\<rparr>));
          r2 = (if IsVirtualDiskNodeId (dl_node_id location)
                then r1\<lparr>u_flags := u_flags r1 OR kUnifiedFlagVirtualDiskNode\<rparr> else r1);
          r3 = r2\<lparr>u_disk_node_id := or_keep (TryParseTrailingUint64 (dl_node_id location)) (u_disk_node_id r2)\<rparr>;
          r4 = r3\<lparr>u_disk_id := or_keep (TryParseTrailingUint32 (dl_disk_id location)) (u_disk_id r3)\<rparr>
      in r4\<lparr>u_location_format := FormatDisk, u_storage_loc0 := u_disk_node_id r4,
            u_storage_loc1 := ucast (u_disk_id r4)\<rparr>)"

definition ApplyOpticalLocationToUnifiedRecord ::
  "OpticalFileLocation \<Rightarrow> UnifiedInodeRecord \<Rightarrow> UnifiedInodeRecord" where
  "ApplyOpticalLocationToUnifiedRecord location rec0 =
     (let r1 = ClearDiskLocationInUnifiedRecord (rec0\<lparr>u_storage_tier := TierOptical\<rparr>);
          r2 = r1\<lparr>u_optical_node_id := or_keep (TryParseTrailingUint64 (ol_node_id location)) (u_optical_node_id r1)\<rparr>;
          r3 = r2\<lparr>u_optical_disk_id := or_keep (TryParseTrailingUint64 (ol_disk_id location)) (u_optical_disk_id r2)\<rparr>;
          r4 = r3\<lparr>u_optical_image_id := or_keep (TryParseTrailingUint32 (ol_image_id location)) (u_optical_image_id r3)\<rparr>
      in r4\<lparr>u_location_format := FormatOpticalPacked, u_storage_loc0 := u_optical_node_id r4,
            u_storage_loc1 := push_bit 32 (u_optical_disk_id r4) OR ucast (u_optical_image_id r4)\<rparr>)"

definition PopulateDiskFileLocationFromUnifiedRecord :: "UnifiedInodeRecord \<Rightarrow> DiskFileLocation option" where
  "PopulateDiskFileLocationFromUnifiedRecord rec =
     (if u_storage_tier rec \<noteq> TierDisk then None
      else let is_virtual = (u_flags rec AND kUnifiedFlagVirtualDiskNode \<noteq> 0)
           in if \<not> is_virtual \<and> u_disk_node_id rec = 0 then None
              else Some (empty_disk_location\<lparr>
                dl_node_id := (if is_virtual then FormatVirtualNodeId (u_disk_node_id rec)
                               else FormatRealNodeId (u_disk_node_id rec)),
                dl_disk_id := FormatDiskIdForTier (u_disk_id rec) is_virtual\<rparr>))"

definition PopulateOpticalFileLocationFromUnifiedRecord ::
  "UnifiedInodeRecord \<Rightarrow> OpticalFileLocation option" where
  "PopulateOpticalFileLocationFromUnifiedRecord rec =
     (if u_storage_tier rec \<noteq> TierOptical \<or> u_optical_node_id rec = 0 then None
      else Some (empty_optical_location\<lparr>
        ol_node_id := FormatOpticalNodeId (u_optical_node_id rec),
        ol_disk_id := FormatOpticalDiskId (u_optical_disk_id rec),
        ol_image_id := FormatOpticalImageId (u_optical_node_id rec) (u_optical_disk_id rec)
                                            (u_optical_image_id rec)\<rparr>))"

section \<open>Parsing what was printed\<close>

lemma to_string_digits: "\<forall>c \<in> set (to_string w). is_digit c" "to_string w \<noteq> []"
  by (auto simp: to_string_def dec_digits_all_digits)

lemma trailing_digits_append:
  assumes "s = [] \<or> \<not> is_digit (last s)" "\<forall>c \<in> set t. is_digit c"
  shows "trailing_digits (s @ t) = t"
proof -
  have "takeWhile is_digit (rev s) = []"
    using assms(1) by (cases s rule: rev_cases) auto
  with assms(2) show ?thesis by (auto simp: trailing_digits_def takeWhile_append)
qed

lemma dec_val_zeros: "dec_val (replicate n (CHR ''0'') @ s) = dec_val s"
  by (induction n) (simp_all add: dec_val_Cons digit_val_def)

lemma is_digit_0 [simp]: "is_digit (CHR ''0'')" "\<not> is_digit (CHR ''-'')" "\<not> is_digit (CHR ''k'')"
  "\<not> is_digit (CHR ''v'')"
  by (simp_all add: is_digit_def)

lemma TryParse64_print:
  fixes w :: "'a::len word"
  assumes "s = [] \<or> \<not> is_digit (last s)" "LENGTH('a) \<le> 64"
  shows "TryParseTrailingUint64 (s @ replicate n (CHR ''0'') @ to_string w) = Some (ucast w)"
proof -
  have "trailing_digits (s @ replicate n (CHR ''0'') @ to_string w) = replicate n (CHR ''0'') @ to_string w"
    using to_string_digits[of w] by (intro trailing_digits_append assms(1)) auto
  moreover have "dec_val (replicate n (CHR ''0'') @ to_string w) = unat w"
    by (simp add: dec_val_zeros to_string_def)
  moreover have "unat w < 2 ^ 64"
    using unat_lt_power[of w] power_increasing[OF assms(2), of "2::nat"] by linarith
  ultimately show ?thesis
    using to_string_digits(2)[of w]
    by (simp add: TryParseTrailingUint64_def Let_def not_le word_unat_eq_iff unat_of_nat unat_ucast_mod)
qed

lemma TryParse32_print:
  fixes w :: u32
  assumes "s = [] \<or> \<not> is_digit (last s)"
  shows "TryParseTrailingUint32 (s @ replicate n (CHR ''0'') @ to_string w) = Some w"
  using ucast_u32_le(1)[of w] TryParse64_print[OF assms, of n w]
  by (auto simp: TryParseTrailingUint32_def dest: leD)

lemma parse_formats [simp]:
  "TryParseTrailingUint64 (FormatRealNodeId n) = Some n"
  "TryParseTrailingUint64 (FormatVirtualNodeId n) = Some n"
  "TryParseTrailingUint32 (FormatDiskIdForTier d v) = Some d"
  "TryParseTrailingUint64 (FormatOpticalNodeId n) = Some n"
  "TryParseTrailingUint64 (FormatOpticalDiskId e) = Some e"
  "TryParseTrailingUint32 (FormatOpticalImageId n e i) = Some i"
proof -
  show "TryParseTrailingUint64 (FormatRealNodeId n) = Some n"
    using TryParse64_print[of "''node-real-''" "2 - length (to_string n)" n]
    by (simp add: FormatRealNodeId_def pad2_def)
  show "TryParseTrailingUint64 (FormatVirtualNodeId n) = Some n"
    using TryParse64_print[of "''vpool-v''" 0 n] by (simp add: FormatVirtualNodeId_def)
  show "TryParseTrailingUint32 (FormatDiskIdForTier d v) = Some d"
    using TryParse32_print[of "''disk''" 0 d] TryParse32_print[of "''disk-''" "2 - length (to_string d)" d]
    by (simp add: FormatDiskIdForTier_def pad2_def)
  show "TryParseTrailingUint64 (FormatOpticalNodeId n) = Some n"
    using TryParse64_print[of "''optical-node-''" 0 n] by (simp add: FormatOpticalNodeId_def)
  show "TryParseTrailingUint64 (FormatOpticalDiskId e) = Some e"
    using TryParse64_print[of "''disk-''" 0 e] by (simp add: FormatOpticalDiskId_def)
  show "TryParseTrailingUint32 (FormatOpticalImageId n e i) = Some i"
    using TryParse32_print[of "''img-'' @ to_string n @ ''-'' @ to_string e @ ''-''" 0 i]
    by (simp add: FormatOpticalImageId_def)
qed

lemma no_pattern: "CHR ''v'' \<notin> set s \<Longrightarrow> \<not> contains_pattern ''-v'' s"
proof (induction s)
  case (Cons c s)
  then show ?case by (cases s) auto
qed simp

lemma digits_no_v: "CHR ''v'' \<notin> set (to_string w)"
  using to_string_digits(1)[of w] by auto

lemma IsVirtual_formats [simp]:
  "IsVirtualDiskNodeId (FormatVirtualNodeId n)" "\<not> IsVirtualDiskNodeId (FormatRealNodeId n)"
proof -
  show "IsVirtualDiskNodeId (FormatVirtualNodeId n)"
    by (simp add: IsVirtualDiskNodeId_def FormatVirtualNodeId_def)
  have "CHR ''v'' \<notin> set (FormatRealNodeId n)"
    using digits_no_v[of n] by (auto simp: FormatRealNodeId_def pad2_def)
  then show "\<not> IsVirtualDiskNodeId (FormatRealNodeId n)"
    by (simp add: IsVirtualDiskNodeId_def no_pattern)
qed

section \<open>The contract of a location holder\<close>

text \<open>
  Inode records and inode attributes both hold a disk and an optical location.  Each of the four
  pairs of a \<open>Populate\<close> and an \<open>Apply\<close> function satisfies the same contract: the holder is read by
  printing its numeric ids, and applying a printed location stores exactly these ids.
\<close>

locale location_holder =
  fixes populate :: "'s \<Rightarrow> 'l option"
    and apply_loc :: "'l \<Rightarrow> 's \<Rightarrow> 's"
    and ids :: "'s \<Rightarrow> 'i"
    and print_ids :: "'i \<Rightarrow> 'l"
    and on_tier :: "'s \<Rightarrow> bool"
    and locatable :: "'i \<Rightarrow> bool"
  assumes populate_eq: "populate s = (if on_tier s \<and> locatable (ids s) then Some (print_ids (ids s)) else None)"
    and apply_on_tier: "on_tier (apply_loc l s)"
    and apply_ids: "ids (apply_loc (print_ids i) s) = i"
begin

lemma populate_apply: "locatable i \<Longrightarrow> populate (apply_loc (print_ids i) s) = Some (print_ids i)"
  by (simp add: populate_eq apply_on_tier apply_ids)

lemma populate_SomeD: "populate s = Some l \<Longrightarrow> on_tier s \<and> locatable (ids s) \<and> l = print_ids (ids s)"
  by (simp add: populate_eq split: if_splits)

lemma moved: "populate s = Some l \<Longrightarrow> populate (apply_loc l s') = Some l \<and> ids (apply_loc l s') = ids s"
  by (auto dest!: populate_SomeD simp: populate_apply apply_ids)

lemma print_ids_inject: "print_ids i = print_ids j \<Longrightarrow> i = j"
  by (metis apply_ids)

end

definition print_disk :: "u64 \<times> u32 \<times> bool \<Rightarrow> DiskFileLocation" where
  "print_disk = (\<lambda>(n, d, v). empty_disk_location\<lparr>
     dl_node_id := (if v then FormatVirtualNodeId n else FormatRealNodeId n),
     dl_disk_id := FormatDiskIdForTier d v\<rparr>)"

definition disk_locatable :: "u64 \<times> u32 \<times> bool \<Rightarrow> bool" where
  "disk_locatable = (\<lambda>(n, d, v). v \<or> n \<noteq> 0)"

definition record_disk_ids :: "UnifiedInodeRecord \<Rightarrow> u64 \<times> u32 \<times> bool" where
  "record_disk_ids r = (u_disk_node_id r, u_disk_id r, u_flags r AND kUnifiedFlagVirtualDiskNode \<noteq> 0)"

definition attr_disk_ids :: "InodeAttr \<Rightarrow> u64 \<times> u32 \<times> bool" where
  "attr_disk_ids a = (a_disk_node_id a, a_disk_id a, a_disk_node_is_virtual a)"

definition print_optical :: "string \<Rightarrow> u64 \<times> u64 \<times> u32 \<Rightarrow> OpticalFileLocation" where
  "print_optical file_id = (\<lambda>(n, d, i). empty_optical_location\<lparr>
     ol_node_id := FormatOpticalNodeId n, ol_disk_id := FormatOpticalDiskId d,
     ol_image_id := FormatOpticalImageId n d i, ol_file_id := file_id\<rparr>)"

definition optical_locatable :: "u64 \<times> u64 \<times> u32 \<Rightarrow> bool" where
  "optical_locatable = (\<lambda>(n, d, i). n \<noteq> 0)"

definition record_optical_ids :: "UnifiedInodeRecord \<Rightarrow> u64 \<times> u64 \<times> u32" where
  "record_optical_ids r = (u_optical_node_id r, u_optical_disk_id r, u_optical_image_id r)"

definition attr_optical_ids :: "InodeAttr \<Rightarrow> u64 \<times> u64 \<times> u32" where
  "attr_optical_ids a = (a_optical_node_id a, a_optical_disk_id a, a_optical_image_id a)"

lemma flag_values:
  "(b AND NOT kUnifiedFlagVirtualDiskNode) AND kUnifiedFlagVirtualDiskNode = 0"
  "((b AND NOT kUnifiedFlagVirtualDiskNode) OR kUnifiedFlagVirtualDiskNode) AND kUnifiedFlagVirtualDiskNode
     = kUnifiedFlagVirtualDiskNode"
  "kUnifiedFlagVirtualDiskNode \<noteq> 0"
proof -
  show "(b AND NOT kUnifiedFlagVirtualDiskNode) AND kUnifiedFlagVirtualDiskNode = 0"
    by (rule bit_word_eqI) (simp add: bit_and_iff bit_not_iff)
  show "((b AND NOT kUnifiedFlagVirtualDiskNode) OR kUnifiedFlagVirtualDiskNode) AND kUnifiedFlagVirtualDiskNode
     = kUnifiedFlagVirtualDiskNode"
    by (rule bit_word_eqI) (auto simp: bit_and_iff bit_or_iff)
qed (simp add: kUnifiedFlagVirtualDiskNode_def)

lemmas location_holder_defs = print_disk_def disk_locatable_def record_disk_ids_def attr_disk_ids_def
  print_optical_def optical_locatable_def record_optical_ids_def attr_optical_ids_def

lemmas record_location_defs = ApplyDiskLocationToUnifiedRecord_def ApplyOpticalLocationToUnifiedRecord_def
  ClearDiskLocationInUnifiedRecord_def ClearOpticalLocationInUnifiedRecord_def or_keep_def Let_def

lemmas attr_location_defs = ApplyDiskLocationToAttr_def ApplyOpticalLocationToAttr_def
  ClearLocationInAttr_def or_zero_def

interpretation disk_record: location_holder
  PopulateDiskFileLocationFromUnifiedRecord ApplyDiskLocationToUnifiedRecord
  record_disk_ids print_disk "\<lambda>r. u_storage_tier r = TierDisk" disk_locatable
proof
  fix s :: UnifiedInodeRecord and l i
  show "PopulateDiskFileLocationFromUnifiedRecord s =
    (if u_storage_tier s = TierDisk \<and> disk_locatable (record_disk_ids s)
     then Some (print_disk (record_disk_ids s)) else None)"
    by (simp add: PopulateDiskFileLocationFromUnifiedRecord_def location_holder_defs Let_def)
  show "u_storage_tier (ApplyDiskLocationToUnifiedRecord l s) = TierDisk"
    by (simp add: record_location_defs)
  show "record_disk_ids (ApplyDiskLocationToUnifiedRecord (print_disk i) s) = i"
    by (cases i) (simp add: record_location_defs location_holder_defs flag_values)
qed

interpretation optical_record: location_holder
  PopulateOpticalFileLocationFromUnifiedRecord ApplyOpticalLocationToUnifiedRecord
  record_optical_ids "print_optical []" "\<lambda>r. u_storage_tier r = TierOptical" optical_locatable
proof
  fix s :: UnifiedInodeRecord and l i
  show "PopulateOpticalFileLocationFromUnifiedRecord s =
    (if u_storage_tier s = TierOptical \<and> optical_locatable (record_optical_ids s)
     then Some (print_optical [] (record_optical_ids s)) else None)"
    by (simp add: PopulateOpticalFileLocationFromUnifiedRecord_def location_holder_defs
        empty_optical_location_def)
  show "u_storage_tier (ApplyOpticalLocationToUnifiedRecord l s) = TierOptical"
    by (simp add: record_location_defs)
  show "record_optical_ids (ApplyOpticalLocationToUnifiedRecord (print_optical [] i) s) = i"
    by (cases i) (simp add: record_location_defs location_holder_defs)
qed

interpretation disk_attr: location_holder
  PopulateDiskFileLocationFromInodeAttr ApplyDiskLocationToAttr
  attr_disk_ids print_disk "\<lambda>a. a_storage_tier a = INODE_STORAGE_DISK" disk_locatable
proof
  fix s :: InodeAttr and l i
  show "PopulateDiskFileLocationFromInodeAttr s =
    (if a_storage_tier s = INODE_STORAGE_DISK \<and> disk_locatable (attr_disk_ids s)
     then Some (print_disk (attr_disk_ids s)) else None)"
    by (simp add: PopulateDiskFileLocationFromInodeAttr_def location_holder_defs Let_def)
  show "a_storage_tier (ApplyDiskLocationToAttr l s) = INODE_STORAGE_DISK"
    by (simp add: attr_location_defs)
  show "attr_disk_ids (ApplyDiskLocationToAttr (print_disk i) s) = i"
    by (cases i) (simp add: attr_location_defs location_holder_defs)
qed

text \<open>The attribute's optical location also names the object of the inode it is asked for.\<close>

definition object_file_id :: "u64 \<Rightarrow> string" where
  "object_file_id inode = ''obj-'' @ to_string inode @ ''-0''"

interpretation optical_attr: location_holder
  "\<lambda>a. PopulateOpticalFileLocationFromInodeAttr a inode" ApplyOpticalLocationToAttr
  attr_optical_ids "print_optical (object_file_id inode)"
  "\<lambda>a. a_storage_tier a = INODE_STORAGE_OPTICAL" "\<lambda>i. inode \<noteq> 0 \<and> optical_locatable i" for inode
proof
  fix s :: InodeAttr and l i
  show "PopulateOpticalFileLocationFromInodeAttr s inode =
    (if a_storage_tier s = INODE_STORAGE_OPTICAL \<and> inode \<noteq> 0 \<and> optical_locatable (attr_optical_ids s)
     then Some (print_optical (object_file_id inode) (attr_optical_ids s)) else None)"
    by (simp add: PopulateOpticalFileLocationFromInodeAttr_def location_holder_defs object_file_id_def)
  show "a_storage_tier (ApplyOpticalLocationToAttr l s) = INODE_STORAGE_OPTICAL"
    by (simp add: attr_location_defs)
  show "attr_optical_ids (ApplyOpticalLocationToAttr
      (print_optical (object_file_id inode) i) s) = i"
    by (cases i) (simp add: attr_location_defs location_holder_defs)
qed

section \<open>Locations survive being moved and stored\<close>

text \<open>A disk location read from an inode record and applied to any attribute or any other record
  is read back unchanged, and the numeric ids and the virtual flag stored are those of the record it
  came from.\<close>

theorem disk_location_moves:
  assumes "PopulateDiskFileLocationFromUnifiedRecord r = Some loc"
  shows "PopulateDiskFileLocationFromUnifiedRecord (ApplyDiskLocationToUnifiedRecord loc r') = Some loc \<and>
    PopulateDiskFileLocationFromInodeAttr (ApplyDiskLocationToAttr loc a) = Some loc \<and>
    record_disk_ids (ApplyDiskLocationToUnifiedRecord loc r') = record_disk_ids r \<and>
    attr_disk_ids (ApplyDiskLocationToAttr loc a) = record_disk_ids r"
proof -
  have loc: "disk_locatable (record_disk_ids r)" "loc = print_disk (record_disk_ids r)"
    using disk_record.populate_SomeD[OF assms] by simp_all
  show ?thesis
    using disk_record.moved[OF assms, of r'] disk_attr.populate_apply[OF loc(1), of a]
      disk_attr.apply_ids[of "record_disk_ids r" a] by (simp add: loc(2))
qed

definition sample_attr :: InodeAttr where
  "sample_attr = UnifiedInodeRecordToAttr default_record"

theorem disk_location_moves_witness:
  "PopulateDiskFileLocationFromInodeAttr
     (ApplyDiskLocationToAttr (print_disk (3, 2, False)) sample_attr) = Some (print_disk (3, 2, False))"
proof -
  have "PopulateDiskFileLocationFromUnifiedRecord sample_record = Some (print_disk (3, 2, False))"
    by (simp add: PopulateDiskFileLocationFromUnifiedRecord_def sample_record_def default_record_def
        location_holder_defs Let_def)
  from disk_location_moves[OF this] show ?thesis by blast
qed

lemma apply_disk_encodable: "encodable r \<Longrightarrow> encodable (ApplyDiskLocationToUnifiedRecord loc r)"
  by (simp add: encodable_def record_location_defs)

lemma apply_optical_encodable:
  assumes "encodable r" "d \<le> 0xFFFFFFFF"
  shows "encodable (ApplyOpticalLocationToUnifiedRecord (print_optical f (n, d, i)) r)"
  using assms by (simp add: encodable_def record_location_defs location_holder_defs)

lemma canonical_record_ids:
  "u_storage_tier (canonical_record r) = u_storage_tier r"
  "u_storage_tier r = TierDisk \<Longrightarrow> record_disk_ids (canonical_record r) = record_disk_ids r"
  "u_storage_tier r = TierOptical \<Longrightarrow> record_optical_ids (canonical_record r) = record_optical_ids r"
  by (simp_all add: canonical_record_def record_disk_ids_def record_optical_ids_def keeps_optical_def Let_def)



end
