(* ===== verification/Decimal_Utils.thy ===== *)
theory Decimal_Utils
  imports ZB_Prelude "HOL-Library.Char_ord" "HOL-Library.List_Lexorder"
begin

text \<open>
  The decimal-string arithmetic of \<open>src/src/mds/masstree_meta/MasstreeDecimalUtils.h\<close>, which the
  Masstree statistics use for byte totals beyond 64 bits.  Strings are arbitrary character lists:
  the loops do C++ \<open>int\<close> arithmetic on (signed) \<open>char\<close> codes, with division and
  remainder truncating towards zero.  On strings of decimal digits the operations are proved to be
  addition, truncated subtraction, comparison and saturating division of the numbers they denote.
\<close>

section \<open>Characters as C++ integers\<close>

definition char_code :: "char \<Rightarrow> int" where
  "char_code c = (let n = int (of_char c) in if n < 128 then n else n - 256)"

definition to_char :: "int \<Rightarrow> char" where
  "to_char x = char_of (nat (x mod 256))"

section \<open>The operations\<close>

definition find_first_not_of :: "char \<Rightarrow> string \<Rightarrow> nat option" where
  "find_first_not_of c s =
     (let k = length (takeWhile (\<lambda>d. d = c) s) in if k < length s then Some k else None)"

definition NormalizeDecimalString :: "string \<Rightarrow> string" where
  "NormalizeDecimalString value =
     (if value = [] then ''0''
      else let erased = (case find_first_not_of (CHR ''0'') value of
                           None \<Rightarrow> length value - 1
                         | Some k \<Rightarrow> min k (length value - 1));
               value = drop erased value
           in if value = [] then ''0'' else value)"

definition CompareDecimalStrings :: "string \<Rightarrow> string \<Rightarrow> int" where
  "CompareDecimalStrings lhs rhs =
     (let a = NormalizeDecimalString lhs; b = NormalizeDecimalString rhs
      in if length a \<noteq> length b then (if length a < length b then -1 else 1)
         else if a = b then 0
         else if a < b then -1 else 1)"

function add_loop :: "string \<Rightarrow> string \<Rightarrow> nat \<Rightarrow> nat \<Rightarrow> int \<Rightarrow> string \<Rightarrow> string" where
  "add_loop a b ai bi carry out =
     (if ai > 0 \<or> bi > 0 \<or> carry \<noteq> 0 then
        let digit = carry + (if ai > 0 then char_code (a ! (ai - 1)) - 48 else 0)
                          + (if bi > 0 then char_code (b ! (bi - 1)) - 48 else 0)
        in add_loop a b (ai - 1) (bi - 1) (digit sdiv 10) (out @ [to_char (48 + digit smod 10)])
      else out)"
  by pat_completeness auto
termination
proof (relation "measures [\<lambda>(a, b, ai, bi, carry, out). ai + bi,
                           \<lambda>(a, b, ai, bi, carry, out). nat \<bar>carry\<bar>]", goal_cases)
  case 1
  then show ?case by simp
next
  case (2 a b ai bi carry out digit)
  then show ?case
    by (auto simp: signed_divide_int_def abs_mult sgn_if)
qed

declare add_loop.simps [simp del]

definition AddDecimalStrings :: "string \<Rightarrow> string \<Rightarrow> string" where
  "AddDecimalStrings lhs rhs =
     (let a0 = NormalizeDecimalString lhs; b0 = NormalizeDecimalString rhs;
          (a, b) = (if length a0 < length b0 then (b0, a0) else (a0, b0));
          out = add_loop a b (length a) (length b) 0 []
      in NormalizeDecimalString (rev out))"

fun sub_loop :: "string \<Rightarrow> string \<Rightarrow> nat \<Rightarrow> nat \<Rightarrow> int \<Rightarrow> string \<Rightarrow> string" where
  "sub_loop a b 0 bi borrow out = out"
| "sub_loop a b (Suc ai) bi borrow out =
     (let digit = char_code (a ! ai) - 48 - borrow;
          digit = (if bi > 0 then digit - (char_code (b ! (bi - 1)) - 48) else digit)
      in if digit < 0
         then sub_loop a b ai (bi - 1) 1 (out @ [to_char (48 + (digit + 10))])
         else sub_loop a b ai (bi - 1) 0 (out @ [to_char (48 + digit)]))"

text \<open>\<open>while (out.size() > 1U && out.back() == '0') out.pop_back();\<close>\<close>

fun pop_back_zeros :: "string \<Rightarrow> string" where
  "pop_back_zeros out =
     (if length out > 1 \<and> last out = CHR ''0'' then pop_back_zeros (butlast out) else out)"

declare pop_back_zeros.simps [simp del]

definition SubtractDecimalStrings :: "string \<Rightarrow> string \<Rightarrow> string" where
  "SubtractDecimalStrings lhs rhs =
     (if CompareDecimalStrings lhs rhs < 0 then ''0''
      else let a = NormalizeDecimalString lhs; b = NormalizeDecimalString rhs;
               out = sub_loop a b (length a) (length b) 0 [];
               out = pop_back_zeros out
           in NormalizeDecimalString (rev out))"

definition UINT64_MAX :: u64 where
  "UINT64_MAX = -1"

fun div_loop :: "u64 \<Rightarrow> string \<Rightarrow> u64 \<Rightarrow> u64 \<Rightarrow> u64" where
  "div_loop divisor [] result remainder = result"
| "div_loop divisor (ch # rest) result remainder =
     (let digit = of_int (char_code ch - 48);
          remainder = remainder * 10 + digit
      in if result > UINT64_MAX div 10 then UINT64_MAX
         else let result = result * 10; quotient_digit = remainder div divisor
              in if result > UINT64_MAX - quotient_digit then UINT64_MAX
                 else div_loop divisor rest (result + quotient_digit) (remainder mod divisor))"

definition DivideDecimalStringByU64 :: "string \<Rightarrow> u64 \<Rightarrow> u64" where
  "DivideDecimalStringByU64 decimal divisor =
     (if divisor = 0 then 0 else div_loop divisor (NormalizeDecimalString decimal) 0 0)"

text \<open>
  \<open>MasstreeDecimalAccumulator\<close> as compiled where \<open>unsigned __int128\<close> exists.
\<close>

record MasstreeDecimalAccumulator =
  acc_value :: u128

definition acc_init :: MasstreeDecimalAccumulator where
  "acc_init = \<lparr>acc_value = 0\<rparr>"

definition acc_Add :: "MasstreeDecimalAccumulator \<Rightarrow> u64 \<Rightarrow> MasstreeDecimalAccumulator" where
  "acc_Add acc delta = acc\<lparr>acc_value := acc_value acc + ucast delta\<rparr>"

function acc_digits :: "u128 \<Rightarrow> string \<Rightarrow> string" where
  "acc_digits value out =
     (if value \<noteq> 0 then acc_digits (value div 10) (out @ [to_char (48 + uint (value mod 10))])
      else out)"
  by pat_completeness auto
termination
proof (relation "measure (\<lambda>(value, out). unat value)", goal_cases)
  case 1
  then show ?case by simp
next
  case (2 v out)
  then have "unat v \<noteq> 0" by (simp add: unat_eq_0)
  then show ?case by (simp add: unat_div)
qed

declare acc_digits.simps [simp del]

definition acc_ToString :: "MasstreeDecimalAccumulator \<Rightarrow> string" where
  "acc_ToString acc = (if acc_value acc = 0 then ''0'' else rev (acc_digits (acc_value acc) []))"

definition acc_DivideBy :: "MasstreeDecimalAccumulator \<Rightarrow> u64 \<Rightarrow> u64" where
  "acc_DivideBy acc divisor = DivideDecimalStringByU64 (acc_ToString acc) divisor"

section \<open>Decimal strings and what they denote\<close>

definition is_decimal :: "string \<Rightarrow> bool" where
  "is_decimal s \<longleftrightarrow> s \<noteq> [] \<and> (\<forall>c \<in> set s. is_digit c)"

text \<open>The canonical numeral: no leading zero unless it is \<open>0\<close> itself.\<close>

definition canonical :: "string \<Rightarrow> bool" where
  "canonical s \<longleftrightarrow> is_decimal s \<and> (s = ''0'' \<or> hd s \<noteq> CHR ''0'')"

section \<open>Lemmas\<close>

lemma char_code_digit: "is_digit c \<Longrightarrow> char_code c - 48 = int (digit_val c)"
  by (auto simp: is_digit_def digit_val_def char_code_def Let_def of_nat_diff)

lemma to_char_digit: "0 \<le> d \<Longrightarrow> d < 10 \<Longrightarrow> to_char (48 + d) = char_of (48 + nat d)"
  by (simp add: to_char_def nat_add_distrib)

lemma to_char_is_digit [simp]: "0 \<le> d \<Longrightarrow> d < 10 \<Longrightarrow> is_digit (to_char (48 + d))"
  by (simp add: to_char_digit)

lemma digit_val_to_char [simp]: "0 \<le> d \<Longrightarrow> d < 10 \<Longrightarrow> digit_val (to_char (48 + d)) = nat d"
  by (simp add: to_char_digit)

lemma NormalizeDecimalString_alt:
  "NormalizeDecimalString s =
     (if s = [] then ''0'' else drop (min (length (takeWhile (\<lambda>d. d = CHR ''0'') s)) (length s - 1)) s)"
proof -
  have "length (takeWhile (\<lambda>d. d = CHR ''0'') s) \<le> length s" by (rule length_takeWhile_le)
  then show ?thesis
    by (auto simp: NormalizeDecimalString_def find_first_not_of_def Let_def min_def)
qed

lemma dec_val_replicate_zero: "\<forall>c \<in> set z. c = CHR ''0'' \<Longrightarrow> dec_val z = 0"
  by (induction z) (auto simp: dec_val_Cons digit_val_def)

lemma dec_val_NormalizeDecimalString [simp]: "dec_val (NormalizeDecimalString s) = dec_val s"
proof (cases "s = []")
  case True
  then show ?thesis by (simp add: NormalizeDecimalString_alt dec_val_def digit_val_def)
next
  case False
  define k where "k = min (length (takeWhile (\<lambda>d. d = CHR ''0'') s)) (length s - 1)"
  have "set (take k s) \<subseteq> set (take (length (takeWhile (\<lambda>d. d = CHR ''0'') s)) s)"
    unfolding k_def by (rule set_take_subset_set_take) simp
  then have "set (take k s) \<subseteq> set (takeWhile (\<lambda>d. d = CHR ''0'') s)"
    by (simp only: takeWhile_eq_take [symmetric])
  then have "\<forall>c \<in> set (take k s). c = CHR ''0''" by (auto dest!: subsetD dest: set_takeWhileD)
  then have "dec_val (take k s) = 0" by (rule dec_val_replicate_zero)
  then have "dec_val (take k s @ drop k s) = dec_val (drop k s)" by (simp add: dec_val_append del: append_take_drop_id)
  with False show ?thesis by (simp add: NormalizeDecimalString_alt k_def)
qed

lemma canonical_NormalizeDecimalString:
  assumes "\<forall>c \<in> set s. is_digit c"
  shows "canonical (NormalizeDecimalString s)"
proof (cases "s = []")
  case True
  then show ?thesis
    by (simp add: NormalizeDecimalString_alt canonical_def is_decimal_def is_digit_def)
next
  case False
  define z where "z = length (takeWhile (\<lambda>d. d = CHR ''0'') s)"
  have eq: "NormalizeDecimalString s = drop (min z (length s - 1)) s"
    using False by (simp add: NormalizeDecimalString_alt z_def)
  have dec: "is_decimal (NormalizeDecimalString s)"
  proof -
    have "min z (length s - 1) < length s" using False by (cases s) auto
    then have "drop (min z (length s - 1)) s \<noteq> []" by (simp only: drop_eq_Nil not_le)
    with assms show ?thesis unfolding eq is_decimal_def by (blast dest: in_set_dropD)
  qed
  show ?thesis
  proof (cases "z \<le> length s - 1")
    case True
    then have "z < length s" using False by (cases s) auto
    then have "s ! z \<noteq> CHR ''0''" unfolding z_def by (rule nth_length_takeWhile)
    with True \<open>z < length s\<close> dec show ?thesis
      by (simp add: canonical_def eq hd_drop_conv_nth)
  next
    case z: False
    have "z \<le> length s" unfolding z_def by (rule length_takeWhile_le)
    with z have "z = length s" by simp
    then have "takeWhile (\<lambda>d. d = CHR ''0'') s = s"
      unfolding z_def by (metis takeWhile_eq_take take_all order_refl)
    then have "last s = CHR ''0''" using False by (simp add: takeWhile_eq_all_conv)
    moreover have "NormalizeDecimalString s = [last s]"
      unfolding eq using z False by (cases s rule: rev_cases) auto
    ultimately show ?thesis using dec by (simp add: canonical_def)
  qed
qed

lemma canonicalD: "canonical s \<Longrightarrow> s \<noteq> [] \<and> (\<forall>c \<in> set s. is_digit c)"
  by (simp add: canonical_def is_decimal_def)

lemma NormalizeDecimalString_digits:
  "\<forall>c \<in> set s. is_digit c \<Longrightarrow> \<forall>c \<in> set (NormalizeDecimalString s). is_digit c"
  using canonicalD[OF canonical_NormalizeDecimalString] by blast

text \<open>A canonical numeral is exactly the printed form of its value.\<close>

lemma char_of_48: "char_of (48::nat) = CHR ''0''"
proof -
  have "of_char (CHR ''0'') = (48::nat)" by simp
  then show ?thesis by (metis char_of_char)
qed

lemma dec_digits_0: "dec_digits 0 = ''0''"
  by (simp add: dec_digits.simps[of 0] char_of_48)

lemma canonical_dec_digits: "canonical (dec_digits n)"
  using dec_digits_all_digits dec_digits_no_leading_zero[of n]
  by (cases "n = 0") (auto simp: canonical_def is_decimal_def dec_digits_0[symmetric] simp del: dec_digits_0)

lemma is_decimal_lower: "is_decimal s \<Longrightarrow> hd s \<noteq> CHR ''0'' \<Longrightarrow> 10 ^ (length s - 1) \<le> dec_val s"
proof (cases s)
  case (Cons c t)
  assume "is_decimal s" "hd s \<noteq> CHR ''0''"
  with Cons have "is_digit c" "c \<noteq> CHR ''0''" by (auto simp: is_decimal_def)
  then have "0 < digit_val c" using char_of_digit_val[of c] char_of_48 by (cases "digit_val c") auto
  then have "1 * 10 ^ length t \<le> digit_val c * 10 ^ length t" by (intro mult_right_mono) simp_all
  then have "10 ^ length t \<le> digit_val c * 10 ^ length t + dec_val t" by linarith
  then show ?thesis unfolding Cons dec_val_Cons by simp
qed (simp add: is_decimal_def)

lemma canonical_length_less:
  assumes "canonical a" "canonical b" "length a < length b"
  shows "dec_val a < dec_val b"
proof -
  have "length b > 1" using assms canonicalD[of a] by (cases a) auto
  then have "b \<noteq> ''0''" by auto
  then have "10 ^ (length b - 1) \<le> dec_val b"
    using assms(2) is_decimal_lower[of b] unfolding canonical_def by blast
  moreover have "dec_val a < 10 ^ length a" using assms(1) by (simp add: canonicalD dec_val_less)
  moreover have "(10::nat) ^ length a \<le> 10 ^ (length b - 1)"
    using assms(3) by (intro power_increasing) simp_all
  ultimately show ?thesis by linarith
qed

lemma digit_eq_iff: "is_digit x \<Longrightarrow> is_digit y \<Longrightarrow> x = y \<longleftrightarrow> digit_val x = digit_val y"
  by (metis char_of_digit_val)

lemma digit_less_iff: "is_digit x \<Longrightarrow> is_digit y \<Longrightarrow> x < y \<longleftrightarrow> digit_val x < digit_val y"
  by (auto simp: less_char_def is_digit_def digit_val_def)

lemma same_length_less_iff:
  assumes "length a = length b" "\<forall>c \<in> set a. is_digit c" "\<forall>c \<in> set b. is_digit c"
  shows "(a < b \<longleftrightarrow> dec_val a < dec_val b) \<and> (a = b \<longleftrightarrow> dec_val a = dec_val b)"
  using assms
proof (induction a b rule: list_induct2)
  case Nil
  then show ?case by simp
next
  case (Cons x xs y ys)
  let ?p = "10 ^ length xs :: nat"
  have l: "length ys = length xs" using Cons.hyps by simp
  have vx: "dec_val xs < ?p" and vy: "dec_val ys < ?p"
    using Cons.prems l by (auto dest!: dec_val_less)
  have "is_digit x" "is_digit y" using Cons.prems by simp_all
  then have d: "x < y \<longleftrightarrow> digit_val x < digit_val y" "x = y \<longleftrightarrow> digit_val x = digit_val y"
    by (auto simp: digit_less_iff digit_eq_iff)
  have key: "digit_val x < digit_val y \<Longrightarrow> digit_val x * ?p + dec_val xs < digit_val y * ?p + dec_val ys"
  proof -
    assume "digit_val x < digit_val y"
    then have "(digit_val x + 1) * ?p \<le> digit_val y * ?p" by (intro mult_right_mono) auto
    with vx show ?thesis by (simp add: algebra_simps)
  qed
  have key': "digit_val y < digit_val x \<Longrightarrow> digit_val y * ?p + dec_val ys < digit_val x * ?p + dec_val xs"
  proof -
    assume "digit_val y < digit_val x"
    then have "(digit_val y + 1) * ?p \<le> digit_val x * ?p" by (intro mult_right_mono) auto
    with vy show ?thesis by (simp add: algebra_simps)
  qed
  from Cons have IH: "(xs < ys \<longleftrightarrow> dec_val xs < dec_val ys) \<and> (xs = ys \<longleftrightarrow> dec_val xs = dec_val ys)"
    by simp
  show ?case
  proof (cases "digit_val x" "digit_val y" rule: linorder_cases)
    case less
    with d key[OF less] l show ?thesis by (simp add: dec_val_Cons)
  next
    case equal
    with d IH l show ?thesis by (simp add: dec_val_Cons)
  next
    case greater
    with d key'[OF greater] l show ?thesis by (auto simp: dec_val_Cons)
  qed
qed

lemma canonical_inject: "canonical a \<Longrightarrow> canonical b \<Longrightarrow> dec_val a = dec_val b \<Longrightarrow> a = b"
  by (metis canonicalD canonical_length_less linorder_neq_iff same_length_less_iff)

lemma canonical_eq_dec_digits: "canonical s \<Longrightarrow> s = dec_digits (dec_val s)"
  by (rule canonical_inject) (simp_all add: canonical_dec_digits)

lemma NormalizeDecimalString_eq:
  "\<forall>c \<in> set s. is_digit c \<Longrightarrow> NormalizeDecimalString s = dec_digits (dec_val s)"
  using canonical_eq_dec_digits[OF canonical_NormalizeDecimalString] by simp

subsection \<open>Addition and subtraction loops\<close>

lemma dec_val_take_Suc:
  "0 < i \<Longrightarrow> i \<le> length a \<Longrightarrow> dec_val (take i a) = 10 * dec_val (take (i - 1) a) + digit_val (a ! (i - 1))"
  using take_Suc_conv_app_nth[of "i - 1" a] by (cases i) simp_all

lemma int_digit_split: "0 \<le> (d::int) \<Longrightarrow> d sdiv 10 = d div 10 \<and> d smod 10 = d mod 10"
  by (simp add: signed_divide_int_def signed_modulo_int_def sgn_if)

lemma add_loop_spec:
  assumes "\<forall>c \<in> set a. is_digit c" "\<forall>c \<in> set b. is_digit c" "\<forall>c \<in> set out. is_digit c"
    and "ai \<le> length a" "bi \<le> length b" "0 \<le> carry"
  shows "(\<forall>c \<in> set (add_loop a b ai bi carry out). is_digit c) \<and>
         dec_val (rev (add_loop a b ai bi carry out)) =
         dec_val (rev out) + 10 ^ length out * (dec_val (take ai a) + dec_val (take bi b) + nat carry)"
  using assms
proof (induction a b ai bi carry out rule: add_loop.induct)
  case (1 a b ai bi carry out)
  show ?case
  proof (cases "ai > 0 \<or> bi > 0 \<or> carry \<noteq> 0")
    case False
    then show ?thesis using "1.prems" by (subst (1 2) add_loop.simps) simp
  next
    case True
    define da where "da = (if ai > 0 then digit_val (a ! (ai - 1)) else 0)"
    define db where "db = (if bi > 0 then digit_val (b ! (bi - 1)) else 0)"
    define digit where "digit = carry + (if ai > 0 then char_code (a ! (ai - 1)) - 48 else 0)
                          + (if bi > 0 then char_code (b ! (bi - 1)) - 48 else 0)"
    have digit: "digit = carry + int da + int db"
      using "1.prems" by (auto simp: digit_def da_def db_def char_code_digit)
    have ta: "dec_val (take ai a) = 10 * dec_val (take (ai - 1) a) + da"
      using "1.prems" by (cases "ai = 0") (simp_all add: da_def dec_val_take_Suc)
    have tb: "dec_val (take bi b) = 10 * dec_val (take (bi - 1) b) + db"
      using "1.prems" by (cases "bi = 0") (simp_all add: db_def dec_val_take_Suc)
    have split: "digit sdiv 10 = digit div 10" "digit smod 10 = digit mod 10"
      using "1.prems"(6) digit by (simp_all add: int_digit_split)
    let ?out = "out @ [to_char (48 + digit smod 10)]"
    have eq: "add_loop a b ai bi carry out = add_loop a b (ai - 1) (bi - 1) (digit sdiv 10) ?out"
      by (subst add_loop.simps) (simp only: if_P[OF True] Let_def digit_def)
    have rout: "dec_val (rev ?out) = dec_val (rev out) + 10 ^ length out * nat (digit mod 10)"
      by (simp add: split dec_val_Cons)
    have cd: "nat carry + da + db = 10 * nat (digit div 10) + nat (digit mod 10)"
    proof -
      have nonneg: "0 \<le> digit" using "1.prems"(6) digit by simp
      then have "0 \<le> digit div 10" by (rule pos_imp_zdiv_nonneg_iff[THEN iffD2, rotated]) simp
      then have "int (10 * nat (digit div 10) + nat (digit mod 10)) = digit" by simp
      moreover have "int (nat carry + da + db) = digit" using "1.prems"(6) digit by simp
      ultimately have "int (nat carry + da + db) = int (10 * nat (digit div 10) + nat (digit mod 10))" by simp
      then show ?thesis by (simp only: of_nat_eq_iff)
    qed
    have "\<forall>c \<in> set ?out. is_digit c" using "1.prems"(3) by (simp add: split)
    with "1.IH"[OF True digit_def] "1.prems" split digit
    have "(\<forall>c \<in> set (add_loop a b (ai - 1) (bi - 1) (digit sdiv 10) ?out). is_digit c) \<and>
      dec_val (rev (add_loop a b (ai - 1) (bi - 1) (digit sdiv 10) ?out)) =
      dec_val (rev ?out) + 10 ^ length ?out *
        (dec_val (take (ai - 1) a) + dec_val (take (bi - 1) b) + nat (digit sdiv 10))"
      by auto
    moreover have "dec_val (rev ?out) + 10 ^ length ?out *
        (dec_val (take (ai - 1) a) + dec_val (take (bi - 1) b) + nat (digit sdiv 10)) =
      dec_val (rev out) + 10 ^ length out *
        (nat (digit mod 10) + 10 * nat (digit div 10) + 10 * dec_val (take (ai - 1) a) + 10 * dec_val (take (bi - 1) b))"
      by (subst rout) (simp add: split algebra_simps)
    moreover have "nat (digit mod 10) + 10 * nat (digit div 10) + 10 * dec_val (take (ai - 1) a) + 10 * dec_val (take (bi - 1) b)
      = dec_val (take ai a) + dec_val (take bi b) + nat carry"
      using cd ta tb by linarith
    ultimately show ?thesis unfolding eq by simp
  qed
qed

lemma sub_loop_spec:
  assumes "\<forall>c \<in> set a. is_digit c" "\<forall>c \<in> set b. is_digit c" "\<forall>c \<in> set out. is_digit c"
    and "ai \<le> length a" "bi \<le> length b" "borrow = 0 \<or> borrow = 1"
    and "dec_val (take bi b) + nat borrow \<le> dec_val (take ai a)"
  shows "(\<forall>c \<in> set (sub_loop a b ai bi borrow out). is_digit c) \<and>
         length (sub_loop a b ai bi borrow out) = length out + ai \<and>
         dec_val (rev (sub_loop a b ai bi borrow out)) + 10 ^ length out * (dec_val (take bi b) + nat borrow) =
         dec_val (rev out) + 10 ^ length out * dec_val (take ai a)"
  using assms
proof (induction ai arbitrary: bi borrow out)
  case 0
  then show ?case by simp
next
  case (Suc ai)
  define da where "da = digit_val (a ! ai)"
  define db where "db = (if bi > 0 then digit_val (b ! (bi - 1)) else 0)"
  define digit where "digit = (if bi > 0 then char_code (a ! ai) - 48 - borrow - (char_code (b ! (bi - 1)) - 48)
                               else char_code (a ! ai) - 48 - borrow)"
  define borrow' :: int where "borrow' = (if digit < 0 then 1 else 0)"
  define d :: int where "d = (if digit < 0 then digit + 10 else digit)"
  have dig: "digit = int da - borrow - int db"
    using Suc.prems by (auto simp: digit_def da_def db_def char_code_digit)
  have lt: "da < 10" "db < 10"
    using Suc.prems by (auto simp: da_def db_def digit_val_lt)
  have ta: "dec_val (take (Suc ai) a) = 10 * dec_val (take ai a) + da"
    using Suc.prems by (simp add: da_def dec_val_take_Suc)
  have tb: "dec_val (take bi b) = 10 * dec_val (take (bi - 1) b) + db"
    using Suc.prems by (cases "bi = 0") (simp_all add: db_def dec_val_take_Suc)
  have d: "0 \<le> d" "d < 10" "int da + 10 * borrow' = d + int db + borrow"
    using dig lt Suc.prems(6) by (auto simp: d_def borrow'_def)
  let ?out = "out @ [to_char (48 + d)]"
  have eq: "sub_loop a b (Suc ai) bi borrow out = sub_loop a b ai (bi - 1) borrow' ?out"
    by (auto simp: digit_def d_def borrow'_def Let_def)
  have le: "dec_val (take (bi - 1) b) + nat borrow' \<le> dec_val (take ai a)"
    using Suc.prems(6,7) ta tb d dig lt unfolding borrow'_def by (cases "digit < 0") auto
  have rout: "dec_val (rev ?out) = dec_val (rev out) + 10 ^ length out * nat d"
    using d by (simp add: dec_val_Cons)
  have IH: "(\<forall>c \<in> set (sub_loop a b ai (bi - 1) borrow' ?out). is_digit c) \<and>
      length (sub_loop a b ai (bi - 1) borrow' ?out) = length ?out + ai \<and>
      dec_val (rev (sub_loop a b ai (bi - 1) borrow' ?out)) + 10 ^ length ?out * (dec_val (take (bi - 1) b) + nat borrow') =
      dec_val (rev ?out) + 10 ^ length ?out * dec_val (take ai a)"
    using Suc.prems d le by (intro Suc.IH) (auto simp: borrow'_def)
  have "da + 10 * nat borrow' = nat d + db + nat borrow"
    using d Suc.prems(6) by (auto simp: borrow'_def split: if_splits)
  then have "10 ^ length out * (da + 10 * nat borrow') = 10 ^ length out * (nat d + db + nat borrow)"
    by simp
  with IH show ?case unfolding eq ta tb rout by (simp add: algebra_simps)
qed

lemma pop_back_zeros_spec:
  "out \<noteq> [] \<Longrightarrow> (\<forall>c \<in> set out. is_digit c) \<Longrightarrow>
   (\<forall>c \<in> set (pop_back_zeros out). is_digit c) \<and> dec_val (rev (pop_back_zeros out)) = dec_val (rev out)"
proof (induction out rule: pop_back_zeros.induct)
  case (1 out)
  show ?case
  proof (cases "length out > 1 \<and> last out = CHR ''0''")
    case True
    then obtain xs where out: "out = xs @ [CHR ''0'']" "xs \<noteq> []"
      by (metis append_butlast_last_id length_append_singleton length_0_conv less_one list.size(3) nat_neq_iff not_less_eq plus_1_eq_Suc "1.prems"(1) One_nat_def)
    with 1 True show ?thesis
      by (subst (1 2) pop_back_zeros.simps) (auto simp: dec_val_Cons digit_val_def)
  next
    case False
    then have "pop_back_zeros out = out" by (subst pop_back_zeros.simps) auto
    then show ?thesis using "1.prems" by simp
  qed
qed

subsection \<open>Division loop\<close>

lemma unat_UINT64_MAX: "unat UINT64_MAX = 2 ^ 64 - 1"
  by (simp add: UINT64_MAX_def unsigned_minus_1_eq_mask mask_eq_exp_minus_1)

lemma of_int_char_code: "is_digit ch \<Longrightarrow> (of_int (char_code ch - 48) :: u64) = of_nat (digit_val ch)"
  by (simp only: char_code_digit of_int_of_nat_eq)

lemma div_loop_Cons:
  "is_digit ch \<Longrightarrow> div_loop divisor (ch # rest) result remainder =
     (let remainder = remainder * 10 + of_nat (digit_val ch)
      in if result > UINT64_MAX div 10 then UINT64_MAX
         else let result = result * 10; quotient_digit = remainder div divisor
              in if result > UINT64_MAX - quotient_digit then UINT64_MAX
                 else div_loop divisor rest (result + quotient_digit) (remainder mod divisor))"
  by (simp only: div_loop.simps of_int_char_code Let_def)

lemma digit_step:
  fixes d p r :: nat
  assumes "0 < d"
  shows "(10 * p + r) div d = 10 * (p div d) + (10 * (p mod d) + r) div d"
    and "(10 * p + r) mod d = (10 * (p mod d) + r) mod d"
proof -
  have p: "10 * p + r = (10 * (p mod d) + r) + (10 * (p div d)) * d"
  proof -
    have "p = p mod d + p div d * d" by simp
    then have "10 * p + r = 10 * (p mod d + p div d * d) + r" by (simp only:)
    then show ?thesis by (simp only: distrib_left mult.assoc add.assoc add.commute[of _ r] add.left_commute[of _ r])
  qed
  show "(10 * p + r) div d = 10 * (p div d) + (10 * (p mod d) + r) div d"
    using assms by (subst p) (simp add: add.commute)
  show "(10 * p + r) mod d = (10 * (p mod d) + r) mod d"
    by (subst p) simp
qed

lemma div_loop_spec:
  fixes divisor result remainder :: u64
  assumes "\<forall>c \<in> set cs. is_digit c" "0 < unat divisor" "10 * unat divisor \<le> 2 ^ 64"
    and "unat result = p div unat divisor" "unat remainder = p mod unat divisor"
  shows "unat (div_loop divisor cs result remainder) =
         min ((p * 10 ^ length cs + dec_val cs) div unat divisor) (2 ^ 64 - 1)"
  using assms
proof (induction cs arbitrary: result remainder p)
  case Nil
  have "unat result < 2 ^ 64" by (rule unat_u64_lt)
  with Nil show ?case by simp
next
  case (Cons ch cs)
  let ?d = "unat divisor" and ?r = "digit_val ch"
  have r: "?r < 10" using Cons.prems by (simp add: digit_val_lt)
  have mod: "p mod ?d < ?d" using Cons.prems(2) by simp
  have ud: "unat (of_nat ?r :: u64) = ?r" using r by (simp add: unat_of_nat)
  have rem: "unat (remainder * 10 + of_nat ?r :: u64) = 10 * (p mod ?d) + ?r"
  proof -
    have "10 * (p mod ?d) + ?r < 2 ^ 64" using mod r Cons.prems(3) by linarith
    then show ?thesis using Cons.prems(5) ud by (simp add: unat_word_ariths mult.commute)
  qed
  let ?q = "(10 * (p mod ?d) + ?r) div ?d"
  have q: "?q < 10" using mod r by (intro less_mult_imp_div_less) linarith
  have uq: "unat ((remainder * 10 + of_nat ?r) div divisor) = ?q" by (simp add: unat_div rem)
  have um: "unat ((remainder * 10 + of_nat ?r) mod divisor) = (10 * (p mod ?d) + ?r) mod ?d"
    by (simp add: unat_mod rem)
  let ?p' = "10 * p + ?r"
  have p': "?p' div ?d = 10 * (p div ?d) + ?q" "?p' mod ?d = (10 * (p mod ?d) + ?r) mod ?d"
    using digit_step[of ?d p ?r] Cons.prems(2) by simp_all
  have total: "p * 10 ^ length (ch # cs) + dec_val (ch # cs) = ?p' * 10 ^ length cs + dec_val cs"
    by (simp add: dec_val_Cons algebra_simps)
  have big: "2 ^ 64 - 1 < ?p' div ?d \<Longrightarrow>
    min ((?p' * 10 ^ length cs + dec_val cs) div ?d) (2 ^ 64 - 1) = 2 ^ 64 - 1"
  proof -
    assume "2 ^ 64 - 1 < ?p' div ?d"
    moreover have "?p' \<le> ?p' * 10 ^ length cs + dec_val cs" by (simp add: trans_le_add1)
    then have "?p' div ?d \<le> (?p' * 10 ^ length cs + dec_val cs) div ?d" by (rule div_le_mono)
    ultimately show ?thesis by linarith
  qed
  have c1: "result > UINT64_MAX div 10 \<longleftrightarrow> (2 ^ 64 - 1) div 10 < p div ?d"
    by (simp add: word_less_nat_alt unat_div unat_UINT64_MAX Cons.prems(4))
  show ?case
  proof (cases "result > UINT64_MAX div 10")
    case True
    then have "2 ^ 64 - 1 < ?p' div ?d" using c1 p' by simp
    with True big total show ?thesis
      by (simp add: unat_UINT64_MAX)
  next
    case False
    then have le: "p div ?d \<le> (2 ^ 64 - 1) div 10" using c1 by linarith
    then have r10: "unat (result * 10) = 10 * (p div ?d)"
      using Cons.prems(4) by (simp add: unat_word_ariths mult.commute)
    have sub: "unat (UINT64_MAX - (remainder * 10 + of_nat ?r) div divisor) = 2 ^ 64 - 1 - ?q"
      using q by (subst unat_sub) (simp_all add: word_le_nat_alt unat_UINT64_MAX uq)
    have c2: "result * 10 > UINT64_MAX - (remainder * 10 + of_nat ?r) div divisor \<longleftrightarrow> 2 ^ 64 - 1 < ?p' div ?d"
      using q by (auto simp: word_less_nat_alt sub r10 p')
    show ?thesis
    proof (cases "result * 10 > UINT64_MAX - (remainder * 10 + of_nat ?r) div divisor")
      case True
      with big c2 total \<open>\<not> result > UINT64_MAX div 10\<close> Cons.prems(1) show ?thesis
        by (simp add: div_loop_Cons unat_UINT64_MAX del: div_loop.simps)
    next
      case small: False
      then have "?p' div ?d \<le> 2 ^ 64 - 1" using c2 by simp
      then have "unat (result * 10 + (remainder * 10 + of_nat ?r) div divisor) = ?p' div ?d"
        using r10 uq p' by (subst unat_plus_simple[THEN iffD1]) (simp_all add: no_olen_add_nat)
      then have "unat (div_loop divisor cs (result * 10 + (remainder * 10 + of_nat ?r) div divisor)
            ((remainder * 10 + of_nat ?r) mod divisor)) =
          min ((?p' * 10 ^ length cs + dec_val cs) div ?d) (2 ^ 64 - 1)"
        using Cons.prems um p' by (intro Cons.IH) simp_all
      with small \<open>\<not> result > UINT64_MAX div 10\<close> total Cons.prems(1) show ?thesis
        by (simp add: div_loop_Cons Let_def del: div_loop.simps)
    qed
  qed
qed

subsection \<open>The 128-bit accumulator\<close>

lemma acc_digits_spec:
  "rev (acc_digits v out) = (if v = 0 then [] else dec_digits (unat v)) @ rev out"
proof (induction v out rule: acc_digits.induct)
  case (1 v out)
  show ?case
  proof (cases "v = 0")
    case True
    then show ?thesis by (subst acc_digits.simps) simp
  next
    case False
    let ?c = "char_of (48 + unat v mod 10)"
    have "uint (v mod 10) = int (unat v mod 10)" by (simp add: unat_mod uint_nat)
    then have c: "to_char (48 + uint (v mod 10)) = ?c" by (simp add: to_char_digit)
    have IH: "rev (acc_digits (v div 10) (out @ [?c])) =
        (if v div 10 = 0 then [] else dec_digits (unat v div 10)) @ ?c # rev out"
      using "1.IH" False c by (simp add: unat_div)
    have z: "v div 10 = 0 \<longleftrightarrow> unat v < 10"
      by (simp add: word_unat_eq_iff unat_div div_eq_0_iff)
    show ?thesis
      using False IH z c by (subst acc_digits.simps, subst dec_digits.simps) (auto simp: unat_eq_0)
  qed
qed

lemma acc_ToString_eq: "acc_ToString acc = dec_digits (unat (acc_value acc))"
  by (simp add: acc_ToString_def acc_digits_spec dec_digits_0)

lemma unat_acc_fold:
  "unat (acc_value (foldl acc_Add acc ds)) = (unat (acc_value acc) + (\<Sum>d\<leftarrow>ds. unat d)) mod 2 ^ 128"
proof (induction ds arbitrary: acc)
  case Nil
  have "unat (acc_value acc) < 2 ^ 128" by (rule unat_u128_lt)
  then show ?case by simp
next
  case (Cons d ds)
  have "unat (ucast d :: u128) = unat d" by (simp add: word_nat)
  then have "unat (acc_value (acc_Add acc d)) = (unat (acc_value acc) + unat d) mod 2 ^ 128"
    by (simp add: acc_Add_def unat_word_ariths)
  then show ?case by (simp add: Cons mod_add_left_eq add.assoc)
qed

subsection \<open>Comparison\<close>

lemma CompareDecimalStrings_sign:
  assumes "\<forall>c \<in> set lhs. is_digit c" "\<forall>c \<in> set rhs. is_digit c"
  shows "CompareDecimalStrings lhs rhs = sgn (int (dec_val lhs) - int (dec_val rhs))"
proof -
  let ?a = "NormalizeDecimalString lhs" and ?b = "NormalizeDecimalString rhs"
  have a: "canonical ?a" and b: "canonical ?b"
    using assms by (simp_all add: canonical_NormalizeDecimalString)
  show ?thesis
  proof (cases "length ?a" "length ?b" rule: linorder_cases)
    case less
    with canonical_length_less[OF a b] show ?thesis by (simp add: CompareDecimalStrings_def)
  next
    case greater
    with canonical_length_less[OF b a] show ?thesis by (simp add: CompareDecimalStrings_def)
  next
    case equal
    have "(?a < ?b \<longleftrightarrow> dec_val lhs < dec_val rhs) \<and> (?a = ?b \<longleftrightarrow> dec_val lhs = dec_val rhs)"
      using same_length_less_iff[of ?a ?b] equal canonicalD[OF a] canonicalD[OF b] by simp
    with equal show ?thesis by (auto simp: CompareDecimalStrings_def Let_def)
  qed
qed

section \<open>Properties\<close>

text \<open>C8: \<open>CompareDecimalStrings\<close> on strings of decimal digits (leading zeros and the
  empty string allowed) returns the sign of the difference of the numbers they denote.\<close>

theorem CompareDecimalStrings_correct:
  assumes "\<forall>c \<in> set lhs. is_digit c" "\<forall>c \<in> set rhs. is_digit c"
  shows "CompareDecimalStrings lhs rhs = sgn (int (dec_val lhs) - int (dec_val rhs))"
  using assms by (rule CompareDecimalStrings_sign)

theorem CompareDecimalStrings_correct_witness:
  "list_all is_digit ''0042'' \<and> list_all is_digit ''137'' \<and>
   CompareDecimalStrings ''0042'' ''137'' = -1"
proof -
  have h: "\<forall>c \<in> set ''0042''. is_digit c" "\<forall>c \<in> set ''137''. is_digit c"
    by (simp_all add: is_digit_def)
  show ?thesis using h CompareDecimalStrings_correct[OF h] by (simp add: dec_val_def digit_val_def)
qed

text \<open>C13: \<open>AddDecimalStrings\<close> is addition: on strings of decimal digits of any length
  its result is the canonical decimal numeral of the sum of the two numbers.\<close>

theorem AddDecimalStrings_correct:
  assumes "\<forall>c \<in> set lhs. is_digit c" "\<forall>c \<in> set rhs. is_digit c"
  shows "AddDecimalStrings lhs rhs = dec_digits (dec_val lhs + dec_val rhs)"
proof -
  let ?a = "NormalizeDecimalString lhs" and ?b = "NormalizeDecimalString rhs"
  have dig: "\<forall>c \<in> set ?a. is_digit c" "\<forall>c \<in> set ?b. is_digit c"
    using assms by (blast dest: NormalizeDecimalString_digits)+
  show ?thesis
  proof (cases "length ?a < length ?b")
    case True
    let ?out = "add_loop ?b ?a (length ?b) (length ?a) 0 []"
    have "(\<forall>c \<in> set ?out. is_digit c) \<and> dec_val (rev ?out) = dec_val lhs + dec_val rhs"
      using add_loop_spec[OF dig(2,1), of "[]" "length ?b" "length ?a" 0] by simp
    then have "NormalizeDecimalString (rev ?out) = dec_digits (dec_val lhs + dec_val rhs)"
      by (subst NormalizeDecimalString_eq) simp_all
    with True show ?thesis by (simp add: AddDecimalStrings_def)
  next
    case False
    let ?out = "add_loop ?a ?b (length ?a) (length ?b) 0 []"
    have "(\<forall>c \<in> set ?out. is_digit c) \<and> dec_val (rev ?out) = dec_val lhs + dec_val rhs"
      using add_loop_spec[OF dig, of "[]" "length ?a" "length ?b" 0] by simp
    then have "NormalizeDecimalString (rev ?out) = dec_digits (dec_val lhs + dec_val rhs)"
      by (subst NormalizeDecimalString_eq) simp_all
    with False show ?thesis by (simp add: AddDecimalStrings_def)
  qed
qed

theorem AddDecimalStrings_correct_witness:
  "list_all is_digit ''0999'' \<and> list_all is_digit ''1'' \<and>
   AddDecimalStrings ''0999'' ''1'' = dec_digits 1000"
proof -
  have h: "\<forall>c \<in> set ''0999''. is_digit c" "\<forall>c \<in> set ''1''. is_digit c"
    by (simp_all add: is_digit_def)
  show ?thesis using h AddDecimalStrings_correct[OF h] by (simp add: dec_val_def digit_val_def)
qed

text \<open>C7: \<open>SubtractDecimalStrings\<close> is subtraction truncated at zero: its result is the
  canonical numeral of the difference, and \<open>0\<close> when the subtrahend is the larger number.\<close>

theorem SubtractDecimalStrings_correct:
  assumes "\<forall>c \<in> set lhs. is_digit c" "\<forall>c \<in> set rhs. is_digit c"
  shows "SubtractDecimalStrings lhs rhs = dec_digits (dec_val lhs - dec_val rhs)"
proof (cases "CompareDecimalStrings lhs rhs < 0")
  case True
  then have "dec_val lhs < dec_val rhs"
    using CompareDecimalStrings_sign[OF assms] by simp
  with True show ?thesis by (simp add: SubtractDecimalStrings_def dec_digits_0)
next
  case False
  let ?a = "NormalizeDecimalString lhs" and ?b = "NormalizeDecimalString rhs"
  let ?out = "sub_loop ?a ?b (length ?a) (length ?b) 0 []"
  have le: "dec_val rhs \<le> dec_val lhs"
    using False CompareDecimalStrings_sign[OF assms] by simp
  have can: "canonical ?a" "canonical ?b"
    using assms by (simp_all add: canonical_NormalizeDecimalString)
  then have spec: "(\<forall>c \<in> set ?out. is_digit c) \<and> length ?out = length ?a \<and>
      dec_val (rev ?out) + dec_val rhs = dec_val lhs"
    using sub_loop_spec[of ?a ?b "[]" "length ?a" "length ?b" 0] le by (simp add: canonicalD)
  then have "?out \<noteq> []" using canonicalD[OF can(1)] by auto
  with spec pop_back_zeros_spec[of ?out]
  have "(\<forall>c \<in> set (pop_back_zeros ?out). is_digit c) \<and>
      dec_val (rev (pop_back_zeros ?out)) = dec_val lhs - dec_val rhs" by auto
  then have "NormalizeDecimalString (rev (pop_back_zeros ?out)) = dec_digits (dec_val lhs - dec_val rhs)"
    by (subst NormalizeDecimalString_eq) simp_all
  with False show ?thesis by (simp add: SubtractDecimalStrings_def Let_def)
qed

theorem SubtractDecimalStrings_correct_witness:
  "list_all is_digit ''1000'' \<and> list_all is_digit ''1'' \<and>
   SubtractDecimalStrings ''1000'' ''1'' = dec_digits 999"
proof -
  have h: "\<forall>c \<in> set ''1000''. is_digit c" "\<forall>c \<in> set ''1''. is_digit c"
    by (simp_all add: is_digit_def)
  show ?thesis using h SubtractDecimalStrings_correct[OF h] by (simp add: dec_val_def digit_val_def)
qed

text \<open>C14: \<open>DivideDecimalStringByU64\<close> is division saturating at \<open>UINT64_MAX\<close>, for
  divisors up to a tenth of \<open>2^64\<close>, where the running remainder cannot wrap; division by zero
  gives zero.\<close>

theorem DivideDecimalStringByU64_correct:
  assumes "\<forall>c \<in> set decimal. is_digit c" "10 * unat divisor \<le> 2 ^ 64"
  shows "unat (DivideDecimalStringByU64 decimal divisor) =
         min (dec_val decimal div unat divisor) (2 ^ 64 - 1)"
proof (cases "divisor = 0")
  case True
  then show ?thesis by (simp add: DivideDecimalStringByU64_def)
next
  case False
  let ?n = "NormalizeDecimalString decimal"
  have "\<forall>c \<in> set ?n. is_digit c"
    using assms(1) by (rule NormalizeDecimalString_digits)
  moreover have "0 < unat divisor" using False by (simp add: unat_gt_0)
  ultimately have "unat (div_loop divisor ?n 0 0) =
      min ((0 * 10 ^ length ?n + dec_val ?n) div unat divisor) (2 ^ 64 - 1)"
    using assms(2) by (intro div_loop_spec) simp_all
  with False show ?thesis by (simp add: DivideDecimalStringByU64_def)
qed

theorem DivideDecimalStringByU64_correct_witness:
  "list_all is_digit ''20000000000000000000'' \<and> 10 * unat (7 :: u64) \<le> 2 ^ 64 \<and>
   unat (DivideDecimalStringByU64 ''20000000000000000000'' 7) = 2857142857142857142"
proof -
  have h: "\<forall>c \<in> set ''20000000000000000000''. is_digit c" "10 * unat (7 :: u64) \<le> 2 ^ 64"
    by (simp_all add: is_digit_def)
  show ?thesis using h DivideDecimalStringByU64_correct[OF h] by (simp add: dec_val_def digit_val_def)
qed

text \<open>C30: the bound of the previous property is needed: for a divisor above a tenth of
  \<open>2^64\<close> the remainder of the long division wraps, and \<open>DivideDecimalStringByU64\<close> returns a
  wrong quotient (here 1 for 90000000000000000000 divided by 9500000000000000000, which is 9).\<close>

theorem DivideDecimalStringByU64_remainder_wraps:
  "dec_val ''90000000000000000000'' div unat (9500000000000000000 :: u64) = 9 \<and>
   DivideDecimalStringByU64 ''90000000000000000000'' 9500000000000000000 = 1"
proof -
  have n: "NormalizeDecimalString ''90000000000000000000'' = ''90000000000000000000''"
    by (simp add: NormalizeDecimalString_alt)
  have "DivideDecimalStringByU64 ''90000000000000000000'' 9500000000000000000 = 1"
    by (simp add: DivideDecimalStringByU64_def n Let_def UINT64_MAX_def char_code_def)
  then show ?thesis by (simp add: dec_val_def digit_val_def)
qed

text \<open>C9: after any sequence of \<open>Add\<close> calls whose total stays below \<open>2^128\<close>,
  \<open>MasstreeDecimalAccumulator::ToString\<close> is the decimal numeral of the exact total.\<close>

theorem acc_ToString_total:
  assumes "(\<Sum>d\<leftarrow>ds. unat d) < 2 ^ 128"
  shows "acc_ToString (foldl acc_Add acc_init ds) = dec_digits (\<Sum>d\<leftarrow>ds. unat d)"
proof -
  let ?acc = "foldl acc_Add acc_init ds"
  have v: "unat (acc_value ?acc) = (\<Sum>d\<leftarrow>ds. unat d)"
    using assms by (simp add: unat_acc_fold acc_init_def)
  show ?thesis
    using acc_ToString_eq[of ?acc] by (simp add: v)
qed

theorem acc_ToString_total_witness:
  "(\<Sum>d\<leftarrow>[18446744073709551615, 2 :: u64]. unat d) < 2 ^ 128 \<and>
   dec_val (acc_ToString (foldl acc_Add acc_init [18446744073709551615, 2])) = 18446744073709551617"
proof -
  have h: "(\<Sum>d\<leftarrow>[18446744073709551615, 2 :: u64]. unat d) < 2 ^ 128" by simp
  show ?thesis using h acc_ToString_total[OF h] by simp
qed

end
