(* ===== verification/Optical_Profile.thy ===== *)
theory Optical_Profile
  imports Decimal_Utils
begin

text \<open>
  The geometry of the optical cluster (\<open>src/src/mds/masstree_meta/MasstreeOpticalProfile.h\<close>) and
  the sequential image allocator (\<open>MasstreeOpticalAllocator.cpp\<close>).  A profile numbers every image
  of every disk of every node by one 64-bit global image id; the allocator walks a cursor over the
  images and fills each one up to its capacity.  Shown here: the numbering is a bijection between
  valid positions and ids, the two layouts of the code base convert into each other without losing
  a position, and the allocator terminates, never overfills an image, and gives up only at the end
  of the cluster.
\<close>

section \<open>Profile and cursor\<close>

record MasstreeOpticalClusterCursor =
  node_index :: u32
  disk_index :: u32
  image_index_in_disk :: u32
  image_used_bytes :: u64

record MasstreeOpticalProfile =
  layout_version :: u32
  optical_node_count :: u32
  disks_per_node :: u32
  small_disks_per_node :: u32
  large_disks_per_node :: u32
  small_disk_capacity_bytes :: u64
  large_disk_capacity_bytes :: u64
  images_per_small_disk :: u32
  images_per_large_disk :: u32
  image_capacity_bytes :: u64
  min_file_size_bytes :: u64
  max_file_size_bytes :: u64

definition Fixed :: MasstreeOpticalProfile where
  "Fixed = \<lparr>layout_version = 2, optical_node_count = 10000, disks_per_node = 10000,
     small_disks_per_node = 10000, large_disks_per_node = 0,
     small_disk_capacity_bytes = 2000000000000, large_disk_capacity_bytes = 2000000000000,
     images_per_small_disk = 20, images_per_large_disk = 20,
     image_capacity_bytes = 100000000000,
     min_file_size_bytes = 500000000, max_file_size_bytes = 1500000000\<rparr>"

definition LegacyMixed :: MasstreeOpticalProfile where
  "LegacyMixed = Fixed\<lparr>layout_version := 1, small_disks_per_node := 9000,
     large_disks_per_node := 1000, small_disk_capacity_bytes := 1000000000000,
     large_disk_capacity_bytes := 10000000000000, images_per_small_disk := 10,
     images_per_large_disk := 100\<rparr>"

definition ImagesPerDisk :: "MasstreeOpticalProfile \<Rightarrow> u32 \<Rightarrow> u32" where
  "ImagesPerDisk p disk =
     (if disk < small_disks_per_node p then images_per_small_disk p else images_per_large_disk p)"

definition DiskCapacityBytes :: "MasstreeOpticalProfile \<Rightarrow> u32 \<Rightarrow> u64" where
  "DiskCapacityBytes p disk =
     (if disk < small_disks_per_node p then small_disk_capacity_bytes p
      else large_disk_capacity_bytes p)"

definition ImagesPerNode :: "MasstreeOpticalProfile \<Rightarrow> u32" where
  "ImagesPerNode p = small_disks_per_node p * images_per_small_disk p +
                     large_disks_per_node p * images_per_large_disk p"

definition GlobalImageId :: "MasstreeOpticalProfile \<Rightarrow> u32 \<Rightarrow> u32 \<Rightarrow> u32 \<Rightarrow> u64" where
  "GlobalImageId p node disk img =
     (let image_index_in_node =
        (if disk < small_disks_per_node p then
           ucast disk * ucast (images_per_small_disk p) + ucast img
         else
           let large_disk_slot = disk - small_disks_per_node p
           in ucast (small_disks_per_node p) * ucast (images_per_small_disk p) +
              ucast large_disk_slot * ucast (images_per_large_disk p) + ucast img)
      in ucast node * ucast (ImagesPerNode p) + image_index_in_node)"

definition GlobalImageId_cursor :: "MasstreeOpticalProfile \<Rightarrow> MasstreeOpticalClusterCursor \<Rightarrow> u64" where
  "GlobalImageId_cursor p c = GlobalImageId p (node_index c) (disk_index c) (image_index_in_disk c)"

definition DecodeGlobalImageId :: "MasstreeOpticalProfile \<Rightarrow> u64 \<Rightarrow> (u32 \<times> u32 \<times> u32) option" where
  "DecodeGlobalImageId p global_image_id =
     (let images_per_node = (ucast (ImagesPerNode p) :: u64)
      in if images_per_node = 0 then None
         else let parsed_node_index = global_image_id div images_per_node
              in if parsed_node_index \<ge> ucast (optical_node_count p) then None
                 else let image_index_in_node = (ucast (global_image_id mod images_per_node) :: u32);
                          small_region_images = small_disks_per_node p * images_per_small_disk p;
                          parsed =
                            (if image_index_in_node < small_region_images then
                               Some (image_index_in_node div images_per_small_disk p,
                                     image_index_in_node mod images_per_small_disk p)
                             else let large_region = image_index_in_node - small_region_images
                                  in if images_per_large_disk p = 0 then None
                                     else Some (small_disks_per_node p + large_region div images_per_large_disk p,
                                                large_region mod images_per_large_disk p))
                      in (case parsed of None \<Rightarrow> None
                          | Some (parsed_disk_index, parsed_image_index_in_disk) \<Rightarrow>
                              if parsed_disk_index \<ge> disks_per_node p \<or>
                                 parsed_image_index_in_disk \<ge> ImagesPerDisk p parsed_disk_index
                              then None
                              else Some (ucast parsed_node_index, parsed_disk_index, parsed_image_index_in_disk)))"

definition NodeId :: "u32 \<Rightarrow> string" where
  "NodeId node = ''optical-node-'' @ to_string node"

definition DiskId :: "u32 \<Rightarrow> string" where
  "DiskId disk = ''disk-'' @ to_string disk"

definition IsValidCursor :: "MasstreeOpticalProfile \<Rightarrow> MasstreeOpticalClusterCursor \<Rightarrow> bool" where
  "IsValidCursor p c =
     (if node_index c \<ge> optical_node_count p \<or> disk_index c \<ge> disks_per_node p then False
      else if image_index_in_disk c \<ge> ImagesPerDisk p (disk_index c) then False
      else image_used_bytes c \<le> image_capacity_bytes p)"

definition ConvertCursorTo ::
  "MasstreeOpticalProfile \<Rightarrow> MasstreeOpticalClusterCursor \<Rightarrow> MasstreeOpticalProfile \<Rightarrow>
   MasstreeOpticalClusterCursor option" where
  "ConvertCursorTo p source_cursor target_profile =
     (if \<not> IsValidCursor p source_cursor then None
      else case DecodeGlobalImageId target_profile (GlobalImageId_cursor p source_cursor) of
             None \<Rightarrow> None
           | Some (n, d, i) \<Rightarrow> Some \<lparr>node_index = n, disk_index = d, image_index_in_disk = i,
                                    image_used_bytes = image_used_bytes source_cursor\<rparr>)"

definition ConvertLocationTo ::
  "MasstreeOpticalProfile \<Rightarrow> u32 \<Rightarrow> u32 \<Rightarrow> u32 \<Rightarrow> MasstreeOpticalProfile \<Rightarrow> (u32 \<times> u32 \<times> u32) option" where
  "ConvertLocationTo p source_node source_disk source_image target_profile =
     (if source_node \<ge> optical_node_count p \<or> source_disk \<ge> disks_per_node p \<or>
         source_image \<ge> ImagesPerDisk p source_disk then None
      else DecodeGlobalImageId target_profile (GlobalImageId p source_node source_disk source_image))"

definition ImageId :: "MasstreeOpticalProfile \<Rightarrow> u64 \<Rightarrow> string" where
  "ImageId p global_image_id =
     (case DecodeGlobalImageId p global_image_id of
        None \<Rightarrow> []
      | Some (n, d, i) \<Rightarrow> ''img-'' @ to_string n @ ''-'' @ to_string d @ ''-'' @ to_string i)"

definition TotalCapacityBytesDecimal :: "MasstreeOpticalProfile \<Rightarrow> string" where
  "TotalCapacityBytesDecimal p =
     (let per_node_capacity =
        foldl (\<lambda>cap disk. cap + DiskCapacityBytes p (of_nat disk)) 0 [0..<unat (disks_per_node p)];
          total = foldl (\<lambda>acc _. acc_Add acc per_node_capacity) acc_init [0..<unat (optical_node_count p)]
      in acc_ToString total)"

section \<open>The allocator\<close>

record MasstreeOpticalAllocator =
  alloc_profile :: MasstreeOpticalProfile
  alloc_cursor :: MasstreeOpticalClusterCursor

text \<open>The three error messages of \<open>Allocate\<close> and \<open>NormalizeCursor\<close>.\<close>

datatype alloc_error =
    InvalidAllocationArgs   \<comment> \<open>invalid masstree optical allocation args\<close>
  | FileExceedsImage        \<comment> \<open>file size exceeds masstree optical image capacity\<close>
  | CapacityExhausted       \<comment> \<open>masstree optical cluster capacity is exhausted\<close>

function NormalizeCursor ::
  "MasstreeOpticalProfile \<Rightarrow> MasstreeOpticalClusterCursor \<Rightarrow> bool \<times> MasstreeOpticalClusterCursor" where
  "NormalizeCursor p c =
     (if node_index c < optical_node_count p then
        if disk_index c \<ge> disks_per_node p then
          NormalizeCursor p (c\<lparr>disk_index := 0, image_index_in_disk := 0, image_used_bytes := 0,
                               node_index := node_index c + 1\<rparr>)
        else if image_index_in_disk c \<ge> ImagesPerDisk p (disk_index c) then
          NormalizeCursor p (c\<lparr>image_index_in_disk := 0, image_used_bytes := 0,
                               disk_index := disk_index c + 1\<rparr>)
        else if image_used_bytes c \<ge> image_capacity_bytes p then
          NormalizeCursor p (c\<lparr>image_used_bytes := 0, image_index_in_disk := image_index_in_disk c + 1\<rparr>)
        else (True, c)
      else (False, c))"
  by pat_completeness auto
termination
proof (relation "measures [\<lambda>(p, c). unat (optical_node_count p) - unat (node_index c),
    \<lambda>(p, c). unat (disks_per_node p) - unat (disk_index c),
    \<lambda>(p, c). unat (ImagesPerDisk p (disk_index c)) - unat (image_index_in_disk c)]", goal_cases)
  case 1
  then show ?case by simp
next
  case (2 p c)
  then have "unat (node_index c + 1) = Suc (unat (node_index c))" by (simp add: unat_suc_less)
  with 2 show ?case by (auto simp: word_less_nat_alt)
next
  case (3 p c)
  then have "unat (disk_index c + 1) = Suc (unat (disk_index c))" by (simp add: unat_suc_less not_le)
  with 3 show ?case by (auto simp: word_less_nat_alt not_le)
next
  case (4 p c)
  then have "unat (image_index_in_disk c + 1) = Suc (unat (image_index_in_disk c))"
    by (simp add: unat_suc_less not_le)
  with 4 show ?case by (auto simp: word_less_nat_alt not_le)
qed

declare NormalizeCursor.simps [simp del]

definition AdvanceToNextImage ::
  "MasstreeOpticalProfile \<Rightarrow> MasstreeOpticalClusterCursor \<Rightarrow> bool \<times> MasstreeOpticalClusterCursor" where
  "AdvanceToNextImage p c =
     NormalizeCursor p (c\<lparr>image_used_bytes := 0, image_index_in_disk := image_index_in_disk c + 1\<rparr>)"

definition Allocate ::
  "MasstreeOpticalAllocator \<Rightarrow> u64 \<Rightarrow> (alloc_error + u64) \<times> MasstreeOpticalAllocator" where
  "Allocate a file_size_bytes =
     (let p = alloc_profile a
      in if file_size_bytes = 0 then (Inl InvalidAllocationArgs, a)
         else if file_size_bytes > image_capacity_bytes p then (Inl FileExceedsImage, a)
         else let (ok, c) = NormalizeCursor p (alloc_cursor a)
              in if \<not> ok then (Inl CapacityExhausted, a\<lparr>alloc_cursor := c\<rparr>)
                 else let (ok, c) = (if image_used_bytes c + file_size_bytes > image_capacity_bytes p
                                     then AdvanceToNextImage p c else (True, c))
                      in if \<not> ok then (Inl CapacityExhausted, a\<lparr>alloc_cursor := c\<rparr>)
                         else (Inr (GlobalImageId_cursor p c),
                               a\<lparr>alloc_cursor := c\<lparr>image_used_bytes := image_used_bytes c + file_size_bytes\<rparr>\<rparr>))"

section \<open>Positions as natural numbers\<close>

text \<open>
  A profile is well formed when its disks are its small and large disks and the images of a node
  can be counted in 32 bits; both profiles of the code base are.
\<close>

definition images_of_node :: "MasstreeOpticalProfile \<Rightarrow> nat" where
  "images_of_node p = unat (small_disks_per_node p) * unat (images_per_small_disk p) +
                      unat (large_disks_per_node p) * unat (images_per_large_disk p)"

definition profile_ok :: "MasstreeOpticalProfile \<Rightarrow> bool" where
  "profile_ok p \<longleftrightarrow>
     unat (disks_per_node p) = unat (small_disks_per_node p) + unat (large_disks_per_node p) \<and>
     images_of_node p < 2 ^ 32"

definition valid_location :: "MasstreeOpticalProfile \<Rightarrow> u32 \<Rightarrow> u32 \<Rightarrow> u32 \<Rightarrow> bool" where
  "valid_location p n d i \<longleftrightarrow>
     n < optical_node_count p \<and> d < disks_per_node p \<and> i < ImagesPerDisk p d"

definition disk_base :: "MasstreeOpticalProfile \<Rightarrow> nat \<Rightarrow> nat" where
  "disk_base p d =
     (if d < unat (small_disks_per_node p) then d * unat (images_per_small_disk p)
      else unat (small_disks_per_node p) * unat (images_per_small_disk p) +
           (d - unat (small_disks_per_node p)) * unat (images_per_large_disk p))"

definition image_pos :: "MasstreeOpticalProfile \<Rightarrow> u32 \<Rightarrow> u32 \<Rightarrow> u32 \<Rightarrow> nat" where
  "image_pos p n d i = unat n * images_of_node p + (disk_base p (unat d) + unat i)"

definition total_images :: "MasstreeOpticalProfile \<Rightarrow> nat" where
  "total_images p = unat (optical_node_count p) * images_of_node p"

lemma profile_ok_Fixed: "profile_ok Fixed"
  by (simp add: profile_ok_def Fixed_def images_of_node_def)

lemma profile_ok_LegacyMixed: "profile_ok LegacyMixed"
  by (simp add: profile_ok_def LegacyMixed_def Fixed_def images_of_node_def)

lemma unat_ImagesPerNode: "profile_ok p \<Longrightarrow> unat (ImagesPerNode p) = images_of_node p"
  by (simp add: ImagesPerNode_def profile_ok_def images_of_node_def unat_word_ariths)

lemma disk_base_Suc:
  "disk_base p (Suc d) = disk_base p d +
     (if d < unat (small_disks_per_node p) then unat (images_per_small_disk p)
      else unat (images_per_large_disk p))"
proof (cases "unat (small_disks_per_node p)" "Suc d" rule: linorder_cases)
  case less
  then show ?thesis by (simp add: disk_base_def Suc_diff_le)
next
  case equal
  then have "d < unat (small_disks_per_node p)" by simp
  with equal show ?thesis by (simp add: disk_base_def)
next
  case greater
  then show ?thesis by (simp add: disk_base_def)
qed

lemma unat_ImagesPerDisk:
  "unat (ImagesPerDisk p d) =
     (if unat d < unat (small_disks_per_node p) then unat (images_per_small_disk p)
      else unat (images_per_large_disk p))"
  by (simp add: ImagesPerDisk_def word_less_nat_alt)

lemma disk_base_step: "disk_base p (Suc (unat d)) = disk_base p (unat d) + unat (ImagesPerDisk p d)"
  by (simp add: disk_base_Suc unat_ImagesPerDisk)

lemma disk_base_mono: "d \<le> e \<Longrightarrow> disk_base p d \<le> disk_base p e"
  by (rule lift_Suc_mono_le[of "disk_base p"]) (simp_all add: disk_base_Suc)

lemma disk_base_disks: "profile_ok p \<Longrightarrow> disk_base p (unat (disks_per_node p)) = images_of_node p"
  by (auto simp: profile_ok_def disk_base_def images_of_node_def)

lemma location_in_node:
  assumes "profile_ok p" "d < disks_per_node p" "i < ImagesPerDisk p d"
  shows "disk_base p (unat d) + unat i < images_of_node p"
proof -
  have "disk_base p (unat d) + unat i < disk_base p (Suc (unat d))"
    using assms(3) by (simp add: disk_base_step word_less_nat_alt)
  also have "\<dots> \<le> disk_base p (unat (disks_per_node p))"
    using assms(2) by (intro disk_base_mono) (simp add: word_less_nat_alt Suc_le_eq)
  finally show ?thesis using assms(1) by (simp add: disk_base_disks)
qed

lemma image_pos_less_total:
  assumes "profile_ok p" "valid_location p n d i"
  shows "image_pos p n d i < total_images p"
proof -
  have "image_pos p n d i < Suc (unat n) * images_of_node p"
    using location_in_node[OF assms(1)] assms(2) by (simp add: image_pos_def valid_location_def)
  also have "\<dots> \<le> total_images p"
    using assms(2) unfolding total_images_def
    by (intro mult_right_mono) (simp_all add: valid_location_def word_less_nat_alt Suc_le_eq)
  finally show ?thesis .
qed

lemma total_images_less: "profile_ok p \<Longrightarrow> total_images p < 2 ^ 64"
proof -
  assume "profile_ok p"
  then have "images_of_node p < 2 ^ 32" by (simp add: profile_ok_def)
  moreover have "unat (optical_node_count p) < 2 ^ 32" by (rule unat_u32_lt)
  ultimately have "total_images p \<le> (2 ^ 32 - 1) * (2 ^ 32 - 1)"
    unfolding total_images_def by (intro mult_le_mono) linarith+
  then show ?thesis by simp
qed

section \<open>The image numbering\<close>

lemma unat_GlobalImageId:
  assumes ok: "profile_ok p" and "valid_location p n d i"
  shows "unat (GlobalImageId p n d i) = image_pos p n d i"
proof -
  let ?ips = "images_per_small_disk p" and ?ipl = "images_per_large_disk p"
    and ?s = "small_disks_per_node p"
  define inner :: u64 where "inner = (if d < ?s then ucast d * ucast ?ips + ucast i
      else ucast ?s * ucast ?ips + ucast (d - ?s) * ucast ?ipl + ucast i)"
  have off: "disk_base p (unat d) + unat i < images_of_node p"
    using location_in_node[OF ok] assms(2) by (simp add: valid_location_def)
  have node: "images_of_node p < 2 ^ 32" using ok by (simp add: profile_ok_def)
  have inner: "unat inner = disk_base p (unat d) + unat i"
  proof (cases "d < ?s")
    case True
    then have "unat d * unat ?ips + unat i < 2 ^ 64"
      using off node by (simp add: disk_base_def word_less_nat_alt)
    with True show ?thesis
      by (simp add: inner_def disk_base_def word_less_nat_alt unat_word_ariths unat_ucast_up)
  next
    case False
    then have sub: "unat (d - ?s) = unat d - unat ?s" by (simp add: unat_sub)
    from False have "unat ?s * unat ?ips + (unat d - unat ?s) * unat ?ipl + unat i < 2 ^ 64"
      using off node by (simp add: disk_base_def word_less_nat_alt)
    with False sub show ?thesis
      by (simp add: inner_def disk_base_def word_less_nat_alt unat_word_ariths unat_ucast_up)
  qed
  have "image_pos p n d i < 2 ^ 64"
    using image_pos_less_total[OF ok assms(2)] total_images_less[OF ok] by linarith
  moreover have "GlobalImageId p n d i = ucast n * ucast (ImagesPerNode p) + inner"
    by (simp add: GlobalImageId_def inner_def Let_def)
  ultimately show ?thesis
    using inner by (simp add: image_pos_def unat_word_ariths unat_ucast_up unat_ImagesPerNode[OF ok])
qed

lemma image_pos_inject:
  assumes ok: "profile_ok p" and v: "valid_location p n d i" "valid_location p n' d' i'"
    and eq: "image_pos p n d i = image_pos p n' d' i'"
  shows "n = n' \<and> d = d' \<and> i = i'"
proof -
  let ?o = "disk_base p (unat d) + unat i" and ?o' = "disk_base p (unat d') + unat i'"
  have o: "?o < images_of_node p" "?o' < images_of_node p"
    using location_in_node[OF ok] v by (simp_all add: valid_location_def)
  have "image_pos p n d i div images_of_node p = unat n"
       "image_pos p n d i mod images_of_node p = ?o"
       "image_pos p n' d' i' div images_of_node p = unat n'"
       "image_pos p n' d' i' mod images_of_node p = ?o'"
    using o by (simp_all add: image_pos_def)
  then have n: "unat n = unat n'" and oo: "?o = ?o'" using eq by simp_all
  have lt: "disk_base p e + unat j < disk_base p (unat e')"
    if "e = unat d0" "e < unat e'" "j < ImagesPerDisk p d0" for e e' j and d0 :: u32
  proof -
    have "disk_base p e + unat j < disk_base p (Suc e)"
      using that by (simp add: disk_base_step word_less_nat_alt)
    also have "\<dots> \<le> disk_base p (unat e')" using that(2) by (intro disk_base_mono) simp
    finally show ?thesis .
  qed
  have "unat d = unat d'"
  proof (cases "unat d" "unat d'" rule: linorder_cases)
    case less
    with lt[of "unat d" d d' i] v oo show ?thesis by (simp add: valid_location_def)
  next
    case greater
    with lt[of "unat d'" d' d i'] v oo show ?thesis by (simp add: valid_location_def)
  qed simp
  with oo n show ?thesis by (simp add: word_unat_eq_iff)
qed

lemma decode_in_range:
  assumes ok: "profile_ok p" and g: "unat g < total_images p"
  shows "\<exists>n d i. DecodeGlobalImageId p g = Some (n, d, i) \<and> valid_location p n d i \<and>
                 image_pos p n d i = unat g"
proof -
  let ?N = "images_of_node p" and ?s = "small_disks_per_node p" and ?l = "large_disks_per_node p"
    and ?ips = "images_per_small_disk p" and ?ipl = "images_per_large_disk p"
  have disks: "unat (disks_per_node p) = unat ?s + unat ?l" and N: "?N < 2 ^ 32"
    using ok by (simp_all add: profile_ok_def)
  have N0: "0 < ?N" using g by (cases "?N") (simp_all add: total_images_def)
  define node where "node = unat g div ?N"
  define r where "r = unat g mod ?N"
  have r: "r < ?N" using N0 by (simp add: r_def)
  have node: "node < unat (optical_node_count p)"
    using g unfolding node_def total_images_def by (intro less_mult_imp_div_less)
  have ipn: "unat (ucast (ImagesPerNode p) :: u64) = ?N"
    by (simp add: unat_ucast_up unat_ImagesPerNode[OF ok])
  have pn: "unat (g div ucast (ImagesPerNode p)) = node" by (simp add: unat_div ipn node_def)
  have pr: "unat (ucast (g mod ucast (ImagesPerNode p)) :: u32) = r"
    using r N by (simp add: unat_ucast_mod unat_mod unat_ImagesPerNode[OF ok] r_def)
  have un: "unat (ucast (g div ucast (ImagesPerNode p)) :: u32) = node"
    using node unat_u32_lt[of "optical_node_count p"] by (simp add: unat_ucast_mod pn)
  have region: "unat (?s * ?ips) = unat ?s * unat ?ips"
    using N by (intro unat_mult_no_wrap) (simp add: images_of_node_def)
  have g_eq: "unat g = node * ?N + r" by (simp add: node_def r_def)
  have c0: "(ucast (ImagesPerNode p) :: u64) \<noteq> 0" using N0 ipn by (metis less_irrefl unat_0)
  have c1: "\<not> g div ucast (ImagesPerNode p) \<ge> ucast (optical_node_count p)"
    using node by (simp add: word_le_nat_alt pn unat_ucast_up)
  show ?thesis
  proof (cases "r < unat ?s * unat ?ips")
    case True
    let ?d = "ucast (g mod ucast (ImagesPerNode p)) div ?ips :: u32"
    let ?i = "ucast (g mod ucast (ImagesPerNode p)) mod ?ips :: u32"
    have ips: "0 < unat ?ips" using True by (cases "unat ?ips") simp_all
    have d: "unat ?d = r div unat ?ips" and i: "unat ?i = r mod unat ?ips"
      by (simp_all add: unat_div unat_mod pr)
    have ds: "unat ?d < unat ?s" unfolding d using True by (intro less_mult_imp_div_less)
    have IPD: "unat (ImagesPerDisk p ?d) = unat ?ips" using ds by (simp add: unat_ImagesPerDisk)
    have v: "valid_location p (ucast (g div ucast (ImagesPerNode p))) ?d ?i"
      using ds disks i ips IPD node un by (simp add: valid_location_def word_less_nat_alt)
    have "DecodeGlobalImageId p g = Some (ucast (g div ucast (ImagesPerNode p)), ?d, ?i)"
      using c0 c1 True v
      by (simp add: DecodeGlobalImageId_def Let_def word_less_nat_alt pr region valid_location_def not_le)
    moreover have "image_pos p (ucast (g div ucast (ImagesPerNode p))) ?d ?i = unat g"
      using ds by (simp add: image_pos_def un g_eq disk_base_def d i)
    ultimately show ?thesis using v by blast
  next
    case False
    let ?lr = "ucast (g mod ucast (ImagesPerNode p)) - ?s * ?ips :: u32"
    let ?d = "?s + ?lr div ?ipl" and ?i = "?lr mod ?ipl"
    have lr: "unat ?lr = r - unat ?s * unat ?ips"
      using False by (subst unat_sub) (simp_all add: word_le_nat_alt pr region)
    have lt: "unat ?lr < unat ?l * unat ?ipl" using False r by (simp add: lr images_of_node_def)
    then have ipl: "0 < unat ?ipl" by (cases "unat ?ipl") simp_all
    have q: "unat ?lr div unat ?ipl < unat ?l" using lt by (rule less_mult_imp_div_less)
    have d: "unat ?d = unat ?s + unat ?lr div unat ?ipl"
      using q disks unat_u32_lt[of "disks_per_node p"]
      by (subst unat_add_no_wrap) (simp_all add: unat_div)
    have IPD: "unat (ImagesPerDisk p ?d) = unat ?ipl" by (simp add: unat_ImagesPerDisk d)
    have v: "valid_location p (ucast (g div ucast (ImagesPerNode p))) ?d ?i"
      using q disks d ipl IPD node un by (simp add: valid_location_def word_less_nat_alt unat_mod)
    have nz: "?ipl \<noteq> 0" using ipl by (simp add: unat_gt_0)
    have "DecodeGlobalImageId p g = Some (ucast (g div ucast (ImagesPerNode p)), ?d, ?i)"
      using c0 c1 False v nz
      by (simp add: DecodeGlobalImageId_def Let_def word_less_nat_alt pr region valid_location_def not_le)
    moreover have "image_pos p (ucast (g div ucast (ImagesPerNode p))) ?d ?i = unat g"
      using False by (simp add: image_pos_def un g_eq disk_base_def d unat_mod lr)
    ultimately show ?thesis using v by blast
  qed
qed

lemma decode_out_of_range:
  assumes ok: "profile_ok p" and g: "\<not> unat g < total_images p"
  shows "DecodeGlobalImageId p g = None"
proof (cases "images_of_node p = 0")
  case True
  then have "(ucast (ImagesPerNode p) :: u64) = 0"
    using unat_ImagesPerNode[OF ok] by (simp add: unat_eq_0)
  then show ?thesis by (simp add: DecodeGlobalImageId_def)
next
  case False
  then have "unat (optical_node_count p) \<le> unat g div images_of_node p"
    using g by (simp add: total_images_def not_less less_eq_div_iff_mult_less_eq)
  then have "g div ucast (ImagesPerNode p) \<ge> ucast (optical_node_count p)"
    by (simp add: word_le_nat_alt unat_div unat_ucast_up unat_ImagesPerNode[OF ok])
  then show ?thesis by (simp add: DecodeGlobalImageId_def Let_def)
qed

lemma decode_iff:
  assumes ok: "profile_ok p"
  shows "DecodeGlobalImageId p g = Some (n, d, i) \<longleftrightarrow>
         valid_location p n d i \<and> GlobalImageId p n d i = g"
proof
  assume dec: "DecodeGlobalImageId p g = Some (n, d, i)"
  then have "unat g < total_images p" using decode_out_of_range[OF ok, of g] by fastforce
  from decode_in_range[OF ok this] dec have "valid_location p n d i" "image_pos p n d i = unat g" by auto
  then show "valid_location p n d i \<and> GlobalImageId p n d i = g"
    using unat_GlobalImageId[OF ok] by (simp add: word_unat_eq_iff)
next
  assume v: "valid_location p n d i \<and> GlobalImageId p n d i = g"
  then have pos: "unat g = image_pos p n d i" using unat_GlobalImageId[OF ok] by auto
  then have "unat g < total_images p" using image_pos_less_total[OF ok] v by simp
  from decode_in_range[OF ok this] obtain n' d' i' where
    "DecodeGlobalImageId p g = Some (n', d', i')" "valid_location p n' d' i'"
    "image_pos p n' d' i' = unat g" by blast
  with image_pos_inject[OF ok] v pos show "DecodeGlobalImageId p g = Some (n, d, i)" by metis
qed

section \<open>The cursor walk\<close>

abbreviation cursor_pos :: "MasstreeOpticalProfile \<Rightarrow> MasstreeOpticalClusterCursor \<Rightarrow> nat" where
  "cursor_pos p c \<equiv> image_pos p (node_index c) (disk_index c) (image_index_in_disk c)"

abbreviation cursor_in :: "MasstreeOpticalProfile \<Rightarrow> MasstreeOpticalClusterCursor \<Rightarrow> bool" where
  "cursor_in p c \<equiv> valid_location p (node_index c) (disk_index c) (image_index_in_disk c)"

text \<open>
  Between two images the cursor may stand one past the last image of a disk or one past the last
  disk of a node; such a boundary position still has a number, that of the next image.
\<close>

definition cursor_boundary :: "MasstreeOpticalProfile \<Rightarrow> MasstreeOpticalClusterCursor \<Rightarrow> bool" where
  "cursor_boundary p c \<longleftrightarrow>
     (disk_index c < disks_per_node p \<and> image_index_in_disk c \<le> ImagesPerDisk p (disk_index c)) \<or>
     (disk_index c = disks_per_node p \<and> image_index_in_disk c = 0)"

lemma IsValidCursor_iff:
  "IsValidCursor p c \<longleftrightarrow> cursor_in p c \<and> image_used_bytes c \<le> image_capacity_bytes p"
  by (auto simp: IsValidCursor_def valid_location_def)

lemma NormalizeCursor_stay:
  "cursor_in p c \<Longrightarrow> image_used_bytes c < image_capacity_bytes p \<Longrightarrow> NormalizeCursor p c = (True, c)"
  by (subst NormalizeCursor.simps) (auto simp: valid_location_def dest: leD)

lemma NormalizeCursor_walk:
  assumes "profile_ok p" "0 < image_capacity_bytes p" "cursor_boundary p c" "image_used_bytes c = 0"
  shows "(case NormalizeCursor p c of
     (True, c') \<Rightarrow> cursor_in p c' \<and> image_used_bytes c' = 0 \<and> cursor_pos p c' = cursor_pos p c
   | (False, c') \<Rightarrow> \<not> node_index c' < optical_node_count p \<and> total_images p \<le> cursor_pos p c)"
  using assms
proof (induction p c rule: NormalizeCursor.induct)
  case (1 p c)
  consider (past) "\<not> node_index c < optical_node_count p"
    | (node) "node_index c < optical_node_count p" "disk_index c \<ge> disks_per_node p"
    | (disk) "node_index c < optical_node_count p" "\<not> disk_index c \<ge> disks_per_node p"
        "image_index_in_disk c \<ge> ImagesPerDisk p (disk_index c)"
    | (here) "cursor_in p c"
    by (metis valid_location_def not_le)
  then show ?case
  proof cases
    case past
    then have "total_images p \<le> unat (node_index c) * images_of_node p"
      unfolding total_images_def by (intro mult_right_mono) (simp_all add: word_less_nat_alt)
    with past show ?thesis by (subst NormalizeCursor.simps) (simp add: image_pos_def)
  next
    case node
    let ?c = "c\<lparr>disk_index := 0, image_index_in_disk := 0, image_used_bytes := 0, node_index := node_index c + 1\<rparr>"
    have eq: "NormalizeCursor p c = NormalizeCursor p ?c"
      using node by (subst NormalizeCursor.simps) simp
    have b: "disk_index c = disks_per_node p" "image_index_in_disk c = 0"
      using node(2) "1.prems"(3) by (auto simp: cursor_boundary_def)
    have pos: "cursor_pos p ?c = cursor_pos p c"
      using node(1) disk_base_disks[OF "1.prems"(1)]
      by (simp add: image_pos_def b unat_suc_less disk_base_def[of p 0])
    have "cursor_boundary p ?c" by (auto simp: cursor_boundary_def word_neq_0_conv)
    then show ?thesis
      using "1.IH"(1)[OF node] "1.prems" pos eq by (auto split: prod.splits bool.splits)
  next
    case disk
    let ?c = "c\<lparr>image_index_in_disk := 0, image_used_bytes := 0, disk_index := disk_index c + 1\<rparr>"
    have eq: "NormalizeCursor p c = NormalizeCursor p ?c"
      using disk by (subst NormalizeCursor.simps) simp
    have b: "image_index_in_disk c = ImagesPerDisk p (disk_index c)"
      using disk "1.prems"(3) by (auto simp: cursor_boundary_def)
    have su: "unat (disk_index c + 1) = Suc (unat (disk_index c))"
      using disk(2) by (simp add: not_le unat_suc_less)
    have pos: "cursor_pos p ?c = cursor_pos p c"
      by (simp add: image_pos_def b su disk_base_step)
    have "disk_index c + 1 < disks_per_node p \<or> disk_index c + 1 = disks_per_node p"
      using disk(2) su by (auto simp: word_less_nat_alt word_le_nat_alt word_unat_eq_iff)
    then have "cursor_boundary p ?c" by (auto simp: cursor_boundary_def)
    then show ?thesis
      using "1.IH"(2)[OF disk] "1.prems" pos eq by (auto split: prod.splits bool.splits)
  next
    case here
    then show ?thesis using "1.prems" by (simp add: NormalizeCursor_stay)
  qed
qed

lemma next_image_boundary:
  assumes "profile_ok p" "cursor_in p c"
  defines "c' \<equiv> c\<lparr>image_used_bytes := 0, image_index_in_disk := image_index_in_disk c + 1\<rparr>"
  shows "cursor_boundary p c'" "cursor_pos p c' = Suc (cursor_pos p c)"
proof -
  have su: "unat (image_index_in_disk c + 1) = Suc (unat (image_index_in_disk c))"
    using assms(2) by (auto simp: valid_location_def dest: unat_suc_less)
  then have "image_index_in_disk c + 1 \<le> ImagesPerDisk p (disk_index c)"
    using assms(2) by (simp add: valid_location_def word_le_nat_alt word_less_nat_alt)
  then show "cursor_boundary p c'"
    using assms(2) by (simp add: c'_def cursor_boundary_def valid_location_def)
  show "cursor_pos p c' = Suc (cursor_pos p c)" by (simp add: c'_def image_pos_def su)
qed

lemma AdvanceToNextImage_spec:
  assumes "profile_ok p" "0 < image_capacity_bytes p" "cursor_in p c"
  shows "(case AdvanceToNextImage p c of
     (True, c') \<Rightarrow> cursor_in p c' \<and> image_used_bytes c' = 0 \<and> cursor_pos p c' = Suc (cursor_pos p c)
   | (False, c') \<Rightarrow> \<not> node_index c' < optical_node_count p \<and> total_images p \<le> Suc (cursor_pos p c))"
  using NormalizeCursor_walk[OF assms(1,2) next_image_boundary(1)[OF assms(1,3)]]
    next_image_boundary(2)[OF assms(1,3)]
  by (auto simp: AdvanceToNextImage_def split: prod.splits bool.splits)

lemma NormalizeCursor_full:
  assumes "cursor_in p c" "image_capacity_bytes p \<le> image_used_bytes c"
  shows "NormalizeCursor p c = AdvanceToNextImage p c"
  using assms by (subst NormalizeCursor.simps) (auto simp: AdvanceToNextImage_def valid_location_def dest: leD)

section \<open>Allocation\<close>

text \<open>
  A cursor is usable when it stands on an image that is not overfull; it is spent once it has
  passed the last node.  Every allocation keeps one of the two.
\<close>

definition spent :: "MasstreeOpticalProfile \<Rightarrow> MasstreeOpticalClusterCursor \<Rightarrow> bool" where
  "spent p c \<longleftrightarrow> \<not> node_index c < optical_node_count p"

lemma NormalizeCursor_spent: "spent p c \<Longrightarrow> NormalizeCursor p c = (False, c)"
  by (subst NormalizeCursor.simps) (simp add: spent_def)

text \<open>
  The effect of a successful \<open>Allocate\<close> from a usable cursor: the file either joins the current
  image, or opens the next one, or (when the current image was already full) the one after it.
\<close>

definition capacity_ok :: "MasstreeOpticalProfile \<Rightarrow> bool" where
  "capacity_ok p \<longleftrightarrow> unat (image_capacity_bytes p) \<le> 2 ^ 63"

lemma used_plus_size:
  assumes "capacity_ok p" "image_used_bytes c < image_capacity_bytes p" "sz \<le> image_capacity_bytes p"
  shows "unat (image_used_bytes c + sz) = unat (image_used_bytes c) + unat sz"
  using assms by (intro unat_add_no_wrap) (simp add: capacity_ok_def word_less_nat_alt word_le_nat_alt)

lemma NormalizeCursor_usable:
  assumes ok: "profile_ok p" and cap: "0 < image_capacity_bytes p" and cur: "cursor_in p c"
    and n: "NormalizeCursor p c = (b, c1)"
  shows "if b then cursor_in p c1 \<and> image_used_bytes c1 < image_capacity_bytes p \<and>
                   (c1 = c \<or> image_used_bytes c1 = 0 \<and> cursor_pos p c1 = Suc (cursor_pos p c))
         else spent p c1 \<and> total_images p \<le> Suc (cursor_pos p c)"
proof (cases "image_used_bytes c < image_capacity_bytes p")
  case True
  with n NormalizeCursor_stay[OF cur True] cur show ?thesis by auto
next
  case False
  then have "NormalizeCursor p c = AdvanceToNextImage p c"
    using NormalizeCursor_full[OF cur] by (simp add: not_less)
  with n AdvanceToNextImage_spec[OF ok cap cur] cap show ?thesis
    by (auto simp: spent_def split: bool.splits)
qed

lemma Allocate_success:
  assumes ok: "profile_ok p" "capacity_ok p" and cur: "IsValidCursor p c"
    and res: "Allocate \<lparr>alloc_profile = p, alloc_cursor = c\<rparr> sz = (Inr g, a')"
  obtains c' where "a' = \<lparr>alloc_profile = p, alloc_cursor = c'\<rparr>" "IsValidCursor p c'"
    "unat g = cursor_pos p c'"
    "(cursor_pos p c' = cursor_pos p c \<and> unat (image_used_bytes c') = unat (image_used_bytes c) + unat sz) \<or>
     (cursor_pos p c < cursor_pos p c' \<and> image_used_bytes c' = sz)"
proof -
  let ?cap = "image_capacity_bytes p"
  from res have sz: "sz \<noteq> 0" "sz \<le> ?cap"
    by (auto simp: Allocate_def Let_def split: if_splits)
  then have cap: "0 < ?cap" by (metis word_neq_0_conv word_le_0_iff)
  from cur have inn: "cursor_in p c" by (simp add: IsValidCursor_iff)
  obtain b c1 where n: "NormalizeCursor p c = (b, c1)" by fastforce
  from res n sz have "b" by (auto simp: Allocate_def Let_def split: if_splits)
  with NormalizeCursor_usable[OF ok(1) cap inn n]
  have c1: "cursor_in p c1" "image_used_bytes c1 < ?cap"
    "c1 = c \<or> image_used_bytes c1 = 0 \<and> cursor_pos p c1 = Suc (cursor_pos p c)" by simp_all
  obtain b' c2 where c2: "(if image_used_bytes c1 + sz > ?cap then AdvanceToNextImage p c1 else (True, c1)) = (b', c2)"
    by fastforce
  from res n sz \<open>b\<close> c2 have b': "b'"
    and a': "a' = \<lparr>alloc_profile = p, alloc_cursor = c2\<lparr>image_used_bytes := image_used_bytes c2 + sz\<rparr>\<rparr>"
    and g: "g = GlobalImageId_cursor p c2"
    by (auto simp: Allocate_def Let_def split: if_splits)
  have c2': "cursor_in p c2" "image_used_bytes c2 + sz \<le> ?cap"
    "c2 = c1 \<or> image_used_bytes c2 = 0 \<and> cursor_pos p c2 = Suc (cursor_pos p c1)"
    using c2 b' c1(1) AdvanceToNextImage_spec[OF ok(1) cap c1(1)] sz
    by (auto split: if_splits simp: not_less)
  show thesis
  proof (rule that[OF a'])
    show "IsValidCursor p (c2\<lparr>image_used_bytes := image_used_bytes c2 + sz\<rparr>)"
      using c2' by (simp add: IsValidCursor_iff)
    show "unat g = cursor_pos p (c2\<lparr>image_used_bytes := image_used_bytes c2 + sz\<rparr>)"
      using unat_GlobalImageId[OF ok(1) c2'(1)] by (simp add: g GlobalImageId_cursor_def)
    show "(cursor_pos p (c2\<lparr>image_used_bytes := image_used_bytes c2 + sz\<rparr>) = cursor_pos p c \<and>
           unat (image_used_bytes (c2\<lparr>image_used_bytes := image_used_bytes c2 + sz\<rparr>)) =
             unat (image_used_bytes c) + unat sz) \<or>
          (cursor_pos p c < cursor_pos p (c2\<lparr>image_used_bytes := image_used_bytes c2 + sz\<rparr>) \<and>
           image_used_bytes (c2\<lparr>image_used_bytes := image_used_bytes c2 + sz\<rparr>) = sz)"
      using c2'(3) c1 used_plus_size[OF ok(2) c1(2) sz(2)] by auto
  qed
qed

lemma Allocate_failure:
  assumes ok: "profile_ok p" and cur: "IsValidCursor p c \<or> spent p c"
    and res: "Allocate \<lparr>alloc_profile = p, alloc_cursor = c\<rparr> sz = (Inl e, a')"
  shows "\<exists>c'. a' = \<lparr>alloc_profile = p, alloc_cursor = c'\<rparr> \<and> (c' = c \<or> spent p c') \<and>
    (e = CapacityExhausted \<longrightarrow> spent p c' \<and> (IsValidCursor p c \<longrightarrow> total_images p \<le> Suc (cursor_pos p c)))"
proof (cases "sz = 0 \<or> image_capacity_bytes p < sz")
  case True
  with res show ?thesis by (auto simp: Allocate_def Let_def split: if_splits)
next
  case False
  then have cap: "0 < image_capacity_bytes p" by (metis not_less word_neq_0_conv word_le_0_iff)
  show ?thesis
  proof (cases "spent p c")
    case True
    with res False show ?thesis
      by (auto simp: Allocate_def NormalizeCursor_spent IsValidCursor_iff valid_location_def spent_def)
  next
    case nsp: False
    with cur have inn: "cursor_in p c" by (simp add: IsValidCursor_iff)
    obtain b c1 where n: "NormalizeCursor p c = (b, c1)" by fastforce
    note N = NormalizeCursor_usable[OF ok cap inn n]
    show ?thesis
    proof (cases b)
      case nb: False
      then show ?thesis using res N n False by (auto simp: Allocate_def Let_def)
    next
      case b: True
      obtain c2 where c2: "AdvanceToNextImage p c1 = (False, c2)"
        "image_capacity_bytes p < image_used_bytes c1 + sz"
        "a' = \<lparr>alloc_profile = p, alloc_cursor = c2\<rparr>" "e = CapacityExhausted"
        using res n b False by (auto simp: Allocate_def Let_def split: if_splits prod.splits)
      with N b False have "c1 = c" by auto
      with c2 AdvanceToNextImage_spec[OF ok cap inn] show ?thesis by (auto simp: spent_def)
    qed
  qed
qed

text \<open>A run of allocations, and the bytes it placed in one image.\<close>

fun alloc_run :: "MasstreeOpticalAllocator \<Rightarrow> u64 list \<Rightarrow> (alloc_error + u64) list \<times> MasstreeOpticalAllocator" where
  "alloc_run a [] = ([], a)"
| "alloc_run a (sz # szs) =
     (let (r, a') = Allocate a sz; (rs, a'') = alloc_run a' szs in (r # rs, a''))"

fun placed :: "u64 \<Rightarrow> u64 list \<Rightarrow> (alloc_error + u64) list \<Rightarrow> nat" where
  "placed g (sz # szs) (r # rs) = (if r = Inr g then unat sz else 0) + placed g szs rs"
| "placed g _ _ = 0"

lemma Allocate_spent:
  assumes "spent p c"
  shows "\<exists>e. Allocate \<lparr>alloc_profile = p, alloc_cursor = c\<rparr> sz = (Inl e, \<lparr>alloc_profile = p, alloc_cursor = c\<rparr>)"
  using assms by (simp add: Allocate_def NormalizeCursor_spent)

lemma alloc_run_spent:
  "spent p c \<Longrightarrow> placed g szs (fst (alloc_run \<lparr>alloc_profile = p, alloc_cursor = c\<rparr> szs)) = 0"
proof (induction szs)
  case (Cons sz szs)
  obtain e where "Allocate \<lparr>alloc_profile = p, alloc_cursor = c\<rparr> sz = (Inl e, \<lparr>alloc_profile = p, alloc_cursor = c\<rparr>)"
    using Allocate_spent[OF Cons.prems] by blast
  with Cons show ?case by (simp add: case_prod_beta)
qed simp

lemma alloc_run_placed:
  assumes ok: "profile_ok p" "capacity_ok p" and cur: "IsValidCursor p c"
  defines "a \<equiv> \<lparr>alloc_profile = p, alloc_cursor = c\<rparr>"
  shows "(unat g < cursor_pos p c \<longrightarrow> placed g szs (fst (alloc_run a szs)) = 0) \<and>
     placed g szs (fst (alloc_run a szs)) + (if unat g = cursor_pos p c then unat (image_used_bytes c) else 0)
       \<le> unat (image_capacity_bytes p)"
  using cur unfolding a_def
proof (induction szs arbitrary: c)
  case Nil
  then show ?case by (simp add: IsValidCursor_iff word_le_nat_alt)
next
  case (Cons sz szs)
  obtain r a' where r: "Allocate \<lparr>alloc_profile = p, alloc_cursor = c\<rparr> sz = (r, a')" by fastforce
  have used: "unat (image_used_bytes c) \<le> unat (image_capacity_bytes p)"
    using Cons.prems by (simp add: IsValidCursor_iff word_le_nat_alt)
  show ?case
  proof (cases r)
    case (Inl e)
    with Allocate_failure[OF ok(1), of c sz e a'] Cons.prems r obtain c' where
      c': "a' = \<lparr>alloc_profile = p, alloc_cursor = c'\<rparr>" "c' = c \<or> spent p c'" by auto
    with Cons.IH[OF Cons.prems] alloc_run_spent[of p c' g szs] used Inl r show ?thesis
      by (auto simp: case_prod_beta)
  next
    case (Inr h)
    from Allocate_success[OF ok Cons.prems r[unfolded Inr]] obtain c' where
      c': "a' = \<lparr>alloc_profile = p, alloc_cursor = c'\<rparr>" "IsValidCursor p c'" "unat h = cursor_pos p c'"
      "(cursor_pos p c' = cursor_pos p c \<and> unat (image_used_bytes c') = unat (image_used_bytes c) + unat sz) \<or>
       (cursor_pos p c < cursor_pos p c' \<and> image_used_bytes c' = sz)" by blast
    have hg: "h = g \<longleftrightarrow> unat g = cursor_pos p c'" using c'(3) by (auto simp: word_unat_eq_iff)
    note IH = Cons.IH[OF c'(2)]
    from c'(4) show ?thesis
    proof
      assume "cursor_pos p c' = cursor_pos p c \<and> unat (image_used_bytes c') = unat (image_used_bytes c) + unat sz"
      with IH r Inr c'(1) hg show ?thesis by (auto simp: case_prod_beta)
    next
      assume "cursor_pos p c < cursor_pos p c' \<and> image_used_bytes c' = sz"
      with IH r Inr c'(1) hg used show ?thesis by (auto simp: case_prod_beta)
    qed
  qed
qed

section \<open>Capacity totals\<close>

lemma unat_foldl_sum:
  "(\<Sum>d<n. unat (f d :: u64)) < 2 ^ 64 \<Longrightarrow> unat (foldl (\<lambda>s d. s + f d) 0 [0..<n]) = (\<Sum>d<n. unat (f d))"
proof (induction n)
  case (Suc n)
  then have "unat (foldl (\<lambda>s d. s + f d) 0 [0..<n]) = (\<Sum>d<n. unat (f d))" by simp
  with Suc.prems show ?case by (simp add: unat_word_ariths)
qed simp

lemma foldl_replicate_upt: "foldl (\<lambda>acc _. f acc x) a [0..<n] = foldl f a (replicate n x)"
proof (induction n)
  case (Suc n)
  have "replicate (Suc n) x = replicate n x @ [x]" by (simp add: replicate_append_same)
  with Suc show ?case by simp
qed simp

section \<open>Properties\<close>

text \<open>C27: the image numbering is a bijection: for a well-formed profile,
  \<open>DecodeGlobalImageId\<close> returns a location exactly when the location lies inside the cluster and
  \<open>GlobalImageId\<close> maps it back to the decoded id.\<close>

theorem DecodeGlobalImageId_bijection:
  assumes "profile_ok p"
  shows "DecodeGlobalImageId p g = Some (n, d, i) \<longleftrightarrow>
         n < optical_node_count p \<and> d < disks_per_node p \<and> i < ImagesPerDisk p d \<and>
         GlobalImageId p n d i = g"
  using decode_iff[OF assms] by (auto simp: valid_location_def)

theorem DecodeGlobalImageId_bijection_witness:
  "profile_ok LegacyMixed \<and> DecodeGlobalImageId LegacyMixed 280050 = Some (1, 9000, 50)"
  using profile_ok_LegacyMixed
    DecodeGlobalImageId_bijection[OF profile_ok_LegacyMixed, of 280050 1 9000 50]
  by (simp add: GlobalImageId_def ImagesPerDisk_def ImagesPerNode_def LegacyMixed_def Fixed_def)

text \<open>C4: every location of the legacy mixed layout converts to the uniform layout
  (\<open>ConvertLocationTo\<close> never fails on a location of the cluster), the converted location has the
  same global image id, and converting it back gives the original location.\<close>

theorem ConvertLocationTo_legacy_round_trip:
  assumes "n < optical_node_count LegacyMixed" "d < disks_per_node LegacyMixed"
    "i < ImagesPerDisk LegacyMixed d"
  shows "\<exists>n' d' i'. ConvertLocationTo LegacyMixed n d i Fixed = Some (n', d', i') \<and>
           GlobalImageId Fixed n' d' i' = GlobalImageId LegacyMixed n d i \<and>
           ConvertLocationTo Fixed n' d' i' LegacyMixed = Some (n, d, i)"
proof -
  let ?g = "GlobalImageId LegacyMixed n d i"
  have v: "valid_location LegacyMixed n d i" using assms by (simp add: valid_location_def)
  have "unat ?g < total_images LegacyMixed"
    using unat_GlobalImageId[OF profile_ok_LegacyMixed v] image_pos_less_total[OF profile_ok_LegacyMixed v]
    by simp
  also have "\<dots> < total_images Fixed"
    by (simp add: total_images_def images_of_node_def LegacyMixed_def Fixed_def)
  finally obtain n' d' i' where dec: "DecodeGlobalImageId Fixed ?g = Some (n', d', i')"
    using decode_in_range[OF profile_ok_Fixed] by blast
  then have v': "valid_location Fixed n' d' i'" "GlobalImageId Fixed n' d' i' = ?g"
    by (simp_all add: decode_iff[OF profile_ok_Fixed])
  have "DecodeGlobalImageId LegacyMixed ?g = Some (n, d, i)"
    using v by (simp add: decode_iff[OF profile_ok_LegacyMixed])
  with dec v v' show ?thesis
    by (auto simp: ConvertLocationTo_def valid_location_def not_le not_less[symmetric])
qed

theorem ConvertLocationTo_legacy_round_trip_witness:
  "(1 :: u32) < optical_node_count LegacyMixed \<and> (9000 :: u32) < disks_per_node LegacyMixed \<and>
   (50 :: u32) < ImagesPerDisk LegacyMixed 9000 \<and>
   (\<exists>n' d' i'. ConvertLocationTo LegacyMixed 1 9000 50 Fixed = Some (n', d', i') \<and>
      GlobalImageId Fixed n' d' i' = GlobalImageId LegacyMixed 1 9000 50 \<and>
      ConvertLocationTo Fixed n' d' i' LegacyMixed = Some (1, 9000, 50))"
proof -
  have h: "(1 :: u32) < optical_node_count LegacyMixed" "(9000 :: u32) < disks_per_node LegacyMixed"
    "(50 :: u32) < ImagesPerDisk LegacyMixed 9000"
    by (simp_all add: LegacyMixed_def Fixed_def ImagesPerDisk_def)
  show ?thesis using h ConvertLocationTo_legacy_round_trip[OF h] by blast
qed

text \<open>C31: no image is ever overfilled: over any sequence of \<open>Allocate\<close> calls, failed ones
  included, from a valid cursor, the bytes placed in an image, together with what the starting
  cursor had already used of it, stay within the image capacity.\<close>

theorem Allocate_never_overfills:
  assumes "profile_ok p" "unat (image_capacity_bytes p) \<le> 2 ^ 63" "IsValidCursor p c"
  shows "placed g szs (fst (alloc_run \<lparr>alloc_profile = p, alloc_cursor = c\<rparr> szs)) +
         (if g = GlobalImageId_cursor p c then unat (image_used_bytes c) else 0)
         \<le> unat (image_capacity_bytes p)"
proof -
  have "cursor_in p c" using assms(3) by (simp add: IsValidCursor_iff)
  then have "g = GlobalImageId_cursor p c \<longleftrightarrow> unat g = cursor_pos p c"
    using unat_GlobalImageId[OF assms(1)] by (simp add: GlobalImageId_cursor_def word_unat_eq_iff)
  then show ?thesis
    using alloc_run_placed[OF assms(1) _ assms(3), of g szs] assms(2) by (simp add: capacity_ok_def)
qed

theorem Allocate_never_overfills_witness:
  "profile_ok Fixed \<and> unat (image_capacity_bytes Fixed) \<le> 2 ^ 63 \<and>
   IsValidCursor Fixed \<lparr>node_index = 0, disk_index = 0, image_index_in_disk = 0, image_used_bytes = 99000000000\<rparr> \<and>
   placed 0 [900000000, 800000000] (fst (alloc_run \<lparr>alloc_profile = Fixed, alloc_cursor =
     \<lparr>node_index = 0, disk_index = 0, image_index_in_disk = 0, image_used_bytes = 99000000000\<rparr>\<rparr>
     [900000000, 800000000])) + 99000000000 \<le> 100000000000"
proof -
  let ?c = "\<lparr>node_index = 0, disk_index = 0, image_index_in_disk = 0, image_used_bytes = 99000000000\<rparr>"
  have h: "unat (image_capacity_bytes Fixed) \<le> 2 ^ 63" "IsValidCursor Fixed ?c"
    by (simp_all add: Fixed_def IsValidCursor_def ImagesPerDisk_def)
  have "GlobalImageId_cursor Fixed ?c = 0"
    by (simp add: GlobalImageId_cursor_def GlobalImageId_def Fixed_def)
  with h profile_ok_Fixed Allocate_never_overfills[OF profile_ok_Fixed h, of 0 "[900000000, 800000000]"]
  show ?thesis by (simp add: Fixed_def)
qed

text \<open>C32: the allocator gives up only at the end of the cluster: from a valid cursor that
  is not on the last image, a file of positive size that fits an image is always placed, in an
  image at or after the cursor's.\<close>

theorem Allocate_succeeds_before_end:
  assumes "profile_ok p" "unat (image_capacity_bytes p) \<le> 2 ^ 63" "IsValidCursor p c"
    and "0 < sz" "sz \<le> image_capacity_bytes p"
    and "Suc (unat (GlobalImageId_cursor p c)) < total_images p"
  shows "\<exists>g a'. Allocate \<lparr>alloc_profile = p, alloc_cursor = c\<rparr> sz = (Inr g, a') \<and>
                GlobalImageId_cursor p c \<le> g"
proof -
  have inn: "cursor_in p c" using assms(3) by (simp add: IsValidCursor_iff)
  have pos: "unat (GlobalImageId_cursor p c) = cursor_pos p c"
    using unat_GlobalImageId[OF assms(1) inn] by (simp add: GlobalImageId_cursor_def)
  obtain r a' where r: "Allocate \<lparr>alloc_profile = p, alloc_cursor = c\<rparr> sz = (r, a')" by fastforce
  show ?thesis
  proof (cases r)
    case (Inl e)
    have "e = CapacityExhausted"
      using r Inl assms(4,5) by (auto simp: Allocate_def Let_def split: if_splits prod.splits)
    with Allocate_failure[OF assms(1), of c sz e a'] r Inl assms(3,6) pos show ?thesis by auto
  next
    case (Inr g)
    from assms(2) have cap: "capacity_ok p" by (simp add: capacity_ok_def)
    from Allocate_success[OF assms(1) cap assms(3) r[unfolded Inr]]
    have "cursor_pos p c \<le> unat g" by (metis less_imp_le_nat order_refl)
    then have "GlobalImageId_cursor p c \<le> g" using pos by (simp add: word_le_nat_alt)
    with r Inr show ?thesis by blast
  qed
qed

theorem Allocate_succeeds_before_end_witness:
  "\<exists>g a'. Allocate \<lparr>alloc_profile = Fixed, alloc_cursor =
      \<lparr>node_index = 3, disk_index = 9999, image_index_in_disk = 19, image_used_bytes = 100000000000\<rparr>\<rparr>
      1500000000 = (Inr g, a') \<and> 799999 \<le> g"
proof -
  let ?c = "\<lparr>node_index = 3, disk_index = 9999, image_index_in_disk = 19, image_used_bytes = 100000000000\<rparr>"
  have id: "GlobalImageId_cursor Fixed ?c = 799999"
    by (simp add: GlobalImageId_cursor_def GlobalImageId_def Fixed_def ImagesPerNode_def)
  have h: "unat (image_capacity_bytes Fixed) \<le> 2 ^ 63" "IsValidCursor Fixed ?c"
    "(0 :: u64) < 1500000000" "1500000000 \<le> image_capacity_bytes Fixed"
    "Suc (unat (GlobalImageId_cursor Fixed ?c)) < total_images Fixed"
    by (simp_all add: id) (simp_all add: Fixed_def IsValidCursor_def ImagesPerDisk_def total_images_def images_of_node_def)
  show ?thesis using Allocate_succeeds_before_end[OF profile_ok_Fixed h] by (simp add: id)
qed

text \<open>C5: \<open>TotalCapacityBytesDecimal\<close> is exact beyond 64 bits: when the capacity of one node
  fits 64 bits, it is the decimal numeral of the sum of all disk capacities of all nodes.\<close>

theorem TotalCapacityBytesDecimal_exact:
  assumes "(\<Sum>d<unat (disks_per_node p). unat (DiskCapacityBytes p (of_nat d))) < 2 ^ 64"
  shows "TotalCapacityBytesDecimal p =
    dec_digits (unat (optical_node_count p) *
                (\<Sum>d<unat (disks_per_node p). unat (DiskCapacityBytes p (of_nat d))))"
proof -
  let ?S = "\<Sum>d<unat (disks_per_node p). unat (DiskCapacityBytes p (of_nat d))"
  define cap where "cap = foldl (\<lambda>cap disk. cap + DiskCapacityBytes p (of_nat disk)) 0 [0..<unat (disks_per_node p)]"
  have cap: "unat cap = ?S" using assms unfolding cap_def by (rule unat_foldl_sum)
  have "unat (acc_value (foldl (\<lambda>acc _. acc_Add acc cap) acc_init [0..<unat (optical_node_count p)])) =
      (unat (optical_node_count p) * ?S) mod 2 ^ 128"
    using unat_acc_fold[of acc_init "replicate (unat (optical_node_count p)) cap"]
    by (simp add: foldl_replicate_upt acc_init_def sum_list_replicate cap)
  moreover have "unat (optical_node_count p) * ?S < 2 ^ 128"
    using mult_strict_mono'[OF unat_u32_lt[of "optical_node_count p"] assms] by simp
  ultimately show ?thesis
    by (simp add: TotalCapacityBytesDecimal_def acc_ToString_eq cap_def)
qed

theorem TotalCapacityBytesDecimal_exact_witness:
  "TotalCapacityBytesDecimal Fixed = dec_digits 200000000000000000000"
proof -
  have cap: "DiskCapacityBytes Fixed d = 2000000000000" for d
    by (simp add: Fixed_def DiskCapacityBytes_def)
  have sum: "(\<Sum>d<unat (disks_per_node Fixed). unat (DiskCapacityBytes Fixed (of_nat d))) = 20000000000000000"
    by (simp add: cap) (simp add: Fixed_def)
  then have "(\<Sum>d<unat (disks_per_node Fixed). unat (DiskCapacityBytes Fixed (of_nat d))) < 2 ^ 64" by simp
  from TotalCapacityBytesDecimal_exact[OF this] sum show ?thesis by (simp add: Fixed_def)
qed

end
