(* ===== verification/Inode_Codecs.thy ===== *)
theory Inode_Codecs
  imports Inode_Location Optical_Profile
begin

unbundle bit_operations_syntax

text \<open>
  The codecs built on the inode record and its ids: the packed inode ids of the LHM index
  (\<open>src/src/mds/storage/LhmInodeId.h\<close>), the packed directory entry value
  (\<open>masstree_meta/MasstreeValueCodec.h\<close>) and the Masstree inode payload with its rebasing to a new
  inode id and optical image (\<open>masstree_meta/MasstreeInodeRecordCodec.cpp\<close>).
\<close>

section \<open>LHM inode ids\<close>

datatype Kind = Root | File | Directory

record Address =
  addr_kind :: Kind
  addr_block :: u64
  addr_slot :: u32

definition kRoot :: u64 where "kRoot = 1"
definition kDirectoryTag :: u64 where "kDirectoryTag = push_bit 63 1"
definition kMaxBlock :: u64 where "kMaxBlock = push_bit 47 1 - 1"
definition kSlotsPerBlock :: u32 where "kSlotsPerBlock = 63"

definition LhmInodeId_File :: "u64 \<Rightarrow> u32 \<Rightarrow> u64 option" where
  "LhmInodeId_File block slot =
     (if block = 0 \<or> block > kMaxBlock \<or> slot \<ge> kSlotsPerBlock then None
      else Some (push_bit 16 block OR ucast slot))"

definition LhmInodeId_Directory :: "u64 \<Rightarrow> u64 option" where
  "LhmInodeId_Directory block =
     (if block = 0 \<or> block \<ge> push_bit 48 1 then None else Some (kDirectoryTag OR block))"

definition LhmInodeId_Decode :: "u64 \<Rightarrow> Address option" where
  "LhmInodeId_Decode ino =
     (if ino = kRoot then Some \<lparr>addr_kind = Root, addr_block = 0, addr_slot = 0\<rparr>
      else if ino AND kDirectoryTag \<noteq> 0 then
        let block = ino AND NOT kDirectoryTag
        in if block = 0 \<or> block \<ge> push_bit 48 1 then None
           else Some \<lparr>addr_kind = Directory, addr_block = block, addr_slot = 0\<rparr>
      else
        let block = drop_bit 16 ino; slot = ucast (ino AND 0xFFFF)
        in case LhmInodeId_File block slot of
             None \<Rightarrow> None
           | Some _ \<Rightarrow> Some \<lparr>addr_kind = File, addr_block = block, addr_slot = slot\<rparr>)"

section \<open>Packed directory entry values\<close>

record MasstreePackedDentryValue =
  dv_child_inode :: u64
  dv_type :: u32

definition PackMasstreeDentryValue :: "u64 \<Rightarrow> u32 \<Rightarrow> u64" where
  "PackMasstreeDentryValue child_inode ty = push_bit 8 child_inode OR (ucast ty AND 0xFF)"

definition UnpackMasstreeDentryValue :: "u64 \<Rightarrow> bool \<times> MasstreePackedDentryValue" where
  "UnpackMasstreeDentryValue packed =
     (let v = \<lparr>dv_child_inode = drop_bit 8 packed, dv_type = ucast (packed AND 0xFF)\<rparr>
      in (dv_child_inode v \<noteq> 0, v))"

section \<open>Masstree inode payloads\<close>

definition IsUnifiedPayload :: "bytes \<Rightarrow> bool" where
  "IsUnifiedPayload data \<longleftrightarrow> length data = kRecordSize \<and> data ! 0 = kVersion"

definition MasstreeInodeRecordCodec_Encode :: "UnifiedInodeRecord \<Rightarrow> inode_error + bytes" where
  "MasstreeInodeRecordCodec_Encode inode = EncodeUnifiedInodeRecord inode"

definition MasstreeInodeRecordCodec_Decode :: "bytes \<Rightarrow> inode_error + UnifiedInodeRecord" where
  "MasstreeInodeRecordCodec_Decode data =
     (if \<not> IsUnifiedPayload data then Inl UnsupportedFormat else DecodeUnifiedInodeRecord data)"

definition HasOpticalImage :: "bytes \<Rightarrow> inode_error + bool" where
  "HasOpticalImage data =
     (case DecodeUnifiedInodeRecord data of
        Inl e \<Rightarrow> Inl e
      | Inr inode \<Rightarrow> Inr (u_storage_tier inode = TierOptical))"

definition rebase_ids :: "u64 \<Rightarrow> UnifiedInodeRecord \<Rightarrow> UnifiedInodeRecord" where
  "rebase_ids inode_id inode0 =
     (let old_inode_id = u_inode_id inode0;
          inode = inode0\<lparr>u_inode_id := inode_id\<rparr>
      in if u_parent_inode_id inode \<noteq> 0
         then inode\<lparr>u_parent_inode_id := u_parent_inode_id inode + (inode_id - old_inode_id)\<rparr>
         else inode)"

definition RebaseEncoded :: "bytes \<Rightarrow> u64 \<Rightarrow> bool \<Rightarrow> u64 \<Rightarrow> inode_error + bytes" where
  "RebaseEncoded data inode_id has_optical_image optical_image_global_id =
     (case DecodeUnifiedInodeRecord data of
        Inl e \<Rightarrow> Inl e
      | Inr inode0 \<Rightarrow>
          let inode = rebase_ids inode_id inode0
          in if has_optical_image then
               (case DecodeGlobalImageId Fixed optical_image_global_id of
                  None \<Rightarrow> Inl InvalidRebasedImage
                | Some (n, d, i) \<Rightarrow>
                    EncodeUnifiedInodeRecord (inode\<lparr>u_storage_tier := TierOptical,
                      u_optical_node_id := ucast n, u_optical_disk_id := ucast d,
                      u_optical_image_id := i, u_disk_node_id := 0, u_disk_id := 0,
                      u_location_format := FormatOpticalPacked,
                      u_storage_loc0 := ucast n,
                      u_storage_loc1 := push_bit 32 (ucast d) OR ucast i\<rparr>))
             else if u_storage_tier inode = TierOptical then
               EncodeUnifiedInodeRecord (inode\<lparr>u_storage_tier := TierNone, u_optical_node_id := 0,
                 u_optical_disk_id := 0, u_optical_image_id := 0, u_location_format := FormatNone,
                 u_storage_loc0 := 0, u_storage_loc1 := 0\<rparr>)
             else EncodeUnifiedInodeRecord inode)"

section \<open>LHM ids round trip\<close>

lemma bound_bits:
  assumes "unat (w :: 'a::len word) < 2 ^ n" "bit w k"
  shows "k < n"
proof -
  have "take_bit n w = w"
    using assms(1) by (simp add: word_unat_eq_iff unsigned_take_bit_eq take_bit_nat_eq_self)
  with assms(2) show ?thesis by (metis bit_take_bit_iff)
qed

lemma bit_one_word: "bit (1 :: 'a::len word) k \<longleftrightarrow> k = 0"
  by (simp add: bit_1_iff)

lemma bit_kDirectoryTag: "bit kDirectoryTag k \<longleftrightarrow> k = 63"
  unfolding kDirectoryTag_def bit_push_bit_iff bit_one_word by auto

lemma tag_set_iff: "w AND kDirectoryTag \<noteq> 0 \<longleftrightarrow> bit w 63"
proof
  assume "w AND kDirectoryTag \<noteq> 0"
  then obtain k where "bit (w AND kDirectoryTag) k" by (auto simp: bit_eq_iff)
  then show "bit w 63" by (auto simp: bit_and_iff bit_kDirectoryTag)
next
  assume "bit w 63"
  then have "bit (w AND kDirectoryTag) 63" by (simp add: bit_and_iff bit_kDirectoryTag)
  then show "w AND kDirectoryTag \<noteq> 0" by (metis bit_0_eq bot_apply bot_bool_def)
qed

lemma low16_mask: "(0xFFFF :: u64) = mask 16"
  by (simp add: mask_eq_exp_minus_1)

lemma slot_bits: "slot < kSlotsPerBlock \<Longrightarrow> bit slot k \<Longrightarrow> k < 6"
  by (rule bound_bits[of slot 6])
    (simp_all add: kSlotsPerBlock_def push_bit_of_1 word_less_nat_alt)

lemma block_bits: "block \<le> kMaxBlock \<Longrightarrow> bit block k \<Longrightarrow> k < 47"
  by (rule bound_bits[of block 47])
    (simp_all add: kMaxBlock_def push_bit_of_1 word_less_nat_alt word_le_nat_alt)

lemma file_id_fields:
  assumes "block \<le> kMaxBlock" "slot < kSlotsPerBlock"
  shows "drop_bit 16 (push_bit 16 block OR ucast slot) = block"
    and "ucast ((push_bit 16 block OR ucast slot) AND 0xFFFF) = slot"
    and "\<not> bit (push_bit 16 block OR ucast slot :: u64) 63"
proof -
  note b = block_bits[OF assms(1)] and s = slot_bits[OF assms(2)]
  show "drop_bit 16 (push_bit 16 block OR ucast slot) = block"
    by (rule bit_word_eqI)
      (auto simp: bit_drop_bit_eq bit_or_iff bit_push_bit_iff bit_ucast_iff simp del: drop_bit_or dest: b s)
  show "ucast ((push_bit 16 block OR ucast slot) AND 0xFFFF) = slot"
    unfolding low16_mask
    by (rule bit_word_eqI)
      (auto simp: bit_and_iff bit_or_iff bit_push_bit_iff bit_ucast_iff bit_mask_iff dest: b s)
  show "\<not> bit (push_bit 16 block OR ucast slot :: u64) 63"
    by (auto simp: bit_or_iff bit_push_bit_iff bit_ucast_iff dest: b s)
qed

lemma file_id_rebuild: "push_bit 16 (drop_bit 16 w) OR ucast (ucast (w AND 0xFFFF) :: u32) = (w :: u64)"
  unfolding low16_mask
proof (rule bit_word_eqI)
  fix n assume "n < LENGTH(64)"
  then show "bit (push_bit 16 (drop_bit 16 w) OR ucast (ucast (w AND mask 16) :: u32)) n = bit w n"
    by (cases "n < 16")
      (auto simp: bit_or_iff bit_push_bit_iff bit_drop_bit_eq bit_ucast_iff bit_and_iff bit_mask_iff)
qed

lemma dir_id_fields:
  assumes "block < push_bit 48 (1 :: u64)"
  shows "(kDirectoryTag OR block) AND NOT kDirectoryTag = block"
    and "bit (kDirectoryTag OR block) 63"
proof -
  have "\<not> bit block 63"
    using bound_bits[of block 48 63] assms by (auto simp: word_less_nat_alt push_bit_of_1)
  then show "(kDirectoryTag OR block) AND NOT kDirectoryTag = block"
    by (intro bit_word_eqI) (auto simp: bit_and_iff bit_or_iff bit_not_iff bit_kDirectoryTag)
qed (simp add: bit_or_iff bit_kDirectoryTag)

lemma dir_id_rebuild: "bit w 63 \<Longrightarrow> kDirectoryTag OR (w AND NOT kDirectoryTag) = w"
  by (rule bit_word_eqI) (auto simp: bit_and_iff bit_or_iff bit_not_iff bit_kDirectoryTag)

lemma file_id_not_root:
  assumes "block \<noteq> 0" "block \<le> kMaxBlock" "slot < kSlotsPerBlock"
  shows "push_bit 16 block OR ucast slot \<noteq> kRoot"
proof
  assume "push_bit 16 block OR ucast slot = kRoot"
  then have "drop_bit 16 kRoot = block" using file_id_fields(1)[OF assms(2,3)] by simp
  with assms(1) show False by (simp add: kRoot_def)
qed

text \<open>The inode ids of the LHM index are unambiguous: an id decodes to a file (block, slot)
  exactly when that pair encodes to it, to a directory block exactly when that block encodes to it,
  and to the root exactly when it is 1; every other id is refused.\<close>

theorem LhmInodeId_Decode_iff:
  "(LhmInodeId_Decode ino = Some \<lparr>addr_kind = File, addr_block = b, addr_slot = s\<rparr>) =
     (LhmInodeId_File b s = Some ino) \<and>
   (LhmInodeId_Decode ino = Some \<lparr>addr_kind = Directory, addr_block = b, addr_slot = s\<rparr>) =
     (LhmInodeId_Directory b = Some ino \<and> s = 0) \<and>
   (LhmInodeId_Decode ino = Some \<lparr>addr_kind = Root, addr_block = b, addr_slot = s\<rparr>) =
     (ino = 1 \<and> b = 0 \<and> s = 0)"
proof -
  have root: "\<not> bit kRoot 63" by (simp add: kRoot_def bit_one_word)
  have from_file: "LhmInodeId_Decode ino = Some \<lparr>addr_kind = File, addr_block = b, addr_slot = s\<rparr>"
    if "LhmInodeId_File b s = Some ino"
  proof -
    from that have v: "b \<noteq> 0" "b \<le> kMaxBlock" "s < kSlotsPerBlock"
      and i: "ino = push_bit 16 b OR ucast s"
      by (auto simp: LhmInodeId_File_def not_less not_le split: if_splits)
    note f = file_id_fields[OF v(2,3), folded i] and n = file_id_not_root[OF v, folded i]
    from that f n show ?thesis by (simp add: LhmInodeId_Decode_def tag_set_iff Let_def)
  qed
  have from_dir: "LhmInodeId_Decode ino = Some \<lparr>addr_kind = Directory, addr_block = b, addr_slot = 0\<rparr>"
    if "LhmInodeId_Directory b = Some ino"
  proof -
    from that have v: "b \<noteq> 0" "b < push_bit 48 1" and i: "ino = kDirectoryTag OR b"
      by (auto simp: LhmInodeId_Directory_def not_le split: if_splits)
    note f = dir_id_fields[OF v(2), folded i]
    with root have "ino \<noteq> kRoot" by auto
    with v f show ?thesis by (auto simp: LhmInodeId_Decode_def tag_set_iff Let_def dest: leD)
  qed
  show ?thesis
  proof (intro conjI iffI)
    assume "LhmInodeId_Decode ino = Some \<lparr>addr_kind = File, addr_block = b, addr_slot = s\<rparr>"
    then show "LhmInodeId_File b s = Some ino"
      using file_id_rebuild[of ino]
      by (auto simp: LhmInodeId_Decode_def LhmInodeId_File_def Let_def split: if_splits option.splits)
  next
    assume d: "LhmInodeId_Decode ino = Some \<lparr>addr_kind = Directory, addr_block = b, addr_slot = s\<rparr>"
    then show "LhmInodeId_Directory b = Some ino"
      using dir_id_rebuild[of ino]
      by (auto simp: LhmInodeId_Decode_def LhmInodeId_Directory_def tag_set_iff Let_def
          split: if_splits option.splits)
    from d show "s = 0"
      by (auto simp: LhmInodeId_Decode_def Let_def split: if_splits option.splits)
  next
    assume r: "LhmInodeId_Decode ino = Some \<lparr>addr_kind = Root, addr_block = b, addr_slot = s\<rparr>"
    then show "ino = 1" by (auto simp: LhmInodeId_Decode_def Let_def kRoot_def split: if_splits option.splits)
    with r show "b = 0" "s = 0" by (simp_all add: LhmInodeId_Decode_def kRoot_def)
  next
    assume "LhmInodeId_File b s = Some ino"
    then show "LhmInodeId_Decode ino = Some \<lparr>addr_kind = File, addr_block = b, addr_slot = s\<rparr>"
      by (rule from_file)
  next
    assume "LhmInodeId_Directory b = Some ino \<and> s = 0"
    then show "LhmInodeId_Decode ino = Some \<lparr>addr_kind = Directory, addr_block = b, addr_slot = s\<rparr>"
      using from_dir by blast
  qed (simp add: LhmInodeId_Decode_def kRoot_def)
qed

section \<open>Directory entry values round trip\<close>

text \<open>A directory entry value keeps the child inode and its type exactly when the inode is
  nonzero and below 2^56 and the type is below 256.\<close>

theorem UnpackMasstreeDentryValue_Pack:
  "(UnpackMasstreeDentryValue (PackMasstreeDentryValue c t) =
      (True, \<lparr>dv_child_inode = c, dv_type = t\<rparr>)) = (c \<noteq> 0 \<and> c < push_bit 56 1 \<and> t < push_bit 8 1)"
proof -
  have m: "(0xFF :: u64) = mask 8" by (simp add: mask_eq_exp_minus_1)
  have child: "drop_bit 8 (PackMasstreeDentryValue c t) = take_bit 56 c"
    unfolding PackMasstreeDentryValue_def m
    by (rule bit_word_eqI) (auto simp: bit_take_bit_iff bit_drop_bit_eq bit_or_iff bit_push_bit_iff
        bit_and_iff bit_mask_iff simp del: drop_bit_or)
  have ty: "(ucast (PackMasstreeDentryValue c t AND 0xFF) :: u32) = take_bit 8 t"
    unfolding PackMasstreeDentryValue_def m
    by (rule bit_word_eqI) (auto simp: bit_take_bit_iff bit_or_iff bit_push_bit_iff bit_ucast_iff
        bit_and_iff bit_mask_iff)
  have c: "take_bit 56 c = c \<longleftrightarrow> c < push_bit 56 1"
    by (simp add: word_unat_eq_iff unsigned_take_bit_eq take_bit_nat_eq_self_iff word_less_nat_alt push_bit_of_1)
  have t: "take_bit 8 t = t \<longleftrightarrow> t < push_bit 8 1"
    by (simp add: word_unat_eq_iff unsigned_take_bit_eq take_bit_nat_eq_self_iff word_less_nat_alt push_bit_of_1)
  show ?thesis
    unfolding UnpackMasstreeDentryValue_def Let_def child ty using c t by auto
qed

section \<open>Rebasing a stored inode\<close>

lemma rebase_ids_sel:
  "u_inode_id (rebase_ids ino r) = ino"
  "u_parent_inode_id (rebase_ids ino r) =
     (if u_parent_inode_id r = 0 then 0 else u_parent_inode_id r + (ino - u_inode_id r))"
  "u_storage_tier (rebase_ids ino r) = u_storage_tier r"
  "encodable (rebase_ids ino r) = encodable r"
  by (simp_all add: rebase_ids_def encodable_def Let_def)

lemma ucast_bound: "(ucast (d :: u32) :: u64) \<le> 0xFFFFFFFF" by (rule ucast_u32_le)

lemma canonical_kept:
  "u_inode_id (canonical_record r) = u_inode_id r"
  "u_parent_inode_id (canonical_record r) = u_parent_inode_id r"
  "u_file_name (canonical_record r) = u_file_name r"
  by (simp_all add: canonical_record_def Let_def)

text \<open>Rebasing a stored inode onto a valid global image id succeeds: the new bytes decode to a
  record with the new inode id and name, the parent id shifted by the same (wrapping) distance unless
  it is zero, on the optical tier, at the position whose global image id is the one asked for.  The
  record yields a file location exactly when that position is not on node 0.\<close>

theorem RebaseEncoded_places_image:
  assumes "DecodeUnifiedInodeRecord data = Inr r"
    and "DecodeGlobalImageId Fixed g = Some (n, d, i)"
  shows "\<exists>bs r'. RebaseEncoded data ino True g = Inr bs \<and> DecodeUnifiedInodeRecord bs = Inr r' \<and>
    HasOpticalImage bs = Inr True \<and> u_inode_id r' = ino \<and> u_file_name r' = u_file_name r \<and>
    u_parent_inode_id r' = (if u_parent_inode_id r = 0 then 0 else u_parent_inode_id r + (ino - u_inode_id r)) \<and>
    record_optical_ids r' = (ucast n, ucast d, i) \<and> GlobalImageId Fixed n d i = g \<and>
    (PopulateOpticalFileLocationFromUnifiedRecord r' = None) = (n = 0)"
proof -
  let ?r = "(rebase_ids ino r)\<lparr>u_storage_tier := TierOptical,
      u_optical_node_id := ucast n, u_optical_disk_id := ucast d, u_optical_image_id := i,
      u_disk_node_id := 0, u_disk_id := 0, u_location_format := FormatOpticalPacked,
      u_storage_loc0 := ucast n, u_storage_loc1 := push_bit 32 (ucast d) OR ucast i\<rparr>"
  have enc: "encodable ?r"
    using Decode_accepted[OF assms(1)] rebase_ids_sel(4)[of ino r] by (simp add: encodable_def ucast_bound)
  have run: "RebaseEncoded data ino True g = EncodeUnifiedInodeRecord ?r"
    using assms by (simp add: RebaseEncoded_def Let_def)
  have ids: "record_optical_ids (canonical_record ?r) = (ucast n, ucast d, i)"
    by (subst canonical_record_ids) (simp_all add: record_optical_ids_def)
  have "(ucast n :: u64) = 0 \<longleftrightarrow> n = 0"
    by (simp add: word_unat_eq_iff unat_ucast_up)
  with ids have pop: "(PopulateOpticalFileLocationFromUnifiedRecord (canonical_record ?r) = None) = (n = 0)"
    by (simp add: optical_record.populate_eq canonical_record_ids optical_locatable_def)
  have id: "GlobalImageId Fixed n d i = g"
    using assms(2) decode_iff[OF profile_ok_Fixed] by blast
  note dec = Encode_encodable[OF enc] Decode_write_normalized[OF enc]
  have "HasOpticalImage (write_record (normalized_record ?r)) = Inr True"
    by (simp add: HasOpticalImage_def dec(2) canonical_record_ids)
  moreover have "u_file_name ?r = u_file_name r" by (simp add: rebase_ids_def Let_def)
  ultimately show ?thesis
    using dec ids pop id run rebase_ids_sel[of ino r]
    by (intro exI[of _ "write_record (normalized_record ?r)"] exI[of _ "canonical_record ?r"])
      (simp add: canonical_kept)
qed

theorem RebaseEncoded_places_image_witness:
  "\<exists>bs r'. RebaseEncoded (write_record (normalized_record sample_record)) 100 True 200041 = Inr bs \<and>
     DecodeUnifiedInodeRecord bs = Inr r' \<and> record_optical_ids r' = (1, 2, 1)"
proof -
  have "DecodeGlobalImageId Fixed 200041 = Some (1, 2, 1)"
    unfolding decode_iff[OF profile_ok_Fixed] valid_location_def
    by (simp add: GlobalImageId_def ImagesPerDisk_def ImagesPerNode_def Fixed_def)
  from RebaseEncoded_places_image[OF Decode_write_normalized[OF sample_record_encodable] this, of 100]
  show ?thesis by auto
qed

end
