(* ===== verification/Stream_Codec.thy ===== *)
theory Stream_Codec
  imports ZB_Prelude
begin

text \<open>
  The contract shared by the binary formats that are read with a cursor: a writer that appends bytes
  and a reader that takes the value at the cursor and moves it.  The reader must return what was
  written, and accept only bytes the writer produces.  The contract is closed under lists (with a
  known count), pairs and bijective renaming, so the codecs of records follow from those of their
  fields.
\<close>

text \<open>A loop that reads a known number of values.\<close>

fun read_loop :: "(bytes \<Rightarrow> nat \<Rightarrow> 'err + 'e \<times> nat) \<Rightarrow> nat \<Rightarrow> bytes \<Rightarrow> nat \<Rightarrow> 'err + 'e list \<times> nat" where
  "read_loop step 0 payload cursor = Inr ([], cursor)"
| "read_loop step (Suc n) payload cursor =
     (case step payload cursor of
        Inl e \<Rightarrow> Inl e
      | Inr (x, cursor') \<Rightarrow>
          (case read_loop step n payload cursor' of
             Inl e \<Rightarrow> Inl e
           | Inr (entries, cursor'') \<Rightarrow> Inr (x # entries, cursor'')))"

section \<open>Positions in a byte string\<close>

lemma peek_append:
  "peek (pre @ s @ post) (length pre) (length s) = s"
  by (simp add: peek_def)

lemma peek_split: "off + (m + n) \<le> length bs \<Longrightarrow> peek bs off (m + n) = peek bs off m @ peek bs (off + m) n"
  by (simp add: peek_def take_add add.commute)

section \<open>The contract\<close>

locale stream_codec =
  fixes enc :: "'e \<Rightarrow> bytes"
    and dec :: "bytes \<Rightarrow> nat \<Rightarrow> 'err + 'e \<times> nat"
    and fits :: "'e \<Rightarrow> bool"
  assumes dec_enc: "fits e \<Longrightarrow> dec (pre @ enc e @ post) (length pre) = Inr (e, length pre + length (enc e))"
    and dec_sound: "dec bs c = Inr (e, c') \<Longrightarrow>
      fits e \<and> c \<le> c' \<and> c' \<le> length bs \<and> peek bs c (c' - c) = enc e"
begin

lemma loop_enc:
  "list_all fits es \<Longrightarrow> read_loop dec (length es) (pre @ concat (map enc es) @ post) (length pre) =
     Inr (es, length pre + length (concat (map enc es)))"
proof (induction es arbitrary: pre)
  case (Cons e es)
  from Cons.prems have "dec (pre @ enc e @ concat (map enc es) @ post) (length pre) =
      Inr (e, length pre + length (enc e))" by (intro dec_enc) simp
  moreover have "read_loop dec (length es) ((pre @ enc e) @ concat (map enc es) @ post) (length (pre @ enc e)) =
      Inr (es, length (pre @ enc e) + length (concat (map enc es)))"
    using Cons.prems by (intro Cons.IH) simp
  ultimately show ?case by simp
qed simp

lemma loop_sound:
  "read_loop dec n bs c = Inr (es, c') \<Longrightarrow> c \<le> length bs \<Longrightarrow>
     length es = n \<and> list_all fits es \<and> c \<le> c' \<and> c' \<le> length bs \<and> peek bs c (c' - c) = concat (map enc es)"
proof (induction n arbitrary: c es)
  case 0
  then show ?case by (simp add: peek_def)
next
  case (Suc n)
  then obtain e c1 es1 where d: "dec bs c = Inr (e, c1)" and l: "read_loop dec n bs c1 = Inr (es1, c')"
    and es: "es = e # es1" by (auto split: sum.splits prod.splits)
  note e = dec_sound[OF d] and r = Suc.IH[OF l]
  with e have "c1 - c + (c' - c1) = c' - c" "c + (c1 - c) = c1" by auto
  with peek_split[of c "c1 - c" "c' - c1" bs] e r show ?case by (simp add: es)
qed

end

section \<open>Pairs and renamings\<close>

definition put_pair :: "('a \<Rightarrow> bytes) \<Rightarrow> ('b \<Rightarrow> bytes) \<Rightarrow> 'a \<times> 'b \<Rightarrow> bytes" where
  "put_pair p q = (\<lambda>(a, b). p a @ q b)"

definition get_pair :: "(bytes \<Rightarrow> nat \<Rightarrow> 'err + 'a \<times> nat) \<Rightarrow> (bytes \<Rightarrow> nat \<Rightarrow> 'err + 'b \<times> nat) \<Rightarrow>
    bytes \<Rightarrow> nat \<Rightarrow> 'err + ('a \<times> 'b) \<times> nat" where
  "get_pair g h bs c =
     (case g bs c of Inl e \<Rightarrow> Inl e
      | Inr (a, c1) \<Rightarrow> (case h bs c1 of Inl e \<Rightarrow> Inl e | Inr (b, c2) \<Rightarrow> Inr ((a, b), c2)))"

definition get_map :: "('a \<Rightarrow> 'b) \<Rightarrow> (bytes \<Rightarrow> nat \<Rightarrow> 'err + 'a \<times> nat) \<Rightarrow> bytes \<Rightarrow> nat \<Rightarrow> 'err + 'b \<times> nat" where
  "get_map f g bs c = (case g bs c of Inl e \<Rightarrow> Inl e | Inr (a, c1) \<Rightarrow> Inr (f a, c1))"

lemma stream_codec_pair:
  assumes "stream_codec p g P" "stream_codec q h Q"
  shows "stream_codec (put_pair p q) (get_pair g h) (\<lambda>(a, b). P a \<and> Q b)"
proof
  fix x :: "'a \<times> 'c" and pre post
  assume "case x of (a, b) \<Rightarrow> P a \<and> Q b"
  then obtain a b where x: "x = (a, b)" "P a" "Q b" by (cases x) auto
  have "g (pre @ p a @ q b @ post) (length pre) = Inr (a, length pre + length (p a))"
    by (rule stream_codec.dec_enc[OF assms(1) x(2)])
  moreover have "h ((pre @ p a) @ q b @ post) (length (pre @ p a)) = Inr (b, length (pre @ p a) + length (q b))"
    by (rule stream_codec.dec_enc[OF assms(2) x(3)])
  ultimately show "get_pair g h (pre @ put_pair p q x @ post) (length pre) = Inr (x, length pre + length (put_pair p q x))"
    by (simp add: x(1) get_pair_def put_pair_def)
next
  fix bs c x c'
  assume "get_pair g h bs c = Inr (x, c')"
  then obtain a b c1 where x: "x = (a, b)" and g: "g bs c = Inr (a, c1)" and h: "h bs c1 = Inr (b, c')"
    by (auto simp: get_pair_def split: sum.splits prod.splits)
  note ga = stream_codec.dec_sound[OF assms(1) g] and hb = stream_codec.dec_sound[OF assms(2) h]
  have "peek bs c (c' - c) = peek bs c (c1 - c) @ peek bs c1 (c' - c1)"
    using peek_split[of c "c1 - c" "c' - c1" bs] ga hb by auto
  with ga hb show "(case x of (a, b) \<Rightarrow> P a \<and> Q b) \<and> c \<le> c' \<and> c' \<le> length bs \<and>
      peek bs c (c' - c) = put_pair p q x"
    by (simp add: x put_pair_def)
qed

lemma stream_codec_map:
  assumes "stream_codec p g P" "\<And>a. inv_f (f a) = a" "\<And>b. f (inv_f b) = b"
  shows "stream_codec (\<lambda>b. p (inv_f b)) (get_map f g) (\<lambda>b. P (inv_f b))"
proof
  fix b pre post
  assume "P (inv_f b)"
  with stream_codec.dec_enc[OF assms(1)] assms(3)
  show "get_map f g (pre @ p (inv_f b) @ post) (length pre) = Inr (b, length pre + length (p (inv_f b)))"
    by (simp add: get_map_def)
next
  fix bs c b c'
  assume "get_map f g bs c = Inr (b, c')"
  then obtain a where "b = f a" "g bs c = Inr (a, c')" by (auto simp: get_map_def split: sum.splits prod.splits)
  with stream_codec.dec_sound[OF assms(1)] assms(2)
  show "P (inv_f b) \<and> c \<le> c' \<and> c' \<le> length bs \<and> peek bs c (c' - c) = p (inv_f b)" by auto
qed

text \<open>A fixed-width little-endian integer.\<close>

definition get_le :: "nat \<Rightarrow> bytes \<Rightarrow> nat \<Rightarrow> unit + 'a::len word \<times> nat" where
  "get_le n bs c = (if c + n > length bs then Inl () else Inr (decode_le n (peek bs c n), c + n))"

lemma stream_codec_le:
  assumes "LENGTH('a::len) = 8 * n"
  shows "stream_codec (append_le n :: 'a word \<Rightarrow> bytes) (get_le n) (\<lambda>_. True)"
proof
  fix v :: "'a word" and pre post
  have "peek (pre @ append_le n v @ post) (length pre) n = append_le n v"
    using peek_append[of pre "append_le n v" post] by simp
  then show "get_le n (pre @ append_le n v @ post) (length pre) = Inr (v, length pre + length (append_le n v))"
    using assms by (simp add: get_le_def decode_append_le)
next
  fix bs c and v :: "'a word" and c'
  assume "get_le n bs c = Inr (v, c')"
  then show "True \<and> c \<le> c' \<and> c' \<le> length bs \<and> peek bs c (c' - c) = append_le n v"
    using assms by (auto simp: get_le_def append_decode_le split: if_splits)
qed

end
