(* ===== verification/Page_Layout.thy ===== *)
theory Page_Layout
  imports Stream_Codec
begin

unbundle bit_operations_syntax

text \<open>
  The page and sparse-index formats of the Masstree metadata store
  (\<open>src/src/mds/masstree_meta/MasstreePageLayout.h\<close> and \<open>.cpp\<close>).  A page is a 32-bit entry count
  followed by variable-length entries.  The two page types share one decoding loop over an entry
  decoder; the contract of an entry codec is the locale \<open>entry_codec\<close>, interpreted on the inode and
  on the directory entries.  Shown here: encoding and decoding are inverse to each other on both page
  types and both sparse entries (so no two pages share their bytes, and every accepted byte string is
  the encoding of what was read), the size functions are exact, and the directory key order is a
  linear order.
\<close>

section \<open>Data\<close>

record MasstreeInodePageEntry =
  ie_inode_id :: u64
  ie_payload :: bytes

record MasstreeInodeSparseEntry =
  is_page_offset :: u64
  is_max_inode_id :: u64

record MasstreeDentryPageEntry =
  de_parent_inode :: u64
  de_name :: bytes
  de_child_inode :: u64
  de_type :: u32

record MasstreeDentrySparseEntry =
  ds_page_offset :: u64
  ds_max_parent_inode :: u64
  ds_max_name :: bytes

datatype page_error =
    InvalidPagePayload    \<comment> \<open>shorter than the fixed part\<close>
  | InvalidEncodeArgs     \<comment> \<open>no entries\<close>
  | CorruptedHeader | CorruptedPayload | CorruptedName | CorruptedTail
  | TrailingBytes | NameTooLong

section \<open>Integers and strings in a payload\<close>

definition AppendLe16 :: "bytes \<Rightarrow> u16 \<Rightarrow> bytes" where
  "AppendLe16 out v = (out @ [ucast (v AND 0xFF)]) @ [ucast (drop_bit 8 v AND 0xFF)]"

definition AppendLe32 :: "bytes \<Rightarrow> u32 \<Rightarrow> bytes" where
  "AppendLe32 out v = foldl (\<lambda>acc i. acc @ [ucast (drop_bit (i * 8) v AND 0xFF)]) out [0..<4]"

definition AppendLe64 :: "bytes \<Rightarrow> u64 \<Rightarrow> bytes" where
  "AppendLe64 out v = foldl (\<lambda>acc i. acc @ [ucast (drop_bit (i * 8) v AND 0xFF)]) out [0..<8]"

text \<open>The decoders read at a position of the payload; the callers check that it is inside.\<close>

definition DecodeLe16 :: "bytes \<Rightarrow> nat \<Rightarrow> u16" where
  "DecodeLe16 data off = ucast (data ! off) OR push_bit 8 (ucast (data ! (off + 1)))"

definition DecodeLe32 :: "bytes \<Rightarrow> nat \<Rightarrow> u32" where
  "DecodeLe32 data off = foldl (\<lambda>v i. v OR push_bit (i * 8) (ucast (data ! (off + i)))) 0 [0..<4]"

definition DecodeLe64 :: "bytes \<Rightarrow> nat \<Rightarrow> u64" where
  "DecodeLe64 data off = foldl (\<lambda>v i. v OR push_bit (i * 8) (ucast (data ! (off + i)))) 0 [0..<8]"

definition ConsumeString :: "bytes \<Rightarrow> nat \<Rightarrow> nat \<Rightarrow> (bytes \<times> nat) option" where
  "ConsumeString payload cursor len =
     (if cursor + len > length payload then None else Some (peek payload cursor len, cursor + len))"

definition EncodedMasstreeDentryPageEntrySize :: "MasstreeDentryPageEntry \<Rightarrow> nat" where
  "EncodedMasstreeDentryPageEntrySize entry = 8 + 2 + length (de_name entry) + 8 + 1"

definition EncodedMasstreeInodePageEntrySize :: "MasstreeInodePageEntry \<Rightarrow> nat" where
  "EncodedMasstreeInodePageEntrySize entry = 8 + 4 + length (ie_payload entry)"

section \<open>Pages of inodes\<close>

definition append_inode_entry :: "bytes \<Rightarrow> MasstreeInodePageEntry \<Rightarrow> bytes" where
  "append_inode_entry payload entry =
     AppendLe32 (AppendLe64 payload (ie_inode_id entry)) (of_nat (length (ie_payload entry))) @ ie_payload entry"

definition EncodeMasstreeInodePage :: "MasstreeInodePageEntry list \<Rightarrow> page_error + bytes" where
  "EncodeMasstreeInodePage entries =
     (if entries = [] then Inl InvalidEncodeArgs
      else Inr (foldl append_inode_entry (AppendLe32 [] (of_nat (length entries))) entries))"

text \<open>One iteration of the decoding loop: the entry at the cursor and the cursor behind it.\<close>

definition decode_inode_entry :: "bytes \<Rightarrow> nat \<Rightarrow> page_error + MasstreeInodePageEntry \<times> nat" where
  "decode_inode_entry payload cursor =
     (if cursor + 8 + 4 > length payload then Inl CorruptedHeader
      else let inode_id = DecodeLe64 payload cursor;
               record_len = DecodeLe32 payload (cursor + 8)
           in case ConsumeString payload (cursor + 8 + 4) (unat record_len) of
                None \<Rightarrow> Inl CorruptedPayload
              | Some (s, cursor') \<Rightarrow> Inr (\<lparr>ie_inode_id = inode_id, ie_payload = s\<rparr>, cursor'))"

definition DecodeMasstreeInodePage :: "bytes \<Rightarrow> page_error + MasstreeInodePageEntry list" where
  "DecodeMasstreeInodePage payload =
     (if length payload < 4 then Inl InvalidPagePayload
      else let count = DecodeLe32 payload 0
           in case read_loop decode_inode_entry (unat count) payload 4 of
                Inl e \<Rightarrow> Inl e
              | Inr (entries, cursor) \<Rightarrow>
                  if cursor \<noteq> length payload then Inl TrailingBytes else Inr entries)"

definition EncodeMasstreeInodeSparseEntry :: "MasstreeInodeSparseEntry \<Rightarrow> bytes" where
  "EncodeMasstreeInodeSparseEntry entry = AppendLe64 (AppendLe64 [] (is_page_offset entry)) (is_max_inode_id entry)"

definition DecodeMasstreeInodeSparseEntry :: "bytes \<Rightarrow> page_error + MasstreeInodeSparseEntry" where
  "DecodeMasstreeInodeSparseEntry payload =
     (if length payload \<noteq> 8 * 2 then Inl InvalidPagePayload
      else Inr \<lparr>is_page_offset = DecodeLe64 payload 0, is_max_inode_id = DecodeLe64 payload 8\<rparr>)"

section \<open>Pages of directory entries\<close>

definition append_dentry_entry :: "bytes \<Rightarrow> MasstreeDentryPageEntry \<Rightarrow> bytes" where
  "append_dentry_entry payload entry =
     AppendLe64 (AppendLe16 (AppendLe64 payload (de_parent_inode entry)) (of_nat (length (de_name entry)))
                 @ de_name entry) (de_child_inode entry) @ [ucast (de_type entry)]"

fun encode_dentry_loop :: "bytes \<Rightarrow> MasstreeDentryPageEntry list \<Rightarrow> page_error + bytes" where
  "encode_dentry_loop payload [] = Inr payload"
| "encode_dentry_loop payload (entry # entries) =
     (if length (de_name entry) > 0xFFFF then Inl NameTooLong
      else encode_dentry_loop (append_dentry_entry payload entry) entries)"

definition EncodeMasstreeDentryPage :: "MasstreeDentryPageEntry list \<Rightarrow> page_error + bytes" where
  "EncodeMasstreeDentryPage entries =
     (if entries = [] then Inl InvalidEncodeArgs
      else encode_dentry_loop (AppendLe32 [] (of_nat (length entries))) entries)"

definition decode_dentry_entry :: "bytes \<Rightarrow> nat \<Rightarrow> page_error + MasstreeDentryPageEntry \<times> nat" where
  "decode_dentry_entry payload cursor =
     (if cursor + 8 + 2 > length payload then Inl CorruptedHeader
      else let parent = DecodeLe64 payload cursor;
               name_len = DecodeLe16 payload (cursor + 8)
           in case ConsumeString payload (cursor + 8 + 2) (unat name_len) of
                None \<Rightarrow> Inl CorruptedName
              | Some (s, cursor') \<Rightarrow>
                  if cursor' + 8 + 1 > length payload then Inl CorruptedTail
                  else Inr (\<lparr>de_parent_inode = parent, de_name = s,
                             de_child_inode = DecodeLe64 payload cursor',
                             de_type = ucast (payload ! (cursor' + 8))\<rparr>, cursor' + 8 + 1))"

definition DecodeMasstreeDentryPage :: "bytes \<Rightarrow> page_error + MasstreeDentryPageEntry list" where
  "DecodeMasstreeDentryPage payload =
     (if length payload < 4 then Inl InvalidPagePayload
      else let count = DecodeLe32 payload 0
           in case read_loop decode_dentry_entry (unat count) payload 4 of
                Inl e \<Rightarrow> Inl e
              | Inr (entries, cursor) \<Rightarrow>
                  if cursor \<noteq> length payload then Inl TrailingBytes else Inr entries)"

definition EncodeMasstreeDentrySparseEntry :: "MasstreeDentrySparseEntry \<Rightarrow> page_error + bytes" where
  "EncodeMasstreeDentrySparseEntry entry =
     (if length (ds_max_name entry) > 0xFFFF then Inl NameTooLong
      else Inr (AppendLe16 (AppendLe64 (AppendLe64 [] (ds_page_offset entry)) (ds_max_parent_inode entry))
                  (of_nat (length (ds_max_name entry))) @ ds_max_name entry))"

definition DecodeMasstreeDentrySparseEntry :: "bytes \<Rightarrow> page_error + MasstreeDentrySparseEntry" where
  "DecodeMasstreeDentrySparseEntry payload =
     (if length payload < 8 * 2 + 2 then Inl InvalidPagePayload
      else let name_len = DecodeLe16 payload 16
           in case ConsumeString payload 18 (unat name_len) of
                None \<Rightarrow> Inl CorruptedName
              | Some (s, cursor) \<Rightarrow>
                  if cursor \<noteq> length payload then Inl TrailingBytes
                  else Inr \<lparr>ds_page_offset = DecodeLe64 payload 0,
                            ds_max_parent_inode = DecodeLe64 payload 8, ds_max_name = s\<rparr>)"

section \<open>The order of directory keys\<close>

text \<open>\<open>operator<\<close> of \<open>std::string\<close>: the first different byte decides, compared as an unsigned
  number, then the length.\<close>

fun bytes_less :: "bytes \<Rightarrow> bytes \<Rightarrow> bool" where
  "bytes_less xs [] = False"
| "bytes_less [] (y # ys) = True"
| "bytes_less (x # xs) (y # ys) = (x < y \<or> x = y \<and> bytes_less xs ys)"

definition MasstreeDentryKeyLess :: "u64 \<Rightarrow> bytes \<Rightarrow> u64 \<Rightarrow> bytes \<Rightarrow> bool" where
  "MasstreeDentryKeyLess lhs_parent lhs_name rhs_parent rhs_name =
     (if lhs_parent \<noteq> rhs_parent then lhs_parent < rhs_parent else bytes_less lhs_name rhs_name)"

section \<open>The integer codecs\<close>

lemma AppendLe_eq [codec_simps]:
  "AppendLe16 out v2 = out @ append_le 2 v2"
  "AppendLe32 out v4 = out @ append_le 4 v4"
  "AppendLe64 out v8 = out @ append_le 8 v8"
  by (simp_all add: AppendLe16_def AppendLe32_def AppendLe64_def append_le_def numeral_eq_Suc)

lemma DecodeLe_eq [codec_simps]:
  "off + 2 \<le> length data \<Longrightarrow> DecodeLe16 data off = decode_le 2 (peek data off 2)"
  "off + 4 \<le> length data \<Longrightarrow> DecodeLe32 data off = decode_le 4 (peek data off 4)"
  "off + 8 \<le> length data \<Longrightarrow> DecodeLe64 data off = decode_le 8 (peek data off 8)"
  by (simp_all add: DecodeLe16_def DecodeLe32_def DecodeLe64_def decode_le_def peek_def upt_rec numeral_eq_Suc)

text \<open>Reading an integer or a string at the place where it was appended.\<close>

lemma DecodeLe_at:
  "bs = pre @ append_le 2 v2 @ post \<Longrightarrow> off = length pre \<Longrightarrow> DecodeLe16 bs off = v2"
  "bs = pre @ append_le 4 v4 @ post \<Longrightarrow> off = length pre \<Longrightarrow> DecodeLe32 bs off = v4"
  "bs = pre @ append_le 8 v8 @ post \<Longrightarrow> off = length pre \<Longrightarrow> DecodeLe64 bs off = v8"
proof -
  show "bs = pre @ append_le 2 v2 @ post \<Longrightarrow> off = length pre \<Longrightarrow> DecodeLe16 bs off = v2"
    using peek_append[of pre "append_le 2 v2" post] by (simp add: DecodeLe_eq decode_append_le)
  show "bs = pre @ append_le 4 v4 @ post \<Longrightarrow> off = length pre \<Longrightarrow> DecodeLe32 bs off = v4"
    using peek_append[of pre "append_le 4 v4" post] by (simp add: DecodeLe_eq decode_append_le)
  show "bs = pre @ append_le 8 v8 @ post \<Longrightarrow> off = length pre \<Longrightarrow> DecodeLe64 bs off = v8"
    using peek_append[of pre "append_le 8 v8" post] by (simp add: DecodeLe_eq decode_append_le)
qed

lemma ConsumeString_at:
  "bs = pre @ s @ post \<Longrightarrow> off = length pre \<Longrightarrow> n = length s \<Longrightarrow> ConsumeString bs off n = Some (s, off + n)"
  using peek_append[of pre s post] by (simp add: ConsumeString_def)

lemma ConsumeString_SomeD:
  "ConsumeString bs off n = Some (s, c) \<Longrightarrow> off + n \<le> length bs \<and> s = peek bs off n \<and> c = off + n \<and> length s = n"
  by (auto simp: ConsumeString_def split: if_splits)

text \<open>An accepted integer is the encoding of its bytes.\<close>

lemma append_le_Decode:
  "off + 2 \<le> length bs \<Longrightarrow> append_le 2 (DecodeLe16 bs off) = peek bs off 2"
  "off + 4 \<le> length bs \<Longrightarrow> append_le 4 (DecodeLe32 bs off) = peek bs off 4"
  "off + 8 \<le> length bs \<Longrightarrow> append_le 8 (DecodeLe64 bs off) = peek bs off 8"
  by (simp_all add: DecodeLe_eq append_decode_le)

section \<open>The contract of an entry codec\<close>

text \<open>
  A page codec is a stream codec of its entries with the page's error values; the page adds the count
  in front and the check that nothing follows the last entry.
\<close>

locale entry_codec = stream_codec enc dec fits
  for enc :: "'e \<Rightarrow> bytes" and dec :: "bytes \<Rightarrow> nat \<Rightarrow> page_error + 'e \<times> nat" and fits :: "'e \<Rightarrow> bool"
begin

text \<open>A whole page: the count, the entries, and nothing else.\<close>

definition page_bytes :: "'e list \<Rightarrow> bytes" where
  "page_bytes es = append_le 4 (of_nat (length es) :: u32) @ concat (map enc es)"

definition read_page :: "bytes \<Rightarrow> page_error + 'e list" where
  "read_page bs =
     (if length bs < 4 then Inl InvalidPagePayload
      else case read_loop dec (unat (DecodeLe32 bs 0)) bs 4 of
             Inl e \<Rightarrow> Inl e
           | Inr (es, c) \<Rightarrow> if c \<noteq> length bs then Inl TrailingBytes else Inr es)"

lemma read_page_bytes:
  assumes "length es < 2 ^ 32" "list_all fits es"
  shows "read_page (page_bytes es) = Inr es"
proof -
  have "DecodeLe32 (page_bytes es) 0 = of_nat (length es)"
    unfolding page_bytes_def by (rule DecodeLe_at(2)[of _ "[]"]) simp_all
  moreover have "unat (of_nat (length es) :: u32) = length es"
    using assms(1) by (simp add: unat_of_nat)
  ultimately show ?thesis
    using loop_enc[OF assms(2), of "append_le 4 (of_nat (length es) :: u32)" "[]"]
    by (simp add: read_page_def page_bytes_def)
qed

lemma read_page_sound:
  assumes "read_page bs = Inr es"
  shows "bs = page_bytes es \<and> length es < 2 ^ 32 \<and> list_all fits es"
proof -
  from assms have len: "4 \<le> length bs"
    and l: "read_loop dec (unat (DecodeLe32 bs 0)) bs 4 = Inr (es, length bs)"
    by (auto simp: read_page_def not_less split: if_splits sum.splits)
  note sound = loop_sound[OF l len]
  have "append_le 4 (DecodeLe32 bs 0) = peek bs 0 4" using len by (intro append_le_Decode) simp
  moreover have "bs = peek bs 0 4 @ peek bs 4 (length bs - 4)" by (simp add: peek_def)
  ultimately show ?thesis
    using sound unat_u32_lt[of "DecodeLe32 bs 0"] by (auto simp: page_bytes_def)
qed

lemma page_iff:
  "(read_page bs = Inr es) = (bs = page_bytes es \<and> length es < 2 ^ 32 \<and> list_all fits es)"
  using read_page_bytes read_page_sound by blast

end

section \<open>The two entry codecs\<close>

definition inode_entry_bytes :: "MasstreeInodePageEntry \<Rightarrow> bytes" where
  "inode_entry_bytes e = append_le 8 (ie_inode_id e) @
     append_le 4 (of_nat (length (ie_payload e)) :: u32) @ ie_payload e"

definition inode_entry_fits :: "MasstreeInodePageEntry \<Rightarrow> bool" where
  "inode_entry_fits e \<longleftrightarrow> length (ie_payload e) < 2 ^ 32"

definition dentry_entry_bytes :: "MasstreeDentryPageEntry \<Rightarrow> bytes" where
  "dentry_entry_bytes e = append_le 8 (de_parent_inode e) @
     append_le 2 (of_nat (length (de_name e)) :: u16) @ de_name e @
     append_le 8 (de_child_inode e) @ [ucast (de_type e)]"

definition dentry_entry_fits :: "MasstreeDentryPageEntry \<Rightarrow> bool" where
  "dentry_entry_fits e \<longleftrightarrow> length (de_name e) < 2 ^ 16 \<and> unat (de_type e) < 2 ^ 8"

lemma of_nat_length_word:
  "length xs = unat w \<Longrightarrow> of_nat (length xs) = (w :: 'a::len word)"
  by simp

interpretation inode_page: entry_codec inode_entry_bytes decode_inode_entry inode_entry_fits
proof
  fix e :: MasstreeInodePageEntry and pre post
  assume fits: "inode_entry_fits e"
  let ?id = "append_le 8 (ie_inode_id e)" and ?n = "append_le 4 (of_nat (length (ie_payload e)) :: u32)"
  let ?bs = "pre @ inode_entry_bytes e @ post"
  have "DecodeLe64 ?bs (length pre) = ie_inode_id e"
    by (rule DecodeLe_at(3)[of _ pre _ "?n @ ie_payload e @ post"]) (simp_all add: inode_entry_bytes_def)
  moreover have "DecodeLe32 ?bs (length pre + 8) = of_nat (length (ie_payload e))"
    by (rule DecodeLe_at(2)[of _ "pre @ ?id" _ "ie_payload e @ post"]) (simp_all add: inode_entry_bytes_def)
  moreover have "ConsumeString ?bs (length pre + 8 + 4) (length (ie_payload e)) =
      Some (ie_payload e, length pre + 8 + 4 + length (ie_payload e))"
    by (rule ConsumeString_at[of _ "pre @ ?id @ ?n" _ post]) (simp_all add: inode_entry_bytes_def)
  moreover have "unat (of_nat (length (ie_payload e)) :: u32) = length (ie_payload e)"
    using fits by (simp add: inode_entry_fits_def unat_of_nat)
  ultimately show "decode_inode_entry ?bs (length pre) = Inr (e, length pre + length (inode_entry_bytes e))"
    by (simp add: decode_inode_entry_def Let_def inode_entry_bytes_def)
next
  fix bs c e c'
  assume d: "decode_inode_entry bs c = Inr (e, c')"
  let ?n = "DecodeLe32 bs (c + 8)"
  from d obtain s where len: "c + 12 \<le> length bs" and s: "ConsumeString bs (c + 12) (unat ?n) = Some (s, c')"
    and e: "e = \<lparr>ie_inode_id = DecodeLe64 bs c, ie_payload = s\<rparr>"
    by (auto simp: decode_inode_entry_def Let_def add.assoc not_less split: if_splits option.splits)
  note s = ConsumeString_SomeD[OF s]
  have "peek bs c (12 + unat ?n) = peek bs c 8 @ peek bs (c + 8) 4 @ peek bs (c + 12) (unat ?n)"
    using peek_split[of c 12 "unat ?n" bs] peek_split[of c 8 4 bs] s len by (simp add: add.assoc)
  moreover have "append_le 8 (DecodeLe64 bs c) = peek bs c 8" "append_le 4 ?n = peek bs (c + 8) 4"
    using len by (simp_all add: append_le_Decode)
  ultimately show "inode_entry_fits e \<and> c \<le> c' \<and> c' \<le> length bs \<and> peek bs c (c' - c) = inode_entry_bytes e"
    using s unat_u32_lt[of ?n] by (simp add: e inode_entry_bytes_def inode_entry_fits_def)
qed

interpretation dentry_page: entry_codec dentry_entry_bytes decode_dentry_entry dentry_entry_fits
proof
  fix e :: MasstreeDentryPageEntry and pre post
  assume fits: "dentry_entry_fits e"
  let ?p = "append_le 8 (de_parent_inode e)" and ?n = "append_le 2 (of_nat (length (de_name e)) :: u16)"
    and ?c = "append_le 8 (de_child_inode e)"
  let ?bs = "pre @ dentry_entry_bytes e @ post" and ?l = "length (de_name e)"
  have "DecodeLe64 ?bs (length pre) = de_parent_inode e"
    by (rule DecodeLe_at(3)[of _ pre _ "?n @ de_name e @ ?c @ ucast (de_type e) # post"])
      (simp_all add: dentry_entry_bytes_def)
  moreover have "DecodeLe16 ?bs (length pre + 8) = of_nat ?l"
    by (rule DecodeLe_at(1)[of _ "pre @ ?p" _ "de_name e @ ?c @ ucast (de_type e) # post"])
      (simp_all add: dentry_entry_bytes_def)
  moreover have "ConsumeString ?bs (length pre + 8 + 2) ?l = Some (de_name e, length pre + 8 + 2 + ?l)"
    by (rule ConsumeString_at[of _ "pre @ ?p @ ?n" _ "?c @ ucast (de_type e) # post"])
      (simp_all add: dentry_entry_bytes_def)
  moreover have "DecodeLe64 ?bs (length pre + 8 + 2 + ?l) = de_child_inode e"
    by (rule DecodeLe_at(3)[of _ "pre @ ?p @ ?n @ de_name e" _ "ucast (de_type e) # post"])
      (simp_all add: dentry_entry_bytes_def)
  moreover have "?bs ! (length pre + 8 + 2 + ?l + 8) = ucast (de_type e)"
  proof -
    have "?bs = (pre @ ?p @ ?n @ de_name e @ ?c) @ ucast (de_type e) # post"
      by (simp add: dentry_entry_bytes_def)
    moreover have "length (pre @ ?p @ ?n @ de_name e @ ?c) = length pre + 8 + 2 + ?l + 8" by simp
    ultimately show ?thesis by (metis nth_append_length)
  qed
  moreover have "unat (of_nat ?l :: u16) = ?l" "ucast (ucast (de_type e) :: u8) = de_type e"
    using fits by (simp_all add: dentry_entry_fits_def unat_of_nat word_unat_eq_iff unat_ucast_mod)
  ultimately show "decode_dentry_entry ?bs (length pre) = Inr (e, length pre + length (dentry_entry_bytes e))"
    by (simp add: decode_dentry_entry_def Let_def dentry_entry_bytes_def)
next
  fix bs c e c'
  assume d: "decode_dentry_entry bs c = Inr (e, c')"
  let ?n = "DecodeLe16 bs (c + 8)"
  from d obtain s c1 where len: "c + 10 \<le> length bs" and s: "ConsumeString bs (c + 10) (unat ?n) = Some (s, c1)"
    and tail: "c1 + 9 \<le> length bs" and c': "c' = c1 + 9"
    and e: "e = \<lparr>de_parent_inode = DecodeLe64 bs c, de_name = s, de_child_inode = DecodeLe64 bs c1,
                 de_type = ucast (bs ! (c1 + 8))\<rparr>"
    by (auto simp: decode_dentry_entry_def Let_def ac_simps not_less split: if_splits option.splits)
  note s = ConsumeString_SomeD[OF s]
  let ?t = "bs ! (c1 + 8)"
  have "peek bs c (c' - c) = peek bs c 8 @ peek bs (c + 8) 2 @ peek bs (c + 10) (unat ?n) @
      peek bs c1 8 @ peek bs (c1 + 8) 1"
    using peek_split[of c 8 2 bs] peek_split[of c 10 "unat ?n" bs] peek_split[of c "10 + unat ?n" 9 bs]
      peek_split[of c1 8 1 bs] s len tail c' by (simp add: add.assoc)
  moreover have "append_le 8 (DecodeLe64 bs c) = peek bs c 8" "append_le 2 ?n = peek bs (c + 8) 2"
    "append_le 8 (DecodeLe64 bs c1) = peek bs c1 8"
    using len tail by (simp_all add: append_le_Decode)
  moreover have "peek bs (c1 + 8) 1 = [?t]"
    using tail by (simp add: peek_def take_Suc hd_drop_conv_nth drop_Suc)
  moreover have "unat (ucast ?t :: u32) < 2 ^ 8" "(ucast (ucast ?t :: u32) :: u8) = ?t"
    using unat_u8_lt[of ?t] by (simp_all add: word_unat_eq_iff unat_ucast_mod)
  ultimately show "dentry_entry_fits e \<and> c \<le> c' \<and> c' \<le> length bs \<and> peek bs c (c' - c) = dentry_entry_bytes e"
    using s unat_u16_lt[of ?n] tail c' by (simp add: e dentry_entry_bytes_def dentry_entry_fits_def)
qed

section \<open>Pages\<close>

lemma EncodeInodePage_eq:
  "EncodeMasstreeInodePage es = (if es = [] then Inl InvalidEncodeArgs else Inr (inode_page.page_bytes es))"
proof -
  have "foldl append_inode_entry out es = out @ concat (map inode_entry_bytes es)" for out
    by (induction es arbitrary: out)
      (simp_all add: append_inode_entry_def inode_entry_bytes_def AppendLe_eq)
  then show ?thesis by (simp add: EncodeMasstreeInodePage_def inode_page.page_bytes_def AppendLe_eq)
qed

lemma DecodeInodePage_eq: "DecodeMasstreeInodePage bs = inode_page.read_page bs"
  by (simp add: DecodeMasstreeInodePage_def inode_page.read_page_def Let_def)

lemma EncodeDentryPage_eq:
  "EncodeMasstreeDentryPage es =
     (if es = [] then Inl InvalidEncodeArgs
      else if list_all (\<lambda>e. length (de_name e) \<le> 0xFFFF) es then Inr (dentry_page.page_bytes es)
      else Inl NameTooLong)"
proof -
  have "encode_dentry_loop out es =
      (if list_all (\<lambda>e. length (de_name e) \<le> 0xFFFF) es then Inr (out @ concat (map dentry_entry_bytes es))
       else Inl NameTooLong)" for out
    by (induction es arbitrary: out)
      (auto simp: append_dentry_entry_def dentry_entry_bytes_def AppendLe_eq)
  then show ?thesis by (simp add: EncodeMasstreeDentryPage_def dentry_page.page_bytes_def AppendLe_eq)
qed

lemma DecodeDentryPage_eq: "DecodeMasstreeDentryPage bs = dentry_page.read_page bs"
  by (simp add: DecodeMasstreeDentryPage_def dentry_page.read_page_def Let_def)

text \<open>C35: The inode page format is exact in both directions: a byte string decodes to a nonempty list
  of entries exactly when encoding these entries yields that byte string and the counts fit their
  32-bit fields.  So decoding inverts encoding, two pages never share their bytes, and no byte string
  with a wrong length, count or trailing bytes is accepted.\<close>

theorem MasstreeInodePage_bijection:
  "(DecodeMasstreeInodePage bs = Inr es \<and> es \<noteq> []) =
   (EncodeMasstreeInodePage es = Inr bs \<and> length es < 2 ^ 32 \<and>
    list_all (\<lambda>e. length (ie_payload e) < 2 ^ 32) es)"
proof -
  have "inode_entry_fits = (\<lambda>e. length (ie_payload e) < 2 ^ 32)" by (rule ext) (simp add: inode_entry_fits_def)
  then show ?thesis
    using inode_page.page_iff[of bs es] by (auto simp: DecodeInodePage_eq EncodeInodePage_eq)
qed

text \<open>The directory page format is exact in both directions, under the same reading: names are
  limited by the encoder itself, types must fit the byte they are stored in.\<close>

theorem MasstreeDentryPage_bijection:
  "(DecodeMasstreeDentryPage bs = Inr es \<and> es \<noteq> []) =
   (EncodeMasstreeDentryPage es = Inr bs \<and> length es < 2 ^ 32 \<and>
    list_all (\<lambda>e. unat (de_type e) < 256) es)"
proof -
  have "list_all dentry_entry_fits es =
      (list_all (\<lambda>e. length (de_name e) \<le> 0xFFFF) es \<and> list_all (\<lambda>e. unat (de_type e) < 256) es)"
    by (auto simp: dentry_entry_fits_def list_all_iff)
  then show ?thesis
    using dentry_page.page_iff[of bs es] by (auto simp: DecodeDentryPage_eq EncodeDentryPage_eq)
qed

lemma length_inode_entries:
  "length (concat (map inode_entry_bytes es)) = sum_list (map EncodedMasstreeInodePageEntrySize es)"
  by (induction es) (simp_all add: inode_entry_bytes_def EncodedMasstreeInodePageEntrySize_def)

lemma length_dentry_entries:
  "length (concat (map dentry_entry_bytes ds)) = sum_list (map EncodedMasstreeDentryPageEntrySize ds)"
  by (induction ds) (simp_all add: dentry_entry_bytes_def EncodedMasstreeDentryPageEntrySize_def)

text \<open>The size functions the page builders use are exact: an encoded page has four bytes for the
  count and the predicted size of each entry.\<close>

theorem encoded_page_size:
  "(EncodeMasstreeInodePage es = Inr bs \<longrightarrow>
      length bs = 4 + sum_list (map EncodedMasstreeInodePageEntrySize es)) \<and>
   (EncodeMasstreeDentryPage ds = Inr cs \<longrightarrow>
      length cs = 4 + sum_list (map EncodedMasstreeDentryPageEntrySize ds))"
  by (auto simp: EncodeInodePage_eq EncodeDentryPage_eq inode_page.page_bytes_def dentry_page.page_bytes_def
      length_inode_entries length_dentry_entries split: if_splits)

theorem encoded_page_size_witness:
  "\<exists>bs cs. EncodeMasstreeInodePage [\<lparr>ie_inode_id = 7, ie_payload = [1, 2, 3]\<rparr>] = Inr bs \<and> length bs = 19 \<and>
     EncodeMasstreeDentryPage [\<lparr>de_parent_inode = 1, de_name = [97], de_child_inode = 2, de_type = 0\<rparr>] = Inr cs \<and>
     length cs = 24"
proof -
  let ?i = "[\<lparr>ie_inode_id = 7, ie_payload = [1, 2, 3]\<rparr>]"
  let ?d = "[\<lparr>de_parent_inode = 1, de_name = [97], de_child_inode = 2, de_type = 0\<rparr>]"
  obtain bs cs where "EncodeMasstreeInodePage ?i = Inr bs" "EncodeMasstreeDentryPage ?d = Inr cs"
    by (simp add: EncodeInodePage_eq EncodeDentryPage_eq)
  with encoded_page_size[of ?i bs ?d cs] show ?thesis
    by (simp add: EncodedMasstreeInodePageEntrySize_def EncodedMasstreeDentryPageEntrySize_def)
qed

section \<open>Sparse entries\<close>

lemma inode_sparse_iff:
  "(DecodeMasstreeInodeSparseEntry bs = Inr e) = (EncodeMasstreeInodeSparseEntry e = bs)"
proof
  assume "DecodeMasstreeInodeSparseEntry bs = Inr e"
  then have len: "length bs = 16" and e: "e = \<lparr>is_page_offset = DecodeLe64 bs 0, is_max_inode_id = DecodeLe64 bs 8\<rparr>"
    by (auto simp: DecodeMasstreeInodeSparseEntry_def split: if_splits)
  have "bs = peek bs 0 8 @ peek bs 8 8" using len by (simp add: peek_def)
  with len show "EncodeMasstreeInodeSparseEntry e = bs"
    by (simp add: EncodeMasstreeInodeSparseEntry_def AppendLe_eq e append_le_Decode)
next
  assume "EncodeMasstreeInodeSparseEntry e = bs"
  then have bs: "bs = append_le 8 (is_page_offset e) @ append_le 8 (is_max_inode_id e)"
    by (simp add: EncodeMasstreeInodeSparseEntry_def AppendLe_eq)
  have "DecodeLe64 bs 0 = is_page_offset e" "DecodeLe64 bs 8 = is_max_inode_id e"
    by (rule DecodeLe_at(3)[of _ "[]" _ "append_le 8 (is_max_inode_id e)"]; simp add: bs)
      (rule DecodeLe_at(3)[of _ "append_le 8 (is_page_offset e)" _ "[]"]; simp add: bs)
  then show "DecodeMasstreeInodeSparseEntry bs = Inr e"
    by (simp add: DecodeMasstreeInodeSparseEntry_def bs)
qed

lemma dentry_sparse_iff:
  "(DecodeMasstreeDentrySparseEntry bs = Inr e) = (EncodeMasstreeDentrySparseEntry e = Inr bs)"
proof
  let ?n = "DecodeLe16 bs 16"
  assume "DecodeMasstreeDentrySparseEntry bs = Inr e"
  then obtain s where len: "18 \<le> length bs" and s: "ConsumeString bs 18 (unat ?n) = Some (s, length bs)"
    and e: "e = \<lparr>ds_page_offset = DecodeLe64 bs 0, ds_max_parent_inode = DecodeLe64 bs 8, ds_max_name = s\<rparr>"
    by (auto simp: DecodeMasstreeDentrySparseEntry_def Let_def split: if_splits option.splits)
  note s = ConsumeString_SomeD[OF s]
  have "bs = peek bs 0 8 @ peek bs 8 8 @ peek bs 16 2 @ peek bs 18 (length bs - 18)"
    using peek_split[of 0 8 8 bs] peek_split[of 0 16 2 bs] peek_split[of 0 18 "length bs - 18" bs] len
    by (simp add: peek_def)
  with s len unat_u16_lt[of ?n] show "EncodeMasstreeDentrySparseEntry e = Inr bs"
    by (simp add: EncodeMasstreeDentrySparseEntry_def AppendLe_eq e append_le_Decode)
next
  assume enc: "EncodeMasstreeDentrySparseEntry e = Inr bs"
  let ?p = "append_le 8 (ds_page_offset e)" and ?m = "append_le 8 (ds_max_parent_inode e)"
    and ?n = "append_le 2 (of_nat (length (ds_max_name e)) :: u16)"
  from enc have bs: "bs = ?p @ ?m @ ?n @ ds_max_name e" and len: "length (ds_max_name e) \<le> 0xFFFF"
    by (auto simp: EncodeMasstreeDentrySparseEntry_def AppendLe_eq split: if_splits)
  have "DecodeLe64 bs 0 = ds_page_offset e"
    by (rule DecodeLe_at(3)[of _ "[]" _ "?m @ ?n @ ds_max_name e"]) (simp_all add: bs)
  moreover have "DecodeLe64 bs 8 = ds_max_parent_inode e"
    by (rule DecodeLe_at(3)[of _ ?p _ "?n @ ds_max_name e"]) (simp_all add: bs)
  moreover have "DecodeLe16 bs 16 = of_nat (length (ds_max_name e))"
    by (rule DecodeLe_at(1)[of _ "?p @ ?m" _ "ds_max_name e"]) (simp_all add: bs)
  moreover have "ConsumeString bs 18 (length (ds_max_name e)) = Some (ds_max_name e, length bs)"
    by (subst ConsumeString_at[of _ "?p @ ?m @ ?n" "ds_max_name e" "[]"]) (simp_all add: bs)
  moreover have "unat (of_nat (length (ds_max_name e)) :: u16) = length (ds_max_name e)"
    using len by (simp add: unat_of_nat)
  ultimately show "DecodeMasstreeDentrySparseEntry bs = Inr e"
    by (simp add: DecodeMasstreeDentrySparseEntry_def Let_def) (simp add: bs)
qed

text \<open>The sparse index entries of both kinds decode exactly from the bytes they encode to.\<close>

theorem MasstreeSparseEntry_bijection:
  "(DecodeMasstreeInodeSparseEntry bs = Inr i) = (EncodeMasstreeInodeSparseEntry i = bs) \<and>
   (DecodeMasstreeDentrySparseEntry cs = Inr d) = (EncodeMasstreeDentrySparseEntry d = Inr cs)"
  by (simp add: inode_sparse_iff dentry_sparse_iff)

section \<open>The key order is linear\<close>

lemma bytes_less_irrefl: "\<not> bytes_less xs xs"
  by (induction xs) simp_all

lemma bytes_less_trans: "bytes_less xs ys \<Longrightarrow> bytes_less ys zs \<Longrightarrow> bytes_less xs zs"
  by (induction xs ys arbitrary: zs rule: bytes_less.induct) (case_tac zs; auto)+

lemma bytes_less_total: "bytes_less xs ys \<or> xs = ys \<or> bytes_less ys xs"
proof (induction xs ys rule: bytes_less.induct)
  case (1 xs)
  then show ?case by (cases xs) simp_all
qed auto

text \<open>Directory keys as a type with the order the index uses.\<close>

datatype dentry_key = Dentry_Key (key_parent: u64) (key_name: bytes)

instantiation dentry_key :: linorder
begin

definition less_dentry_key :: "dentry_key \<Rightarrow> dentry_key \<Rightarrow> bool" where
  "less_dentry_key a b = MasstreeDentryKeyLess (key_parent a) (key_name a) (key_parent b) (key_name b)"

definition less_eq_dentry_key :: "dentry_key \<Rightarrow> dentry_key \<Rightarrow> bool" where
  "less_eq_dentry_key a b = (a = b \<or> a < b)"

instance
proof
  fix a b c :: dentry_key
  have irrefl: "\<not> a < a" for a :: dentry_key
    by (simp add: less_dentry_key_def MasstreeDentryKeyLess_def bytes_less_irrefl)
  have trans: "a < b \<Longrightarrow> b < c \<Longrightarrow> a < c" for a b c :: dentry_key
    by (auto simp: less_dentry_key_def MasstreeDentryKeyLess_def dest: bytes_less_trans split: if_splits)
  show "(a < b) = (a \<le> b \<and> \<not> b \<le> a)"
    using irrefl trans by (auto simp: less_eq_dentry_key_def)
  show "a \<le> a" by (simp add: less_eq_dentry_key_def)
  show "a \<le> b \<Longrightarrow> b \<le> c \<Longrightarrow> a \<le> c" using trans by (auto simp: less_eq_dentry_key_def)
  show "a \<le> b \<Longrightarrow> b \<le> a \<Longrightarrow> a = b" using irrefl trans by (auto simp: less_eq_dentry_key_def)
  show "a \<le> b \<or> b \<le> a"
    using bytes_less_total[of "key_name a" "key_name b"]
    by (cases a; cases b) (auto simp: less_eq_dentry_key_def less_dentry_key_def MasstreeDentryKeyLess_def)
qed

end

end
