(* ===== verification/Meta_Codec.thy ===== *)
theory Meta_Codec
  imports Stream_Codec Unified_Inode
begin

unbundle bit_operations_syntax

text \<open>
  The value codecs of the metadata store (\<open>src/src/mds/storage/MetaCodec.h\<close> and \<open>.cpp\<close>): 64-bit
  counters, and placement-group views inside a checksummed envelope.  A \<open>Read\<close> function that returns
  false is \<open>Inl ()\<close>.  Shown here: placement-group views survive encoding and decoding in both
  directions, and the checksum of the envelope detects every corruption of a single payload byte.
\<close>

section \<open>The checksum\<close>

definition crc_bit :: "u32 \<Rightarrow> u32" where
  "crc_bit c = (if c AND 1 \<noteq> 0 then 0xEDB88320 XOR drop_bit 1 c else drop_bit 1 c)"

definition crc_table :: "u32 \<Rightarrow> u32" where
  "crc_table i = (crc_bit ^^ 8) i"

definition crc_update :: "u32 \<Rightarrow> u8 \<Rightarrow> u32" where
  "crc_update crc b = crc_table ((crc XOR ucast b) AND 0xFF) XOR drop_bit 8 crc"

definition Crc32 :: "bytes \<Rightarrow> u32" where
  "Crc32 data = foldl crc_update 0xFFFFFFFF data XOR 0xFFFFFFFF"

section \<open>Fields\<close>

definition AppendU32 :: "bytes \<Rightarrow> u32 \<Rightarrow> bytes" where
  "AppendU32 out v = out @ append_le 4 v"

definition AppendU64 :: "bytes \<Rightarrow> u64 \<Rightarrow> bytes" where
  "AppendU64 out v = out @ append_le 8 v"

definition AppendBool :: "bytes \<Rightarrow> bool \<Rightarrow> bytes" where
  "AppendBool out v = out @ [if v then 1 else 0]"

definition AppendString :: "bytes \<Rightarrow> bytes \<Rightarrow> bytes" where
  "AppendString out v = AppendU32 out (of_nat (length v)) @ v"

definition mc_ReadU32 :: "bytes \<Rightarrow> nat \<Rightarrow> unit + u32 \<times> nat" where
  "mc_ReadU32 inp cursor =
     (if cursor + 4 > length inp then Inl () else Inr (decode_le 4 (peek inp cursor 4), cursor + 4))"

definition mc_ReadU64 :: "bytes \<Rightarrow> nat \<Rightarrow> unit + u64 \<times> nat" where
  "mc_ReadU64 inp cursor =
     (if cursor + 8 > length inp then Inl () else Inr (decode_le 8 (peek inp cursor 8), cursor + 8))"

definition ReadBool :: "bytes \<Rightarrow> nat \<Rightarrow> unit + bool \<times> nat" where
  "ReadBool inp cursor =
     (if cursor \<ge> length inp then Inl ()
      else let v = inp ! cursor
           in if v > 1 then Inl () else Inr (v = 1, cursor + 1))"

definition ReadString :: "bytes \<Rightarrow> nat \<Rightarrow> unit + bytes \<times> nat" where
  "ReadString inp cursor =
     (case mc_ReadU32 inp cursor of
        Inl e \<Rightarrow> Inl e
      | Inr (len, cursor') \<Rightarrow>
          if cursor' + unat len > length inp then Inl ()
          else Inr (peek inp cursor' (unat len), cursor' + unat len))"

section \<open>The envelope\<close>

definition kEnvelopeMagic :: u32 where "kEnvelopeMagic = 0x5A424D44"
definition kEnvelopeVersionV1 :: u32 where "kEnvelopeVersionV1 = 1"
definition kEnvelopeVersionCurrent :: u32 where "kEnvelopeVersionCurrent = 2"

definition EncodeEnvelope :: "bytes \<Rightarrow> u32 \<Rightarrow> bytes" where
  "EncodeEnvelope payload ver =
     AppendU32 (AppendU32 (AppendU32 (AppendU32 [] kEnvelopeMagic) ver)
                          (of_nat (length payload)) @ payload) (Crc32 payload)"

definition DecodeEnvelope :: "bytes \<Rightarrow> (bytes \<times> u32) option" where
  "DecodeEnvelope data =
     (case mc_ReadU32 data 0 of Inl _ \<Rightarrow> None | Inr (magic, c1) \<Rightarrow>
      (case mc_ReadU32 data c1 of Inl _ \<Rightarrow> None | Inr (ver, c2) \<Rightarrow>
       (case mc_ReadU32 data c2 of Inl _ \<Rightarrow> None | Inr (len, c3) \<Rightarrow>
          if magic \<noteq> kEnvelopeMagic \<or> ver < kEnvelopeVersionV1 \<or> ver > kEnvelopeVersionCurrent then None
          else if c3 + unat len + 4 \<noteq> length data then None
          else let payload = peek data c3 (unat len)
               in case mc_ReadU32 data (c3 + unat len) of Inl _ \<Rightarrow> None | Inr (crc, _) \<Rightarrow>
                    if crc \<noteq> Crc32 payload then None else Some (payload, ver))))"

section \<open>Placement-group views\<close>

record PgViewMemberRecord =
  pm_node_id :: bytes
  pm_node_address :: bytes
  pm_disk_id :: bytes
  pm_group_id :: bytes
  pm_epoch :: u64
  pm_primary_node_id :: bytes
  pm_primary_address :: bytes
  pm_secondary_node_id :: bytes
  pm_secondary_address :: bytes
  pm_sync_ready :: bool

record PgViewRecord =
  pv_epoch :: u64
  pv_pg_id :: u32
  pv_members :: "PgViewMemberRecord list"

definition EncodePgMemberPayload :: "bytes \<Rightarrow> PgViewMemberRecord \<Rightarrow> bytes" where
  "EncodePgMemberPayload payload member =
     (let out = AppendString payload (pm_node_id member);
          out = AppendString out (pm_node_address member);
          out = AppendString out (pm_disk_id member);
          out = AppendString out (pm_group_id member);
          out = AppendU64 out (pm_epoch member);
          out = AppendString out (pm_primary_node_id member);
          out = AppendString out (pm_primary_address member);
          out = AppendString out (pm_secondary_node_id member);
          out = AppendString out (pm_secondary_address member)
      in AppendBool out (pm_sync_ready member))"

definition DecodePgMemberPayload :: "bytes \<Rightarrow> nat \<Rightarrow> unit + PgViewMemberRecord \<times> nat" where
  "DecodePgMemberPayload payload c0 =
     (case ReadString payload c0 of Inl e \<Rightarrow> Inl e | Inr (node, c1) \<Rightarrow>
     (case ReadString payload c1 of Inl e \<Rightarrow> Inl e | Inr (addr, c2) \<Rightarrow>
     (case ReadString payload c2 of Inl e \<Rightarrow> Inl e | Inr (disk, c3) \<Rightarrow>
     (case ReadString payload c3 of Inl e \<Rightarrow> Inl e | Inr (grp, c4) \<Rightarrow>
     (case mc_ReadU64 payload c4 of Inl e \<Rightarrow> Inl e | Inr (epoch, c5) \<Rightarrow>
     (case ReadString payload c5 of Inl e \<Rightarrow> Inl e | Inr (pn, c6) \<Rightarrow>
     (case ReadString payload c6 of Inl e \<Rightarrow> Inl e | Inr (pa, c7) \<Rightarrow>
     (case ReadString payload c7 of Inl e \<Rightarrow> Inl e | Inr (sn, c8) \<Rightarrow>
     (case ReadString payload c8 of Inl e \<Rightarrow> Inl e | Inr (sa, c9) \<Rightarrow>
     (case ReadBool payload c9 of Inl e \<Rightarrow> Inl e | Inr (ready, c10) \<Rightarrow>
        Inr (\<lparr>pm_node_id = node, pm_node_address = addr, pm_disk_id = disk, pm_group_id = grp,
              pm_epoch = epoch, pm_primary_node_id = pn, pm_primary_address = pa,
              pm_secondary_node_id = sn, pm_secondary_address = sa, pm_sync_ready = ready\<rparr>, c10)))))))))))"

definition EncodePgView :: "PgViewRecord \<Rightarrow> bytes" where
  "EncodePgView view =
     (let payload = AppendU32 (AppendU32 (AppendU64 [] (pv_epoch view)) (pv_pg_id view))
                              (of_nat (length (pv_members view)))
      in EncodeEnvelope (foldl EncodePgMemberPayload payload (pv_members view)) kEnvelopeVersionCurrent)"

definition DecodePgView :: "bytes \<Rightarrow> PgViewRecord option" where
  "DecodePgView data =
     (case DecodeEnvelope data of None \<Rightarrow> None | Some (payload, _) \<Rightarrow>
      (case mc_ReadU64 payload 0 of Inl _ \<Rightarrow> None | Inr (epoch, c1) \<Rightarrow>
       (case mc_ReadU32 payload c1 of Inl _ \<Rightarrow> None | Inr (pg, c2) \<Rightarrow>
        (case mc_ReadU32 payload c2 of Inl _ \<Rightarrow> None | Inr (member_count, c3) \<Rightarrow>
         (case read_loop DecodePgMemberPayload (unat member_count) payload c3 of Inl _ \<Rightarrow> None
          | Inr (members, c4) \<Rightarrow>
              if c4 = length payload
              then Some \<lparr>pv_epoch = epoch, pv_pg_id = pg, pv_members = members\<rparr> else None)))))"

section \<open>Counters and inode records\<close>

definition EncodeUInt64 :: "u64 \<Rightarrow> bytes" where
  "EncodeUInt64 v = poke (replicate 8 0) 0 (append_le 8 v)"

definition DecodeUInt64 :: "bytes \<Rightarrow> u64 option" where
  "DecodeUInt64 data = (if length data \<noteq> 8 then None else Some (decode_le 8 data))"

definition DecodeUnifiedInodeAttr :: "bytes \<Rightarrow> inode_error + InodeAttr" where
  "DecodeUnifiedInodeAttr data =
     (case DecodeUnifiedInodeRecord data of
        Inl e \<Rightarrow> Inl e
      | Inr rec \<Rightarrow> Inr (UnifiedInodeRecordToAttr rec))"

section \<open>Field codecs\<close>

definition put_string :: "bytes \<Rightarrow> bytes" where
  "put_string s = append_le 4 (of_nat (length s) :: u32) @ s"

definition put_bool :: "bool \<Rightarrow> bytes" where
  "put_bool b = [if b then 1 else 0]"

lemmas append_field_defs = AppendU32_def AppendU64_def AppendBool_def AppendString_def put_string_def put_bool_def

interpretation u32_field: stream_codec "append_le 4 :: u32 \<Rightarrow> bytes" mc_ReadU32 "\<lambda>_. True"
proof -
  have "mc_ReadU32 = get_le 4" by (intro ext) (simp add: mc_ReadU32_def get_le_def)
  then show "stream_codec (append_le 4 :: u32 \<Rightarrow> bytes) mc_ReadU32 (\<lambda>_. True)"
    using stream_codec_le[where 'a = 32 and n = 4] by simp
qed

interpretation u64_field: stream_codec "append_le 8 :: u64 \<Rightarrow> bytes" mc_ReadU64 "\<lambda>_. True"
proof -
  have "mc_ReadU64 = get_le 8" by (intro ext) (simp add: mc_ReadU64_def get_le_def)
  then show "stream_codec (append_le 8 :: u64 \<Rightarrow> bytes) mc_ReadU64 (\<lambda>_. True)"
    using stream_codec_le[where 'a = 64 and n = 8] by simp
qed

interpretation bool_field: stream_codec put_bool ReadBool "\<lambda>_. True"
proof
  fix b :: bool and pre post
  show "ReadBool (pre @ put_bool b @ post) (length pre) = Inr (b, length pre + length (put_bool b))"
    by (simp add: ReadBool_def put_bool_def nth_append)
next
  fix bs c b c'
  assume "ReadBool bs c = Inr (b, c')"
  then have c: "c < length bs" "c' = c + 1" and v: "\<not> bs ! c > 1" "b = (bs ! c = 1)"
    by (auto simp: ReadBool_def Let_def split: if_splits)
  from v(1) have "unat (bs ! c) \<le> 1" by (simp add: word_less_nat_alt)
  then have "bs ! c = 0 \<or> bs ! c = 1" by (auto simp: word_unat_eq_iff le_Suc_eq)
  with v(2) have "[bs ! c] = put_bool b" by (auto simp: put_bool_def)
  moreover have "peek bs c 1 = [bs ! c]" using c by (simp add: peek_def take_Suc hd_drop_conv_nth)
  ultimately show "True \<and> c \<le> c' \<and> c' \<le> length bs \<and> peek bs c (c' - c) = put_bool b"
    using c by simp
qed

interpretation string_field: stream_codec put_string ReadString "\<lambda>s. length s < 2 ^ 32"
proof
  fix s pre post :: bytes
  assume "length s < 2 ^ 32"
  then have n: "unat (of_nat (length s) :: u32) = length s" by (simp add: unat_of_nat)
  let ?n = "append_le 4 (of_nat (length s) :: u32)"
  have "mc_ReadU32 (pre @ ?n @ s @ post) (length pre) = Inr (of_nat (length s), length pre + length ?n)"
    by (rule u32_field.dec_enc) simp
  moreover have "peek ((pre @ ?n) @ s @ post) (length (pre @ ?n)) (length s) = s" by (rule peek_append)
  ultimately show "ReadString (pre @ put_string s @ post) (length pre) = Inr (s, length pre + length (put_string s))"
    by (simp add: ReadString_def put_string_def n)
next
  fix bs c s c'
  assume "ReadString bs c = Inr (s, c')"
  then obtain len c1 where r: "mc_ReadU32 bs c = Inr (len, c1)" and c': "c' = c1 + unat len" "c' \<le> length bs"
    and s: "s = peek bs c1 (unat len)"
    by (auto simp: ReadString_def split: sum.splits prod.splits if_splits)
  note u = u32_field.dec_sound[OF r]
  from c' s have len: "length s = unat len" by simp
  have "peek bs c (c' - c) = peek bs c (c1 - c) @ peek bs c1 (unat len)"
    using peek_split[of c "c1 - c" "unat len" bs] u c' by (auto simp: Nat.add_diff_assoc2)
  with u c' len s unat_u32_lt[of len]
  show "length s < 2 ^ 32 \<and> c \<le> c' \<and> c' \<le> length bs \<and> peek bs c (c' - c) = put_string s"
    by (simp add: put_string_def)
qed

section \<open>Members\<close>

type_synonym member_fields =
  "bytes \<times> bytes \<times> bytes \<times> bytes \<times> u64 \<times> bytes \<times> bytes \<times> bytes \<times> bytes \<times> bool"

definition member_of :: "member_fields \<Rightarrow> PgViewMemberRecord" where
  "member_of = (\<lambda>(node, addr, disk, grp, epoch, pn, pa, sn, sa, ready).
     \<lparr>pm_node_id = node, pm_node_address = addr, pm_disk_id = disk, pm_group_id = grp,
      pm_epoch = epoch, pm_primary_node_id = pn, pm_primary_address = pa,
      pm_secondary_node_id = sn, pm_secondary_address = sa, pm_sync_ready = ready\<rparr>)"

definition fields_of :: "PgViewMemberRecord \<Rightarrow> member_fields" where
  "fields_of m = (pm_node_id m, pm_node_address m, pm_disk_id m, pm_group_id m, pm_epoch m,
     pm_primary_node_id m, pm_primary_address m, pm_secondary_node_id m, pm_secondary_address m, pm_sync_ready m)"

definition put_fields :: "member_fields \<Rightarrow> bytes" where
  "put_fields = put_pair put_string (put_pair put_string (put_pair put_string (put_pair put_string
     (put_pair (append_le 8) (put_pair put_string (put_pair put_string (put_pair put_string
     (put_pair put_string put_bool))))))))"

definition get_fields :: "bytes \<Rightarrow> nat \<Rightarrow> unit + member_fields \<times> nat" where
  "get_fields = get_pair ReadString (get_pair ReadString (get_pair ReadString (get_pair ReadString
     (get_pair mc_ReadU64 (get_pair ReadString (get_pair ReadString (get_pair ReadString
     (get_pair ReadString ReadBool))))))))"

definition member_fits :: "PgViewMemberRecord \<Rightarrow> bool" where
  "member_fits m \<longleftrightarrow> list_all (\<lambda>s. length s < 2 ^ 32)
     [pm_node_id m, pm_node_address m, pm_disk_id m, pm_group_id m, pm_primary_node_id m,
      pm_primary_address m, pm_secondary_node_id m, pm_secondary_address m]"

definition member_bytes :: "PgViewMemberRecord \<Rightarrow> bytes" where
  "member_bytes m = put_fields (fields_of m)"

lemma get_fields_codec:
  "stream_codec put_fields get_fields (\<lambda>(a, b, c, d, e, f, g, h, i, j).
     list_all (\<lambda>s. length s < 2 ^ 32) [a, b, c, d, f, g, h, i])"
proof -
  have "stream_codec put_fields get_fields (\<lambda>(a, r). length a < 2 ^ 32 \<and> (case r of (b, r) \<Rightarrow> length b < 2 ^ 32 \<and>
    (case r of (c, r) \<Rightarrow> length c < 2 ^ 32 \<and> (case r of (d, r) \<Rightarrow> length d < 2 ^ 32 \<and>
    (case r of (e, r) \<Rightarrow> True \<and> (case r of (f, r) \<Rightarrow> length f < 2 ^ 32 \<and> (case r of (g, r) \<Rightarrow> length g < 2 ^ 32 \<and>
    (case r of (h, r) \<Rightarrow> length h < 2 ^ 32 \<and> (case r of (i, j) \<Rightarrow> length i < 2 ^ 32 \<and> True)))))))))"
    unfolding put_fields_def get_fields_def
    by (intro stream_codec_pair string_field.stream_codec_axioms u64_field.stream_codec_axioms
        bool_field.stream_codec_axioms)
  then show ?thesis by (simp add: case_prod_unfold)
qed

lemma DecodePgMember_eq: "DecodePgMemberPayload = get_map member_of get_fields"
  by (intro ext) (simp add: DecodePgMemberPayload_def get_map_def get_fields_def get_pair_def member_of_def
      split: sum.split prod.split)

interpretation member: stream_codec member_bytes DecodePgMemberPayload member_fits
proof -
  have "stream_codec (\<lambda>m. put_fields (fields_of m)) (get_map member_of get_fields)
      (\<lambda>m. (\<lambda>(a, b, c, d, e, f, g, h, i, j). list_all (\<lambda>s. length s < 2 ^ 32) [a, b, c, d, f, g, h, i]) (fields_of m))"
    by (rule stream_codec_map[OF get_fields_codec]) (auto simp: member_of_def fields_of_def)
  then show "stream_codec member_bytes DecodePgMemberPayload member_fits"
    by (simp add: DecodePgMember_eq member_bytes_def[abs_def] member_fits_def[abs_def] fields_of_def)
qed

lemma EncodePgMember_eq: "EncodePgMemberPayload out m = out @ member_bytes m"
  by (simp add: EncodePgMemberPayload_def append_field_defs member_bytes_def put_fields_def put_pair_def
      fields_of_def Let_def)

section \<open>The envelope is exact\<close>

definition envelope_bytes :: "u32 \<Rightarrow> u32 \<Rightarrow> bytes \<Rightarrow> u32 \<Rightarrow> bytes" where
  "envelope_bytes magic ver p crc =
     append_le 4 magic @ append_le 4 ver @ append_le 4 (of_nat (length p) :: u32) @ p @ append_le 4 crc"

lemma EncodeEnvelope_eq: "EncodeEnvelope p ver = envelope_bytes kEnvelopeMagic ver p (Crc32 p)"
  by (simp add: EncodeEnvelope_def envelope_bytes_def append_field_defs)

text \<open>The codec of the header followed by a body of known length.\<close>

lemma DecodeEnvelope_iff:
  "DecodeEnvelope data = Some (p, ver) \<longleftrightarrow>
     data = EncodeEnvelope p ver \<and> 1 \<le> ver \<and> ver \<le> 2 \<and> length p < 2 ^ 32"
proof
  assume "DecodeEnvelope data = Some (p, ver)"
  then obtain magic len crc c1 c2 c3 c4 where
      r: "mc_ReadU32 data 0 = Inr (magic, c1)" "mc_ReadU32 data c1 = Inr (ver, c2)"
         "mc_ReadU32 data c2 = Inr (len, c3)" "mc_ReadU32 data (c3 + unat len) = Inr (crc, c4)"
    and v: "magic = kEnvelopeMagic" "kEnvelopeVersionV1 \<le> ver" "ver \<le> kEnvelopeVersionCurrent"
    and n: "c3 + unat len + 4 = length data" and p: "p = peek data c3 (unat len)" and crc: "crc = Crc32 p"
    by (auto simp: DecodeEnvelope_def Let_def not_less split: sum.splits prod.splits if_splits)
  from r have c: "c1 = 4" "c2 = 8" "c3 = 12" "c4 = length data" and pos: "12 \<le> length data"
    using n by (auto simp: mc_ReadU32_def split: if_splits)
  have len: "length p = unat len" using n c p by simp
  have "data = peek data 0 4 @ peek data 4 4 @ peek data 8 4 @ peek data 12 (unat len) @ peek data (12 + unat len) 4"
    using peek_split[of 0 4 4 data] peek_split[of 0 8 4 data] peek_split[of 0 12 "unat len" data]
      peek_split[of 0 "12 + unat len" 4 data] n c by (simp add: peek_def)
  moreover have "length data - (12 + unat len) = 4" using n c by simp
  then have "peek data 0 4 = append_le 4 magic" "peek data 4 4 = append_le 4 ver"
    "peek data 8 4 = append_le 4 len" "peek data (12 + unat len) 4 = append_le 4 crc"
    using u32_field.dec_sound[OF r(1)] u32_field.dec_sound[OF r(2)] u32_field.dec_sound[OF r(3)]
      u32_field.dec_sound[OF r(4)] c n by auto
  ultimately have "data = EncodeEnvelope p ver"
    using v(1) crc p c len by (simp add: EncodeEnvelope_eq envelope_bytes_def)
  with v len unat_u32_lt[of len] show "data = EncodeEnvelope p ver \<and> 1 \<le> ver \<and> ver \<le> 2 \<and> length p < 2 ^ 32"
    by (simp add: kEnvelopeVersionV1_def kEnvelopeVersionCurrent_def)
next
  assume a: "data = EncodeEnvelope p ver \<and> 1 \<le> ver \<and> ver \<le> 2 \<and> length p < 2 ^ 32"
  let ?m = "append_le 4 kEnvelopeMagic" and ?v = "append_le 4 ver"
    and ?n = "append_le 4 (of_nat (length p) :: u32)" and ?c = "append_le 4 (Crc32 p)"
  from a have d: "data = ?m @ ?v @ ?n @ p @ ?c" by (simp add: EncodeEnvelope_eq envelope_bytes_def)
  have "mc_ReadU32 data 0 = Inr (kEnvelopeMagic, 4)"
    using u32_field.dec_enc[of "[]" kEnvelopeMagic "?v @ ?n @ p @ ?c"] by (simp add: d)
  moreover have "mc_ReadU32 data 4 = Inr (ver, 8)"
    using u32_field.dec_enc[of ?m ver "?n @ p @ ?c"] by (simp add: d)
  moreover have "mc_ReadU32 data 8 = Inr (of_nat (length p), 12)"
    using u32_field.dec_enc[of "?m @ ?v" "of_nat (length p)" "p @ ?c"] by (simp add: d)
  moreover have "mc_ReadU32 data (12 + length p) = Inr (Crc32 p, 16 + length p)"
    using u32_field.dec_enc[of "?m @ ?v @ ?n @ p" "Crc32 p" "[]"] by (simp add: d)
  moreover have "unat (of_nat (length p) :: u32) = length p" using a by (simp add: unat_of_nat)
  moreover have "peek data 12 (length p) = p"
    using peek_append[of "?m @ ?v @ ?n" p ?c] by (simp add: d)
  moreover have "length data = 16 + length p" by (simp add: d)
  ultimately show "DecodeEnvelope data = Some (p, ver)"
    using a by (auto simp: DecodeEnvelope_def Let_def kEnvelopeVersionV1_def kEnvelopeVersionCurrent_def dest: leD)
qed

section \<open>The checksum detects single-byte corruption\<close>

text \<open>One table step is eight steps of the bitwise register, which is linear and injective.\<close>

lemma xor_cancel_word: "x XOR z = y XOR z \<longleftrightarrow> x = (y :: 'a::len word)" "z XOR x = z XOR y \<longleftrightarrow> x = y"
  by (auto simp: bit_eq_iff bit_xor_iff)

lemma bit_poly: "bit (0xEDB88320 :: u32) 31"
  by simp

lemma crc_bit_odd: "crc_bit c = (if bit c 0 then 0xEDB88320 else 0) XOR drop_bit 1 c"
  by (simp add: crc_bit_def and_one_eq bit_0 mod_2_eq_odd)

lemma crc_bit_xor: "crc_bit (x XOR y) = crc_bit x XOR crc_bit y"
  unfolding crc_bit_odd
  by (rule bit_word_eqI) (auto simp: bit_xor_iff bit_drop_bit_eq)

lemma crc_bit_top: "bit (crc_bit c) 31 \<longleftrightarrow> bit c 0"
  unfolding crc_bit_odd using bit_poly by (auto simp: bit_xor_iff bit_drop_bit_eq dest: bit_imp_le_length)

lemma crc_bit_inject: "crc_bit x = crc_bit y \<longleftrightarrow> x = y"
proof
  assume eq: "crc_bit x = crc_bit y"
  then have low: "bit x 0 = bit y 0" using crc_bit_top[of x] crc_bit_top[of y] by simp
  with eq have shift: "drop_bit 1 x = drop_bit 1 y"
    unfolding crc_bit_odd by (simp only: xor_cancel_word)
  show "x = y"
  proof (rule bit_word_eqI)
    fix n assume "n < LENGTH(32)"
    show "bit x n = bit y n"
    proof (cases n)
      case 0
      with low show ?thesis by simp
    next
      case (Suc m)
      from shift have "bit (drop_bit 1 x) m = bit (drop_bit 1 y) m" by simp
      with Suc show ?thesis by (simp add: bit_drop_bit_eq)
    qed
  qed
qed simp

lemma crc_bits_inject: "(crc_bit ^^ n) x = (crc_bit ^^ n) y \<longleftrightarrow> x = y"
  by (induction n) (simp_all add: crc_bit_inject)

lemma crc_bits_xor: "(crc_bit ^^ n) (x XOR y) = (crc_bit ^^ n) x XOR (crc_bit ^^ n) y"
  by (induction n) (simp_all add: crc_bit_xor)

lemma crc_bits_shift: "(\<And>k. k < n \<Longrightarrow> \<not> bit x k) \<Longrightarrow> (crc_bit ^^ n) x = drop_bit n x"
proof (induction n)
  case (Suc n)
  then have "(crc_bit ^^ n) x = drop_bit n x" "\<not> bit x n" by simp_all
  moreover have "\<not> bit (drop_bit n x) 0" using \<open>\<not> bit x n\<close> by (simp add: bit_drop_bit_eq)
  ultimately show ?case by (simp add: crc_bit_odd[of "drop_bit n x"])
qed simp

lemma crc_update_bits: "crc_update crc b = (crc_bit ^^ 8) (crc XOR ucast b)"
proof -
  let ?x = "crc XOR ucast b"
  have m: "(0xFF :: u32) = mask 8" by (simp add: mask_eq_exp_minus_1)
  have "?x = (?x AND 0xFF) XOR (?x AND NOT 0xFF)"
    unfolding m by (rule bit_word_eqI) (auto simp: bit_xor_iff bit_and_iff bit_not_iff bit_mask_iff)
  then have "(crc_bit ^^ 8) ?x = (crc_bit ^^ 8) (?x AND 0xFF) XOR (crc_bit ^^ 8) (?x AND NOT 0xFF)"
    using crc_bits_xor[of 8 "?x AND 0xFF" "?x AND NOT 0xFF"] by simp
  also have "(crc_bit ^^ 8) (?x AND NOT 0xFF) = drop_bit 8 (?x AND NOT 0xFF)"
    unfolding m by (rule crc_bits_shift) (simp add: bit_and_iff bit_not_iff bit_mask_iff)
  also have "drop_bit 8 (?x AND NOT 0xFF) = drop_bit 8 crc"
    unfolding m by (rule bit_word_eqI)
      (auto simp: bit_drop_bit_eq bit_xor_iff bit_and_iff bit_not_iff bit_mask_iff bit_ucast_iff
        simp del: drop_bit_and dest: bit_imp_le_length)
  finally show ?thesis by (simp add: crc_update_def crc_table_def)
qed

lemma crc_update_inject:
  "crc_update c b = crc_update c' b \<longleftrightarrow> c = c'" "crc_update c b = crc_update c b' \<longleftrightarrow> b = b'"
proof -
  show "crc_update c b = crc_update c' b \<longleftrightarrow> c = c'"
    unfolding crc_update_bits crc_bits_inject xor_cancel_word ..
  have "(ucast b :: u32) = ucast b' \<longleftrightarrow> b = b'"
    by (simp add: word_unat_eq_iff unat_ucast_up)
  then show "crc_update c b = crc_update c b' \<longleftrightarrow> b = b'"
    unfolding crc_update_bits crc_bits_inject xor_cancel_word .
qed

lemma crc_run_inject: "foldl crc_update c bs = foldl crc_update c' bs \<longleftrightarrow> c = c'"
  by (induction bs arbitrary: c c') (simp_all add: crc_update_inject)

lemma Crc32_byte:
  assumes "i < length p" "b \<noteq> p ! i"
  shows "Crc32 (p[i := b]) \<noteq> Crc32 p"
proof
  let ?c = "foldl crc_update 0xFFFFFFFF (take i p)"
  assume "Crc32 (p[i := b]) = Crc32 p"
  then have "foldl crc_update 0xFFFFFFFF (p[i := b]) = foldl crc_update 0xFFFFFFFF p"
    unfolding Crc32_def xor_cancel_word .
  moreover have "foldl crc_update 0xFFFFFFFF p = foldl crc_update (crc_update ?c (p ! i)) (drop (Suc i) p)"
    by (subst id_take_nth_drop[OF assms(1)]) simp
  ultimately have "foldl crc_update (crc_update ?c b) (drop (Suc i) p) =
      foldl crc_update (crc_update ?c (p ! i)) (drop (Suc i) p)"
    unfolding upd_conv_take_nth_drop[OF assms(1)] by simp
  with assms(2) show False by (simp add: crc_run_inject crc_update_inject)
qed

lemma envelope_nth:
  "i < 4 \<Longrightarrow> EncodeEnvelope p v ! i = append_le 4 kEnvelopeMagic ! i"
  "8 \<le> i \<Longrightarrow> i < 12 \<Longrightarrow> EncodeEnvelope p v ! i = append_le 4 (of_nat (length p) :: u32) ! (i - 8)"
  by (auto simp: EncodeEnvelope_eq envelope_bytes_def nth_append)

lemma envelope_payload: "peek (EncodeEnvelope p v) 12 (length p) = p"
  "drop (12 + length p) (EncodeEnvelope p v) = append_le 4 (Crc32 p)"
  "length (EncodeEnvelope p v) = 16 + length p"
  by (simp_all add: EncodeEnvelope_eq envelope_bytes_def peek_def)

lemma append_le_inject: "LENGTH('a::len) = 8 * n \<Longrightarrow> append_le n (v :: 'a word) = append_le n w \<longleftrightarrow> v = w"
  by (metis decode_append_le)

text \<open>C39: Corruption of any single byte of a stored placement-group view outside its version field
  is detected: in the magic, the length, any payload byte (here the CRC decides) or the checksum
  itself.\<close>

theorem DecodeEnvelope_detects_byte:
  assumes "length p < 2 ^ 32" "i < length (EncodeEnvelope p v)" "i < 4 \<or> 8 \<le> i"
    and "b \<noteq> EncodeEnvelope p v ! i"
  shows "DecodeEnvelope ((EncodeEnvelope p v)[i := b]) = None"
proof (rule ccontr)
  let ?d = "EncodeEnvelope p v"
  assume "DecodeEnvelope (?d[i := b]) \<noteq> None"
  then obtain q w where dec: "DecodeEnvelope (?d[i := b]) = Some (q, w)" by auto
  then have eq: "?d[i := b] = EncodeEnvelope q w" and q: "length q < 2 ^ 32"
    by (simp_all add: DecodeEnvelope_iff)
  have len: "length q = length p"
    using arg_cong[OF eq, of length] by (simp add: envelope_payload)
  have at: "EncodeEnvelope q w ! i = b" using eq assms(2) by (metis nth_list_update_eq)
  have i: "12 \<le> i"
  proof (rule ccontr)
    assume "\<not> 12 \<le> i"
    with assms(3) have "EncodeEnvelope q w ! i = ?d ! i" by (auto simp: envelope_nth len)
    with at assms(4) show False by simp
  qed
  have crc_eq: "append_le 4 (Crc32 q) = (drop (12 + length p) ?d)[i - (12 + length p) := b]"
    if "12 + length p \<le> i"
    using envelope_payload(2)[of q w] that eq len drop_update_swap[OF that, of ?d b] by simp
  have pay: "q = peek (?d[i := b]) 12 (length p)" using envelope_payload(1)[of q w] eq len by simp
  show False
  proof (cases "i < 12 + length p")
    case True
    have "q = p[i - 12 := b]"
      using i True pay envelope_payload(1)[of p v]
      by (simp add: peek_def drop_update_swap take_update_swap)
    moreover have "p ! (i - 12) = ?d ! i"
      using i True by (auto simp: EncodeEnvelope_eq envelope_bytes_def nth_append)
    ultimately have "Crc32 q \<noteq> Crc32 p"
      using assms(4) True i by (simp add: Crc32_byte)
    moreover have "drop (12 + length p) ?d = drop (12 + length p) (EncodeEnvelope q w)"
      using eq True by (metis drop_update_cancel)
    ultimately show False
      using len envelope_payload(2)[of p v] envelope_payload(2)[of q w] by (simp add: append_le_inject)
  next
    case False
    then have "q = p" using pay envelope_payload(1)[of p v] by (simp add: peek_def drop_update_swap take_update_cancel)
    with crc_eq False have "append_le 4 (Crc32 p) = (append_le 4 (Crc32 p))[i - (12 + length p) := b]"
      by (simp add: envelope_payload)
    moreover have "i - (12 + length p) < 4" using assms(2) False by (simp add: envelope_payload)
    ultimately have "append_le 4 (Crc32 p) ! (i - (12 + length p)) = b"
      by (metis length_append_le nth_list_update_eq)
    moreover have "?d ! i = append_le 4 (Crc32 p) ! (i - (12 + length p))"
      using False assms(2) nth_drop[of "12 + length p" ?d "i - (12 + length p)"] by (simp add: envelope_payload)
    ultimately show False using assms(4) by simp
  qed
qed

theorem DecodeEnvelope_detects_byte_witness:
  "DecodeEnvelope ((EncodeEnvelope [1, 2, 3] 2)[13 := 7]) = None"
proof (rule DecodeEnvelope_detects_byte)
  show "(7 :: u8) \<noteq> EncodeEnvelope [1, 2, 3] 2 ! 13"
    by (simp add: EncodeEnvelope_eq envelope_bytes_def nth_append)
qed (simp_all add: envelope_payload)

section \<open>Views round trip\<close>

definition view_payload :: "PgViewRecord \<Rightarrow> bytes" where
  "view_payload v = append_le 8 (pv_epoch v) @ append_le 4 (pv_pg_id v) @
     append_le 4 (of_nat (length (pv_members v)) :: u32) @ concat (map member_bytes (pv_members v))"

definition view_fits :: "PgViewRecord \<Rightarrow> bool" where
  "view_fits v \<longleftrightarrow> length (pv_members v) < 2 ^ 32 \<and> list_all member_fits (pv_members v) \<and>
     length (view_payload v) < 2 ^ 32"

lemma EncodePgView_eq: "EncodePgView v = EncodeEnvelope (view_payload v) 2"
proof -
  have "foldl EncodePgMemberPayload out ms = out @ concat (map member_bytes ms)" for out ms
    by (induction ms arbitrary: out) (simp_all add: EncodePgMember_eq)
  then show ?thesis
    by (simp add: EncodePgView_def view_payload_def AppendU32_def AppendU64_def kEnvelopeVersionCurrent_def)
qed

text \<open>Every placement-group view whose strings, members and payload fit their 32-bit length
  fields is recovered from its stored bytes; and whatever the decoder accepts is exactly the stored
  form of the view it returns, in the current envelope version or in version 1.\<close>

theorem PgView_round_trip:
  "(view_fits v \<longrightarrow> DecodePgView (EncodePgView v) = Some v) \<and>
   (DecodePgView data = Some v \<longrightarrow>
      view_fits v \<and> (data = EncodePgView v \<or> data = EncodeEnvelope (view_payload v) 1))"
proof (intro conjI impI)
  assume fits: "view_fits v"
  let ?e = "append_le 8 (pv_epoch v)" and ?g = "append_le 4 (pv_pg_id v)"
    and ?n = "append_le 4 (of_nat (length (pv_members v)) :: u32)" and ?m = "concat (map member_bytes (pv_members v))"
  let ?p = "view_payload v"
  have p: "?p = ?e @ ?g @ ?n @ ?m" by (simp add: view_payload_def)
  have "DecodeEnvelope (EncodePgView v) = Some (?p, 2)"
    using fits by (simp add: DecodeEnvelope_iff EncodePgView_eq view_fits_def)
  moreover have "mc_ReadU64 ?p 0 = Inr (pv_epoch v, 8)"
    using u64_field.dec_enc[of "[]" "pv_epoch v" "?g @ ?n @ ?m"] by (simp add: p)
  moreover have "mc_ReadU32 ?p 8 = Inr (pv_pg_id v, 12)"
    using u32_field.dec_enc[of ?e "pv_pg_id v" "?n @ ?m"] by (simp add: p)
  moreover have "mc_ReadU32 ?p 12 = Inr (of_nat (length (pv_members v)), 16)"
    using u32_field.dec_enc[of "?e @ ?g" "of_nat (length (pv_members v))" ?m] by (simp add: p)
  moreover have "unat (of_nat (length (pv_members v)) :: u32) = length (pv_members v)"
    using fits by (simp add: view_fits_def unat_of_nat)
  moreover have "read_loop DecodePgMemberPayload (length (pv_members v)) ?p 16 = Inr (pv_members v, length ?p)"
    using member.loop_enc[of "pv_members v" "?e @ ?g @ ?n" "[]"] fits by (simp add: p view_fits_def)
  ultimately show "DecodePgView (EncodePgView v) = Some v" by (simp add: DecodePgView_def)
next
  assume "DecodePgView data = Some v"
  then obtain p w c1 c2 n c3 where env: "DecodeEnvelope data = Some (p, w)"
    and r: "mc_ReadU64 p 0 = Inr (pv_epoch v, c1)" "mc_ReadU32 p c1 = Inr (pv_pg_id v, c2)"
      "mc_ReadU32 p c2 = Inr (n, c3)"
    and l: "read_loop DecodePgMemberPayload (unat n) p c3 = Inr (pv_members v, length p)"
    by (auto simp: DecodePgView_def split: option.splits sum.splits prod.splits if_splits)
  from r have c: "c1 = 8" "c2 = 12" "c3 = 16" "16 \<le> length p"
    by (auto simp: mc_ReadU32_def mc_ReadU64_def split: if_splits)
  note m = member.loop_sound[OF l] u64_field.dec_sound[OF r(1)] u32_field.dec_sound[OF r(2)]
    u32_field.dec_sound[OF r(3)]
  have "p = peek p 0 8 @ peek p 8 4 @ peek p 12 4 @ peek p 16 (length p - 16)"
    using peek_split[of 0 8 4 p] peek_split[of 0 12 4 p] peek_split[of 0 16 "length p - 16" p] c
    by (simp add: peek_def)
  with m c have p: "p = view_payload v" by (auto simp: view_payload_def)
  from env have e: "data = EncodeEnvelope p w" "1 \<le> w" "w \<le> 2" "length p < 2 ^ 32"
    by (simp_all add: DecodeEnvelope_iff)
  from m(1) c have mem: "length (pv_members v) = unat n" "list_all member_fits (pv_members v)" by simp_all
  then show "view_fits v" using unat_u32_lt[of n] p e(4) by (simp add: view_fits_def)
  have "unat w = 1 \<or> unat w = 2" using e(2,3) by (auto simp: word_le_nat_alt)
  then have "w = 1 \<or> w = 2" by (auto simp: word_unat_eq_iff)
  then show "data = EncodePgView v \<or> data = EncodeEnvelope (view_payload v) 1"
    using e(1) p by (auto simp: EncodePgView_eq)
qed

definition sample_view :: PgViewRecord where
  "sample_view = \<lparr>pv_epoch = 5, pv_pg_id = 3, pv_members =
     [\<lparr>pm_node_id = [110], pm_node_address = [], pm_disk_id = [100], pm_group_id = [], pm_epoch = 5,
       pm_primary_node_id = [110], pm_primary_address = [], pm_secondary_node_id = [],
       pm_secondary_address = [], pm_sync_ready = True\<rparr>]\<rparr>"

theorem PgView_round_trip_witness: "DecodePgView (EncodePgView sample_view) = Some sample_view"
proof -
  have "view_fits sample_view"
    by (simp add: view_fits_def sample_view_def view_payload_def member_fits_def member_bytes_def
        fields_of_def put_fields_def put_pair_def put_string_def put_bool_def)
  then show ?thesis using PgView_round_trip by blast
qed

end
