(* ===== verification/Meta_Schema.thy ===== *)
theory Meta_Schema
  imports Decimal_Utils "HOL-Library.Sublist"
begin

text \<open>
  The key schema of the metadata store (\<open>src/src/mds/storage/MetaSchema.h\<close>).  Every record of the
  metadata server lives in one ordered key space under textual keys.  Shown here: keys of different
  families never coincide, the directory prefix selects exactly the entries of one directory, padded
  numeric components sort like numbers, and placement-group keys parse back.
\<close>

section \<open>Keys\<close>

definition InodeKey :: "u64 \<Rightarrow> string" where
  "InodeKey inode_id = ''I/'' @ to_string inode_id"

definition DiskFileLocationKey :: "u64 \<Rightarrow> string" where
  "DiskFileLocationKey inode_id = ''DL/'' @ to_string inode_id"

definition OpticalFileLocationKey :: "u64 \<Rightarrow> string" where
  "OpticalFileLocationKey inode_id = ''OL/'' @ to_string inode_id"

definition DentryKey :: "u64 \<Rightarrow> string \<Rightarrow> string" where
  "DentryKey parent_inode name = ''D/'' @ to_string parent_inode @ ''/'' @ name"

definition DentryPrefix :: "u64 \<Rightarrow> string" where
  "DentryPrefix parent_inode = ''D/'' @ to_string parent_inode @ ''/''"

definition FileArchiveStateKey :: "u64 \<Rightarrow> string" where
  "FileArchiveStateKey inode_id = ''AF/'' @ to_string inode_id"

definition ModelOpticalArchiveCommitKey :: "string \<Rightarrow> string" where
  "ModelOpticalArchiveCommitKey operation_id = ''MOA/'' @ operation_id"

definition FileArchiveStatePrefix :: string where
  "FileArchiveStatePrefix = ''AF/''"

definition PathPlacementPolicyKey :: "string \<Rightarrow> string" where
  "PathPlacementPolicyKey path = ''PR'' @ path"

definition PathPlacementPolicyPrefix :: string where
  "PathPlacementPolicyPrefix = ''PR/''"

definition CmsNodeCatalogSnapshotKey :: string where
  "CmsNodeCatalogSnapshotKey = ''SYS/CMS_NODE_CATALOG_V1''"

definition ArchiveNamespaceRouteKey :: "string \<Rightarrow> string" where
  "ArchiveNamespaceRouteKey path = ''AN'' @ path"

definition ArchiveNamespaceRoutePrefix :: string where
  "ArchiveNamespaceRoutePrefix = ''AN/''"

definition ArchiveNamespaceCurrentKey :: "string \<Rightarrow> string" where
  "ArchiveNamespaceCurrentKey path = ''ANC'' @ path"

definition ArchiveNamespaceCurrentPrefix :: string where
  "ArchiveNamespaceCurrentPrefix = ''ANC/''"

definition kArchiveInodeBucketSize :: u64 where
  "kArchiveInodeBucketSize = 1000000"

definition ArchiveInodeBucketId :: "u64 \<Rightarrow> u64" where
  "ArchiveInodeBucketId inode_id = inode_id div kArchiveInodeBucketSize"

text \<open>\<open>std::setw(20) << std::setfill('0')\<close>\<close>

definition pad20 :: "string \<Rightarrow> string" where
  "pad20 s = replicate (20 - length s) (CHR ''0'') @ s"

definition ArchiveInodeBucketComponent :: "u64 \<Rightarrow> string" where
  "ArchiveInodeBucketComponent bucket_id = pad20 (to_string bucket_id)"

definition ArchiveInodeBucketKey :: "u64 \<Rightarrow> string \<Rightarrow> string" where
  "ArchiveInodeBucketKey bucket_id path = ''AIB/'' @ ArchiveInodeBucketComponent bucket_id @ path"

definition ArchiveInodeBucketPrefix :: "u64 \<Rightarrow> string" where
  "ArchiveInodeBucketPrefix bucket_id = ''AIB/'' @ ArchiveInodeBucketComponent bucket_id @ ''/''"

definition ArchiveRouteBucketKey :: "string \<Rightarrow> u64 \<Rightarrow> string" where
  "ArchiveRouteBucketKey path bucket_id = ''AIR'' @ path @ ''/'' @ ArchiveInodeBucketComponent bucket_id"

definition ArchiveRouteBucketPrefix :: "string \<Rightarrow> string" where
  "ArchiveRouteBucketPrefix path = ''AIR'' @ path @ ''/''"

definition MasstreeNumericComponent :: "u64 \<Rightarrow> string" where
  "MasstreeNumericComponent v = pad20 (to_string v)"

definition MasstreeNamespaceRouteKey :: "string \<Rightarrow> string" where
  "MasstreeNamespaceRouteKey path = ''MTR'' @ path"

definition MasstreeNamespaceRoutePrefix :: string where
  "MasstreeNamespaceRoutePrefix = ''MTR/''"

definition MasstreeNamespaceCurrentKey :: "string \<Rightarrow> string" where
  "MasstreeNamespaceCurrentKey path = ''MTC'' @ path"

definition MasstreeNamespaceCurrentPrefix :: string where
  "MasstreeNamespaceCurrentPrefix = ''MTC/''"

definition MasstreeNamespaceManifestKey :: "string \<Rightarrow> string \<Rightarrow> string" where
  "MasstreeNamespaceManifestKey ns gen = ''MTM/'' @ ns @ ''/'' @ gen"

definition MasstreeNamespaceManifestPrefix :: "string \<Rightarrow> string" where
  "MasstreeNamespaceManifestPrefix ns = ''MTM/'' @ ns @ ''/''"

definition MasstreeInodeIndexKey :: "string \<Rightarrow> u64 \<Rightarrow> string" where
  "MasstreeInodeIndexKey ns inode_id = ''MTI/'' @ ns @ ''/'' @ MasstreeNumericComponent inode_id"

definition MasstreeInodeIndexPrefix :: "string \<Rightarrow> string" where
  "MasstreeInodeIndexPrefix ns = ''MTI/'' @ ns @ ''/''"

definition MasstreeDentryIndexKey :: "string \<Rightarrow> u64 \<Rightarrow> string \<Rightarrow> string" where
  "MasstreeDentryIndexKey ns parent_inode name =
     ''MTD/'' @ ns @ ''/'' @ MasstreeNumericComponent parent_inode @ ''/'' @ name"

definition MasstreeDentryIndexPrefix :: "string \<Rightarrow> u64 \<Rightarrow> string" where
  "MasstreeDentryIndexPrefix ns parent_inode =
     ''MTD/'' @ ns @ ''/'' @ MasstreeNumericComponent parent_inode @ ''/''"

definition kMasstreeInodeBucketSize :: u64 where
  "kMasstreeInodeBucketSize = 1000000"

definition MasstreeInodeBucketId :: "u64 \<Rightarrow> u64" where
  "MasstreeInodeBucketId inode_id = inode_id div kMasstreeInodeBucketSize"

definition MasstreeInodeBucketComponent :: "u64 \<Rightarrow> string" where
  "MasstreeInodeBucketComponent bucket_id = MasstreeNumericComponent bucket_id"

definition MasstreeInodeBucketKey :: "u64 \<Rightarrow> string \<Rightarrow> string" where
  "MasstreeInodeBucketKey bucket_id path = ''MTIB/'' @ MasstreeInodeBucketComponent bucket_id @ path"

definition MasstreeInodeBucketPrefix :: "u64 \<Rightarrow> string" where
  "MasstreeInodeBucketPrefix bucket_id = ''MTIB/'' @ MasstreeInodeBucketComponent bucket_id @ ''/''"

definition MasstreeRouteBucketKey :: "string \<Rightarrow> u64 \<Rightarrow> string" where
  "MasstreeRouteBucketKey path bucket_id = ''MTIR'' @ path @ ''/'' @ MasstreeInodeBucketComponent bucket_id"

definition MasstreeRouteBucketPrefix :: "string \<Rightarrow> string" where
  "MasstreeRouteBucketPrefix path = ''MTIR'' @ path @ ''/''"

definition MasstreeClusterStatsCurrentKey :: string where
  "MasstreeClusterStatsCurrentKey = ''MTS/cluster/current''"

definition MasstreeOpticalLayoutCurrentKey :: string where
  "MasstreeOpticalLayoutCurrentKey = ''MTS/optical/layout/current''"

definition MasstreeNamespaceStatsCurrentKey :: "string \<Rightarrow> string" where
  "MasstreeNamespaceStatsCurrentKey ns = ''MTS/namespace/'' @ ns @ ''/current''"

definition PgViewKey :: "u64 \<Rightarrow> u32 \<Rightarrow> string" where
  "PgViewKey epoch pg_id = ''PV/'' @ to_string epoch @ ''/'' @ to_string pg_id"

definition PgViewPrefix :: "u64 \<Rightarrow> string" where
  "PgViewPrefix epoch = ''PV/'' @ to_string epoch @ ''/''"

definition PgViewEpochKey :: string where
  "PgViewEpochKey = ''PV/current_epoch''"

text \<open>
  \<open>std::stoull\<close> and \<open>std::stoul\<close> (both 64-bit here): leading white space and one sign are skipped,
  the longest run of digits is read, what follows is ignored; no digits or a value of 2^64 and more
  throw, and a minus sign negates modulo 2^64.
\<close>

definition is_space :: "char \<Rightarrow> bool" where
  "is_space c \<longleftrightarrow> c \<in> set [CHR '' '', CHR 0x09, CHR 0x0A, CHR 0x0B, CHR 0x0C, CHR 0x0D]"

definition stoull :: "string \<Rightarrow> u64 option" where
  "stoull text =
     (let s = dropWhile is_space text;
          (neg, s1) = (case s of c # r \<Rightarrow> if c = CHR ''-'' then (True, r)
                                        else if c = CHR ''+'' then (False, r) else (False, s)
                       | [] \<Rightarrow> (False, []));
          digits = takeWhile is_digit s1
      in if digits = [] \<or> dec_val digits \<ge> 2 ^ 64 then None
         else Some (if neg then - of_nat (dec_val digits) else of_nat (dec_val digits)))"

definition ParsePgViewKey :: "string \<Rightarrow> (u64 \<times> u32) option" where
  "ParsePgViewKey key =
     (if take 3 key \<noteq> ''PV/'' then None
      else let rest = drop 3 key; first = takeWhile (\<lambda>c. c \<noteq> CHR ''/'') rest
           in if first = rest then None
              else case stoull first of
                     None \<Rightarrow> None
                   | Some epoch \<Rightarrow>
                       (case stoull (drop (length first + 1) rest) of
                          None \<Rightarrow> None
                        | Some pg \<Rightarrow> Some (epoch, ucast pg)))"

definition HandleKey :: "u64 \<Rightarrow> string" where
  "HandleKey handle_id = ''H/'' @ to_string handle_id"

definition NextInodeKey :: string where
  "NextInodeKey = ''X/next_inode''"

definition NextHandleKey :: string where
  "NextHandleKey = ''X/next_handle''"

definition kRootInodeId :: u64 where
  "kRootInodeId = 1"

section \<open>Families of keys\<close>

text \<open>The part of a key before its first slash.\<close>

definition family :: "string \<Rightarrow> string" where
  "family key = takeWhile (\<lambda>c. c \<noteq> CHR ''/'') key"

lemma family_append: "CHR ''/'' \<notin> set tag \<Longrightarrow> family (tag @ CHR ''/'' # rest) = tag"
  unfolding family_def by (subst takeWhile_append2) auto

lemmas key_defs = InodeKey_def DiskFileLocationKey_def OpticalFileLocationKey_def DentryKey_def
  FileArchiveStateKey_def ModelOpticalArchiveCommitKey_def PathPlacementPolicyKey_def
  CmsNodeCatalogSnapshotKey_def ArchiveNamespaceRouteKey_def ArchiveNamespaceCurrentKey_def
  ArchiveInodeBucketKey_def ArchiveRouteBucketKey_def MasstreeNamespaceRouteKey_def
  MasstreeNamespaceCurrentKey_def MasstreeNamespaceManifestKey_def MasstreeInodeIndexKey_def
  MasstreeDentryIndexKey_def MasstreeInodeBucketKey_def MasstreeRouteBucketKey_def
  MasstreeClusterStatsCurrentKey_def MasstreeOpticalLayoutCurrentKey_def
  MasstreeNamespaceStatsCurrentKey_def PgViewKey_def PgViewEpochKey_def HandleKey_def
  NextInodeKey_def NextHandleKey_def

text \<open>C40: Every key builder stays in its own family, the part of the key before the first slash
  (normalised path prefixes start with a slash), and the families of builders of different record
  kinds are pairwise different: two records of different kinds never share a key.  In particular
  only inode and directory-entry keys are in the families \<open>I\<close> and \<open>D\<close> that the LHM mode locks.\<close>

theorem key_families:
  "map family [InodeKey i, DentryKey i name, DiskFileLocationKey i, OpticalFileLocationKey i,
       FileArchiveStateKey i, ModelOpticalArchiveCommitKey oper, PathPlacementPolicyKey (CHR ''/'' # path),
       CmsNodeCatalogSnapshotKey, ArchiveNamespaceRouteKey (CHR ''/'' # path),
       ArchiveNamespaceCurrentKey (CHR ''/'' # path), ArchiveInodeBucketKey b path,
       ArchiveRouteBucketKey (CHR ''/'' # path) b, MasstreeNamespaceRouteKey (CHR ''/'' # path),
       MasstreeNamespaceCurrentKey (CHR ''/'' # path), MasstreeNamespaceManifestKey ns gen,
       MasstreeInodeIndexKey ns i, MasstreeDentryIndexKey ns i name, MasstreeInodeBucketKey b path,
       MasstreeRouteBucketKey (CHR ''/'' # path) b, MasstreeClusterStatsCurrentKey,
       PgViewKey e pg, HandleKey h, NextInodeKey] =
     [''I'', ''D'', ''DL'', ''OL'', ''AF'', ''MOA'', ''PR'', ''SYS'', ''AN'', ''ANC'', ''AIB'', ''AIR'',
      ''MTR'', ''MTC'', ''MTM'', ''MTI'', ''MTD'', ''MTIB'', ''MTIR'', ''MTS'', ''PV'', ''H'', ''X''] \<and>
   distinct (map family [InodeKey i, DentryKey i name, DiskFileLocationKey i, OpticalFileLocationKey i,
       FileArchiveStateKey i, ModelOpticalArchiveCommitKey oper, PathPlacementPolicyKey (CHR ''/'' # path),
       CmsNodeCatalogSnapshotKey, ArchiveNamespaceRouteKey (CHR ''/'' # path),
       ArchiveNamespaceCurrentKey (CHR ''/'' # path), ArchiveInodeBucketKey b path,
       ArchiveRouteBucketKey (CHR ''/'' # path) b, MasstreeNamespaceRouteKey (CHR ''/'' # path),
       MasstreeNamespaceCurrentKey (CHR ''/'' # path), MasstreeNamespaceManifestKey ns gen,
       MasstreeInodeIndexKey ns i, MasstreeDentryIndexKey ns i name, MasstreeInodeBucketKey b path,
       MasstreeRouteBucketKey (CHR ''/'' # path) b, MasstreeClusterStatsCurrentKey,
       PgViewKey e pg, HandleKey h, NextInodeKey])"
  by (simp add: key_defs family_def)

section \<open>Numbers in keys\<close>

lemma to_string_no_slash: "CHR ''/'' \<notin> set (to_string w)"
  by (auto simp: to_string_def is_digit_def dest!: dec_digits_all_digits)

lemma split_at_slash:
  assumes "CHR ''/'' \<notin> set a" "CHR ''/'' \<notin> set b" "a @ CHR ''/'' # x = b @ CHR ''/'' # y"
  shows "a = b \<and> x = y"
  using assms family_append[of a x] family_append[of b y] by (metis append_eq_append_conv list.inject same_append_eq)

lemma DentryKey_inject: "DentryKey p n = DentryKey q m \<longleftrightarrow> p = q \<and> n = m"
  using split_at_slash[of "to_string p" "to_string q" n m] to_string_no_slash[of p] to_string_no_slash[of q]
  by (auto simp: DentryKey_def to_string_inject)

lemma DentryPrefix_prefix: "prefix (DentryPrefix p) (DentryKey q m) \<longleftrightarrow> p = q"
proof
  assume "prefix (DentryPrefix p) (DentryKey q m)"
  then obtain r where "to_string p @ CHR ''/'' # r = to_string q @ CHR ''/'' # m"
    by (auto simp: prefix_def DentryPrefix_def DentryKey_def)
  then show "p = q"
    using split_at_slash to_string_no_slash to_string_inject by blast
qed (simp add: DentryPrefix_def DentryKey_def)

text \<open>Directory keys identify the pair of parent and name even when names contain slashes, and
  the scan prefix of a directory matches exactly the entries of that directory.\<close>

theorem DentryKey_scan:
  "(DentryKey p n = DentryKey q m) = (p = q \<and> n = m) \<and> prefix (DentryPrefix p) (DentryKey q m) = (p = q)"
  by (simp add: DentryKey_inject DentryPrefix_prefix)

lemma to_string_u64_length: "length (to_string (w :: u64)) \<le> 20"
proof -
  have len: "n < 10 ^ k \<Longrightarrow> k \<noteq> 0 \<Longrightarrow> length (dec_digits n) \<le> k" for n k
  proof (induction n arbitrary: k rule: dec_digits.induct)
    case (1 n)
    show ?case
    proof (cases "n < 10")
      case True
      with 1(3) show ?thesis by (subst dec_digits.simps) simp
    next
      case False
      with 1(2,3) obtain j where k: "k = Suc j" "j \<noteq> 0" by (cases k; cases "k - 1") auto
      with 1(2) have "n div 10 < 10 ^ j" by (simp add: less_mult_imp_div_less mult.commute)
      with 1(1)[OF False this k(2)] False k show ?thesis by (subst dec_digits.simps) simp
    qed
  qed
  have "unat w < 10 ^ 20" using unat_u64_lt[of w] by simp
  then show ?thesis unfolding to_string_def by (rule len) simp
qed

lemma pad20_component:
  "length (MasstreeNumericComponent w) = 20" "\<forall>c \<in> set (MasstreeNumericComponent w). is_digit c"
  "dec_val (MasstreeNumericComponent w) = unat w"
proof -
  show "length (MasstreeNumericComponent w) = 20"
    using to_string_u64_length[of w] by (simp add: MasstreeNumericComponent_def pad20_def)
  show "\<forall>c \<in> set (MasstreeNumericComponent w). is_digit c"
    by (auto simp: MasstreeNumericComponent_def pad20_def to_string_def is_digit_def
        dest!: dec_digits_all_digits)
  have "dec_val (replicate k (CHR ''0'') @ s) = dec_val s" for k s
    by (induction k) (simp_all add: dec_val_Cons digit_val_def)
  then show "dec_val (MasstreeNumericComponent w) = unat w"
    by (simp add: MasstreeNumericComponent_def pad20_def to_string_def)
qed

text \<open>The padded numeric components of index keys sort bytewise exactly like the numbers, so a
  range scan over keys is a range scan over inode ids (of the keys of one namespace, and of the
  entries of increasing parents).\<close>

theorem numeric_keys_sort_like_numbers:
  "(MasstreeNumericComponent v < MasstreeNumericComponent w) = (v < w) \<and>
   (MasstreeInodeIndexKey ns v < MasstreeInodeIndexKey ns w) = (v < w)"
proof -
  have num: "(MasstreeNumericComponent v < MasstreeNumericComponent w) = (v < w)"
    using same_length_less_iff[of "MasstreeNumericComponent v" "MasstreeNumericComponent w"]
      pad20_component[of v] pad20_component[of w] by (simp add: word_less_nat_alt)
  have "(pre @ a < pre @ b) = (a < b)" for pre a b :: string
    by (induction pre) auto
  with num show ?thesis by (simp add: MasstreeInodeIndexKey_def)
qed

lemma stoull_to_string:
  fixes w :: "'a::len word"
  assumes "LENGTH('a) \<le> 64"
  shows "stoull (to_string w) = Some (ucast w)"
proof -
  let ?s = "to_string w"
  have d: "\<forall>c \<in> set ?s. is_digit c" and ne: "?s \<noteq> []"
    by (auto simp: to_string_def dec_digits_all_digits)
  obtain c r where s: "?s = c # r" using ne by (cases ?s) auto
  have "is_digit c" using d s by simp
  then have "\<not> is_space c" "c \<noteq> CHR ''-''" "c \<noteq> CHR ''+''" by (auto simp: is_digit_def is_space_def)
  moreover have "takeWhile is_digit ?s = ?s" using d by (simp add: takeWhile_eq_all_conv)
  moreover have "unat w < 2 ^ 64"
    using unat_lt_power[of w] power_increasing[OF assms, of "2::nat"] by linarith
  moreover have "dec_val ?s = unat w" by (simp add: to_string_def)
  ultimately show ?thesis
    using s by (simp add: stoull_def Let_def not_le word_unat_eq_iff unat_of_nat unat_ucast_mod)
qed

text \<open>A placement-group view key parses back to its epoch and group.\<close>

theorem ParsePgViewKey_round_trip: "ParsePgViewKey (PgViewKey epoch pg) = Some (epoch, pg)"
proof -
  have rest: "drop 3 (PgViewKey epoch pg) = to_string epoch @ CHR ''/'' # to_string pg"
    and pre: "take 3 (PgViewKey epoch pg) = ''PV/''"
    by (simp_all add: PgViewKey_def)
  have first: "takeWhile (\<lambda>c. c \<noteq> CHR ''/'') (to_string epoch @ CHR ''/'' # to_string pg) = to_string epoch"
    using family_append[of "to_string epoch" "to_string pg"] to_string_no_slash[of epoch]
    by (simp add: family_def)
  have "(ucast (ucast pg :: u64) :: u32) = pg"
    using unat_u32_lt[of pg] by (simp add: word_unat_eq_iff unat_ucast_mod)
  then show ?thesis
    using stoull_to_string[of epoch] stoull_to_string[of pg]
    by (simp add: ParsePgViewKey_def rest pre first Let_def)
qed

end
