(* ===== verification/Rocks_Store.thy ===== *)
theory Rocks_Store
  imports Meta_Schema
begin

text \<open>
  The RocksDB-backed metadata store (\<open>src/src/mds/storage/RocksMetaStore.cpp\<close>).  The database itself
  is a library: it enters the model as the parameter record \<open>rocksdb\<close> of its \<open>Get\<close>, \<open>Put\<close> and \<open>Write\<close>
  calls, which may fail at any time, and \<open>rocks_laws\<close> names what the code relies on -- a successful
  call reads or updates a map atomically, a failed write changes nothing.  Opening a database and its
  column families is not modelled.  Shown here: the functional behaviour of the guarded operations over
  that map, and that the LHM mode keeps the namespace families untouched.
\<close>

section \<open>The database interface\<close>

datatype status = StatusOk | StatusNotFound | StatusFailed string

datatype batch_op = BatchPut string bytes | BatchDelete string

record 'db rocksdb =
  rdb_Get :: "'db \<Rightarrow> string \<Rightarrow> status \<times> bytes"
  rdb_Put :: "'db \<Rightarrow> string \<Rightarrow> bytes \<Rightarrow> status \<times> 'db"
  rdb_Write :: "'db \<Rightarrow> batch_op list \<Rightarrow> status \<times> 'db"

text \<open>What a batch does to the map.\<close>

fun apply_op :: "batch_op \<Rightarrow> (string \<rightharpoonup> bytes) \<Rightarrow> (string \<rightharpoonup> bytes)" where
  "apply_op (BatchPut k v) m = m(k \<mapsto> v)"
| "apply_op (BatchDelete k) m = m(k := None)"

definition apply_batch :: "batch_op list \<Rightarrow> (string \<rightharpoonup> bytes) \<Rightarrow> (string \<rightharpoonup> bytes)" where
  "apply_batch ops m = foldl (\<lambda>m op. apply_op op m) m ops"

text \<open>The documented behaviour of the database, over a view of its contents as a map.\<close>

definition rocks_laws :: "'db rocksdb \<Rightarrow> ('db \<Rightarrow> string \<rightharpoonup> bytes) \<Rightarrow> bool" where
  "rocks_laws R view \<longleftrightarrow>
     (\<forall>db k s v. rdb_Get R db k = (s, v) \<longrightarrow>
        (s = StatusOk \<longrightarrow> view db k = Some v) \<and> (s = StatusNotFound \<longrightarrow> view db k = None)) \<and>
     (\<forall>db k v s db'. rdb_Put R db k v = (s, db') \<longrightarrow>
        view db' = (if s = StatusOk then (view db)(k \<mapsto> v) else view db)) \<and>
     (\<forall>db ops s db'. rdb_Write R db ops = (s, db') \<longrightarrow>
        view db' = (if s = StatusOk then apply_batch ops (view db) else view db))"

section \<open>The store\<close>

record 'db RocksMetaStore =
  db_handle :: "'db option"
  namespace_disabled :: bool

datatype store_error =
    NamespaceDisabled   \<comment> \<open>RocksDB namespace access disabled in LHM mode\<close>
  | DbNotOpened         \<comment> \<open>DB not opened\<close>
  | DbStatus string     \<comment> \<open>the text of a failed status\<close>

datatype get_result = Found bytes | Missing | GetError store_error

definition status_text :: "status \<Rightarrow> string" where
  "status_text s = (case s of StatusFailed t \<Rightarrow> t | StatusNotFound \<Rightarrow> ''NotFound: '' | StatusOk \<Rightarrow> ''OK'')"

definition NamespaceKey :: "string \<Rightarrow> bool" where
  "NamespaceKey key \<longleftrightarrow> prefix ''I/'' key \<or> prefix ''D/'' key"

definition Denied :: "bool \<Rightarrow> string \<Rightarrow> bool" where
  "Denied disabled key = (if \<not> disabled \<or> \<not> NamespaceKey key then False else True)"

fun op_key :: "batch_op \<Rightarrow> string" where
  "op_key (BatchPut k v) = k"
| "op_key (BatchDelete k) = k"

definition CheckControlBatch :: "bool \<Rightarrow> batch_op list \<Rightarrow> bool" where
  "CheckControlBatch disabled batch =
     (if \<not> disabled then True else list_all (\<lambda>op. \<not> NamespaceKey (op_key op)) batch)"

definition DisableNamespaceAccess :: "'db RocksMetaStore \<Rightarrow> 'db RocksMetaStore" where
  "DisableNamespaceAccess st = st\<lparr>namespace_disabled := True\<rparr>"

definition Store_Put ::
  "'db rocksdb \<Rightarrow> string \<Rightarrow> bytes \<Rightarrow> 'db RocksMetaStore \<Rightarrow> (store_error + unit) \<times> 'db RocksMetaStore" where
  "Store_Put R key v st =
     (if Denied (namespace_disabled st) key then (Inl NamespaceDisabled, st)
      else case db_handle st of
             None \<Rightarrow> (Inl DbNotOpened, st)
           | Some db \<Rightarrow>
               let (s, db') = rdb_Put R db key v; st' = st\<lparr>db_handle := Some db'\<rparr>
               in if s = StatusOk then (Inr (), st') else (Inl (DbStatus (status_text s)), st'))"

definition Store_Get :: "'db rocksdb \<Rightarrow> string \<Rightarrow> 'db RocksMetaStore \<Rightarrow> get_result" where
  "Store_Get R key st =
     (if Denied (namespace_disabled st) key then GetError NamespaceDisabled
      else case db_handle st of
             None \<Rightarrow> GetError DbNotOpened
           | Some db \<Rightarrow>
               let (s, v) = rdb_Get R db key
               in if s = StatusOk then Found v
                  else if s = StatusNotFound then Missing else GetError (DbStatus (status_text s)))"

definition Store_Exists :: "'db rocksdb \<Rightarrow> string \<Rightarrow> 'db RocksMetaStore \<Rightarrow> bool" where
  "Store_Exists R key st = (case Store_Get R key st of Found _ \<Rightarrow> True | _ \<Rightarrow> False)"

definition Store_WriteBatch ::
  "'db rocksdb \<Rightarrow> batch_op list \<Rightarrow> 'db RocksMetaStore \<Rightarrow> (store_error + unit) \<times> 'db RocksMetaStore" where
  "Store_WriteBatch R batch st =
     (if \<not> CheckControlBatch (namespace_disabled st) batch then (Inl NamespaceDisabled, st)
      else case db_handle st of
             None \<Rightarrow> (Inl DbNotOpened, st)
           | Some db \<Rightarrow>
               let (s, db') = rdb_Write R db batch; st' = st\<lparr>db_handle := Some db'\<rparr>
               in if s = StatusOk then (Inr (), st') else (Inl (DbStatus (status_text s)), st'))"

text \<open>The result carries the \<open>matched\<close> output.\<close>

definition WriteBatchIfValueEquals ::
  "'db rocksdb \<Rightarrow> string \<Rightarrow> bytes \<Rightarrow> batch_op list \<Rightarrow> 'db RocksMetaStore \<Rightarrow>
   (store_error + bool) \<times> 'db RocksMetaStore" where
  "WriteBatchIfValueEquals R key expected batch st =
     (if \<not> CheckControlBatch (namespace_disabled st) batch then (Inl NamespaceDisabled, st)
      else if Denied (namespace_disabled st) key then (Inl NamespaceDisabled, st)
      else case db_handle st of
             None \<Rightarrow> (Inl DbNotOpened, st)
           | Some db \<Rightarrow>
               let (rs, current) = rdb_Get R db key
               in if rs \<noteq> StatusOk then (Inl (DbStatus (status_text rs)), st)
                  else if current \<noteq> expected then (Inr False, st)
                  else let (ws, db') = rdb_Write R db batch; st' = st\<lparr>db_handle := Some db'\<rparr>
                       in if ws \<noteq> StatusOk then (Inl (DbStatus (status_text ws)), st')
                          else (Inr True, st'))"

section \<open>The store as a map\<close>

text \<open>A store that was never opened holds nothing.\<close>

definition contents :: "('db \<Rightarrow> string \<rightharpoonup> bytes) \<Rightarrow> 'db RocksMetaStore \<Rightarrow> string \<rightharpoonup> bytes" where
  "contents view st = (case db_handle st of None \<Rightarrow> Map.empty | Some db \<Rightarrow> view db)"

lemma lawsD:
  assumes "rocks_laws R view"
  shows "rdb_Get R db k = (StatusOk, v) \<Longrightarrow> view db k = Some v"
    and "rdb_Get R db k = (StatusNotFound, v) \<Longrightarrow> view db k = None"
    and "rdb_Put R db k v = (s, db') \<Longrightarrow> view db' = (if s = StatusOk then (view db)(k \<mapsto> v) else view db)"
    and "rdb_Write R db ops = (s, db') \<Longrightarrow>
      view db' = (if s = StatusOk then apply_batch ops (view db) else view db)"
  using assms unfolding rocks_laws_def by blast+

lemma Store_Get_Found: "rocks_laws R view \<Longrightarrow> Store_Get R k st = Found v \<Longrightarrow> contents view st k = Some v"
  by (auto simp: Store_Get_def contents_def lawsD(1) split: if_splits option.splits prod.splits)

lemma Store_Get_Missing: "rocks_laws R view \<Longrightarrow> Store_Get R k st = Missing \<Longrightarrow> contents view st k = None"
  by (auto simp: Store_Get_def contents_def lawsD(2) split: if_splits option.splits prod.splits)

lemma Store_Put_contents:
  assumes "rocks_laws R view" "Store_Put R k v st = (r, st')"
  shows "contents view st' = (if r = Inr () then (contents view st)(k \<mapsto> v) else contents view st) \<and>
         namespace_disabled st' = namespace_disabled st"
  using assms by (auto simp: Store_Put_def contents_def Let_def lawsD(3)[OF assms(1)]
      split: if_splits option.splits prod.splits)

lemma Store_WriteBatch_contents:
  assumes "rocks_laws R view" "Store_WriteBatch R ops st = (r, st')"
  shows "contents view st' = (if r = Inr () then apply_batch ops (contents view st) else contents view st) \<and>
         namespace_disabled st' = namespace_disabled st"
  using assms by (auto simp: Store_WriteBatch_def contents_def Let_def lawsD(4)[OF assms(1)]
      split: if_splits option.splits prod.splits)

lemma WriteBatchIfValueEquals_contents:
  assumes "rocks_laws R view" "WriteBatchIfValueEquals R k expected ops st = (r, st')"
  shows "(r = Inr True \<longrightarrow> contents view st k = Some expected \<and>
            contents view st' = apply_batch ops (contents view st)) \<and>
         (r \<noteq> Inr True \<longrightarrow> contents view st' = contents view st) \<and>
         (r = Inr False \<longrightarrow> (\<exists>v. contents view st k = Some v \<and> v \<noteq> expected)) \<and>
         namespace_disabled st' = namespace_disabled st"
  using assms by (auto simp: WriteBatchIfValueEquals_def contents_def Let_def lawsD[OF assms(1)]
      split: if_splits option.splits prod.splits)

text \<open>The conditional batch is a compare-and-swap: it reports a match exactly when the batch was
  applied, and then the guarded key held the expected value; in every other outcome (a different
  value, a missing key, a database error, a namespace refusal) the stored data is unchanged.\<close>

theorem WriteBatchIfValueEquals_cas:
  assumes "rocks_laws R view" "WriteBatchIfValueEquals R k expected ops st = (r, st')"
  shows "(if r = Inr True
          then contents view st k = Some expected \<and> contents view st' = apply_batch ops (contents view st)
          else contents view st' = contents view st) \<and>
         (r = Inr False \<longrightarrow> contents view st k \<noteq> Some expected)"
  using WriteBatchIfValueEquals_contents[OF assms] by auto

section \<open>A concrete database\<close>

text \<open>A map that never fails satisfies the laws, so they can hold.\<close>

definition map_db :: "(string \<rightharpoonup> bytes) rocksdb" where
  "map_db = \<lparr>rdb_Get = (\<lambda>m k. case m k of Some v \<Rightarrow> (StatusOk, v) | None \<Rightarrow> (StatusNotFound, [])),
     rdb_Put = (\<lambda>m k v. (StatusOk, m(k \<mapsto> v))),
     rdb_Write = (\<lambda>m ops. (StatusOk, apply_batch ops m))\<rparr>"

lemma map_db_laws: "rocks_laws map_db (\<lambda>m. m)"
  unfolding rocks_laws_def map_db_def by (auto split: option.splits)

theorem WriteBatchIfValueEquals_cas_witness:
  "contents (\<lambda>m. m) (snd (WriteBatchIfValueEquals map_db ''I/7'' [1] [BatchPut ''I/7'' [2], BatchDelete ''AF/7'']
       \<lparr>db_handle = Some [''I/7'' \<mapsto> [1], ''AF/7'' \<mapsto> [9]], namespace_disabled = False\<rparr>)) =
     apply_batch [BatchPut ''I/7'' [2], BatchDelete ''AF/7''] [''I/7'' \<mapsto> [1], ''AF/7'' \<mapsto> [9]]"
proof -
  let ?st = "\<lparr>db_handle = Some [''I/7'' \<mapsto> [1], ''AF/7'' \<mapsto> [9]], namespace_disabled = False\<rparr>"
  let ?ops = "[BatchPut ''I/7'' [2], BatchDelete ''AF/7'']"
  obtain st' where run: "WriteBatchIfValueEquals map_db ''I/7'' [1] ?ops ?st = (Inr True, st')"
    by (simp add: WriteBatchIfValueEquals_def map_db_def CheckControlBatch_def Denied_def)
  from WriteBatchIfValueEquals_cas[OF map_db_laws this] show ?thesis
    by (simp add: run contents_def)
qed

section \<open>The LHM mode\<close>

lemma apply_batch_other:
  "list_all (\<lambda>op. op_key op \<noteq> k) ops \<Longrightarrow> apply_batch ops m k = m k"
proof (induction ops arbitrary: m)
  case (Cons op ops)
  then show ?case by (cases op) (auto simp: apply_batch_def)
qed (simp add: apply_batch_def)

text \<open>The writes of the store.\<close>

inductive store_write :: "'db rocksdb \<Rightarrow> 'db RocksMetaStore \<Rightarrow> 'db RocksMetaStore \<Rightarrow> bool"
  for R :: "'db rocksdb" where
  put: "Store_Put R k v st = (r, st') \<Longrightarrow> store_write R st st'"
| batch: "Store_WriteBatch R ops st = (r2, st') \<Longrightarrow> store_write R st st'"
| cas: "WriteBatchIfValueEquals R k expected ops st = (r3, st') \<Longrightarrow> store_write R st st'"

lemma store_write_namespace:
  assumes "rocks_laws R view" "store_write R st st'" "namespace_disabled st" "NamespaceKey k"
  shows "contents view st' k = contents view st k \<and> namespace_disabled st'"
  using assms(2)
proof cases
  case (put k' v r)
  have "k' = k \<Longrightarrow> r \<noteq> Inr ()" using put assms(3,4) by (auto simp: Store_Put_def Denied_def)
  with Store_Put_contents[OF assms(1) put] assms(3) show ?thesis by auto
next
  case (batch ops r)
  have "r = Inr () \<Longrightarrow> list_all (\<lambda>op. op_key op \<noteq> k) ops"
    using batch assms(3,4) by (auto simp: Store_WriteBatch_def CheckControlBatch_def list_all_iff split: if_splits)
  with Store_WriteBatch_contents[OF assms(1) batch] assms(3) show ?thesis by (auto simp: apply_batch_other)
next
  case (cas k' expected ops r)
  have "r = Inr True \<Longrightarrow> list_all (\<lambda>op. op_key op \<noteq> k) ops"
    using cas assms(3,4)
    by (auto simp: WriteBatchIfValueEquals_def CheckControlBatch_def list_all_iff split: if_splits)
  with WriteBatchIfValueEquals_contents[OF assms(1) cas] assms(3) show ?thesis
    by (cases "r = Inr True") (auto simp: apply_batch_other)
qed

text \<open>C38: Once namespace access is disabled, no sequence of writes through the store changes an
  inode or directory-entry key, whatever the batches contain and however the database fails.\<close>

theorem lhm_mode_keeps_namespace:
  assumes "rocks_laws R view" "(store_write R)\<^sup>*\<^sup>* (DisableNamespaceAccess st) st'" "NamespaceKey k"
  shows "contents view st' k = contents view st k"
proof -
  from assms(2) have "contents view st' k = contents view (DisableNamespaceAccess st) k \<and> namespace_disabled st'"
  proof induction
    case base
    then show ?case by (simp add: DisableNamespaceAccess_def)
  next
    case (step x y)
    with store_write_namespace[OF assms(1) step(2) _ assms(3)] show ?case by simp
  qed
  then show ?thesis by (simp add: contents_def DisableNamespaceAccess_def)
qed

theorem lhm_mode_keeps_namespace_witness:
  "contents (\<lambda>m. m) (snd (Store_WriteBatch map_db [BatchDelete ''I/7'']
       (DisableNamespaceAccess \<lparr>db_handle = Some [''I/7'' \<mapsto> [1]], namespace_disabled = False\<rparr>))) ''I/7'' = Some [1]"
proof -
  let ?st = "\<lparr>db_handle = Some [''I/7'' \<mapsto> [1]], namespace_disabled = False\<rparr>"
  let ?st' = "snd (Store_WriteBatch map_db [BatchDelete ''I/7''] (DisableNamespaceAccess ?st))"
  have "(store_write map_db)\<^sup>*\<^sup>* (DisableNamespaceAccess ?st) ?st'"
    by (intro r_into_rtranclp store_write.batch) (rule surjective_pairing)
  from lhm_mode_keeps_namespace[OF map_db_laws this, of "''I/7''"] show ?thesis
    by (simp add: NamespaceKey_def contents_def)
qed

end
