(* ===== verification/Archive_Lease.thy ===== *)
theory Archive_Lease
  imports Rocks_Store
begin

unbundle bit_operations_syntax

text \<open>
  The archive lease manager (\<open>src/src/mds/archive/ArchiveLeaseManager.h\<close> and \<open>.cpp\<close>): optical nodes
  claim a file for archiving, renew the claim while they work, and commit or give it back.  The manager
  keeps one protobuf record per inode in the metadata store.  Parameters of the model are the database
  (\<open>rocksdb\<close>), the serialisation of the record message (\<open>lease_codec\<close>; \<open>codec_laws\<close> states that what
  was serialised parses back), the clock readings and the random numbers of a call.  Every operation
  holds the manager's mutex from its first read to its last write, so an operation is one atomic step.
  Shown here: leases exclude each other until they expire, only the holder renews or commits, lease
  times stay within the configured bounds, and an operation touches only the lease of its inode.
\<close>

section \<open>Messages and options\<close>

text \<open>\<open>ArchiveLifecycleState\<close> by number: a record may hold a value the enum does not name.\<close>

abbreviation "ARCHIVE_STATE_PENDING \<equiv> (0 :: u32)"
abbreviation "ARCHIVE_STATE_ARCHIVING \<equiv> (1 :: u32)"

record ArchiveLeaseRecord =
  lr_state :: u32
  lr_owner_node_id :: string
  lr_owner_disk_id :: string
  lr_lease_id :: string
  lr_lease_expire_ts_ms :: u64
  lr_last_op_id :: string
  lr_version :: u64
  lr_update_ts_ms :: u64
  lr_archive_ts_ms :: u64
  lr_object_id :: string
  lr_inode_id :: u64

definition empty_lease :: ArchiveLeaseRecord where
  "empty_lease = \<lparr>lr_state = 0, lr_owner_node_id = [], lr_owner_disk_id = [], lr_lease_id = [],
     lr_lease_expire_ts_ms = 0, lr_last_op_id = [], lr_version = 0, lr_update_ts_ms = 0,
     lr_archive_ts_ms = 0, lr_object_id = [], lr_inode_id = 0\<rparr>"

record ClaimArchiveTaskRequest =
  cr_node_id :: string
  cr_disk_id :: string
  cr_requested_lease_ms :: u64
  cr_inode_id :: u64

record RenewArchiveLeaseRequest =
  rr_node_id :: string
  rr_lease_id :: string
  rr_requested_lease_ms :: u64
  rr_inode_id :: u64

record CommitArchiveTaskRequest =
  mr_node_id :: string
  mr_lease_id :: string
  mr_op_id :: string
  mr_success :: bool
  mr_inode_id :: u64

text \<open>A reply: the flag (\<open>granted\<close>, \<open>renewed\<close> or \<open>committed\<close>) and the record.\<close>

type_synonym lease_reply = "bool \<times> ArchiveLeaseRecord"

record Options =
  default_lease_ms :: u64
  min_lease_ms :: u64
  max_lease_ms :: u64

definition default_options :: Options where
  "default_options = \<lparr>default_lease_ms = 30000, min_lease_ms = 1000, max_lease_ms = 300000\<rparr>"

text \<open>\<open>SerializeToString\<close> (which may fail) and \<open>ParseFromString\<close> of the record message.\<close>

record lease_codec =
  SerializeLease :: "ArchiveLeaseRecord \<Rightarrow> bytes option"
  ParseLease :: "bytes \<Rightarrow> ArchiveLeaseRecord option"

definition codec_laws :: "lease_codec \<Rightarrow> bool" where
  "codec_laws C \<longleftrightarrow> (\<forall>r bs. SerializeLease C r = Some bs \<longrightarrow> ParseLease C bs = Some r)"

datatype lease_error =
    InodeIdEmpty          \<comment> \<open>archive inode_id is empty\<close>
  | InodeOrLeaseIdEmpty   \<comment> \<open>archive inode_id or lease_id is empty\<close>
  | InvalidLeaseRecord    \<comment> \<open>invalid archive lease record for archive unit\<close>
  | SerializeFailed       \<comment> \<open>failed to serialize archive lease record\<close>
  | RecordMissingInode    \<comment> \<open>archive lease record missing inode_id\<close>
  | IncompleteLease       \<comment> \<open>incomplete modeled archive lease or commit\<close>
  | LeaseNotFound         \<comment> \<open>archive lease not found\<close>
  | LeaseChanged          \<comment> \<open>archive lease changed or expired\<close>
  | LeaseStore store_error

section \<open>Helpers\<close>

definition ResolveArchiveLeaseKey :: "u64 \<Rightarrow> string" where
  "ResolveArchiveLeaseKey inode_id = (if inode_id \<noteq> 0 then FileArchiveStateKey inode_id else [])"

definition normalize_options :: "Options \<Rightarrow> Options" where
  "normalize_options o0 =
     (let o1 = (if min_lease_ms o0 = 0 then o0\<lparr>min_lease_ms := 1\<rparr> else o0);
          o2 = (if default_lease_ms o1 < min_lease_ms o1 then o1\<lparr>default_lease_ms := min_lease_ms o1\<rparr> else o1)
      in if max_lease_ms o2 < default_lease_ms o2 then o2\<lparr>max_lease_ms := default_lease_ms o2\<rparr> else o2)"

definition NormalizeLeaseMs :: "Options \<Rightarrow> u64 \<Rightarrow> u64" where
  "NormalizeLeaseMs opts requested =
     (let lease_ms = (if requested > 0 then requested else default_lease_ms opts);
          lease_ms = max lease_ms (min_lease_ms opts)
      in min lease_ms (max_lease_ms opts))"

text \<open>Thirty-two hexadecimal digits of two random 64-bit numbers.\<close>

definition GenerateLeaseId :: "u64 \<times> u64 \<Rightarrow> string" where
  "GenerateLeaseId rng = concat (map (\<lambda>v. map (\<lambda>j. ''0123456789abcdef'' ! unat (drop_bit ((15 - j) * 4) v AND 0xF))
     [0..<16]) [fst rng, snd rng])"

definition LoadOrInitRecordLocked ::
  "'db rocksdb \<Rightarrow> lease_codec \<Rightarrow> string \<Rightarrow> u64 \<Rightarrow> u64 \<Rightarrow> 'db RocksMetaStore \<Rightarrow> lease_error + ArchiveLeaseRecord" where
  "LoadOrInitRecordLocked R C lease_key inode_id now_ms st =
     (case Store_Get R lease_key st of
        Found data \<Rightarrow> (case ParseLease C data of None \<Rightarrow> Inl InvalidLeaseRecord | Some rec \<Rightarrow> Inr rec)
      | GetError e \<Rightarrow> Inl (LeaseStore e)
      | Missing \<Rightarrow> Inr (empty_lease\<lparr>lr_inode_id := inode_id, lr_state := ARCHIVE_STATE_PENDING,
                                    lr_version := 1, lr_update_ts_ms := now_ms\<rparr>))"

definition PersistRecordLocked ::
  "'db rocksdb \<Rightarrow> lease_codec \<Rightarrow> ArchiveLeaseRecord \<Rightarrow> 'db RocksMetaStore \<Rightarrow>
   (lease_error + unit) \<times> 'db RocksMetaStore" where
  "PersistRecordLocked R C rec st =
     (case SerializeLease C rec of
        None \<Rightarrow> (Inl SerializeFailed, st)
      | Some v \<Rightarrow>
          let lease_key = ResolveArchiveLeaseKey (lr_inode_id rec)
          in if lease_key = [] then (Inl RecordMissingInode, st)
             else case Store_Put R lease_key v st of
                    (Inl e, st') \<Rightarrow> (Inl (LeaseStore e), st')
                  | (Inr _, st') \<Rightarrow> (Inr (), st'))"

section \<open>Operations\<close>

text \<open>The clock is read once while loading and once after it.\<close>

definition claim_reset :: "u64 \<Rightarrow> ArchiveLeaseRecord \<Rightarrow> ArchiveLeaseRecord" where
  "claim_reset now_ms rec = rec\<lparr>lr_state := ARCHIVE_STATE_PENDING, lr_lease_id := [],
     lr_lease_expire_ts_ms := 0, lr_update_ts_ms := now_ms, lr_version := lr_version rec + 1\<rparr>"

definition claim_grant ::
  "Options \<Rightarrow> ClaimArchiveTaskRequest \<Rightarrow> u64 \<Rightarrow> u64 \<times> u64 \<Rightarrow> ArchiveLeaseRecord \<Rightarrow> ArchiveLeaseRecord" where
  "claim_grant opts req now_ms rng rec = rec\<lparr>lr_state := ARCHIVE_STATE_ARCHIVING,
     lr_owner_node_id := cr_node_id req, lr_owner_disk_id := cr_disk_id req,
     lr_lease_id := GenerateLeaseId rng,
     lr_lease_expire_ts_ms := now_ms + NormalizeLeaseMs opts (cr_requested_lease_ms req),
     lr_update_ts_ms := now_ms, lr_version := lr_version rec + 1\<rparr>"

definition Claim ::
  "'db rocksdb \<Rightarrow> lease_codec \<Rightarrow> Options \<Rightarrow> u64 \<Rightarrow> u64 \<Rightarrow> u64 \<times> u64 \<Rightarrow> ClaimArchiveTaskRequest \<Rightarrow>
   'db RocksMetaStore \<Rightarrow> (lease_error + lease_reply) \<times> 'db RocksMetaStore" where
  "Claim R C opts load_ms now_ms rng req st0 =
     (let lease_key = ResolveArchiveLeaseKey (cr_inode_id req)
      in if lease_key = [] then (Inl InodeIdEmpty, st0)
         else case LoadOrInitRecordLocked R C lease_key (cr_inode_id req) load_ms st0 of
           Inl e \<Rightarrow> (Inl e, st0)
         | Inr rec0 \<Rightarrow>
             let (reset_result, rec, st) =
               (if lr_state rec0 \<noteq> ARCHIVE_STATE_PENDING \<and> lr_state rec0 \<noteq> ARCHIVE_STATE_ARCHIVING then
                  let rec1 = claim_reset now_ms rec0; (r, st1) = PersistRecordLocked R C rec1 st0
                  in (r, rec1, st1)
                else (Inr (), rec0, st0))
             in case reset_result of
                  Inl e \<Rightarrow> (Inl e, st)
                | Inr _ \<Rightarrow>
                    if lr_state rec = ARCHIVE_STATE_ARCHIVING \<and> lr_lease_expire_ts_ms rec > now_ms then
                      (Inr (lr_owner_node_id rec = cr_node_id req \<and> lr_owner_disk_id rec = cr_disk_id req, rec), st)
                    else
                      let rec2 = claim_grant opts req now_ms rng rec
                      in case PersistRecordLocked R C rec2 st of
                           (Inl e, st2) \<Rightarrow> (Inl e, st2)
                         | (Inr _, st2) \<Rightarrow> (Inr (True, rec2), st2))"

definition Renew ::
  "'db rocksdb \<Rightarrow> lease_codec \<Rightarrow> Options \<Rightarrow> u64 \<Rightarrow> u64 \<Rightarrow> RenewArchiveLeaseRequest \<Rightarrow>
   'db RocksMetaStore \<Rightarrow> (lease_error + lease_reply) \<times> 'db RocksMetaStore" where
  "Renew R C opts load_ms now_ms req st =
     (let lease_key = ResolveArchiveLeaseKey (rr_inode_id req)
      in if lease_key = [] \<or> rr_lease_id req = [] then (Inl InodeOrLeaseIdEmpty, st)
         else case LoadOrInitRecordLocked R C lease_key (rr_inode_id req) load_ms st of
           Inl e \<Rightarrow> (Inl e, st)
         | Inr rec \<Rightarrow>
             if lr_state rec \<noteq> ARCHIVE_STATE_ARCHIVING \<or> lr_lease_id rec \<noteq> rr_lease_id req \<or>
                rr_node_id req \<noteq> [] \<and> lr_owner_node_id rec \<noteq> rr_node_id req \<or>
                lr_lease_expire_ts_ms rec \<le> now_ms
             then (Inr (False, rec), st)
             else let rec1 = rec\<lparr>lr_lease_expire_ts_ms := now_ms + NormalizeLeaseMs opts (rr_requested_lease_ms req),
                                 lr_update_ts_ms := now_ms, lr_version := lr_version rec + 1\<rparr>
                  in case PersistRecordLocked R C rec1 st of
                       (Inl e, st1) \<Rightarrow> (Inl e, st1)
                     | (Inr _, st1) \<Rightarrow> (Inr (True, rec1), st1))"

text \<open>Both branches of the source's expiry test set the same state, so it leaves no trace here; the
  \<open>idempotent\<close> flag of the reply is always false.\<close>

definition Commit ::
  "'db rocksdb \<Rightarrow> lease_codec \<Rightarrow> u64 \<Rightarrow> u64 \<Rightarrow> CommitArchiveTaskRequest \<Rightarrow>
   'db RocksMetaStore \<Rightarrow> (lease_error + lease_reply) \<times> 'db RocksMetaStore" where
  "Commit R C load_ms now_ms req st =
     (let lease_key = ResolveArchiveLeaseKey (mr_inode_id req)
      in if lease_key = [] then (Inl InodeIdEmpty, st)
         else case LoadOrInitRecordLocked R C lease_key (mr_inode_id req) load_ms st of
           Inl e \<Rightarrow> (Inl e, st)
         | Inr rec \<Rightarrow>
             if lr_state rec \<noteq> ARCHIVE_STATE_ARCHIVING \<or> lr_lease_id rec \<noteq> mr_lease_id req \<or>
                mr_node_id req \<noteq> [] \<and> lr_owner_node_id rec \<noteq> mr_node_id req
             then (Inr (False, rec), st)
             else
               let rec1 = rec\<lparr>lr_state := ARCHIVE_STATE_PENDING,
                     lr_last_op_id := (if mr_op_id req \<noteq> [] then mr_op_id req else lr_lease_id rec),
                     lr_lease_id := [], lr_lease_expire_ts_ms := 0, lr_update_ts_ms := now_ms,
                     lr_version := lr_version rec + 1\<rparr>
               in if mr_success req then
                    let rec2 = rec1\<lparr>lr_archive_ts_ms := now_ms\<rparr>
                    in case Store_WriteBatch R [BatchDelete lease_key] st of
                         (Inl e, st1) \<Rightarrow> (Inl (LeaseStore e), st1)
                       | (Inr _, st1) \<Rightarrow> (Inr (True, rec2), st1)
                  else case PersistRecordLocked R C rec1 st of
                         (Inl e, st1) \<Rightarrow> (Inl e, st1)
                       | (Inr _, st1) \<Rightarrow> (Inr (True, rec1), st1))"

definition lease_held_by :: "ArchiveLeaseRecord \<Rightarrow> string \<Rightarrow> string \<Rightarrow> string \<Rightarrow> u64 \<Rightarrow> bool" where
  "lease_held_by rec node_id disk_id lease_id now_ms \<longleftrightarrow>
     \<not> (lr_state rec \<noteq> ARCHIVE_STATE_ARCHIVING \<or> lr_owner_node_id rec \<noteq> node_id \<or>
        lr_owner_disk_id rec \<noteq> disk_id \<or> lr_lease_id rec \<noteq> lease_id \<or> lr_lease_expire_ts_ms rec \<le> now_ms)"

definition check_stored_lease ::
  "'db rocksdb \<Rightarrow> lease_codec \<Rightarrow> u64 \<Rightarrow> string \<Rightarrow> string \<Rightarrow> string \<Rightarrow> u64 \<Rightarrow> 'db RocksMetaStore \<Rightarrow> lease_error + unit" where
  "check_stored_lease R C inode_id node_id disk_id lease_id now_ms st =
     (case Store_Get R (FileArchiveStateKey inode_id) st of
        GetError e \<Rightarrow> Inl (LeaseStore e)
      | Missing \<Rightarrow> Inl LeaseNotFound
      | Found payload \<Rightarrow>
          (case ParseLease C payload of
             None \<Rightarrow> Inl LeaseChanged
           | Some rec \<Rightarrow> if lease_held_by rec node_id disk_id lease_id now_ms then Inr () else Inl LeaseChanged))"

definition ValidateModelLease ::
  "'db rocksdb \<Rightarrow> lease_codec \<Rightarrow> u64 \<Rightarrow> string \<Rightarrow> string \<Rightarrow> string \<Rightarrow> u64 \<Rightarrow> 'db RocksMetaStore \<Rightarrow> lease_error + unit" where
  "ValidateModelLease R C inode_id node_id disk_id lease_id now_ms st =
     (if inode_id = 0 \<or> node_id = [] \<or> disk_id = [] \<or> lease_id = [] then Inl IncompleteLease
      else check_stored_lease R C inode_id node_id disk_id lease_id now_ms st)"

definition CommitModelLeaseWithInodeCas ::
  "'db rocksdb \<Rightarrow> lease_codec \<Rightarrow> u64 \<Rightarrow> string \<Rightarrow> string \<Rightarrow> string \<Rightarrow> u64 \<Rightarrow> bytes \<Rightarrow> batch_op list \<Rightarrow>
   'db RocksMetaStore \<Rightarrow> (lease_error + bool) \<times> 'db RocksMetaStore" where
  "CommitModelLeaseWithInodeCas R C inode_id node_id disk_id lease_id now_ms expected batch st =
     (if inode_id = 0 \<or> node_id = [] \<or> disk_id = [] \<or> lease_id = [] then (Inl IncompleteLease, st)
      else case check_stored_lease R C inode_id node_id disk_id lease_id now_ms st of
             Inl e \<Rightarrow> (Inl e, st)
           | Inr _ \<Rightarrow>
               (case WriteBatchIfValueEquals R (InodeKey inode_id) expected
                       (batch @ [BatchDelete (FileArchiveStateKey inode_id)]) st of
                  (Inl e, st') \<Rightarrow> (Inl (LeaseStore e), st')
                | (Inr matched, st') \<Rightarrow> (Inr matched, st')))"

section \<open>Lease times\<close>

text \<open>The constructor repairs any configuration to positive, ordered bounds, and with the repaired
  options every lease time is within them, whatever is requested.\<close>

theorem NormalizeLeaseMs_bounds:
  "0 < min_lease_ms (normalize_options opts) \<and>
   min_lease_ms (normalize_options opts) \<le> default_lease_ms (normalize_options opts) \<and>
   default_lease_ms (normalize_options opts) \<le> max_lease_ms (normalize_options opts) \<and>
   min_lease_ms (normalize_options opts) \<le> NormalizeLeaseMs (normalize_options opts) requested \<and>
   NormalizeLeaseMs (normalize_options opts) requested \<le> max_lease_ms (normalize_options opts)"
proof -
  let ?o = "normalize_options opts"
  have order: "0 < min_lease_ms ?o" "min_lease_ms ?o \<le> default_lease_ms ?o" "default_lease_ms ?o \<le> max_lease_ms ?o"
    by (auto simp: normalize_options_def Let_def word_neq_0_conv not_less intro: order_trans less_imp_le)
  then have "min_lease_ms ?o \<le> max_lease_ms ?o" by (blast intro: order_trans)
  with order show ?thesis by (auto simp: NormalizeLeaseMs_def Let_def)
qed

section \<open>Stored leases\<close>

definition stored_lease ::
  "lease_codec \<Rightarrow> ('db \<Rightarrow> string \<rightharpoonup> bytes) \<Rightarrow> 'db RocksMetaStore \<Rightarrow> u64 \<Rightarrow> ArchiveLeaseRecord option" where
  "stored_lease C view st i =
     (case contents view st (FileArchiveStateKey i) of None \<Rightarrow> None | Some bs \<Rightarrow> ParseLease C bs)"

definition active :: "ArchiveLeaseRecord \<Rightarrow> u64 \<Rightarrow> bool" where
  "active rec now \<longleftrightarrow> lr_state rec = ARCHIVE_STATE_ARCHIVING \<and> lr_lease_expire_ts_ms rec > now"

text \<open>The invariant of the lease keys: a record is stored under the key of its own inode.\<close>

definition leases_ok :: "lease_codec \<Rightarrow> ('db \<Rightarrow> string \<rightharpoonup> bytes) \<Rightarrow> 'db RocksMetaStore \<Rightarrow> bool" where
  "leases_ok C view st \<longleftrightarrow> (\<forall>i rec. stored_lease C view st i = Some rec \<longrightarrow> lr_inode_id rec = i)"

lemma AF_key_inject [simp]: "FileArchiveStateKey i = FileArchiveStateKey j \<longleftrightarrow> i = j"
  by (simp add: FileArchiveStateKey_def to_string_inject)

lemma AF_key_nonempty [simp]: "FileArchiveStateKey i \<noteq> []"
  by (simp add: FileArchiveStateKey_def)

lemma lease_key_simps [simp]:
  "ResolveArchiveLeaseKey i = [] \<longleftrightarrow> i = 0" "i \<noteq> 0 \<Longrightarrow> ResolveArchiveLeaseKey i = FileArchiveStateKey i"
  by (simp_all add: ResolveArchiveLeaseKey_def)

lemma load_stored:
  assumes "rocks_laws R view" "LoadOrInitRecordLocked R C (FileArchiveStateKey i) i t st = Inr rec"
  shows "stored_lease C view st i = Some rec \<or>
    stored_lease C view st i = None \<and> lr_state rec = ARCHIVE_STATE_PENDING \<and> lr_inode_id rec = i"
  using assms Store_Get_Found[OF assms(1)] Store_Get_Missing[OF assms(1)]
  by (auto simp: LoadOrInitRecordLocked_def stored_lease_def split: get_result.splits option.splits)

lemma load_inode:
  assumes "rocks_laws R view" "LoadOrInitRecordLocked R C (FileArchiveStateKey i) i t st = Inr rec"
    "leases_ok C view st"
  shows "lr_inode_id rec = i"
  using load_stored[OF assms(1,2)] assms(3) by (auto simp: leases_ok_def)

lemma persist_stored:
  assumes "rocks_laws R view" "codec_laws C" "lr_inode_id rec = i" "i \<noteq> 0"
    and "PersistRecordLocked R C rec st = (r, st')"
  shows "stored_lease C view st' = (if r = Inr () then (stored_lease C view st)(i \<mapsto> rec) else stored_lease C view st)"
    and "k \<noteq> FileArchiveStateKey i \<Longrightarrow> contents view st' k = contents view st k"
    and "r \<noteq> Inr () \<Longrightarrow> contents view st' = contents view st"
proof -
  have *: "contents view st' = (if r = Inr () then (contents view st)(FileArchiveStateKey i \<mapsto> the (SerializeLease C rec))
      else contents view st) \<and> (r = Inr () \<longrightarrow> ParseLease C (the (SerializeLease C rec)) = Some rec)"
  proof (cases "SerializeLease C rec")
    case None
    with assms(5) show ?thesis by (auto simp: PersistRecordLocked_def)
  next
    case (Some bs)
    obtain r' st1 where put: "Store_Put R (FileArchiveStateKey i) bs st = (r', st1)" by force
    with Some assms(3-5) have "r = (case r' of Inl e \<Rightarrow> Inl (LeaseStore e) | Inr _ \<Rightarrow> Inr ())" "st' = st1"
      by (auto simp: PersistRecordLocked_def split: sum.splits)
    with Store_Put_contents[OF assms(1) put] Some assms(2) show ?thesis
      by (cases r') (auto simp: codec_laws_def)
  qed
  then show "stored_lease C view st' = (if r = Inr () then (stored_lease C view st)(i \<mapsto> rec) else stored_lease C view st)"
    by (auto simp: stored_lease_def fun_eq_iff)
  from * show "k \<noteq> FileArchiveStateKey i \<Longrightarrow> contents view st' k = contents view st k"
    "r \<noteq> Inr () \<Longrightarrow> contents view st' = contents view st" by auto
qed

section \<open>What each operation does to the stored leases\<close>

text \<open>The part of \<open>Claim\<close> behind the optional reset.\<close>

definition claim_tail ::
  "'db rocksdb \<Rightarrow> lease_codec \<Rightarrow> Options \<Rightarrow> u64 \<Rightarrow> u64 \<times> u64 \<Rightarrow> ClaimArchiveTaskRequest \<Rightarrow> ArchiveLeaseRecord \<Rightarrow>
   'db RocksMetaStore \<Rightarrow> (lease_error + lease_reply) \<times> 'db RocksMetaStore" where
  "claim_tail R C opts now_ms rng req rec st =
     (if active rec now_ms
      then (Inr (lr_owner_node_id rec = cr_node_id req \<and> lr_owner_disk_id rec = cr_disk_id req, rec), st)
      else case PersistRecordLocked R C (claim_grant opts req now_ms rng rec) st of
             (Inl e, st2) \<Rightarrow> (Inl e, st2)
           | (Inr _, st2) \<Rightarrow> (Inr (True, claim_grant opts req now_ms rng rec), st2))"

definition legacy_state :: "ArchiveLeaseRecord \<Rightarrow> bool" where
  "legacy_state rec \<longleftrightarrow> lr_state rec \<noteq> ARCHIVE_STATE_PENDING \<and> lr_state rec \<noteq> ARCHIVE_STATE_ARCHIVING"

lemma Claim_unfold:
  assumes "cr_inode_id req = i" "i \<noteq> 0"
  shows "Claim R C opts t now rng req st =
    (case LoadOrInitRecordLocked R C (FileArchiveStateKey i) i t st of
       Inl e \<Rightarrow> (Inl e, st)
     | Inr rec \<Rightarrow>
         if legacy_state rec then
           (case PersistRecordLocked R C (claim_reset now rec) st of
              (Inl e, st1) \<Rightarrow> (Inl e, st1)
            | (Inr _, st1) \<Rightarrow> claim_tail R C opts now rng req (claim_reset now rec) st1)
         else claim_tail R C opts now rng req rec st)"
  using assms by (auto simp: Claim_def claim_tail_def legacy_state_def active_def Let_def
      split: sum.splits prod.splits)

lemma reset_grant_sel [simp]:
  "lr_inode_id (claim_reset now rec) = lr_inode_id rec"
  "lr_inode_id (claim_grant opts req now rng rec) = lr_inode_id rec"
  "\<not> active (claim_reset now rec) now"
  by (simp_all add: claim_reset_def claim_grant_def active_def)

lemma claim_tail_outcome:
  assumes "rocks_laws R view" "codec_laws C" "lr_inode_id rec = i" "i \<noteq> 0"
    and "claim_tail R C opts now rng req rec st = (r, st')"
  shows "active rec now \<and> st' = st \<and>
      r = Inr (lr_owner_node_id rec = cr_node_id req \<and> lr_owner_disk_id rec = cr_disk_id req, rec) \<or>
    \<not> active rec now \<and> (\<exists>e. r = Inl e) \<and> stored_lease C view st' = stored_lease C view st \<or>
    \<not> active rec now \<and> r = Inr (True, claim_grant opts req now rng rec) \<and>
      stored_lease C view st' = (stored_lease C view st)(i \<mapsto> claim_grant opts req now rng rec)"
proof (cases "active rec now")
  case True
  with assms(5) show ?thesis by (simp add: claim_tail_def)
next
  case False
  obtain p st2 where p: "PersistRecordLocked R C (claim_grant opts req now rng rec) st = (p, st2)" by force
  note persist_stored(1)[OF assms(1,2) _ assms(4) p]
  with False assms(3,5) p show ?thesis by (cases p) (auto simp: claim_tail_def)
qed

text \<open>The outcomes of a claim: an active lease answers it unchanged; otherwise it is granted and
  stored, or it fails, possibly after a record in a retired state was reset.\<close>

lemma Claim_outcome:
  assumes laws: "rocks_laws R view" "codec_laws C" and ok: "leases_ok C view st"
    and run: "Claim R C opts t now rng req st = (r, st')" and i: "cr_inode_id req = i" "i \<noteq> 0"
  shows "(\<exists>rec. stored_lease C view st i = Some rec \<and> active rec now \<and> stored_lease C view st' = stored_lease C view st \<and>
       r = Inr (lr_owner_node_id rec = cr_node_id req \<and> lr_owner_disk_id rec = cr_disk_id req, rec)) \<or>
    (\<exists>rec. (\<forall>rec0. stored_lease C view st i = Some rec0 \<longrightarrow> \<not> active rec0 now) \<and> lr_inode_id rec = i \<and>
       r = Inr (True, claim_grant opts req now rng rec) \<and>
       stored_lease C view st' = (stored_lease C view st)(i \<mapsto> claim_grant opts req now rng rec)) \<or>
    (\<exists>e. r = Inl e) \<and> (stored_lease C view st' = stored_lease C view st \<or>
       (\<exists>rec. stored_lease C view st i = Some rec \<and> \<not> active rec now \<and> lr_inode_id rec = i \<and>
          stored_lease C view st' = (stored_lease C view st)(i \<mapsto> claim_reset now rec)))"
proof (cases "LoadOrInitRecordLocked R C (FileArchiveStateKey i) i t st")
  case (Inl e)
  with run i show ?thesis by (auto simp: Claim_unfold)
next
  case (Inr rec)
  note stored = load_stored[OF laws(1) Inr] and ino = load_inode[OF laws(1) Inr ok]
  show ?thesis
  proof (cases "legacy_state rec")
    case False
    with run Inr i have "claim_tail R C opts now rng req rec st = (r, st')" by (simp add: Claim_unfold)
    from claim_tail_outcome[OF laws ino i(2) this] stored ino show ?thesis
      by (auto simp: active_def)
  next
    case True
    obtain p st1 where p: "PersistRecordLocked R C (claim_reset now rec) st = (p, st1)" by force
    note pst = persist_stored(1)[OF laws _ i(2) p]
    from True stored have st_rec: "stored_lease C view st i = Some rec" by (auto simp: legacy_state_def)
    from True have inact: "\<not> active rec now" by (auto simp: legacy_state_def active_def)
    show ?thesis
    proof (cases p)
      case (Inl e)
      with True run Inr i p pst ino show ?thesis by (auto simp: Claim_unfold)
    next
      case (Inr u)
      with True run \<open>LoadOrInitRecordLocked R C (FileArchiveStateKey i) i t st = Inr rec\<close> i p
      have "claim_tail R C opts now rng req (claim_reset now rec) st1 = (r, st')" by (simp add: Claim_unfold)
      note tail = claim_tail_outcome[OF laws _ i(2) this]
      have "lr_inode_id (claim_reset now rec) = i" using ino by simp
      with tail pst ino st_rec inact Inr show ?thesis
        by (metis fun_upd_upd option.inject reset_grant_sel(3))
    qed
  qed
qed

lemma Renew_outcome:
  assumes laws: "rocks_laws R view" "codec_laws C" and ok: "leases_ok C view st"
    and run: "Renew R C opts t now req st = (r, st')" and i: "rr_inode_id req = i"
  shows "stored_lease C view st' = stored_lease C view st \<and> (\<forall>rec'. r \<noteq> Inr (True, rec')) \<or>
    (\<exists>rec rec'. stored_lease C view st i = Some rec \<and> active rec now \<and> lr_lease_id rec = rr_lease_id req \<and>
       (rr_node_id req = [] \<or> rr_node_id req = lr_owner_node_id rec) \<and>
       rec' = rec\<lparr>lr_lease_expire_ts_ms := now + NormalizeLeaseMs opts (rr_requested_lease_ms req),
                  lr_update_ts_ms := now, lr_version := lr_version rec + 1\<rparr> \<and>
       r = Inr (True, rec') \<and> stored_lease C view st' = (stored_lease C view st)(i \<mapsto> rec'))"
proof (cases "i = 0 \<or> rr_lease_id req = []")
  case True
  with run i show ?thesis by (auto simp: Renew_def)
next
  case False
  show ?thesis
  proof (cases "LoadOrInitRecordLocked R C (FileArchiveStateKey i) i t st")
    case (Inl e)
    with False run i show ?thesis by (auto simp: Renew_def Let_def)
  next
    case (Inr rec)
    note stored = load_stored[OF laws(1) Inr] and ino = load_inode[OF laws(1) Inr ok]
    let ?rec = "rec\<lparr>lr_lease_expire_ts_ms := now + NormalizeLeaseMs opts (rr_requested_lease_ms req),
                  lr_update_ts_ms := now, lr_version := lr_version rec + 1\<rparr>"
    show ?thesis
    proof (cases "active rec now \<and> lr_lease_id rec = rr_lease_id req \<and>
        (rr_node_id req = [] \<or> rr_node_id req = lr_owner_node_id rec)")
      case True
      obtain p st1 where p: "PersistRecordLocked R C ?rec st = (p, st1)" by force
      from True have "\<not> (lr_state rec \<noteq> ARCHIVE_STATE_ARCHIVING \<or> lr_lease_id rec \<noteq> rr_lease_id req \<or>
          rr_node_id req \<noteq> [] \<and> lr_owner_node_id rec \<noteq> rr_node_id req \<or> lr_lease_expire_ts_ms rec \<le> now)"
        by (auto simp: active_def)
      with False run i Inr p have "(r, st') = (case p of Inl e \<Rightarrow> (Inl e, st1) | Inr _ \<Rightarrow> (Inr (True, ?rec), st1))"
        by (auto simp: Renew_def Let_def split: sum.splits)
      moreover have "stored_lease C view st i = Some rec" using True stored by (auto simp: active_def)
      moreover have "stored_lease C view st1 = (if p = Inr () then (stored_lease C view st)(i \<mapsto> ?rec) else stored_lease C view st)"
        using False ino by (intro persist_stored(1)[OF laws _ _ p]) simp_all
      ultimately show ?thesis using True by (cases p) auto
    next
      case no: False
      then have "lr_state rec \<noteq> ARCHIVE_STATE_ARCHIVING \<or> lr_lease_id rec \<noteq> rr_lease_id req \<or>
          rr_node_id req \<noteq> [] \<and> lr_owner_node_id rec \<noteq> rr_node_id req \<or> lr_lease_expire_ts_ms rec \<le> now"
        by (auto simp: active_def not_less)
      with False run i Inr have "r = Inr (False, rec) \<and> st' = st" by (simp add: Renew_def Let_def)
      then show ?thesis by simp
    qed
  qed
qed

lemma Commit_outcome:
  assumes laws: "rocks_laws R view" "codec_laws C" and ok: "leases_ok C view st"
    and run: "Commit R C t now req st = (r, st')" and i: "mr_inode_id req = i"
  shows "stored_lease C view st' = stored_lease C view st \<and> (\<forall>rec'. r \<noteq> Inr (True, rec')) \<or>
    (\<exists>rec rec'. stored_lease C view st i = Some rec \<and> lr_state rec = ARCHIVE_STATE_ARCHIVING \<and>
       lr_lease_id rec = mr_lease_id req \<and> (mr_node_id req = [] \<or> mr_node_id req = lr_owner_node_id rec) \<and>
       r = Inr (True, rec') \<and> lr_state rec' = ARCHIVE_STATE_PENDING \<and> lr_inode_id rec' = i \<and>
       stored_lease C view st' =
         (if mr_success req then (stored_lease C view st)(i := None) else (stored_lease C view st)(i \<mapsto> rec')))"
proof (cases "i = 0")
  case True
  with run i show ?thesis by (auto simp: Commit_def)
next
  case False
  show ?thesis
  proof (cases "LoadOrInitRecordLocked R C (FileArchiveStateKey i) i t st")
    case (Inl e)
    with False run i show ?thesis by (auto simp: Commit_def Let_def)
  next
    case (Inr rec)
    note stored = load_stored[OF laws(1) Inr] and ino = load_inode[OF laws(1) Inr ok]
    let ?rec = "rec\<lparr>lr_state := ARCHIVE_STATE_PENDING,
                     lr_last_op_id := (if mr_op_id req \<noteq> [] then mr_op_id req else lr_lease_id rec),
                     lr_lease_id := [], lr_lease_expire_ts_ms := 0, lr_update_ts_ms := now,
                     lr_version := lr_version rec + 1\<rparr>"
    show ?thesis
    proof (cases "lr_state rec = ARCHIVE_STATE_ARCHIVING \<and> lr_lease_id rec = mr_lease_id req \<and>
        (mr_node_id req = [] \<or> mr_node_id req = lr_owner_node_id rec)")
      case no: False
      then have "lr_state rec \<noteq> ARCHIVE_STATE_ARCHIVING \<or> lr_lease_id rec \<noteq> mr_lease_id req \<or>
          mr_node_id req \<noteq> [] \<and> lr_owner_node_id rec \<noteq> mr_node_id req" by auto
      with False run i Inr have "r = Inr (False, rec) \<and> st' = st" by (simp add: Commit_def Let_def)
      then show ?thesis by simp
    next
      case True
      then have guard: "\<not> (lr_state rec \<noteq> ARCHIVE_STATE_ARCHIVING \<or> lr_lease_id rec \<noteq> mr_lease_id req \<or>
          mr_node_id req \<noteq> [] \<and> lr_owner_node_id rec \<noteq> mr_node_id req)" by auto
      have st_rec: "stored_lease C view st i = Some rec" using True stored by auto
      show ?thesis
      proof (cases "mr_success req")
        case succ: True
        obtain w st1 where w: "Store_WriteBatch R [BatchDelete (FileArchiveStateKey i)] st = (w, st1)" by force
        from guard False run i Inr w succ
        have rs: "(r, st') = (case w of Inl e \<Rightarrow> (Inl (LeaseStore e), st1) | Inr _ \<Rightarrow> (Inr (True, ?rec\<lparr>lr_archive_ts_ms := now\<rparr>), st1))"
          by (auto simp: Commit_def Let_def split: sum.splits)
        have "stored_lease C view st1 = (if w = Inr () then (stored_lease C view st)(i := None) else stored_lease C view st)"
          using Store_WriteBatch_contents[OF laws(1) w] by (auto simp: stored_lease_def apply_batch_def fun_eq_iff)
        with rs True st_rec succ ino show ?thesis by (cases w) auto
      next
        case fail: False
        obtain p st1 where p: "PersistRecordLocked R C ?rec st = (p, st1)" by force
        from guard False run i Inr p fail
        have rs: "(r, st') = (case p of Inl e \<Rightarrow> (Inl e, st1) | Inr _ \<Rightarrow> (Inr (True, ?rec), st1))"
          by (auto simp: Commit_def Let_def split: sum.splits)
        have "stored_lease C view st1 = (if p = Inr () then (stored_lease C view st)(i \<mapsto> ?rec) else stored_lease C view st)"
          using False ino by (intro persist_stored(1)[OF laws _ _ p]) simp_all
        with rs True st_rec fail ino show ?thesis by (cases p) auto
      qed
    qed
  qed
qed

lemma Cas_outcome:
  assumes laws: "rocks_laws R view"
    and run: "CommitModelLeaseWithInodeCas R C i node disk lease now expected batch st = (r, st')"
  shows "(r = Inr True \<longrightarrow>
       (\<exists>rec. stored_lease C view st i = Some rec \<and> lease_held_by rec node disk lease now) \<and>
       contents view st (InodeKey i) = Some expected \<and>
       contents view st' = (apply_batch batch (contents view st))(FileArchiveStateKey i := None)) \<and>
     (r \<noteq> Inr True \<longrightarrow> contents view st' = contents view st)"
proof (cases "i = 0 \<or> node = [] \<or> disk = [] \<or> lease = []")
  case True
  with run show ?thesis by (auto simp: CommitModelLeaseWithInodeCas_def)
next
  case False
  show ?thesis
  proof (cases "check_stored_lease R C i node disk lease now st")
    case (Inl e)
    with False run show ?thesis by (auto simp: CommitModelLeaseWithInodeCas_def)
  next
    case (Inr u)
    let ?ops = "batch @ [BatchDelete (FileArchiveStateKey i)]"
    obtain w st1 where w: "WriteBatchIfValueEquals R (InodeKey i) expected ?ops st = (w, st1)" by force
    from False run Inr w have rs: "(r, st') = (case w of Inl e \<Rightarrow> (Inl (LeaseStore e), st1) | Inr m \<Rightarrow> (Inr m, st1))"
      by (auto simp: CommitModelLeaseWithInodeCas_def split: sum.splits)
    have held: "\<exists>rec. stored_lease C view st i = Some rec \<and> lease_held_by rec node disk lease now"
      using Inr Store_Get_Found[OF laws]
      by (auto simp: check_stored_lease_def stored_lease_def split: get_result.splits option.splits if_splits)
    from WriteBatchIfValueEquals_contents[OF laws w] rs held show ?thesis
      by (cases w) (auto simp: apply_batch_def)
  qed
qed

section \<open>Interleavings\<close>

text \<open>The operations clients interleave, each with its clock reading.\<close>

datatype lease_op =
    OpClaim u64 u64 "u64 \<times> u64" ClaimArchiveTaskRequest
  | OpRenew u64 u64 RenewArchiveLeaseRequest
  | OpCommit u64 u64 CommitArchiveTaskRequest
  | OpCas u64 string string string u64 bytes "batch_op list"

fun op_now :: "lease_op \<Rightarrow> u64" where
  "op_now (OpClaim t now rng req) = now"
| "op_now (OpRenew t now req) = now"
| "op_now (OpCommit t now req) = now"
| "op_now (OpCas i node disk lease now expected batch) = now"

text \<open>Does the operation present the given lease id for the inode?  Batches of the model commit write
  inode and commit records; they do not touch lease keys.\<close>

fun presents :: "lease_op \<Rightarrow> u64 \<Rightarrow> string \<Rightarrow> bool" where
  "presents (OpClaim t now rng req) i l = False"
| "presents (OpRenew t now req) i l = (rr_inode_id req = i \<and> rr_lease_id req = l)"
| "presents (OpCommit t now req) i l = (mr_inode_id req = i \<and> mr_lease_id req = l)"
| "presents (OpCas j node disk lease now expected batch) i l = (j = i \<and> lease = l)"

fun batch_ok :: "lease_op \<Rightarrow> bool" where
  "batch_ok (OpCas i node disk lease now expected batch) =
     list_all (\<lambda>op. family (op_key op) \<noteq> ''AF'') batch"
| "batch_ok _ = True"

fun run_op :: "'db rocksdb \<Rightarrow> lease_codec \<Rightarrow> Options \<Rightarrow> 'db RocksMetaStore \<Rightarrow> lease_op \<Rightarrow> 'db RocksMetaStore" where
  "run_op R C opts st (OpClaim t now rng req) = snd (Claim R C opts t now rng req st)"
| "run_op R C opts st (OpRenew t now req) = snd (Renew R C opts t now req st)"
| "run_op R C opts st (OpCommit t now req) = snd (Commit R C t now req st)"
| "run_op R C opts st (OpCas i node disk lease now expected batch) =
     snd (CommitModelLeaseWithInodeCas R C i node disk lease now expected batch st)"

definition run_ops :: "'db rocksdb \<Rightarrow> lease_codec \<Rightarrow> Options \<Rightarrow> lease_op list \<Rightarrow> 'db RocksMetaStore \<Rightarrow> 'db RocksMetaStore" where
  "run_ops R C opts ops st = foldl (run_op R C opts) st ops"

lemma family_AF: "family (FileArchiveStateKey i) = ''AF''"
  by (simp add: FileArchiveStateKey_def family_def)

lemma Cas_stored:
  assumes "rocks_laws R view" "CommitModelLeaseWithInodeCas R C i node disk lease now expected batch st = (r, st')"
    and "list_all (\<lambda>op. family (op_key op) \<noteq> ''AF'') batch"
  shows "stored_lease C view st' = (if r = Inr True then (stored_lease C view st)(i := None) else stored_lease C view st)"
proof -
  have "apply_batch batch m (FileArchiveStateKey j) = m (FileArchiveStateKey j)" for m j
    using assms(3) by (intro apply_batch_other) (auto simp: list_all_iff family_AF)
  with Cas_outcome[OF assms(1,2)] show ?thesis
    by (cases "r = Inr True") (auto simp: stored_lease_def fun_eq_iff)
qed

lemma run_op_ok:
  assumes laws: "rocks_laws R view" "codec_laws C" and ok: "leases_ok C view st" and b: "batch_ok op"
  shows "leases_ok C view (run_op R C opts st op)"
proof (cases op)
  case (OpClaim t now rng req)
  obtain r st' where run: "Claim R C opts t now rng req st = (r, st')" by force
  show ?thesis
  proof (cases "cr_inode_id req = 0")
    case True
    with run ok OpClaim show ?thesis by (auto simp: Claim_def)
  next
    case False
    from Claim_outcome[OF laws ok run refl False] have "leases_ok C view st'"
      using ok by (elim disjE exE conjE) (auto simp: leases_ok_def)
    with run OpClaim show ?thesis by simp
  qed
next
  case (OpRenew t now req)
  obtain r st' where run: "Renew R C opts t now req st = (r, st')" by force
  from Renew_outcome[OF laws ok run refl] have "leases_ok C view st'"
    using ok by (elim disjE exE conjE) (auto simp: leases_ok_def)
  with run OpRenew show ?thesis by simp
next
  case (OpCommit t now req)
  obtain r st' where run: "Commit R C t now req st = (r, st')" by force
  from Commit_outcome[OF laws ok run refl] have "leases_ok C view st'"
    using ok by (elim disjE exE conjE) (auto simp: leases_ok_def split: if_splits)
  with run OpCommit show ?thesis by simp
next
  case (OpCas i node disk lease now expected batch)
  obtain r st' where run: "CommitModelLeaseWithInodeCas R C i node disk lease now expected batch st = (r, st')" by force
  from Cas_stored[OF laws(1) run] b OpCas have "leases_ok C view st'"
    using ok by (auto simp: leases_ok_def split: if_splits)
  with run OpCas show ?thesis by simp
qed

text \<open>A lease that is active at the time of an operation, and whose id the operation does not present,
  is left alone by it.\<close>

lemma run_op_keeps_lease:
  assumes laws: "rocks_laws R view" "codec_laws C" and ok: "leases_ok C view st" and b: "batch_ok op"
    and lease: "stored_lease C view st i = Some rec" "active rec (op_now op)" "\<not> presents op i (lr_lease_id rec)"
  shows "stored_lease C view (run_op R C opts st op) i = Some rec"
proof (cases op)
  case (OpClaim t now rng req)
  obtain r st' where run: "Claim R C opts t now rng req st = (r, st')" by force
  show ?thesis
  proof (cases "cr_inode_id req = 0")
    case True
    with run lease OpClaim show ?thesis by (auto simp: Claim_def)
  next
    case False
    from Claim_outcome[OF laws ok run refl False] lease OpClaim have "stored_lease C view st' i = Some rec"
      by (elim disjE exE conjE) auto
    with run OpClaim show ?thesis by simp
  qed
next
  case (OpRenew t now req)
  obtain r st' where run: "Renew R C opts t now req st = (r, st')" by force
  from Renew_outcome[OF laws ok run refl] lease OpRenew have "stored_lease C view st' i = Some rec"
    by (elim disjE exE conjE) auto
  with run OpRenew show ?thesis by simp
next
  case (OpCommit t now req)
  obtain r st' where run: "Commit R C t now req st = (r, st')" by force
  from Commit_outcome[OF laws ok run refl] lease OpCommit have "stored_lease C view st' i = Some rec"
    by (elim disjE exE conjE) (auto split: if_splits)
  with run OpCommit show ?thesis by simp
next
  case (OpCas j node disk lease_id now expected batch)
  obtain r st' where run: "CommitModelLeaseWithInodeCas R C j node disk lease_id now expected batch st = (r, st')" by force
  have "r = Inr True \<Longrightarrow> j \<noteq> i"
    using Cas_outcome[OF laws(1) run] lease OpCas by (auto simp: lease_held_by_def)
  with Cas_stored[OF laws(1) run] b OpCas lease have "stored_lease C view st' i = Some rec"
    by (cases "r = Inr True") auto
  with run OpCas show ?thesis by simp
qed

lemma run_ops_keeps_lease:
  assumes "rocks_laws R view" "codec_laws C" "leases_ok C view st" "list_all batch_ok ops"
    and "stored_lease C view st i = Some rec" "list_all (\<lambda>op. active rec (op_now op)) ops"
    and "list_all (\<lambda>op. \<not> presents op i (lr_lease_id rec)) ops"
  shows "stored_lease C view (run_ops R C opts ops st) i = Some rec \<and> leases_ok C view (run_ops R C opts ops st)"
  using assms(3-7)
proof (induction ops arbitrary: st)
  case (Cons op ops)
  then have "stored_lease C view (run_op R C opts st op) i = Some rec" "leases_ok C view (run_op R C opts st op)"
    using run_op_keeps_lease[OF assms(1,2)] run_op_ok[OF assms(1,2)] by simp_all
  with Cons show ?case by (simp add: run_ops_def)
qed (simp add: run_ops_def)

section \<open>Exclusion\<close>

text \<open>C36: Leases exclude each other.  Let a lease on an inode be active.  Then after any interleaving of
  claims, renewals and commits by anyone, at clock readings before its expiry, in which nobody presents
  its lease id, the lease is still stored unchanged; and a claim that follows (before the expiry) is
  granted only to its owner.  Database and serialisation failures may occur anywhere.\<close>

theorem lease_exclusion:
  assumes "rocks_laws R view" "codec_laws C" "leases_ok C view st" "list_all batch_ok ops"
    and "stored_lease C view st i = Some rec" "i \<noteq> 0" "active rec now"
    and "list_all (\<lambda>op. active rec (op_now op) \<and> \<not> presents op i (lr_lease_id rec)) ops"
    and "Claim R C opts t now rng req (run_ops R C opts ops st) = (Inr (granted, rec'), st')" "cr_inode_id req = i"
  shows "rec' = rec \<and> stored_lease C view st' i = Some rec \<and>
    granted = (lr_owner_node_id rec = cr_node_id req \<and> lr_owner_disk_id rec = cr_disk_id req)"
proof -
  have "list_all (\<lambda>op. active rec (op_now op)) ops" "list_all (\<lambda>op. \<not> presents op i (lr_lease_id rec)) ops"
    using assms(8) by (simp_all add: list_all_iff)
  then have kept: "stored_lease C view (run_ops R C opts ops st) i = Some rec"
    and ok: "leases_ok C view (run_ops R C opts ops st)"
    using run_ops_keeps_lease[OF assms(1-5)] by simp_all
  from Claim_outcome[OF assms(1,2) ok assms(9,10,6)] assms(7) kept show ?thesis
    by (elim disjE exE conjE) auto
qed

text \<open>A serialisation of one record, enough to show that the hypotheses can hold.\<close>

definition sample_lease :: ArchiveLeaseRecord where
  "sample_lease = empty_lease\<lparr>lr_state := 1, lr_owner_node_id := ''optical-1'', lr_owner_disk_id := ''disk-1'',
     lr_lease_id := ''abc'', lr_lease_expire_ts_ms := 1000, lr_version := 2, lr_inode_id := 7\<rparr>"

definition sample_codec :: lease_codec where
  "sample_codec = \<lparr>SerializeLease = (\<lambda>r. if r = sample_lease then Some [1] else None),
     ParseLease = (\<lambda>bs. if bs = [1] then Some sample_lease else None)\<rparr>"

definition sample_store :: "(string \<rightharpoonup> bytes) RocksMetaStore" where
  "sample_store = \<lparr>db_handle = Some [FileArchiveStateKey 7 \<mapsto> [1]], namespace_disabled = True\<rparr>"

definition other_claim :: ClaimArchiveTaskRequest where
  "other_claim = \<lparr>cr_node_id = ''optical-2'', cr_disk_id = ''disk-9'', cr_requested_lease_ms = 0, cr_inode_id = 7\<rparr>"

lemma sample_facts:
  "codec_laws sample_codec" "leases_ok sample_codec (\<lambda>m. m) sample_store"
  "stored_lease sample_codec (\<lambda>m. m) sample_store 7 = Some sample_lease"
  "active sample_lease 500"
  by (auto simp: codec_laws_def sample_codec_def leases_ok_def stored_lease_def contents_def sample_store_def
      sample_lease_def empty_lease_def active_def split: if_splits)

lemma sample_claim:
  "Claim map_db sample_codec default_options t 500 rng other_claim sample_store = (Inr (False, sample_lease), sample_store)"
proof -
  have "\<not> Denied True (FileArchiveStateKey 7)"
    by (simp add: Denied_def NamespaceKey_def FileArchiveStateKey_def)
  then have "Store_Get map_db (FileArchiveStateKey 7) sample_store = Found [1]"
    by (simp add: Store_Get_def map_db_def sample_store_def)
  then have "LoadOrInitRecordLocked map_db sample_codec (FileArchiveStateKey 7) 7 t sample_store = Inr sample_lease"
    by (simp add: LoadOrInitRecordLocked_def sample_codec_def)
  then show ?thesis
    using sample_facts(4)
    by (simp add: Claim_unfold[where i = 7] other_claim_def legacy_state_def claim_tail_def)
      (simp add: sample_lease_def empty_lease_def)
qed

theorem lease_exclusion_witness:
  "stored_lease sample_codec (\<lambda>m. m) (snd (Claim map_db sample_codec default_options 0 500 (3, 4) other_claim
     (run_ops map_db sample_codec default_options [OpClaim 0 500 (1, 2) other_claim] sample_store))) 7 = Some sample_lease"
proof -
  let ?ops = "[OpClaim 0 500 (1, 2) other_claim]"
  have same: "run_ops map_db sample_codec default_options ?ops sample_store = sample_store"
    by (simp add: run_ops_def sample_claim)
  have run: "Claim map_db sample_codec default_options 0 500 (3, 4) other_claim
      (run_ops map_db sample_codec default_options ?ops sample_store) = (Inr (False, sample_lease), sample_store)"
    unfolding same by (rule sample_claim)
  have "cr_inode_id other_claim = 7" by (simp add: other_claim_def)
  from lease_exclusion[OF map_db_laws sample_facts(1,2) _ sample_facts(3) _ sample_facts(4) _ run this]
  show ?thesis using sample_facts(4) by (simp add: run)
qed

text \<open>A claim on an inode without an active lease either fails with a store or serialisation
  error or is granted; the granted lease is the stored one, names the claimant, carries the new lease
  id, and expires after a time within the configured bounds -- in the future, as long as the clock plus
  the longest lease does not reach 2^64.\<close>

theorem Claim_grants_free_inode:
  assumes "rocks_laws R view" "codec_laws C" "leases_ok C view st" "opts = normalize_options o0"
    and "Claim R C opts t now rng req st = (Inr (granted, rec), st')" "cr_inode_id req \<noteq> 0"
    and "stored_lease C view st (cr_inode_id req) = None \<or>
         \<not> active (the (stored_lease C view st (cr_inode_id req))) now"
    and "unat now + unat (max_lease_ms opts) < 2 ^ 64"
  shows "granted \<and> stored_lease C view st' (cr_inode_id req) = Some rec \<and> active rec now \<and>
    lr_owner_node_id rec = cr_node_id req \<and> lr_owner_disk_id rec = cr_disk_id req \<and>
    lr_lease_id rec = GenerateLeaseId rng \<and>
    unat now + unat (min_lease_ms opts) \<le> unat (lr_lease_expire_ts_ms rec) \<and>
    unat (lr_lease_expire_ts_ms rec) \<le> unat now + unat (max_lease_ms opts)"
proof -
  let ?ms = "NormalizeLeaseMs opts (cr_requested_lease_ms req)"
  have bounds: "0 < min_lease_ms opts" "min_lease_ms opts \<le> max_lease_ms opts"
    by (auto simp: assms(4) normalize_options_def Let_def word_neq_0_conv not_less intro: order_trans less_imp_le)
  then have ms: "min_lease_ms opts \<le> ?ms" "?ms \<le> max_lease_ms opts"
    by (auto simp: NormalizeLeaseMs_def Let_def)
  have nat: "unat (now + ?ms) = unat now + unat ?ms"
    using assms(8) ms(2) by (intro unat_add_no_wrap) (simp add: word_le_nat_alt)
  from Claim_outcome[OF assms(1-3,5) refl assms(6)] assms(7)
  obtain rec0 where "granted" and rec: "rec = claim_grant opts req now rng rec0"
    and "stored_lease C view st' = (stored_lease C view st)(cr_inode_id req \<mapsto> rec)"
    by (elim disjE exE conjE) auto
  moreover have "now < now + ?ms"
    using nat bounds(1) ms(1) by (simp add: word_less_nat_alt word_le_nat_alt)
  ultimately show ?thesis
    using nat ms by (simp add: claim_grant_def active_def word_le_nat_alt)
qed

definition granted_sample :: ArchiveLeaseRecord where
  "granted_sample = claim_grant default_options other_claim 500 (3, 4)
     (empty_lease\<lparr>lr_inode_id := 7, lr_state := ARCHIVE_STATE_PENDING, lr_version := 1, lr_update_ts_ms := 0\<rparr>)"

definition granted_codec :: lease_codec where
  "granted_codec = \<lparr>SerializeLease = (\<lambda>r. if r = granted_sample then Some [2] else None),
     ParseLease = (\<lambda>bs. if bs = [2] then Some granted_sample else None)\<rparr>"

theorem Claim_grants_free_inode_witness:
  "active granted_sample 500 \<and> lr_owner_node_id granted_sample = ''optical-2''"
proof -
  let ?st = "\<lparr>db_handle = Some Map.empty, namespace_disabled = True\<rparr> :: (string \<rightharpoonup> bytes) RocksMetaStore"
  let ?st' = "\<lparr>db_handle = Some [FileArchiveStateKey 7 \<mapsto> [2]], namespace_disabled = True\<rparr>"
  have denied: "\<not> Denied True (FileArchiveStateKey 7)"
    by (simp add: Denied_def NamespaceKey_def FileArchiveStateKey_def)
  then have "Store_Get map_db (FileArchiveStateKey 7) ?st = Missing"
    "Store_Put map_db (FileArchiveStateKey 7) [2] ?st = (Inr (), ?st')"
    by (simp_all add: Store_Get_def Store_Put_def map_db_def)
  then have run: "Claim map_db granted_codec default_options 0 500 (3, 4) other_claim ?st = (Inr (True, granted_sample), ?st')"
    by (simp add: Claim_unfold[where i = 7] other_claim_def LoadOrInitRecordLocked_def legacy_state_def
        claim_tail_def empty_lease_def active_def)
      (simp add: PersistRecordLocked_def granted_codec_def granted_sample_def other_claim_def
        empty_lease_def claim_grant_def Let_def)
  have laws: "codec_laws granted_codec" by (simp add: codec_laws_def granted_codec_def)
  have opts: "default_options = normalize_options default_options"
    by (simp add: default_options_def normalize_options_def)
  have none: "stored_lease granted_codec (\<lambda>m. m) ?st j = None" for j
    by (simp add: stored_lease_def contents_def)
  then have ok: "leases_ok granted_codec (\<lambda>m. m) ?st" by (simp add: leases_ok_def)
  show ?thesis
    using Claim_grants_free_inode[OF map_db_laws laws ok opts run] none
    by (simp add: other_claim_def default_options_def)
qed

text \<open>Only the holder of a lease acts on it.  A renewal or commit that reports success presented
  the id of the stored lease (and its owner's node, if it names one), and a successful renewal found
  the lease unexpired; otherwise no stored lease changes.  A successful commit of a finished archive
  removes the lease, a failed archive returns the inode to the pending state.\<close>

theorem Renew_Commit_only_holder:
  assumes "rocks_laws R view" "codec_laws C" "leases_ok C view st"
    and "Renew R C opts t now rq st = (r, st1)" "Commit R C t' now' cq st = (c, st2)"
  shows "((\<exists>rec. r = Inr (True, rec)) \<longrightarrow>
      (\<exists>rec. stored_lease C view st (rr_inode_id rq) = Some rec \<and> active rec now \<and>
         lr_lease_id rec = rr_lease_id rq \<and> (rr_node_id rq = [] \<or> rr_node_id rq = lr_owner_node_id rec))) \<and>
    ((\<nexists>rec. r = Inr (True, rec)) \<longrightarrow> stored_lease C view st1 = stored_lease C view st) \<and>
    ((\<exists>rec. c = Inr (True, rec)) \<longrightarrow>
      (\<exists>rec rec'. stored_lease C view st (mr_inode_id cq) = Some rec \<and> lr_state rec = ARCHIVE_STATE_ARCHIVING \<and>
         lr_lease_id rec = mr_lease_id cq \<and> (mr_node_id cq = [] \<or> mr_node_id cq = lr_owner_node_id rec) \<and>
         lr_state rec' = ARCHIVE_STATE_PENDING \<and>
         stored_lease C view st2 (mr_inode_id cq) = (if mr_success cq then None else Some rec'))) \<and>
    ((\<nexists>rec. c = Inr (True, rec)) \<longrightarrow> stored_lease C view st2 = stored_lease C view st)"
proof (intro conjI impI)
  note renew = Renew_outcome[OF assms(1-4) refl] and commit = Commit_outcome[OF assms(1-3,5) refl]
  show "\<exists>rec. stored_lease C view st (rr_inode_id rq) = Some rec \<and> active rec now \<and>
      lr_lease_id rec = rr_lease_id rq \<and> (rr_node_id rq = [] \<or> rr_node_id rq = lr_owner_node_id rec)"
    if "\<exists>rec. r = Inr (True, rec)"
    using renew that by blast
  show "stored_lease C view st1 = stored_lease C view st" if "\<nexists>rec. r = Inr (True, rec)"
    using renew that by blast
  show "stored_lease C view st2 = stored_lease C view st" if "\<nexists>rec. c = Inr (True, rec)"
    using commit that by blast
  show "\<exists>rec rec'. stored_lease C view st (mr_inode_id cq) = Some rec \<and> lr_state rec = ARCHIVE_STATE_ARCHIVING \<and>
      lr_lease_id rec = mr_lease_id cq \<and> (mr_node_id cq = [] \<or> mr_node_id cq = lr_owner_node_id rec) \<and>
      lr_state rec' = ARCHIVE_STATE_PENDING \<and>
      stored_lease C view st2 (mr_inode_id cq) = (if mr_success cq then None else Some rec')"
    if "\<exists>rec. c = Inr (True, rec)"
    using commit that by (elim disjE) (blast, fastforce)
qed

definition sample_commit :: CommitArchiveTaskRequest where
  "sample_commit = \<lparr>mr_node_id = ''optical-1'', mr_lease_id = ''abc'', mr_op_id = [], mr_success = True, mr_inode_id = 7\<rparr>"

definition sample_renew :: RenewArchiveLeaseRequest where
  "sample_renew = \<lparr>rr_node_id = [], rr_lease_id = ''zzz'', rr_requested_lease_ms = 0, rr_inode_id = 7\<rparr>"

theorem Renew_Commit_only_holder_witness:
  "stored_lease sample_codec (\<lambda>m. m) (snd (Commit map_db sample_codec 0 500 sample_commit sample_store)) 7 = None"
proof -
  have denied: "\<not> Denied True (FileArchiveStateKey 7)"
    by (simp add: Denied_def NamespaceKey_def FileArchiveStateKey_def)
  have load: "LoadOrInitRecordLocked map_db sample_codec (FileArchiveStateKey 7) 7 t sample_store = Inr sample_lease" for t
    using denied by (simp add: LoadOrInitRecordLocked_def Store_Get_def map_db_def sample_store_def sample_codec_def)
  have batch: "CheckControlBatch True [BatchDelete (FileArchiveStateKey 7)]"
    by (simp add: CheckControlBatch_def NamespaceKey_def FileArchiveStateKey_def)
  obtain st2 where w: "Store_WriteBatch map_db [BatchDelete (FileArchiveStateKey 7)] sample_store = (Inr (), st2)"
    using batch by (simp add: Store_WriteBatch_def map_db_def sample_store_def)
  have sel: "lr_state sample_lease = 1" "lr_lease_id sample_lease = ''abc''" "lr_owner_node_id sample_lease = ''optical-1''"
    by (simp_all add: sample_lease_def)
  obtain rec where c: "Commit map_db sample_codec 0 500 sample_commit sample_store = (Inr (True, rec), st2)"
    by (simp add: Commit_def sample_commit_def load w sel Let_def)
  obtain r st1 where "Renew map_db sample_codec default_options 0 500 sample_renew sample_store = (r, st1)" by force
  note holder = Renew_Commit_only_holder[OF map_db_laws sample_facts(1,2) this c]
  have "mr_success sample_commit" "mr_inode_id sample_commit = 7" by (simp_all add: sample_commit_def)
  with holder show ?thesis by (auto simp: c)
qed



end
