(* ===== verification/Candidate_Queue.thy ===== *)
theory Candidate_Queue
  imports ZB_Prelude "HOL-Library.AList" "HOL-Library.Multiset" "HOL-Library.List_Lexorder" "HOL-Library.Char_ord"
begin

text \<open>
  The two bounded queues of archive candidates (\<open>src/src/mds/archive/ArchiveCandidateQueue.h\<close> and
  \<open>FileArchiveCandidateQueue.h\<close>).  Both keep the latest report per object in a hash map and two
  \<open>std::priority_queue\<close>s over it, one with the best and one with the worst candidate on top; entries
  of replaced or removed candidates stay in the heaps and are skipped when they surface.  A heap is the
  list of its elements, whose top is an element no other element precedes (the standard does not say
  which one among equals; the model takes the one pushed last, and the theorems do not depend on it).
  Scores are of a linearly ordered type: doubles other than NaN.  Shown here: the loops terminate, the
  queue never exceeds its capacity, \<open>PopTop\<close> returns and removes a best candidate and fails only on an
  empty queue, and which candidate an overflowing push evicts.
\<close>

section \<open>Priority queues\<close>

fun pq_top :: "('h \<Rightarrow> 'h \<Rightarrow> bool) \<Rightarrow> 'h list \<Rightarrow> 'h" where
  "pq_top lt [] = undefined"
| "pq_top lt [x] = x"
| "pq_top lt (x # y # ys) = (let t = pq_top lt (y # ys) in if lt x t then t else x)"

definition pq_push :: "'h \<Rightarrow> 'h list \<Rightarrow> 'h list" where
  "pq_push x h = x # h"

definition pq_pop :: "('h \<Rightarrow> 'h \<Rightarrow> bool) \<Rightarrow> 'h list \<Rightarrow> 'h list" where
  "pq_pop lt h = remove1 (pq_top lt h) h"

lemma pq_top_in: "h \<noteq> [] \<Longrightarrow> pq_top lt h \<in> set h"
  by (induction lt h rule: pq_top.induct) (auto simp: Let_def)

lemma length_pq_pop: "h \<noteq> [] \<Longrightarrow> length (pq_pop lt h) < length h"
  by (simp add: pq_pop_def pq_top_in length_remove1 diff_less)

text \<open>The pruning loops and the loop of \<open>PopTop\<close>.\<close>

function prune :: "('h \<Rightarrow> 'h \<Rightarrow> bool) \<Rightarrow> ('h \<Rightarrow> bool) \<Rightarrow> 'h list \<Rightarrow> 'h list" where
  "prune lt act h = (if h \<noteq> [] \<and> \<not> act (pq_top lt h) then prune lt act (pq_pop lt h) else h)"
  by pat_completeness auto
termination by (relation "measure (\<lambda>(lt, act, h). length h)") (auto simp: length_pq_pop)

function pop_active :: "('h \<Rightarrow> 'h \<Rightarrow> bool) \<Rightarrow> ('h \<Rightarrow> bool) \<Rightarrow> 'h list \<Rightarrow> 'h option \<times> 'h list" where
  "pop_active lt act h =
     (if h = [] then (None, [])
      else let head = pq_top lt h; rest = pq_pop lt h
           in if \<not> act head then pop_active lt act rest else (Some head, rest))"
  by pat_completeness auto
termination by (relation "measure (\<lambda>(lt, act, h). length h)") (auto simp: length_pq_pop)

declare prune.simps [simp del] pop_active.simps [simp del]

lemma length_update:
  "length (AList.update k v xs) = (if map_of xs k = None then length xs + 1 else length xs)"
  by (induction xs) auto

lemma length_delete_Some:
  "distinct (map fst xs) \<Longrightarrow> map_of xs k = Some v \<Longrightarrow> length (AList.delete k xs) + 1 = length xs"
proof (induction xs)
  case (Cons a xs)
  show ?case
  proof (cases "fst a = k")
    case True
    with Cons.prems have "k \<notin> fst ` set xs" by auto
    then show ?thesis using True by (simp add: delete_idem)
  next
    case False
    with Cons show ?thesis by (cases a) auto
  qed
qed simp

section \<open>State\<close>

text \<open>The members of either class; \<open>cq_best\<close> is \<open>heap_\<close> or \<open>best_\<close>, \<open>cq_worst\<close> is \<open>min_heap_\<close> or \<open>worst_\<close>.\<close>

record ('k, 'c, 'h) candidate_queue =
  cq_max_size :: nat
  cq_seq :: u64
  cq_total_accepted :: u64
  cq_total_dropped :: u64
  cq_total_evicted :: u64
  cq_latest :: "('k \<times> 'c \<times> u64) list"
  cq_best :: "'h list"
  cq_worst :: "'h list"

definition new_queue :: "nat \<Rightarrow> ('k, 'c, 'h) candidate_queue" where
  "new_queue max_size = \<lparr>cq_max_size = max_size, cq_seq = 0, cq_total_accepted = 0, cq_total_dropped = 0,
     cq_total_evicted = 0, cq_latest = [], cq_best = [], cq_worst = []\<rparr>"

record PushResult =
  accepted :: nat
  dropped :: nat
  evicted :: nat

text \<open>The loop of \<open>PushBatch\<close>, over the outcome of one push: accepted and evicted flags.\<close>

fun push_batch ::
  "(('k, 'c, 'h) candidate_queue \<Rightarrow> 'c \<Rightarrow> (bool \<times> bool) \<times> ('k, 'c, 'h) candidate_queue) \<Rightarrow>
   'c list \<Rightarrow> PushResult \<Rightarrow> ('k, 'c, 'h) candidate_queue \<Rightarrow> PushResult \<times> ('k, 'c, 'h) candidate_queue" where
  "push_batch push [] result q = (result, q)"
| "push_batch push (c # cs) result q =
     (case push q c of
        ((True, ev), q1) \<Rightarrow>
          let result1 = result\<lparr>accepted := accepted result + 1\<rparr>;
              q2 = q1\<lparr>cq_total_accepted := cq_total_accepted q1 + 1\<rparr>
          in if ev then push_batch push cs (result1\<lparr>evicted := evicted result1 + 1\<rparr>)
                          (q2\<lparr>cq_total_evicted := cq_total_evicted q2 + 1\<rparr>)
             else push_batch push cs result1 q2
      | ((False, ev), q1) \<Rightarrow>
          push_batch push cs (result\<lparr>dropped := dropped result + 1\<rparr>)
            (q1\<lparr>cq_total_dropped := cq_total_dropped q1 + 1\<rparr>))"

section \<open>Queue of objects\<close>

record 's ArchiveCandidateEntry =
  ce_node_id :: string
  ce_node_address :: string
  ce_disk_id :: string
  ce_object_id :: string
  ce_last_access_ts_ms :: u64
  ce_size_bytes :: u64
  ce_checksum :: u64
  ce_heat_score :: 's
  ce_archive_state :: string
  ce_version :: u64
  ce_score :: 's
  ce_report_ts_ms :: u64

record 's HeapEntry =
  he_score :: 's
  he_report_ts_ms :: u64
  he_object_id :: string
  he_version :: u64

type_synonym 's object_queue = "(string, 's ArchiveCandidateEntry, 's HeapEntry) candidate_queue"

definition HeapCompare :: "('s::linorder) HeapEntry \<Rightarrow> 's HeapEntry \<Rightarrow> bool" where
  "HeapCompare a b = (if he_score a \<noteq> he_score b then he_score a < he_score b
                      else he_report_ts_ms a < he_report_ts_ms b)"

definition MinHeapCompare :: "('s::linorder) HeapEntry \<Rightarrow> 's HeapEntry \<Rightarrow> bool" where
  "MinHeapCompare a b = (if he_score a \<noteq> he_score b then he_score a > he_score b
                         else he_report_ts_ms a > he_report_ts_ms b)"

definition IsActiveVersionLocked :: "'s object_queue \<Rightarrow> 's HeapEntry \<Rightarrow> bool" where
  "IsActiveVersionLocked q entry =
     (case map_of (cq_latest q) (he_object_id entry) of
        None \<Rightarrow> False | Some (c, ver) \<Rightarrow> ver = he_version entry)"

definition IsBetterThanLocked :: "('s::linorder) ArchiveCandidateEntry \<Rightarrow> 's HeapEntry \<Rightarrow> bool" where
  "IsBetterThanLocked lhs rhs =
     (if ce_score lhs \<noteq> he_score rhs then ce_score lhs > he_score rhs
      else if ce_report_ts_ms lhs \<noteq> he_report_ts_ms rhs then ce_report_ts_ms lhs > he_report_ts_ms rhs
      else ce_object_id lhs > he_object_id rhs)"

definition PruneTopLocked :: "('s::linorder) object_queue \<Rightarrow> 's object_queue" where
  "PruneTopLocked q = q\<lparr>cq_best := prune HeapCompare (IsActiveVersionLocked q) (cq_best q)\<rparr>"

definition PruneMinTopLocked :: "('s::linorder) object_queue \<Rightarrow> 's object_queue" where
  "PruneMinTopLocked q = q\<lparr>cq_worst := prune MinHeapCompare (IsActiveVersionLocked q) (cq_worst q)\<rparr>"

text \<open>The part of \<open>PushLocked\<close> that stores the candidate.\<close>

definition store_object :: "('s::linorder) object_queue \<Rightarrow> 's ArchiveCandidateEntry \<Rightarrow> 's object_queue" where
  "store_object q candidate =
     (let version = cq_seq q + 1;
          entry = \<lparr>he_score = ce_score candidate, he_report_ts_ms = ce_report_ts_ms candidate,
                   he_object_id = ce_object_id candidate, he_version = version\<rparr>
      in q\<lparr>cq_seq := version, cq_latest := AList.update (ce_object_id candidate) (candidate, version) (cq_latest q),
           cq_best := pq_push entry (cq_best q), cq_worst := pq_push entry (cq_worst q)\<rparr>)"

definition PushLocked ::
  "('s::linorder) object_queue \<Rightarrow> 's ArchiveCandidateEntry \<Rightarrow> (bool \<times> bool) \<times> 's object_queue" where
  "PushLocked q candidate =
     (let object_id = ce_object_id candidate
      in if object_id = [] \<or> ce_disk_id candidate = [] then ((False, False), q)
         else if ce_archive_state candidate \<noteq> [] \<and> ce_archive_state candidate \<noteq> ''pending'' then ((False, False), q)
         else let is_new_object = (map_of (cq_latest q) object_id = None)
              in if cq_max_size q > 0 \<and> is_new_object \<and> length (cq_latest q) \<ge> cq_max_size q then
                   let q1 = PruneMinTopLocked q
                   in if cq_worst q1 = [] then ((False, False), q1)
                      else let worst = pq_top MinHeapCompare (cq_worst q1)
                           in if \<not> IsBetterThanLocked candidate worst then ((False, False), q1)
                              else ((True, True),
                                    store_object (q1\<lparr>cq_latest := AList.delete (he_object_id worst) (cq_latest q1)\<rparr>) candidate)
                 else ((True, False), store_object q candidate))"

definition PushBatch ::
  "('s::linorder) ArchiveCandidateEntry list \<Rightarrow> 's object_queue \<Rightarrow> PushResult \<times> 's object_queue" where
  "PushBatch candidates q = push_batch PushLocked candidates \<lparr>accepted = 0, dropped = 0, evicted = 0\<rparr> q"

definition PopTop :: "('s::linorder) object_queue \<Rightarrow> 's ArchiveCandidateEntry option \<times> 's object_queue" where
  "PopTop q0 =
     (let q = PruneTopLocked q0
      in case pop_active HeapCompare (IsActiveVersionLocked q) (cq_best q) of
           (None, rest) \<Rightarrow> (None, q\<lparr>cq_best := rest\<rparr>)
         | (Some head, rest) \<Rightarrow>
             (map_option fst (map_of (cq_latest q) (he_object_id head)),
              q\<lparr>cq_best := rest, cq_latest := AList.delete (he_object_id head) (cq_latest q)\<rparr>))"

definition Size :: "'s object_queue \<Rightarrow> nat" where
  "Size q = length (cq_latest q)"

definition GetStats :: "'s object_queue \<Rightarrow> u64 \<times> u64 \<times> u64 \<times> nat" where
  "GetStats q = (cq_total_accepted q, cq_total_dropped q, cq_total_evicted q, length (cq_latest q))"

section \<open>Queue of files\<close>

record FileArchiveCandidateEntry =
  fe_inode_id :: u64
  fe_node_id :: string
  fe_node_address :: string
  fe_disk_id :: string
  fe_file_size :: u64
  fe_object_count :: u32
  fe_last_access_ts_ms :: u64
  fe_archive_state :: string
  fe_version :: u64
  fe_report_ts_ms :: u64

record FileHeapEntry =
  fh_last_access_ts_ms :: u64
  fh_report_ts_ms :: u64
  fh_inode_id :: u64
  fh_version :: u64

type_synonym file_queue = "(u64, FileArchiveCandidateEntry, FileHeapEntry) candidate_queue"

definition BestCompare :: "FileHeapEntry \<Rightarrow> FileHeapEntry \<Rightarrow> bool" where
  "BestCompare a b =
     (if fh_last_access_ts_ms a \<noteq> fh_last_access_ts_ms b then fh_last_access_ts_ms a > fh_last_access_ts_ms b
      else if fh_report_ts_ms a \<noteq> fh_report_ts_ms b then fh_report_ts_ms a > fh_report_ts_ms b
      else fh_inode_id a > fh_inode_id b)"

definition WorstCompare :: "FileHeapEntry \<Rightarrow> FileHeapEntry \<Rightarrow> bool" where
  "WorstCompare a b =
     (if fh_last_access_ts_ms a \<noteq> fh_last_access_ts_ms b then fh_last_access_ts_ms a < fh_last_access_ts_ms b
      else if fh_report_ts_ms a \<noteq> fh_report_ts_ms b then fh_report_ts_ms a < fh_report_ts_ms b
      else fh_inode_id a < fh_inode_id b)"

definition File_IsActiveVersionLocked :: "file_queue \<Rightarrow> FileHeapEntry \<Rightarrow> bool" where
  "File_IsActiveVersionLocked q entry =
     (case map_of (cq_latest q) (fh_inode_id entry) of
        None \<Rightarrow> False | Some (c, ver) \<Rightarrow> ver = fh_version entry)"

definition File_IsBetterThanLocked :: "FileArchiveCandidateEntry \<Rightarrow> FileHeapEntry \<Rightarrow> bool" where
  "File_IsBetterThanLocked lhs rhs =
     (if fe_last_access_ts_ms lhs \<noteq> fh_last_access_ts_ms rhs then fe_last_access_ts_ms lhs < fh_last_access_ts_ms rhs
      else if fe_report_ts_ms lhs \<noteq> fh_report_ts_ms rhs then fe_report_ts_ms lhs > fh_report_ts_ms rhs
      else fe_inode_id lhs < fh_inode_id rhs)"

definition PruneBestLocked :: "file_queue \<Rightarrow> file_queue" where
  "PruneBestLocked q = q\<lparr>cq_best := prune BestCompare (File_IsActiveVersionLocked q) (cq_best q)\<rparr>"

definition PruneWorstLocked :: "file_queue \<Rightarrow> file_queue" where
  "PruneWorstLocked q = q\<lparr>cq_worst := prune WorstCompare (File_IsActiveVersionLocked q) (cq_worst q)\<rparr>"

definition store_file :: "file_queue \<Rightarrow> FileArchiveCandidateEntry \<Rightarrow> file_queue" where
  "store_file q candidate =
     (let version = cq_seq q + 1;
          entry = \<lparr>fh_last_access_ts_ms = fe_last_access_ts_ms candidate, fh_report_ts_ms = fe_report_ts_ms candidate,
                   fh_inode_id = fe_inode_id candidate, fh_version = version\<rparr>
      in q\<lparr>cq_seq := version, cq_latest := AList.update (fe_inode_id candidate) (candidate, version) (cq_latest q),
           cq_best := pq_push entry (cq_best q), cq_worst := pq_push entry (cq_worst q)\<rparr>)"

definition File_PushLocked ::
  "file_queue \<Rightarrow> FileArchiveCandidateEntry \<Rightarrow> (bool \<times> bool) \<times> file_queue" where
  "File_PushLocked q candidate =
     (if fe_inode_id candidate = 0 \<or> fe_disk_id candidate = [] then ((False, False), q)
      else if fe_archive_state candidate \<noteq> [] \<and> fe_archive_state candidate \<noteq> ''pending'' then ((False, False), q)
      else let is_new = (map_of (cq_latest q) (fe_inode_id candidate) = None)
           in if cq_max_size q > 0 \<and> is_new \<and> length (cq_latest q) \<ge> cq_max_size q then
                let q1 = PruneWorstLocked q
                in if cq_worst q1 = [] then ((False, False), q1)
                   else let worst_entry = pq_top WorstCompare (cq_worst q1)
                        in if \<not> File_IsBetterThanLocked candidate worst_entry then ((False, False), q1)
                           else ((True, True),
                                 store_file (q1\<lparr>cq_latest := AList.delete (fh_inode_id worst_entry) (cq_latest q1)\<rparr>) candidate)
              else ((True, False), store_file q candidate))"

definition File_PushBatch ::
  "FileArchiveCandidateEntry list \<Rightarrow> file_queue \<Rightarrow> PushResult \<times> file_queue" where
  "File_PushBatch candidates q = push_batch File_PushLocked candidates \<lparr>accepted = 0, dropped = 0, evicted = 0\<rparr> q"

definition File_PopTop :: "file_queue \<Rightarrow> FileArchiveCandidateEntry option \<times> file_queue" where
  "File_PopTop q0 =
     (let q = PruneBestLocked q0
      in case pop_active BestCompare (File_IsActiveVersionLocked q) (cq_best q) of
           (None, rest) \<Rightarrow> (None, q\<lparr>cq_best := rest\<rparr>)
         | (Some head, rest) \<Rightarrow>
             (map_option fst (map_of (cq_latest q) (fh_inode_id head)),
              q\<lparr>cq_best := rest, cq_latest := AList.delete (fh_inode_id head) (cq_latest q)\<rparr>))"

section \<open>Specification\<close>

text \<open>The queue as its clients see it: the candidates by key.\<close>

definition reports :: "('k, 'c, 'h) candidate_queue \<Rightarrow> 'k \<rightharpoonup> 'c" where
  "reports q = (\<lambda>k. map_option fst (map_of (cq_latest q) k))"

text \<open>Which of two candidates is to be archived first, and the candidates an overflowing push may evict:
  those that are not sooner than any other one.\<close>

definition object_sooner :: "('s::linorder) ArchiveCandidateEntry \<Rightarrow> 's ArchiveCandidateEntry \<Rightarrow> bool" where
  "object_sooner a b \<longleftrightarrow> ce_score b < ce_score a \<or>
     ce_score b = ce_score a \<and> ce_report_ts_ms b < ce_report_ts_ms a"

definition file_sooner :: "FileArchiveCandidateEntry \<Rightarrow> FileArchiveCandidateEntry \<Rightarrow> bool" where
  "file_sooner a b \<longleftrightarrow> fe_last_access_ts_ms a < fe_last_access_ts_ms b \<or>
     fe_last_access_ts_ms a = fe_last_access_ts_ms b \<and> (fe_report_ts_ms a < fe_report_ts_ms b \<or>
       fe_report_ts_ms a = fe_report_ts_ms b \<and> fe_inode_id a < fe_inode_id b)"

definition worst_of :: "('c \<Rightarrow> 'c \<Rightarrow> bool) \<Rightarrow> ('k \<rightharpoonup> 'c) \<Rightarrow> 'c \<Rightarrow> bool" where
  "worst_of sooner m w \<longleftrightarrow> w \<in> ran m \<and> (\<forall>c \<in> ran m. \<not> sooner w c)"

definition best_of :: "('c \<Rightarrow> 'c \<Rightarrow> bool) \<Rightarrow> ('k \<rightharpoonup> 'c) \<Rightarrow> 'c \<Rightarrow> bool" where
  "best_of sooner m b \<longleftrightarrow> b \<in> ran m \<and> (\<forall>c \<in> ran m. \<not> sooner c b)"

text \<open>A new key fits when the queue is unbounded, already knows it, or is not full.\<close>

definition has_room :: "('k, 'c, 'h) candidate_queue \<Rightarrow> 'k \<Rightarrow> bool" where
  "has_room q k \<longleftrightarrow> cq_max_size q = 0 \<or> reports q k \<noteq> None \<or> length (cq_latest q) < cq_max_size q"

text \<open>Sequences of calls of the public operations.\<close>

datatype 'c queue_call = CallPushBatch "'c list" | CallPopTop

fun run_calls ::
  "('c list \<Rightarrow> 'q \<Rightarrow> PushResult \<times> 'q) \<Rightarrow> ('q \<Rightarrow> 'c option \<times> 'q) \<Rightarrow> 'c queue_call list \<Rightarrow> 'q \<Rightarrow> 'q" where
  "run_calls pb pp [] q = q"
| "run_calls pb pp (CallPushBatch cs # calls) q = run_calls pb pp calls (snd (pb cs q))"
| "run_calls pb pp (CallPopTop # calls) q = run_calls pb pp calls (snd (pp q))"

fun pushes :: "'c queue_call list \<Rightarrow> nat" where
  "pushes [] = 0"
| "pushes (CallPushBatch cs # calls) = length cs + pushes calls"
| "pushes (CallPopTop # calls) = pushes calls"

section \<open>The contract of a heap order\<close>

text \<open>What \<open>std::priority_queue\<close> requires of its comparison: a strict weak order.\<close>

locale heap_order =
  fixes lt :: "'h \<Rightarrow> 'h \<Rightarrow> bool"
  assumes irrefl: "\<not> lt a a"
    and trans: "lt a b \<Longrightarrow> lt b c \<Longrightarrow> lt a c"
    and incomparable: "\<not> lt a b \<Longrightarrow> \<not> lt b c \<Longrightarrow> \<not> lt a c"
begin

lemma top_maximal: "x \<in> set h \<Longrightarrow> \<not> lt (pq_top lt h) x"
proof (induction h arbitrary: x rule: induct_list012)
  case (3 a b xs)
  let ?t = "pq_top lt (b # xs)"
  have rest: "\<not> lt ?t y" if "y \<in> set (b # xs)" for y using 3(2)[OF that] .
  show ?case
  proof (cases "lt a ?t")
    case True
    then have "\<not> lt ?t a" using trans irrefl by blast
    with True 3(3) rest show ?thesis by (auto simp: Let_def)
  next
    case False
    then have "\<not> lt a y" if "y \<in> set (b # xs)" for y using rest[OF that] incomparable by blast
    with False 3(3) irrefl show ?thesis by (auto simp: Let_def)
  qed
qed (auto simp: irrefl)

lemma pq_pop_keeps: "x \<in> set h \<Longrightarrow> x \<noteq> pq_top lt h \<Longrightarrow> x \<in> set (pq_pop lt h)"
  by (simp add: pq_pop_def)

lemma set_pq_pop: "set (pq_pop lt h) \<subseteq> set h"
  unfolding pq_pop_def by (rule set_remove1_subset)

lemma prune_spec:
  "set (prune lt act h) \<subseteq> set h \<and> (\<forall>x \<in> set h. act x \<longrightarrow> x \<in> set (prune lt act h)) \<and>
   (prune lt act h = [] \<or> act (pq_top lt (prune lt act h)))"
proof (induction lt act h rule: prune.induct)
  case (1 lt' act h)
  show ?case
  proof (cases "h \<noteq> [] \<and> \<not> act (pq_top lt' h)")
    case True
    have "x \<in> set (pq_pop lt' h)" if "x \<in> set h" "act x" for x
      using that True unfolding pq_pop_def by (metis in_set_remove1)
    moreover have "set (pq_pop lt' h) \<subseteq> set h" unfolding pq_pop_def by (rule set_remove1_subset)
    ultimately show ?thesis using True 1 by (subst (1 2 3 4) prune.simps) auto
  next
    case False
    then show ?thesis by (subst (1 2 3 4) prune.simps) auto
  qed
qed

lemma pop_active_spec:
  "case pop_active lt act h of
     (None, rest) \<Rightarrow> rest = [] \<and> (\<forall>x \<in> set h. \<not> act x)
   | (Some t, rest) \<Rightarrow> t \<in> set h \<and> act t \<and> (\<forall>x \<in> set h. act x \<longrightarrow> \<not> lt t x) \<and> set rest \<subseteq> set h \<and>
       (\<forall>x \<in> set h. act x \<longrightarrow> x = t \<or> x \<in> set rest)"
proof (induction "length h" arbitrary: h rule: less_induct)
  case less
  show ?case
  proof (cases "h = []")
    case True
    then show ?thesis by (subst pop_active.simps) simp
  next
    case False
    let ?t = "pq_top lt h" and ?r = "pq_pop lt h"
    have t: "?t \<in> set h" using False by (rule pq_top_in)
    show ?thesis
    proof (cases "act ?t")
      case True
      have eq: "pop_active lt act h = (Some ?t, ?r)"
        using False True by (subst pop_active.simps) (simp add: Let_def)
      have "x = ?t \<or> x \<in> set ?r" if "x \<in> set h" for x using pq_pop_keeps[OF that] by blast
      then show ?thesis using True t top_maximal set_pq_pop[of h] unfolding eq by auto
    next
      case no: False
      have eq: "pop_active lt act h = pop_active lt act ?r"
        using False no by (subst pop_active.simps) (simp add: Let_def)
      have keep: "x \<in> set ?r" if "x \<in> set h" "act x" for x using that no pq_pop_keeps[of x h] by auto
      obtain out rest where r: "pop_active lt act ?r = (out, rest)" by force
      note IH = less[OF length_pq_pop[OF False, of lt], unfolded r]
      show ?thesis
      proof (cases out)
        case None
        with IH keep show ?thesis unfolding eq r by auto
      next
        case (Some t)
        with IH keep set_pq_pop[of h] show ?thesis unfolding eq r by auto
      qed
    qed
  qed
qed

end

interpretation object_best: heap_order "HeapCompare :: ('s::linorder) HeapEntry \<Rightarrow> 's HeapEntry \<Rightarrow> bool"
  by unfold_locales (auto simp: HeapCompare_def split: if_splits)

interpretation object_worst: heap_order "MinHeapCompare :: ('s::linorder) HeapEntry \<Rightarrow> 's HeapEntry \<Rightarrow> bool"
  by unfold_locales (auto simp: MinHeapCompare_def split: if_splits)

interpretation file_best: heap_order BestCompare
  by unfold_locales (auto simp: BestCompare_def split: if_splits)

interpretation file_worst: heap_order WorstCompare
  by unfold_locales (auto simp: WorstCompare_def split: if_splits)

section \<open>The contract of a lazy queue\<close>

text \<open>
  A queue class is determined by its two heap orders, the heap entry of a candidate, the validity check
  and the comparison of a new candidate with the worst one; \<open>sooner\<close> is the order of the heaps and
  \<open>preferred\<close> the comparison on the candidates themselves.  Proved from this alone: the invariant that
  ties the heaps to the map, and the behaviour of pushing and popping over the map.
\<close>

locale lazy_queue = best: heap_order best_lt + worst: heap_order worst_lt
  for best_lt :: "'h \<Rightarrow> 'h \<Rightarrow> bool" and worst_lt :: "'h \<Rightarrow> 'h \<Rightarrow> bool" +
  fixes hkey :: "'h \<Rightarrow> 'k" and hver :: "'h \<Rightarrow> u64"
    and entry :: "'c \<Rightarrow> u64 \<Rightarrow> 'h" and ckey :: "'c \<Rightarrow> 'k"
    and valid :: "'c \<Rightarrow> bool" and better :: "'c \<Rightarrow> 'h \<Rightarrow> bool"
    and sooner :: "'c \<Rightarrow> 'c \<Rightarrow> bool" and preferred :: "'c \<Rightarrow> 'c \<Rightarrow> bool"
  assumes hkey_entry [simp]: "hkey (entry c v) = ckey c"
    and hver_entry [simp]: "hver (entry c v) = v"
    and best_lt_entry: "best_lt (entry a v) (entry b w) = sooner b a"
    and worst_lt_entry: "worst_lt (entry a v) (entry b w) = sooner a b"
    and better_entry: "better a (entry b w) = preferred a b"
begin

definition is_active :: "('k, 'c, 'h) candidate_queue \<Rightarrow> 'h \<Rightarrow> bool" where
  "is_active q e = (case map_of (cq_latest q) (hkey e) of None \<Rightarrow> False | Some (c, v) \<Rightarrow> v = hver e)"

definition store :: "('k, 'c, 'h) candidate_queue \<Rightarrow> 'c \<Rightarrow> ('k, 'c, 'h) candidate_queue" where
  "store q c = q\<lparr>cq_seq := cq_seq q + 1, cq_latest := AList.update (ckey c) (c, cq_seq q + 1) (cq_latest q),
     cq_best := pq_push (entry c (cq_seq q + 1)) (cq_best q), cq_worst := pq_push (entry c (cq_seq q + 1)) (cq_worst q)\<rparr>"

definition prune_worst :: "('k, 'c, 'h) candidate_queue \<Rightarrow> ('k, 'c, 'h) candidate_queue" where
  "prune_worst q = q\<lparr>cq_worst := prune worst_lt (is_active q) (cq_worst q)\<rparr>"

definition prune_best :: "('k, 'c, 'h) candidate_queue \<Rightarrow> ('k, 'c, 'h) candidate_queue" where
  "prune_best q = q\<lparr>cq_best := prune best_lt (is_active q) (cq_best q)\<rparr>"

definition push :: "('k, 'c, 'h) candidate_queue \<Rightarrow> 'c \<Rightarrow> (bool \<times> bool) \<times> ('k, 'c, 'h) candidate_queue" where
  "push q c =
     (if \<not> valid c then ((False, False), q)
      else if cq_max_size q > 0 \<and> map_of (cq_latest q) (ckey c) = None \<and> length (cq_latest q) \<ge> cq_max_size q then
        let q1 = prune_worst q
        in if cq_worst q1 = [] then ((False, False), q1)
           else let w = pq_top worst_lt (cq_worst q1)
                in if \<not> better c w then ((False, False), q1)
                   else ((True, True), store (q1\<lparr>cq_latest := AList.delete (hkey w) (cq_latest q1)\<rparr>) c)
      else ((True, False), store q c))"

definition pop :: "('k, 'c, 'h) candidate_queue \<Rightarrow> 'c option \<times> ('k, 'c, 'h) candidate_queue" where
  "pop q0 =
     (let q = prune_best q0
      in case pop_active best_lt (is_active q) (cq_best q) of
           (None, rest) \<Rightarrow> (None, q\<lparr>cq_best := rest\<rparr>)
         | (Some e, rest) \<Rightarrow> (map_option fst (map_of (cq_latest q) (hkey e)),
              q\<lparr>cq_best := rest, cq_latest := AList.delete (hkey e) (cq_latest q)\<rparr>))"

text \<open>The invariant: one report per key; every stored candidate has its entry in both heaps; a heap
  entry is no newer than the sequence counter and, when it is active, is the entry of the stored
  candidate; the capacity is respected.\<close>

definition queue_inv :: "('k, 'c, 'h) candidate_queue \<Rightarrow> bool" where
  "queue_inv q \<longleftrightarrow> distinct (map fst (cq_latest q)) \<and>
     (\<forall>k c v. map_of (cq_latest q) k = Some (c, v) \<longrightarrow>
        ckey c = k \<and> unat v \<le> unat (cq_seq q) \<and> entry c v \<in> set (cq_best q) \<and> entry c v \<in> set (cq_worst q)) \<and>
     (\<forall>e \<in> set (cq_best q) \<union> set (cq_worst q). unat (hver e) \<le> unat (cq_seq q) \<and>
        (\<forall>c. map_of (cq_latest q) (hkey e) = Some (c, hver e) \<longrightarrow> e = entry c (hver e))) \<and>
     (cq_max_size q > 0 \<longrightarrow> length (cq_latest q) \<le> cq_max_size q)"

lemma queue_invD:
  assumes "queue_inv q"
  shows "distinct (map fst (cq_latest q))"
    and "map_of (cq_latest q) k = Some (c, v) \<Longrightarrow> ckey c = k"
    and "map_of (cq_latest q) k = Some (c, v) \<Longrightarrow> unat v \<le> unat (cq_seq q)"
    and "map_of (cq_latest q) k = Some (c, v) \<Longrightarrow> entry c v \<in> set (cq_best q)"
    and "map_of (cq_latest q) k = Some (c, v) \<Longrightarrow> entry c v \<in> set (cq_worst q)"
    and "e \<in> set (cq_best q) \<union> set (cq_worst q) \<Longrightarrow> unat (hver e) \<le> unat (cq_seq q)"
  using assms unfolding queue_inv_def by blast+

lemma is_active_iff:
  assumes inv: "queue_inv q" and e: "e \<in> set (cq_best q) \<union> set (cq_worst q)"
  shows "is_active q e \<longleftrightarrow> (\<exists>c v. map_of (cq_latest q) (ckey c) = Some (c, v) \<and> e = entry c v)"
proof
  assume "is_active q e"
  then obtain c where c: "map_of (cq_latest q) (hkey e) = Some (c, hver e)"
    by (auto simp: is_active_def split: option.splits)
  then have "e = entry c (hver e)" using inv e unfolding queue_inv_def by blast
  with c queue_invD(2)[OF inv c] show "\<exists>c v. map_of (cq_latest q) (ckey c) = Some (c, v) \<and> e = entry c v"
    by metis
next
  assume "\<exists>c v. map_of (cq_latest q) (ckey c) = Some (c, v) \<and> e = entry c v"
  then show "is_active q e" by (auto simp: is_active_def)
qed

lemma inv_new: "queue_inv (new_queue n)"
  by (simp add: queue_inv_def new_queue_def)

lemma inv_delete: "queue_inv q \<Longrightarrow> queue_inv (q\<lparr>cq_latest := AList.delete k (cq_latest q)\<rparr>)"
  using length_delete_le[of k "cq_latest q"]
  by (auto simp: queue_inv_def delete_conv distinct_delete order_trans split: if_splits)

lemma active_kept:
  assumes "queue_inv q" "map_of (cq_latest q) k = Some (c, v)"
  shows "is_active q (entry c v)"
  using assms queue_invD(2)[OF assms] by (auto simp: is_active_def)

lemma inv_prune_worst: "queue_inv q \<Longrightarrow> queue_inv (prune_worst q)"
  using worst.prune_spec[of "is_active q" "cq_worst q"] active_kept[of q]
  by (fastforce simp: queue_inv_def prune_worst_def)

lemma inv_prune_best: "queue_inv q \<Longrightarrow> queue_inv (prune_best q)"
  using best.prune_spec[of "is_active q" "cq_best q"] active_kept[of q]
  by (fastforce simp: queue_inv_def prune_best_def)

lemma queue_invI:
  assumes "distinct (map fst (cq_latest q))"
    and "\<And>k c v. map_of (cq_latest q) k = Some (c, v) \<Longrightarrow> ckey c = k \<and> unat v \<le> unat (cq_seq q) \<and>
      entry c v \<in> set (cq_best q) \<and> entry c v \<in> set (cq_worst q)"
    and "\<And>e. e \<in> set (cq_best q) \<union> set (cq_worst q) \<Longrightarrow> unat (hver e) \<le> unat (cq_seq q)"
    and "\<And>e c. e \<in> set (cq_best q) \<union> set (cq_worst q) \<Longrightarrow>
      map_of (cq_latest q) (hkey e) = Some (c, hver e) \<Longrightarrow> e = entry c (hver e)"
    and "cq_max_size q > 0 \<Longrightarrow> length (cq_latest q) \<le> cq_max_size q"
  shows "queue_inv q"
  using assms unfolding queue_inv_def by blast

lemma inv_store:
  assumes inv: "queue_inv q" and seq: "unat (cq_seq q) + 1 < 2 ^ 64"
    and room: "cq_max_size q = 0 \<or> map_of (cq_latest q) (ckey c) \<noteq> None \<or> length (cq_latest q) < cq_max_size q"
  shows "queue_inv (store q c)"
proof -
  let ?v = "cq_seq q + 1"
  have v: "unat ?v = unat (cq_seq q) + 1" using seq by (simp add: unat_word_ariths)
  have fresh: "hver e \<noteq> ?v" if "e \<in> set (cq_best q) \<union> set (cq_worst q)" for e
    using queue_invD(6)[OF inv that] v by auto
  let ?xs = "AList.update (ckey c) (c, ?v) (cq_latest q)"
  let ?e = "entry c ?v"
  have q': "cq_latest (store q c) = ?xs" "cq_seq (store q c) = ?v" "cq_max_size (store q c) = cq_max_size q"
    "set (cq_best (store q c)) = insert ?e (set (cq_best q))" "set (cq_worst (store q c)) = insert ?e (set (cq_worst q))"
    by (simp_all add: store_def pq_push_def)
  have found: "map_of ?xs k = Some (c', v') \<longleftrightarrow>
      (if k = ckey c then c' = c \<and> v' = ?v else map_of (cq_latest q) k = Some (c', v'))" for k c' v'
    by (auto simp: update_conv)
  show ?thesis
  proof (rule queue_invI, unfold q')
    show "distinct (map fst ?xs)" using queue_invD(1)[OF inv] by (rule distinct_update)
    show "length ?xs \<le> cq_max_size q" if "0 < cq_max_size q"
      using room inv that by (auto simp: length_update queue_inv_def)
  next
    fix k c' v' assume "map_of ?xs k = Some (c', v')"
    then show "ckey c' = k \<and> unat v' \<le> unat ?v \<and> entry c' v' \<in> insert ?e (set (cq_best q)) \<and>
        entry c' v' \<in> insert ?e (set (cq_worst q))"
      unfolding found using queue_invD(2-5)[OF inv, of k c' v'] v by (cases "k = ckey c") auto
  next
    fix e assume e: "e \<in> insert ?e (set (cq_best q)) \<union> insert ?e (set (cq_worst q))"
    show "unat (hver e) \<le> unat ?v" using e queue_invD(6)[OF inv, of e] v by auto
    fix c' assume "map_of ?xs (hkey e) = Some (c', hver e)"
    then show "e = entry c' (hver e)"
      using e fresh[of e] inv unfolding found queue_inv_def by (cases "hkey e = ckey c") auto
  qed
qed

lemma store_simps:
  "reports (store q c) = (reports q)(ckey c \<mapsto> c)" "cq_max_size (store q c) = cq_max_size q"
  "unat (cq_seq (store q c)) \<le> unat (cq_seq q) + 1"
  by (auto simp: reports_def store_def update_conv fun_eq_iff unat_word_ariths intro: order_trans[OF mod_less_eq_dividend])

text \<open>The worst entry after pruning is that of a stored candidate that is not sooner than any other.\<close>

lemma pruned_worst:
  assumes inv: "queue_inv q" and ne: "cq_worst (prune_worst q) \<noteq> []"
  obtains w v where "pq_top worst_lt (cq_worst (prune_worst q)) = entry w v"
    "map_of (cq_latest q) (ckey w) = Some (w, v)" "reports q (ckey w) = Some w"
    "worst_of sooner (reports q) w"
proof -
  let ?h = "cq_worst (prune_worst q)" and ?t = "pq_top worst_lt (cq_worst (prune_worst q))"
  have t: "?t \<in> set ?h" using ne by (rule pq_top_in)
  have "is_active q ?t" "?t \<in> set (cq_worst q)"
    using worst.prune_spec[of "is_active q" "cq_worst q"] ne t by (auto simp: prune_worst_def)
  then obtain w v where w: "map_of (cq_latest q) (ckey w) = Some (w, v)" "?t = entry w v"
    using is_active_iff[OF inv, of ?t] by auto
  have "\<not> sooner w c" if "c \<in> ran (reports q)" for c
  proof -
    from that obtain k u where k: "map_of (cq_latest q) k = Some (c, u)" by (auto simp: ran_def reports_def)
    have "entry c u \<in> set ?h"
      using queue_invD(5)[OF inv_prune_worst[OF inv], of k c u] k by (simp add: prune_worst_def)
    then have "\<not> worst_lt ?t (entry c u)" by (rule worst.top_maximal)
    then show ?thesis unfolding w(2) worst_lt_entry .
  qed
  moreover have rw: "reports q (ckey w) = Some w" using w(1) by (simp add: reports_def)
  ultimately have "worst_of sooner (reports q) w" by (auto simp: worst_of_def intro: ranI)
  with w rw that show thesis by blast
qed

lemma worst_nonempty:
  assumes "queue_inv q" "cq_latest q \<noteq> []"
  shows "cq_worst (prune_worst q) \<noteq> []"
proof -
  obtain k c v where "map_of (cq_latest q) k = Some (c, v)"
    using assms(2) by (metis list.exhaust map_of_Cons_code(2) surj_pair)
  then have "entry c v \<in> set (cq_worst (prune_worst q))"
    using queue_invD(5)[OF inv_prune_worst[OF assms(1)], of k c v] by (simp add: prune_worst_def)
  then show ?thesis by auto
qed

lemma prune_worst_simps [simp]:
  "cq_latest (prune_worst q) = cq_latest q" "cq_max_size (prune_worst q) = cq_max_size q"
  "cq_seq (prune_worst q) = cq_seq q" "reports (prune_worst q) = reports q"
  by (simp_all add: prune_worst_def reports_def)

text \<open>The three outcomes of a push.\<close>

lemma push_spec:
  assumes inv: "queue_inv q" and seq: "unat (cq_seq q) + 1 < 2 ^ 64" and res: "push q c = ((acc, ev), q')"
  shows "queue_inv q' \<and> cq_max_size q' = cq_max_size q \<and> unat (cq_seq q') \<le> unat (cq_seq q) + 1 \<and>
    (if \<not> valid c then \<not> acc \<and> \<not> ev \<and> reports q' = reports q
     else if has_room q (ckey c) then acc \<and> \<not> ev \<and> reports q' = (reports q)(ckey c \<mapsto> c)
     else \<exists>w. worst_of sooner (reports q) w \<and> reports q (ckey w) = Some w \<and> acc = preferred c w \<and> ev = acc \<and>
       reports q' = (if acc then (reports q)(ckey w := None, ckey c \<mapsto> c) else reports q))"
proof -
  have new: "(map_of (cq_latest q) (ckey c) = None) = (reports q (ckey c) = None)"
    by (simp add: reports_def)
  consider "\<not> valid c" | "valid c" "has_room q (ckey c)" | "valid c" "\<not> has_room q (ckey c)" by blast
  then show ?thesis
  proof cases
    case 1
    then show ?thesis using res inv by (auto simp: push_def)
  next
    case 2
    then have "push q c = ((True, False), store q c)" by (auto simp: push_def has_room_def new)
    then show ?thesis using 2 res inv_store[OF inv seq, of c] store_simps[of q c]
      by (auto simp: has_room_def new[symmetric])
  next
    case 3
    then have full: "cq_max_size q > 0" "map_of (cq_latest q) (ckey c) = None" "length (cq_latest q) \<ge> cq_max_size q"
      by (auto simp: has_room_def new)
    have ne: "cq_worst (prune_worst q) \<noteq> []" using worst_nonempty[OF inv] full(1,3) by (cases "cq_latest q") auto
    obtain w v where
      w: "pq_top worst_lt (cq_worst (prune_worst q)) = entry w v" "map_of (cq_latest q) (ckey w) = Some (w, v)"
      and worst: "worst_of sooner (reports q) w" "reports q (ckey w) = Some w"
      by (rule pruned_worst[OF inv ne])
    let ?q1 = "(prune_worst q)\<lparr>cq_latest := AList.delete (ckey w) (cq_latest q)\<rparr>"
    have eq: "push q c = (if preferred c w then ((True, True), store ?q1 c) else ((False, False), prune_worst q))"
      using 3(1) full ne w(1) by (simp add: push_def better_entry Let_def)
    have inv1: "queue_inv ?q1" using inv_delete[OF inv_prune_worst[OF inv], of "ckey w"] by simp
    have len: "length (cq_latest ?q1) < cq_max_size q"
      using length_delete_Some[OF queue_invD(1)[OF inv] w(2)] inv full(1) by (simp add: queue_inv_def)
    have rep: "reports ?q1 = (reports q)(ckey w := None)" by (auto simp: reports_def delete_conv fun_eq_iff)
    show ?thesis
    proof (cases "preferred c w")
      case True
      then show ?thesis using 3 res eq worst inv_store[OF inv1, of c] store_simps[of ?q1 c] len seq rep by auto
    next
      case False
      then show ?thesis using 3 res eq worst inv_prune_worst[OF inv] by auto
    qed
  qed
qed

text \<open>Popping returns a stored candidate no other one precedes and removes it; it fails only on the
  empty queue.\<close>

lemma prune_best_simps [simp]:
  "cq_latest (prune_best q) = cq_latest q" "cq_max_size (prune_best q) = cq_max_size q"
  "cq_seq (prune_best q) = cq_seq q" "reports (prune_best q) = reports q"
  by (simp_all add: prune_best_def reports_def)

lemma inv_shrink_best:
  assumes inv: "queue_inv q" and sub: "set rest \<subseteq> set (cq_best q)"
    and kept: "\<And>k c v. map_of xs k = Some (c, v) \<Longrightarrow> entry c v \<in> set rest \<and> map_of (cq_latest q) k = Some (c, v)"
    and xs: "distinct (map fst xs)" "length xs \<le> length (cq_latest q)"
  shows "queue_inv (q\<lparr>cq_best := rest, cq_latest := xs\<rparr>)"
proof -
  have "e = entry c (hver e)"
    if "e \<in> set (cq_best q) \<union> set (cq_worst q)" "map_of xs (hkey e) = Some (c, hver e)" for e c
    using that kept[of "hkey e" c "hver e"] inv unfolding queue_inv_def by blast
  moreover have "ckey c = k \<and> unat v \<le> unat (cq_seq q) \<and> entry c v \<in> set rest \<and> entry c v \<in> set (cq_worst q)"
    if "map_of xs k = Some (c, v)" for k c v
    using kept[OF that] queue_invD(2,3,5)[OF inv, of k c v] by blast
  moreover have "cq_max_size q > 0 \<longrightarrow> length xs \<le> cq_max_size q"
    using inv xs(2) unfolding queue_inv_def by linarith
  ultimately show ?thesis
    using queue_invD(6)[OF inv] sub xs(1) by (intro queue_invI) auto
qed

lemma pop_spec:
  assumes inv: "queue_inv q" and res: "pop q = (out, q')"
  shows "queue_inv q' \<and> cq_max_size q' = cq_max_size q \<and> cq_seq q' = cq_seq q \<and>
    (case out of None \<Rightarrow> reports q = Map.empty \<and> reports q' = Map.empty
     | Some c \<Rightarrow> best_of sooner (reports q) c \<and> reports q (ckey c) = Some c \<and>
         reports q' = (reports q)(ckey c := None))"
proof -
  let ?p = "prune_best q"
  have pinv: "queue_inv ?p" by (rule inv_prune_best[OF inv])
  have stored: "entry c v \<in> set (cq_best ?p)" "is_active ?p (entry c v)"
    if "map_of (cq_latest q) k = Some (c, v)" for k c v
    using that queue_invD(4)[OF pinv, of k c v] active_kept[OF pinv, of k c v] by simp_all
  note spec = best.pop_active_spec[of "cq_best ?p" "is_active ?p"]
  show ?thesis
  proof (cases "pop_active best_lt (is_active ?p) (cq_best ?p)")
    case (Pair o' rest)
    show ?thesis
    proof (cases o')
      case None
      then have rest: "rest = []" "\<And>x. x \<in> set (cq_best ?p) \<Longrightarrow> \<not> is_active ?p x" using spec Pair by auto
      have empty: "map_of (cq_latest q) k = None" for k
        using stored rest(2) by (cases "map_of (cq_latest q) k") fastforce+
      then have "reports q = Map.empty" by (auto simp: reports_def)
      moreover have q': "q' = ?p\<lparr>cq_best := rest, cq_latest := cq_latest ?p\<rparr>" "out = None"
        using res Pair None by (auto simp: pop_def Let_def)
      moreover have "queue_inv q'" unfolding q'
        by (rule inv_shrink_best[OF pinv]) (use empty rest queue_invD(1)[OF inv] in auto)
      ultimately show ?thesis by (simp add: reports_def)
    next
      case (Some e)
      have e: "e \<in> set (cq_best ?p)" "is_active ?p e" "set rest \<subseteq> set (cq_best ?p)"
        and maxi: "\<And>x. x \<in> set (cq_best ?p) \<Longrightarrow> is_active ?p x \<Longrightarrow> \<not> best_lt e x"
        and kept: "\<And>x. x \<in> set (cq_best ?p) \<Longrightarrow> is_active ?p x \<Longrightarrow> x = e \<or> x \<in> set rest"
        using spec Pair Some by auto
      from e(1,2) obtain c v where c: "map_of (cq_latest q) (ckey c) = Some (c, v)" "e = entry c v"
        using is_active_iff[OF pinv, of e] by auto
      have q': "q' = ?p\<lparr>cq_best := rest, cq_latest := AList.delete (ckey c) (cq_latest ?p)\<rparr>" "out = Some c"
        using res Pair Some c by (auto simp: pop_def Let_def)
      have soon: "\<not> sooner c' c" if "c' \<in> ran (reports q)" for c'
      proof -
        from that obtain k u where "map_of (cq_latest q) k = Some (c', u)" by (auto simp: ran_def reports_def)
        from maxi[OF stored[OF this]] show ?thesis unfolding c(2) best_lt_entry .
      qed
      have keep: "entry c' u \<in> set rest \<and> map_of (cq_latest ?p) k = Some (c', u)"
        if "map_of (AList.delete (ckey c) (cq_latest ?p)) k = Some (c', u)" for k c' u
      proof -
        have k: "k \<noteq> ckey c" "map_of (cq_latest q) k = Some (c', u)"
          using that by (auto simp: delete_conv split: if_splits)
        have "entry c' u \<noteq> e" using queue_invD(2)[OF inv k(2)] k(1) c(2) by (metis hkey_entry)
        then show ?thesis using kept[OF stored[OF k(2)]] k(2) by auto
      qed
      have "queue_inv q'" unfolding q'
        by (rule inv_shrink_best[OF pinv e(3) keep])
           (use queue_invD(1)[OF inv] in \<open>auto simp: distinct_delete length_delete_le\<close>)
      then show ?thesis using q' c soon ranI[of "reports q" "ckey c" c] by (auto simp: best_of_def reports_def delete_conv fun_eq_iff)
    qed
  qed
qed

lemma inv_counters:
  "queue_inv (q\<lparr>cq_total_accepted := a\<rparr>) = queue_inv q" "queue_inv (q\<lparr>cq_total_dropped := a\<rparr>) = queue_inv q"
  "queue_inv (q\<lparr>cq_total_evicted := a\<rparr>) = queue_inv q"
  by (simp_all add: queue_inv_def)

lemma push_batch_inv:
  assumes "queue_inv q" "unat (cq_seq q) + length cs < 2 ^ 64"
  shows "case push_batch push cs result q of (result', q') \<Rightarrow>
    queue_inv q' \<and> cq_max_size q' = cq_max_size q \<and> unat (cq_seq q') \<le> unat (cq_seq q) + length cs \<and>
    accepted result' + dropped result' = accepted result + dropped result + length cs \<and>
    (evicted result \<le> accepted result \<longrightarrow> evicted result' \<le> accepted result')"
  using assms
proof (induction cs arbitrary: q result)
  case (Cons c cs)
  obtain acc ev q1 where p: "push q c = ((acc, ev), q1)" by (metis surj_pair)
  have seq: "unat (cq_seq q) + 1 < 2 ^ 64" using Cons.prems(2) by simp
  have q1: "queue_inv q1" "cq_max_size q1 = cq_max_size q" "unat (cq_seq q1) \<le> unat (cq_seq q) + 1"
    using push_spec[OF Cons.prems(1) seq p] by blast+
  define q2 where "q2 = (if acc then if ev then q1\<lparr>cq_total_accepted := cq_total_accepted q1 + 1,
      cq_total_evicted := cq_total_evicted q1 + 1\<rparr> else q1\<lparr>cq_total_accepted := cq_total_accepted q1 + 1\<rparr>
      else q1\<lparr>cq_total_dropped := cq_total_dropped q1 + 1\<rparr>)"
  define r where "r = (if acc then if ev then result\<lparr>accepted := accepted result + 1, evicted := evicted result + 1\<rparr>
      else result\<lparr>accepted := accepted result + 1\<rparr> else result\<lparr>dropped := dropped result + 1\<rparr>)"
  have step: "push_batch push (c # cs) result q = push_batch push cs r q2"
    using p by (simp add: q2_def r_def Let_def split: bool.splits)
  have q2: "queue_inv q2" "cq_max_size q2 = cq_max_size q" "cq_seq q2 = cq_seq q1"
    using q1(1,2) by (simp_all add: q2_def inv_counters)
  have "unat (cq_seq q2) + length cs < 2 ^ 64" using q1(3) q2(3) Cons.prems(2) by simp
  from Cons.IH[OF q2(1) this, of r] show ?case
    unfolding step using q1(3) q2(2,3) by (auto simp: r_def split: prod.splits if_splits)
qed simp

text \<open>Any sequence of calls.\<close>

lemma run_calls_inv:
  assumes "\<And>cs r q. pb cs q = push_batch push cs \<lparr>accepted = 0, dropped = 0, evicted = 0\<rparr> q"
    and "queue_inv q" "unat (cq_seq q) + pushes calls < 2 ^ 64"
  shows "queue_inv (run_calls pb pop calls q) \<and> cq_max_size (run_calls pb pop calls q) = cq_max_size q \<and>
    unat (cq_seq (run_calls pb pop calls q)) \<le> unat (cq_seq q) + pushes calls"
  using assms(2,3)
proof (induction calls arbitrary: q)
  case (Cons call calls)
  show ?case
  proof (cases call)
    case (CallPushBatch cs)
    obtain r q1 where r: "push_batch push cs \<lparr>accepted = 0, dropped = 0, evicted = 0\<rparr> q = (r, q1)" by force
    have q1: "queue_inv q1" "cq_max_size q1 = cq_max_size q" "unat (cq_seq q1) \<le> unat (cq_seq q) + length cs"
      using push_batch_inv[OF Cons.prems(1), of cs "\<lparr>accepted = 0, dropped = 0, evicted = 0\<rparr>"] Cons.prems(2) r
        CallPushBatch by auto
    then show ?thesis using Cons.IH[OF q1(1)] Cons.prems(2) CallPushBatch r by (simp add: assms(1))
  next
    case CallPopTop
    obtain out q1 where r: "pop q = (out, q1)" by force
    then show ?thesis using Cons.IH[of q1] pop_spec[OF Cons.prems(1) r] Cons.prems(2) CallPopTop by simp
  qed
qed simp

end

section \<open>The two classes implement the contract\<close>

definition object_entry :: "'s ArchiveCandidateEntry \<Rightarrow> u64 \<Rightarrow> 's HeapEntry" where
  "object_entry c v = \<lparr>he_score = ce_score c, he_report_ts_ms = ce_report_ts_ms c, he_object_id = ce_object_id c,
     he_version = v\<rparr>"

definition object_valid :: "'s ArchiveCandidateEntry \<Rightarrow> bool" where
  "object_valid c \<longleftrightarrow> ce_object_id c \<noteq> [] \<and> ce_disk_id c \<noteq> [] \<and> ce_archive_state c \<in> {[], ''pending''}"

definition object_preferred :: "('s::linorder) ArchiveCandidateEntry \<Rightarrow> 's ArchiveCandidateEntry \<Rightarrow> bool" where
  "object_preferred a b \<longleftrightarrow> object_sooner a b \<or>
     \<not> object_sooner b a \<and> ce_object_id b < ce_object_id a"

definition file_entry :: "FileArchiveCandidateEntry \<Rightarrow> u64 \<Rightarrow> FileHeapEntry" where
  "file_entry c v = \<lparr>fh_last_access_ts_ms = fe_last_access_ts_ms c, fh_report_ts_ms = fe_report_ts_ms c,
     fh_inode_id = fe_inode_id c, fh_version = v\<rparr>"

definition file_valid :: "FileArchiveCandidateEntry \<Rightarrow> bool" where
  "file_valid c \<longleftrightarrow> fe_inode_id c \<noteq> 0 \<and> fe_disk_id c \<noteq> [] \<and> fe_archive_state c \<in> {[], ''pending''}"

interpretation object_q: lazy_queue
  "HeapCompare :: ('s::linorder) HeapEntry \<Rightarrow> 's HeapEntry \<Rightarrow> bool" MinHeapCompare he_object_id he_version
  object_entry ce_object_id object_valid IsBetterThanLocked object_sooner object_preferred
  by unfold_locales
    (auto simp: object_entry_def HeapCompare_def MinHeapCompare_def IsBetterThanLocked_def object_sooner_def
      object_preferred_def not_less)

interpretation file_q: lazy_queue BestCompare WorstCompare fh_inode_id fh_version
  file_entry fe_inode_id file_valid File_IsBetterThanLocked file_sooner "\<lambda>a b. File_IsBetterThanLocked a (file_entry b 0)"
  by unfold_locales
    (auto simp: file_entry_def BestCompare_def WorstCompare_def File_IsBetterThanLocked_def file_sooner_def)

lemma object_ops:
  "IsActiveVersionLocked = object_q.is_active" "PruneTopLocked = object_q.prune_best"
  "PruneMinTopLocked = object_q.prune_worst" "store_object = object_q.store"
  "PushLocked = object_q.push" "PopTop = object_q.pop"
proof -
  show a: "IsActiveVersionLocked = object_q.is_active"
    by (simp add: fun_eq_iff IsActiveVersionLocked_def object_q.is_active_def)
  show b: "PruneTopLocked = object_q.prune_best"
    by (simp add: fun_eq_iff PruneTopLocked_def object_q.prune_best_def a)
  show c: "PruneMinTopLocked = object_q.prune_worst"
    by (simp add: fun_eq_iff PruneMinTopLocked_def object_q.prune_worst_def a)
  show d: "store_object = object_q.store"
    by (simp add: fun_eq_iff store_object_def object_q.store_def object_entry_def Let_def)
  show "PushLocked = object_q.push"
    by (simp add: fun_eq_iff PushLocked_def object_q.push_def object_valid_def c d Let_def)
  show "PopTop = object_q.pop"
    by (simp add: fun_eq_iff PopTop_def object_q.pop_def a b)
qed

lemma file_ops:
  "File_IsActiveVersionLocked = file_q.is_active" "PruneBestLocked = file_q.prune_best"
  "PruneWorstLocked = file_q.prune_worst" "store_file = file_q.store"
  "File_PushLocked = file_q.push" "File_PopTop = file_q.pop"
proof -
  show a: "File_IsActiveVersionLocked = file_q.is_active"
    by (simp add: fun_eq_iff File_IsActiveVersionLocked_def file_q.is_active_def)
  show b: "PruneBestLocked = file_q.prune_best"
    by (simp add: fun_eq_iff PruneBestLocked_def file_q.prune_best_def a)
  show c: "PruneWorstLocked = file_q.prune_worst"
    by (simp add: fun_eq_iff PruneWorstLocked_def file_q.prune_worst_def a)
  show d: "store_file = file_q.store"
    by (simp add: fun_eq_iff store_file_def file_q.store_def file_entry_def Let_def)
  show "File_PushLocked = file_q.push"
    by (simp add: fun_eq_iff File_PushLocked_def file_q.push_def file_valid_def c d Let_def)
  show "File_PopTop = file_q.pop"
    by (simp add: fun_eq_iff File_PopTop_def file_q.pop_def a b)
qed

abbreviation object_run :: "('s::linorder) ArchiveCandidateEntry queue_call list \<Rightarrow> nat \<Rightarrow> 's object_queue" where
  "object_run calls n \<equiv> run_calls PushBatch PopTop calls (new_queue n)"

abbreviation file_run :: "FileArchiveCandidateEntry queue_call list \<Rightarrow> nat \<Rightarrow> file_queue" where
  "file_run calls n \<equiv> run_calls File_PushBatch File_PopTop calls (new_queue n)"

lemma object_run_inv:
  assumes "pushes calls < 2 ^ 64"
  shows "object_q.queue_inv (object_run calls n) \<and> cq_max_size (object_run calls n) = n \<and>
    unat (cq_seq (object_run calls n)) \<le> pushes calls"
  using object_q.run_calls_inv[of PushBatch "new_queue n" calls] object_q.inv_new[of n] assms
  by (simp add: object_ops(5,6) PushBatch_def new_queue_def)

lemma file_run_inv:
  assumes "pushes calls < 2 ^ 64"
  shows "file_q.queue_inv (file_run calls n) \<and> cq_max_size (file_run calls n) = n \<and>
    unat (cq_seq (file_run calls n)) \<le> pushes calls"
  using file_q.run_calls_inv[of File_PushBatch "new_queue n" calls] file_q.inv_new[of n] assms
  by (simp add: file_ops(5,6) File_PushBatch_def new_queue_def)

section \<open>Properties of the queues\<close>

lemma ran_reports_single: "ran [k \<mapsto> c] = {c}"
  by auto

definition sample_object :: "string \<Rightarrow> nat \<Rightarrow> nat ArchiveCandidateEntry" where
  "sample_object object_id score = \<lparr>ce_node_id = ''n1'', ce_node_address = ''a'', ce_disk_id = ''d1'',
     ce_object_id = object_id, ce_last_access_ts_ms = 7, ce_size_bytes = 10, ce_checksum = 0, ce_heat_score = 0,
     ce_archive_state = ''pending'', ce_version = 1, ce_score = score, ce_report_ts_ms = 9\<rparr>"

definition sample_file :: "u64 \<Rightarrow> u64 \<Rightarrow> FileArchiveCandidateEntry" where
  "sample_file inode report = \<lparr>fe_inode_id = inode, fe_node_id = ''n1'', fe_node_address = ''a'', fe_disk_id = ''d1'',
     fe_file_size = 10, fe_object_count = 1, fe_last_access_ts_ms = 5, fe_archive_state = ''pending'', fe_version = 1,
     fe_report_ts_ms = report\<rparr>"

text \<open>A queue built with a positive capacity never holds more candidates, whatever the batches pushed
  and the candidates popped, as long as the 64-bit version counter does not wrap.\<close>

theorem queue_capacity:
  assumes "0 < n" "pushes calls < 2 ^ 64" "pushes fcalls < 2 ^ 64"
  shows "Size (object_run calls n) \<le> n \<and> length (cq_latest (file_run fcalls n)) \<le> n"
  using object_run_inv[OF assms(2), of n] file_run_inv[OF assms(3), of n] assms(1)
  by (auto simp: Size_def object_q.queue_inv_def file_q.queue_inv_def)

theorem queue_capacity_witness:
  "Size (object_run [CallPushBatch [sample_object ''x'' 1, sample_object ''y'' 2], CallPopTop] 1) \<le> 1 \<and>
   length (cq_latest (file_run [CallPushBatch [sample_file 1 1, sample_file 2 2]] 1)) \<le> 1"
  by (rule queue_capacity) simp_all

text \<open>C40: \<open>PopTop\<close> of the object queue, after any sequence of calls: it fails exactly when no candidate is
  queued, and otherwise returns a queued candidate that no other one precedes (higher score, then later
  report) and removes that one only, skipping the stale heap entries.\<close>

theorem PopTop_takes_best:
  assumes "pushes calls < 2 ^ 64"
  shows "case PopTop (object_run calls n) of
      (None, q') \<Rightarrow> reports (object_run calls n) = Map.empty \<and> reports q' = Map.empty
    | (Some c, q') \<Rightarrow> best_of object_sooner (reports (object_run calls n)) c \<and>
        reports q' = (reports (object_run calls n))(ce_object_id c := None)"
proof -
  obtain out q' where "object_q.pop (object_run calls n) = (out, q')" by force
  then show ?thesis using object_q.pop_spec[of "object_run calls n"] object_run_inv[OF assms, of n]
    by (auto simp: object_ops(6) split: option.splits)
qed

theorem PopTop_takes_best_witness:
  "case PopTop (object_run [CallPushBatch [sample_object ''x'' 1, sample_object ''y'' 2]] 0) of
      (None, q') \<Rightarrow> reports (object_run [CallPushBatch [sample_object ''x'' 1, sample_object ''y'' 2]] 0) = Map.empty \<and>
        reports q' = Map.empty
    | (Some c, q') \<Rightarrow> best_of object_sooner
          (reports (object_run [CallPushBatch [sample_object ''x'' 1, sample_object ''y'' 2]] 0)) c \<and>
        reports q' = (reports (object_run [CallPushBatch [sample_object ''x'' 1, sample_object ''y'' 2]] 0))
          (ce_object_id c := None)"
  by (rule PopTop_takes_best) simp

text \<open>C37: \<open>PopTop\<close> of the file queue, after any sequence of calls: it fails exactly when no candidate is
  queued, and otherwise returns and removes one that no other one precedes (older access, then older
  report, then smaller inode).\<close>

theorem File_PopTop_takes_best:
  assumes "pushes calls < 2 ^ 64"
  shows "case File_PopTop (file_run calls n) of
      (None, q') \<Rightarrow> reports (file_run calls n) = Map.empty \<and> reports q' = Map.empty
    | (Some c, q') \<Rightarrow> best_of file_sooner (reports (file_run calls n)) c \<and>
        reports q' = (reports (file_run calls n))(fe_inode_id c := None)"
proof -
  obtain out q' where "file_q.pop (file_run calls n) = (out, q')" by force
  then show ?thesis using file_q.pop_spec[of "file_run calls n"] file_run_inv[OF assms, of n]
    by (auto simp: file_ops(6) split: option.splits)
qed

theorem File_PopTop_takes_best_witness:
  "case File_PopTop (file_run [CallPushBatch [sample_file 1 1, sample_file 2 2]] 0) of
      (None, q') \<Rightarrow> reports (file_run [CallPushBatch [sample_file 1 1, sample_file 2 2]] 0) = Map.empty \<and>
        reports q' = Map.empty
    | (Some c, q') \<Rightarrow> best_of file_sooner (reports (file_run [CallPushBatch [sample_file 1 1, sample_file 2 2]] 0)) c \<and>
        reports q' = (reports (file_run [CallPushBatch [sample_file 1 1, sample_file 2 2]] 0))(fe_inode_id c := None)"
  by (rule File_PopTop_takes_best) simp

text \<open>One push into the object queue, after any sequence of calls: an invalid candidate changes
  nothing; one that fits (a known object, an unbounded or not full queue) replaces the report of its
  object; otherwise a worst queued candidate is found, and the new one either replaces exactly that
  candidate, when it is preferred to it, or is dropped.\<close>

theorem PushLocked_outcome:
  assumes "pushes calls + 1 < 2 ^ 64" "PushLocked (object_run calls n) c = ((acc, ev), q')"
  shows "if \<not> object_valid c then \<not> acc \<and> \<not> ev \<and> reports q' = reports (object_run calls n)
    else if has_room (object_run calls n) (ce_object_id c)
    then acc \<and> \<not> ev \<and> reports q' = (reports (object_run calls n))(ce_object_id c \<mapsto> c)
    else \<exists>w. worst_of object_sooner (reports (object_run calls n)) w \<and> acc = object_preferred c w \<and> ev = acc \<and>
      reports q' = (if acc then (reports (object_run calls n))(ce_object_id w := None, ce_object_id c \<mapsto> c)
                    else reports (object_run calls n))"
proof -
  have inv: "object_q.queue_inv (object_run calls n)" "unat (cq_seq (object_run calls n)) + 1 < 2 ^ 64"
    using object_run_inv[of calls n] assms(1) by auto
  show ?thesis
    using object_q.push_spec[OF inv assms(2)[unfolded object_ops(5)]] by (auto split: if_splits)
qed

theorem PushLocked_outcome_witness:
  "\<exists>acc ev q'. PushLocked (object_run [CallPushBatch [sample_object ''x'' 1]] 1) (sample_object ''y'' 2) = ((acc, ev), q') \<and>
    (if \<not> object_valid (sample_object ''y'' 2)
     then \<not> acc \<and> \<not> ev \<and> reports q' = reports (object_run [CallPushBatch [sample_object ''x'' 1]] 1)
     else if has_room (object_run [CallPushBatch [sample_object ''x'' 1]] 1) (ce_object_id (sample_object ''y'' 2))
     then acc \<and> \<not> ev \<and> reports q' = (reports (object_run [CallPushBatch [sample_object ''x'' 1]] 1))
       (ce_object_id (sample_object ''y'' 2) \<mapsto> sample_object ''y'' 2)
     else \<exists>w. worst_of object_sooner (reports (object_run [CallPushBatch [sample_object ''x'' 1]] 1)) w \<and>
       acc = object_preferred (sample_object ''y'' 2) w \<and> ev = acc \<and>
       reports q' = (if acc then (reports (object_run [CallPushBatch [sample_object ''x'' 1]] 1))
           (ce_object_id w := None, ce_object_id (sample_object ''y'' 2) \<mapsto> sample_object ''y'' 2)
         else reports (object_run [CallPushBatch [sample_object ''x'' 1]] 1)))"
proof -
  obtain acc ev q' where
    p: "PushLocked (object_run [CallPushBatch [sample_object ''x'' 1]] 1) (sample_object ''y'' 2) = ((acc, ev), q')"
    by (metis surj_pair)
  from PushLocked_outcome[OF _ this] p show ?thesis by (intro exI conjI) simp_all
qed

text \<open>C45: The file queue compares a new candidate with the worst one by the later report, but orders its
  heaps by the earlier one.  In a full queue a candidate that \<open>PopTop\<close> would have returned before the
  new one is therefore evicted in favour of it.\<close>

theorem File_PushLocked_evicts_sooner:
  assumes "file_valid a" "file_valid b" "fe_inode_id a \<noteq> fe_inode_id b"
    and "fe_last_access_ts_ms a = fe_last_access_ts_ms b" "fe_report_ts_ms a < fe_report_ts_ms b"
  shows "file_sooner a b \<and> fst (File_PushLocked (file_run [CallPushBatch [a]] 1) b) = (True, True) \<and>
    reports (snd (File_PushLocked (file_run [CallPushBatch [a]] 1) b)) = [fe_inode_id b \<mapsto> b]"
proof -
  let ?q = "file_run [CallPushBatch [a]] 1"
  have q: "cq_latest ?q = [(fe_inode_id a, a, 1)]" "cq_max_size ?q = 1" "cq_seq ?q = 1"
    using assms(1) by (simp_all add: File_PushBatch_def File_PushLocked_def file_valid_def new_queue_def store_file_def Let_def)
  obtain acc ev q' where p: "file_q.push ?q b = ((acc, ev), q')" by (metis surj_pair)
  have rep: "reports ?q = [fe_inode_id a \<mapsto> a]" using q by (auto simp: reports_def fun_eq_iff)
  have "\<not> has_room ?q (fe_inode_id b)" using q assms(3) by (simp add: has_room_def reports_def)
  moreover have "File_IsBetterThanLocked b (file_entry a 0)"
    using assms(4,5) by (auto simp: File_IsBetterThanLocked_def file_entry_def)
  ultimately have "acc \<and> ev \<and> reports q' = [fe_inode_id b \<mapsto> b]"
    using file_q.push_spec[OF _ _ p] file_run_inv[of "[CallPushBatch [a]]" 1] q assms(2) rep
    by (auto simp: worst_of_def ran_reports_single fun_eq_iff split: if_splits)
  then show ?thesis using assms(4,5) p by (simp add: file_ops(5) file_sooner_def)
qed

theorem File_PushLocked_evicts_sooner_witness:
  "file_sooner (sample_file 1 1) (sample_file 2 2) \<and>
    fst (File_PushLocked (file_run [CallPushBatch [sample_file 1 1]] 1) (sample_file 2 2)) = (True, True) \<and>
    reports (snd (File_PushLocked (file_run [CallPushBatch [sample_file 1 1]] 1) (sample_file 2 2))) =
      [fe_inode_id (sample_file 2 2) \<mapsto> sample_file 2 2]"
  by (rule File_PushLocked_evicts_sooner) (simp_all add: sample_file_def file_valid_def)

end
