(* ===== verification/Node_Model.thy ===== *)
theory Node_Model
  imports ZB_Prelude Complex_Main
begin

text \<open>
  The shared node model (\<open>src/src/storage_model/NodeModel.h\<close>, the node part of \<open>StorageModel.cpp\<close>) and
  the profile arithmetic of the scheduler (\<open>src/src/scheduler/model/ManagedNode.cpp\<close>): hardware profiles,
  inventories, optical-library status, their validation, capacity and bandwidth sums and power levels.
  Enumerators keep their names; where two enumerations share one the enumeration is part of it.
  Record fields carry a prefix per struct.  Shown here: sums saturate at \<open>UINT64_MAX\<close> instead of
  wrapping, the inventory sums of a validated snapshot are consistent, what validation accepts, and that
  the default profiles are valid.
\<close>

section \<open>Enumerations and structs\<close>

datatype NodeKind = kStorage | kMetadata | kOpticalLibrary
datatype ExecutionMode = kPhysical | kVirtual | kSimulated
datatype DeviceKind = kHdd | kSsd | kDisc | kOpticalDrive
datatype AccessPath = kDefault | kOpticalCacheHit | kOpticalDisc | kArchive | kMigration
datatype IoDirection = kRead | kWrite
datatype LifecycleState = kJoining | kWorking | kDraining | kExiting | kRetired
datatype HealthState = kHealthy | kSuspect | kFailed
datatype AdministrativeState = kEnabled | kAdminDraining | kDisabled
datatype NodeServiceMode = kReadWrite | kReadOnly
datatype PowerLevel = kOff | kStandby | kMedium | kPeak
datatype TransitionState = kStable | kStarting | kStopping | kRebooting
datatype ReliabilityModel = kNormalLifetime | kBathtubCurve
datatype FailureSource = kNone | kHeartbeatTimeout | kReliabilityModel | kInjected

record DeviceGroup =
  dg_name :: string
  dg_kind :: DeviceKind
  dg_device_capacity_bytes :: u64
  dg_device_count :: u32
  dg_per_device_bandwidth :: u64
  dg_max_concurrency :: u32
  dg_per_device_read_bandwidth :: u64
  dg_per_device_write_bandwidth :: u64

record PowerProfile =
  pp_peak :: u64
  pp_medium :: u64
  pp_standby :: u64
  pp_off :: u64

record ReliabilityProfile =
  rp_mean_lifetime_ms :: u64
  rp_lifetime_stddev_ms :: u64
  rp_minimum_lifetime_ms :: u64
  rp_mean_time_between_failures_ms :: u64
  rp_mean_repair_time_ms :: u64
  rp_model :: ReliabilityModel
  rp_early_failure_window_ms :: u64
  rp_wearout_start_age_ms :: u64
  rp_early_failure_rate_fit :: u64
  rp_useful_life_failure_rate_fit :: u64
  rp_wearout_failure_rate_fit :: u64

record NodeHardwareProfile =
  hp_node_id :: string
  hp_kind :: NodeKind
  hp_execution_mode :: ExecutionMode
  hp_logical_node_count :: u32
  hp_technology_generation :: u32
  hp_instance_generation :: u64
  hp_participates_in_placement :: bool
  hp_external_network_bandwidth :: u64
  hp_fixed_access_latency_us :: u64
  hp_optical_load_latency_us :: u64
  hp_optical_seek_latency_us :: u64
  hp_device_groups :: "DeviceGroup list"
  hp_power :: PowerProfile
  hp_reliability :: ReliabilityProfile

record NodeIdentity =
  ni_node_id :: string
  ni_compact_id :: u32
  ni_kind :: NodeKind
  ni_execution_mode :: ExecutionMode
  ni_service_address :: string

record DeviceInventory =
  di_disk_id :: string
  di_kind :: DeviceKind
  di_capacity_bytes :: u64
  di_free_bytes :: u64
  di_is_healthy :: bool
  di_read_bandwidth :: u64
  di_write_bandwidth :: u64
  di_accumulated_write_bytes :: u64
  di_last_update_ms :: u64
  di_health_source :: string

record NodeInventorySnapshot =
  is_node_id :: string
  is_generation :: u64
  is_observed_at_ms :: u64
  is_devices :: "DeviceInventory list"

record OpticalLibraryStatus =
  ol_observed :: bool
  ol_total_slots :: u32
  ol_local_disc_count :: u32
  ol_blank_disc_count :: u32
  ol_recording_disc_count :: u32
  ol_recorded_disc_count :: u32
  ol_defective_disc_count :: u32
  ol_staging_capacity_bytes :: u64
  ol_staging_used_bytes :: u64
  ol_pending_write_tasks :: u32
  ol_pending_read_tasks :: u32
  ol_busy_drives :: u32
  ol_observed_at_ms :: u64
  ol_telemetry_version :: u32
  ol_inventory_valid :: bool
  ol_staging_valid :: bool
  ol_background_valid :: bool
  ol_physical_health_observed :: bool
  ol_observation_source :: string
  ol_collection_error :: string
  ol_pending_archive_batches :: u64
  ol_background_tasks :: u64
  ol_staging_read_reserved_bytes :: u64
  ol_staging_write_reserved_bytes :: u64
  ol_configured_disc_count :: u64
  ol_valid_until_ms :: u64
  ol_accepts_archive_writes :: bool

text \<open>Messages of the failed validations; where the message names a group or disk the constructor does.\<close>

datatype model_error =
    NodeIdEmpty | LogicalNodeCountZero | TechnologyGenerationZero | InstanceGenerationZero | NetworkBandwidthZero
  | NoDeviceGroup | GroupNameOrCount | DuplicateGroupName string | GroupConcurrency string | DataDeviceCapacity string
  | OnlineDeviceBandwidth string | OpticalDriveBandwidth string | StorageNeedsHddOrSsd | MetadataNeedsSsd
  | OpticalNeedsGroups | PowerLevelOrder | PeakPowerZero | LifetimeZero | BathtubWindow
  | InventoryNodeIdEmpty | InventoryDiskIdEmpty | DuplicateDiskId string | FreeExceedsCapacity string
  | TelemetryVersion | TelemetryTimes | InventoryNotObserved | StagingReservations | DiscCountExceedsSlots
  | DiscStateCounts | StagingExceedsCapacity

section \<open>Saturating arithmetic\<close>

definition SaturatingAdd :: "u64 \<Rightarrow> u64 \<Rightarrow> u64" where
  "SaturatingAdd lhs rhs = (if rhs > - 1 - lhs then - 1 else lhs + rhs)"

definition SaturatingMultiply :: "u64 \<Rightarrow> u64 \<Rightarrow> u64" where
  "SaturatingMultiply lhs rhs = (if lhs \<noteq> 0 \<and> rhs > - 1 div lhs then - 1 else lhs * rhs)"

lemma unat_minus_one_u64: "unat (- 1 :: u64) = 2 ^ 64 - 1"
  by (simp add: unsigned_minus_1_eq_mask mask_eq_exp_minus_1)

lemma unat_SaturatingAdd [word_nat]:
  "unat (SaturatingAdd a b) = min (unat a + unat b) (2 ^ 64 - 1)"
proof -
  have "unat (- 1 - a) = 2 ^ 64 - 1 - unat a"
    by (simp add: unat_sub_no_wrap unat_minus_one_u64)
  then show ?thesis
    using unat_u64_lt[of a] unat_u64_lt[of b]
    by (auto simp: SaturatingAdd_def word_less_nat_alt unat_minus_one_u64 unat_word_ariths min_def)
qed

lemma unat_SaturatingMultiply [word_nat]:
  "unat (SaturatingMultiply a b) = min (unat a * unat b) (2 ^ 64 - 1)"
proof (cases "a = 0")
  case False
  then have pos: "unat a > 0" by (simp add: unat_gt_0)
  have "(- 1 div a < b) = ((2 ^ 64 - 1) div unat a < unat b)"
    by (simp add: word_less_nat_alt unat_div unat_minus_one_u64)
  also have "\<dots> = (2 ^ 64 - 1 < unat a * unat b)"
    using pos by (metis div_less_iff_less_mult mult.commute)
  finally show ?thesis
    using False by (auto simp: SaturatingMultiply_def unat_minus_one_u64 unat_word_ariths min_def not_less)
qed (simp add: SaturatingMultiply_def)

text \<open>The loops that add up one value per element.\<close>

definition sat_sum :: "('a \<Rightarrow> u64) \<Rightarrow> 'a list \<Rightarrow> u64" where
  "sat_sum f xs = foldl (\<lambda>total x. SaturatingAdd total (f x)) 0 xs"

lemma unat_foldl_SaturatingAdd:
  "unat (foldl (\<lambda>total x. SaturatingAdd total (f x)) s xs) =
     min (unat s + sum_list (map (\<lambda>x. unat (f x)) xs)) (2 ^ 64 - 1)"
proof (induction xs arbitrary: s)
  case Nil
  then show ?case using unat_u64_lt[of s] by (simp add: min_def)
next
  case (Cons x xs)
  then show ?case by (simp add: word_nat)
qed

lemma unat_sat_sum [word_nat]: "unat (sat_sum f xs) = min (sum_list (map (\<lambda>x. unat (f x)) xs)) (2 ^ 64 - 1)"
  by (simp add: sat_sum_def unat_foldl_SaturatingAdd)

section \<open>Inventories\<close>

definition IsDataDevice :: "DeviceKind \<Rightarrow> bool" where
  "IsDataDevice kind \<longleftrightarrow> kind = kHdd \<or> kind = kSsd \<or> kind = kDisc"

definition DeviceBandwidthBytesPerSecond :: "DeviceGroup \<Rightarrow> IoDirection \<Rightarrow> u64" where
  "DeviceBandwidthBytesPerSecond grp direction =
     (let directional = (if direction = kRead then dg_per_device_read_bandwidth grp
                         else dg_per_device_write_bandwidth grp)
      in if directional = 0 then dg_per_device_bandwidth grp else directional)"

definition DeviceUsedBytes :: "DeviceInventory \<Rightarrow> u64" where
  "DeviceUsedBytes device =
     (if di_capacity_bytes device > di_free_bytes device then di_capacity_bytes device - di_free_bytes device else 0)"

definition InventoryCapacityBytes :: "NodeInventorySnapshot \<Rightarrow> u64" where
  "InventoryCapacityBytes snapshot = foldl (\<lambda>total device.
     if IsDataDevice (di_kind device) then SaturatingAdd total (di_capacity_bytes device) else total)
     0 (is_devices snapshot)"

definition InventoryFreeBytes :: "NodeInventorySnapshot \<Rightarrow> u64" where
  "InventoryFreeBytes snapshot = foldl (\<lambda>total device.
     if IsDataDevice (di_kind device) then SaturatingAdd total (min (di_free_bytes device) (di_capacity_bytes device))
     else total) 0 (is_devices snapshot)"

definition InventoryUsedBytes :: "NodeInventorySnapshot \<Rightarrow> u64" where
  "InventoryUsedBytes snapshot = foldl (\<lambda>total device.
     if IsDataDevice (di_kind device) then SaturatingAdd total (DeviceUsedBytes device) else total)
     0 (is_devices snapshot)"

definition InventoryHealthyCapacityBytes :: "NodeInventorySnapshot \<Rightarrow> u64" where
  "InventoryHealthyCapacityBytes snapshot = foldl (\<lambda>total device.
     if di_is_healthy device \<and> IsDataDevice (di_kind device) then SaturatingAdd total (di_capacity_bytes device)
     else total) 0 (is_devices snapshot)"

definition InventoryHealthyFreeBytes :: "NodeInventorySnapshot \<Rightarrow> u64" where
  "InventoryHealthyFreeBytes snapshot = foldl (\<lambda>total device.
     if di_is_healthy device \<and> IsDataDevice (di_kind device)
     then SaturatingAdd total (min (di_free_bytes device) (di_capacity_bytes device))
     else total) 0 (is_devices snapshot)"

section \<open>Validation\<close>

text \<open>The loop over the device groups, with the names seen and the four flags.\<close>

fun check_groups ::
  "DeviceGroup list \<Rightarrow> string list \<Rightarrow> bool \<times> bool \<times> bool \<times> bool \<Rightarrow> model_error + bool \<times> bool \<times> bool \<times> bool" where
  "check_groups [] names flags = Inr flags"
| "check_groups (grp # groups) names (has_hdd_or_ssd, has_ssd, has_disc, has_optical_drive) =
     (if dg_name grp = [] \<or> dg_device_count grp = 0 then Inl GroupNameOrCount
      else if dg_name grp \<in> set names then Inl (DuplicateGroupName (dg_name grp))
      else if dg_max_concurrency grp > dg_device_count grp then Inl (GroupConcurrency (dg_name grp))
      else if IsDataDevice (dg_kind grp) \<and> dg_device_capacity_bytes grp = 0
        then Inl (DataDeviceCapacity (dg_name grp))
      else if (dg_kind grp = kHdd \<or> dg_kind grp = kSsd) \<and>
              DeviceBandwidthBytesPerSecond grp kRead = 0 \<and> DeviceBandwidthBytesPerSecond grp kWrite = 0
        then Inl (OnlineDeviceBandwidth (dg_name grp))
      else if dg_kind grp = kOpticalDrive \<and>
              (DeviceBandwidthBytesPerSecond grp kRead = 0 \<or> DeviceBandwidthBytesPerSecond grp kWrite = 0)
        then Inl (OpticalDriveBandwidth (dg_name grp))
      else check_groups groups (dg_name grp # names)
             (has_hdd_or_ssd \<or> dg_kind grp = kHdd \<or> dg_kind grp = kSsd, has_ssd \<or> dg_kind grp = kSsd,
              has_disc \<or> dg_kind grp = kDisc, has_optical_drive \<or> dg_kind grp = kOpticalDrive))"

definition ValidateNodeHardwareProfile :: "NodeHardwareProfile \<Rightarrow> model_error + unit" where
  "ValidateNodeHardwareProfile profile =
     (if hp_node_id profile = [] then Inl NodeIdEmpty
      else if hp_logical_node_count profile = 0 then Inl LogicalNodeCountZero
      else if hp_technology_generation profile = 0 then Inl TechnologyGenerationZero
      else if hp_instance_generation profile = 0 then Inl InstanceGenerationZero
      else if hp_external_network_bandwidth profile = 0 then Inl NetworkBandwidthZero
      else if hp_device_groups profile = [] then Inl NoDeviceGroup
      else case check_groups (hp_device_groups profile) [] (False, False, False, False) of
        Inl e \<Rightarrow> Inl e
      | Inr (has_hdd_or_ssd, has_ssd, has_disc, has_optical_drive) \<Rightarrow>
          if hp_kind profile = kStorage \<and> \<not> has_hdd_or_ssd then Inl StorageNeedsHddOrSsd
          else if hp_kind profile = kMetadata \<and> \<not> has_ssd then Inl MetadataNeedsSsd
          else if hp_kind profile = kOpticalLibrary \<and> (\<not> has_hdd_or_ssd \<or> \<not> has_disc \<or> \<not> has_optical_drive)
            then Inl OpticalNeedsGroups
          else if pp_peak (hp_power profile) < pp_medium (hp_power profile) \<or>
                  pp_medium (hp_power profile) < pp_standby (hp_power profile) \<or>
                  pp_standby (hp_power profile) < pp_off (hp_power profile) then Inl PowerLevelOrder
          else if pp_peak (hp_power profile) = 0 then Inl PeakPowerZero
          else if rp_mean_lifetime_ms (hp_reliability profile) = 0 \<or> rp_minimum_lifetime_ms (hp_reliability profile) = 0
            then Inl LifetimeZero
          else if rp_model (hp_reliability profile) = kBathtubCurve \<and>
                  rp_wearout_start_age_ms (hp_reliability profile) \<noteq> 0 \<and>
                  rp_early_failure_window_ms (hp_reliability profile) > rp_wearout_start_age_ms (hp_reliability profile)
            then Inl BathtubWindow
          else Inr ())"

fun check_devices :: "DeviceInventory list \<Rightarrow> string list \<Rightarrow> model_error + unit" where
  "check_devices [] ids = Inr ()"
| "check_devices (device # devices) ids =
     (if di_disk_id device = [] then Inl InventoryDiskIdEmpty
      else if di_disk_id device \<in> set ids then Inl (DuplicateDiskId (di_disk_id device))
      else if di_free_bytes device > di_capacity_bytes device then Inl (FreeExceedsCapacity (di_disk_id device))
      else check_devices devices (di_disk_id device # ids))"

definition ValidateNodeInventorySnapshot :: "NodeInventorySnapshot \<Rightarrow> model_error + unit" where
  "ValidateNodeInventorySnapshot snapshot =
     (if is_node_id snapshot = [] then Inl InventoryNodeIdEmpty else check_devices (is_devices snapshot) [])"

definition ValidateOpticalLibraryStatus :: "OpticalLibraryStatus \<Rightarrow> model_error + unit" where
  "ValidateOpticalLibraryStatus status =
     (if ol_telemetry_version status > 1 then Inl TelemetryVersion
      else if ol_telemetry_version status = 1 \<and>
              (ol_observed_at_ms status = 0 \<or> ol_valid_until_ms status < ol_observed_at_ms status) then Inl TelemetryTimes
      else if ol_telemetry_version status = 1 \<and> ol_inventory_valid status \<and> \<not> ol_observed status
        then Inl InventoryNotObserved
      else if ol_telemetry_version status = 1 \<and> ol_staging_valid status \<and>
              (ol_staging_read_reserved_bytes status > ol_staging_used_bytes status \<or>
               ol_staging_write_reserved_bytes status >
                 ol_staging_used_bytes status - ol_staging_read_reserved_bytes status) then Inl StagingReservations
      else if \<not> ol_observed status then Inr ()
      else if ol_local_disc_count status > ol_total_slots status then Inl DiscCountExceedsSlots
      else if SaturatingAdd (SaturatingAdd (SaturatingAdd (ucast (ol_blank_disc_count status))
                (ucast (ol_recording_disc_count status))) (ucast (ol_recorded_disc_count status)))
                (ucast (ol_defective_disc_count status)) \<noteq> ucast (ol_local_disc_count status) then Inl DiscStateCounts
      else if ol_staging_used_bytes status > ol_staging_capacity_bytes status then Inl StagingExceedsCapacity
      else Inr ())"

section \<open>Profiles of the scheduler\<close>

definition kMegabyte :: u64 where "kMegabyte = 1000 * 1000"
definition kGigabyte :: u64 where "kGigabyte = 1000 * kMegabyte"
definition kTerabyte :: u64 where "kTerabyte = 1000 * kGigabyte"
definition kYearMs :: u64 where "kYearMs = 365 * (24 * 60 * 60 * 1000)"

definition StoragePowerProfile :: PowerProfile where
  "StoragePowerProfile = \<lparr>pp_peak = 1000 * 1000, pp_medium = 300 * 1000, pp_standby = 100 * 1000, pp_off = 0\<rparr>"

definition MetadataPowerProfile :: PowerProfile where
  "MetadataPowerProfile = \<lparr>pp_peak = 500 * 1000, pp_medium = 200 * 1000, pp_standby = 50 * 1000, pp_off = 0\<rparr>"

definition OpticalPowerProfile :: PowerProfile where
  "OpticalPowerProfile = \<lparr>pp_peak = 400 * 1000, pp_medium = 200 * 1000, pp_standby = 50 * 1000, pp_off = 0\<rparr>"

text \<open>Aggregate initialisation: the members not listed keep their default initialisers.\<close>

definition lifetime :: "u64 \<Rightarrow> u64 \<Rightarrow> u64 \<Rightarrow> ReliabilityProfile" where
  "lifetime mean stddev minimum = \<lparr>rp_mean_lifetime_ms = mean, rp_lifetime_stddev_ms = stddev,
     rp_minimum_lifetime_ms = minimum, rp_mean_time_between_failures_ms = 0, rp_mean_repair_time_ms = 0,
     rp_model = kNormalLifetime, rp_early_failure_window_ms = 0, rp_wearout_start_age_ms = 0,
     rp_early_failure_rate_fit = 0, rp_useful_life_failure_rate_fit = 0, rp_wearout_failure_rate_fit = 0\<rparr>"

definition device_group :: "string \<Rightarrow> DeviceKind \<Rightarrow> u64 \<Rightarrow> u32 \<Rightarrow> u64 \<Rightarrow> u32 \<Rightarrow> u64 \<Rightarrow> u64 \<Rightarrow> DeviceGroup" where
  "device_group name kind capacity devices bandwidth concurrency rd wr = \<lparr>dg_name = name, dg_kind = kind,
     dg_device_capacity_bytes = capacity, dg_device_count = devices, dg_per_device_bandwidth = bandwidth,
     dg_max_concurrency = concurrency, dg_per_device_read_bandwidth = rd, dg_per_device_write_bandwidth = wr\<rparr>"

definition default_profile :: "string \<Rightarrow> NodeHardwareProfile" where
  "default_profile node_id = \<lparr>hp_node_id = node_id, hp_kind = kStorage, hp_execution_mode = kPhysical,
     hp_logical_node_count = 1, hp_technology_generation = 1, hp_instance_generation = 1,
     hp_participates_in_placement = True, hp_external_network_bandwidth = 0, hp_fixed_access_latency_us = 0,
     hp_optical_load_latency_us = 0, hp_optical_seek_latency_us = 0, hp_device_groups = [],
     hp_power = \<lparr>pp_peak = 0, pp_medium = 0, pp_standby = 0, pp_off = 0\<rparr>, hp_reliability = lifetime 0 0 1\<rparr>"

definition DefaultStorageNodeProfile :: "string \<Rightarrow> NodeHardwareProfile" where
  "DefaultStorageNodeProfile node_id = (default_profile node_id)\<lparr>hp_kind := kStorage,
     hp_external_network_bandwidth := 10 * kGigabyte, hp_fixed_access_latency_us := 5000,
     hp_device_groups := [device_group ''hdd-18tb'' kHdd (18 * kTerabyte) 24 (200 * kMegabyte) 5
        (200 * kMegabyte) (200 * kMegabyte)],
     hp_power := StoragePowerProfile, hp_reliability := lifetime (5 * kYearMs) kYearMs kYearMs\<rparr>"

definition DefaultMetadataNodeProfile :: "string \<Rightarrow> NodeHardwareProfile" where
  "DefaultMetadataNodeProfile node_id = (default_profile node_id)\<lparr>hp_kind := kMetadata,
     hp_external_network_bandwidth := 10 * kGigabyte, hp_fixed_access_latency_us := 500,
     hp_device_groups := [device_group ''ssd-4tb'' kSsd (4 * kTerabyte) 16 (5 * kGigabyte) 10
        (5 * kGigabyte) (5 * kGigabyte)],
     hp_power := MetadataPowerProfile, hp_reliability := lifetime (5 * kYearMs) kYearMs kYearMs\<rparr>"

definition DefaultOpticalLibraryProfile :: "string \<Rightarrow> NodeHardwareProfile" where
  "DefaultOpticalLibraryProfile node_id = (default_profile node_id)\<lparr>hp_kind := kOpticalLibrary,
     hp_external_network_bandwidth := 10 * kGigabyte, hp_fixed_access_latency_us := 500,
     hp_optical_load_latency_us := 60 * 1000 * 1000, hp_optical_seek_latency_us := 500 * 1000,
     hp_device_groups := [
        device_group ''hdd-cache-28tb'' kHdd (28 * kTerabyte) 10 (200 * kMegabyte) 10 (200 * kMegabyte) (200 * kMegabyte),
        device_group ''disc-1tb'' kDisc (1 * kTerabyte) 10000 0 0 0 0,
        device_group ''optical-drive'' kOpticalDrive 0 10 (100 * kMegabyte) 10 (100 * kMegabyte) (10 * kMegabyte)],
     hp_power := OpticalPowerProfile, hp_reliability := lifetime (10 * kYearMs) (2 * kYearMs) kYearMs\<rparr>"

definition CalculateCapacityBytes :: "NodeHardwareProfile \<Rightarrow> u64" where
  "CalculateCapacityBytes profile = foldl (\<lambda>total grp.
     if dg_kind grp = kOpticalDrive then total
     else SaturatingAdd total (SaturatingMultiply (dg_device_capacity_bytes grp) (ucast (dg_device_count grp))))
     0 (hp_device_groups profile)"

definition GroupMatchesPath :: "DeviceKind \<Rightarrow> AccessPath \<Rightarrow> bool" where
  "GroupMatchesPath kind path =
     (if path = kOpticalDisc then kind = kOpticalDrive
      else if path = kOpticalCacheHit then kind = kHdd \<or> kind = kSsd
      else kind = kHdd \<or> kind = kSsd)"

definition CalculateInternalBandwidthBytesPerSecond :: "NodeHardwareProfile \<Rightarrow> AccessPath \<Rightarrow> IoDirection \<Rightarrow> u64" where
  "CalculateInternalBandwidthBytesPerSecond profile path0 direction =
     (let path = (if path0 = kArchive \<or> path0 = kMigration
                  then if hp_kind profile = kOpticalLibrary then kOpticalDisc else kDefault else path0)
      in foldl (\<lambda>total grp.
           if \<not> GroupMatchesPath (dg_kind grp) path then total
           else let bandwidth = DeviceBandwidthBytesPerSecond grp direction
                in if bandwidth = 0 then total
                   else let concurrency = (if dg_max_concurrency grp = 0 then dg_device_count grp
                                           else min (dg_device_count grp) (dg_max_concurrency grp))
                        in SaturatingAdd total (SaturatingMultiply bandwidth (ucast concurrency)))
           0 (hp_device_groups profile))"

text \<open>
  Floating point: a \<open>long double\<close> operation is the exact rational operation followed by the rounding
  \<open>rl\<close>, which is a parameter; the casts to and from \<open>uint64_t\<close> are written out.
\<close>

definition to_ld :: "(rat \<Rightarrow> rat) \<Rightarrow> u64 \<Rightarrow> rat" where
  "to_ld rl w = rl (of_nat (unat w))"

definition from_ld :: "rat \<Rightarrow> u64" where
  "from_ld x = of_nat (nat \<lfloor>x\<rfloor>)"

definition CeilTransferMicroseconds :: "(rat \<Rightarrow> rat) \<Rightarrow> u64 \<Rightarrow> u64 \<Rightarrow> u64" where
  "CeilTransferMicroseconds rl bytes bandwidth =
     (if bytes = 0 then 0
      else if bandwidth = 0 then - 1
      else let micros = rl (rl (to_ld rl bytes * 1000000) / to_ld rl bandwidth)
           in if micros \<ge> to_ld rl (- 1) then - 1 else of_nat (nat \<lceil>micros\<rceil>))"

record PerformanceEstimate =
  pe_valid :: bool
  pe_capacity_bytes :: u64
  pe_internal_bandwidth :: u64
  pe_effective_bandwidth :: u64
  pe_service_latency_us :: u64
  pe_error :: string

definition EstimatePerformanceAtPower ::
  "(rat \<Rightarrow> rat) \<Rightarrow> NodeHardwareProfile \<Rightarrow> u64 \<Rightarrow> AccessPath \<Rightarrow> IoDirection \<Rightarrow> PowerLevel \<Rightarrow> u64 \<Rightarrow> u64 \<Rightarrow>
   PerformanceEstimate" where
  "EstimatePerformanceAtPower rl profile request_size_bytes path direction power_level queue_delay_us power_transition_delay_us =
     (let peak_bandwidth = CalculateInternalBandwidthBytesPerSecond profile path direction;
          power = hp_power profile;
          internal = (if power_level = kOff \<or> power_level = kStandby then 0
                      else if power_level = kMedium \<and> pp_peak power > pp_standby power then
                        let medium_above_standby = (if pp_medium power > pp_standby power
                                                    then pp_medium power - pp_standby power else 0);
                            peak_above_standby = pp_peak power - pp_standby power;
                            scaled = rl (rl (to_ld rl peak_bandwidth * to_ld rl medium_above_standby) /
                                         to_ld rl peak_above_standby)
                        in if scaled \<ge> to_ld rl (- 1) then - 1 else from_ld scaled
                      else peak_bandwidth);
          effective = min (hp_external_network_bandwidth profile) internal;
          estimate = \<lparr>pe_valid = False, pe_capacity_bytes = CalculateCapacityBytes profile,
                      pe_internal_bandwidth = internal, pe_effective_bandwidth = effective, pe_service_latency_us = 0,
                      pe_error = []\<rparr>
      in if effective = 0
         then estimate\<lparr>pe_error := ''effective bandwidth is zero for the selected access path''\<rparr>
         else let latency0 = SaturatingAdd queue_delay_us power_transition_delay_us;
                  latency1 = (if path = kOpticalDisc
                              then SaturatingAdd (SaturatingAdd latency0 (hp_optical_load_latency_us profile))
                                     (hp_optical_seek_latency_us profile)
                              else SaturatingAdd latency0 (hp_fixed_access_latency_us profile))
              in estimate\<lparr>pe_service_latency_us :=
                     SaturatingAdd latency1 (CeilTransferMicroseconds rl request_size_bytes effective),
                   pe_valid := True\<rparr>)"

definition EstimatePerformance ::
  "(rat \<Rightarrow> rat) \<Rightarrow> NodeHardwareProfile \<Rightarrow> u64 \<Rightarrow> AccessPath \<Rightarrow> u64 \<Rightarrow> u64 \<Rightarrow> PerformanceEstimate" where
  "EstimatePerformance rl profile request_size_bytes path queue_delay_us power_transition_delay_us =
     EstimatePerformanceAtPower rl profile request_size_bytes path kRead kPeak queue_delay_us power_transition_delay_us"

fun PowerMilliwatts :: "PowerProfile \<Rightarrow> PowerLevel \<Rightarrow> u64" where
  "PowerMilliwatts profile kPeak = pp_peak profile"
| "PowerMilliwatts profile kMedium = pp_medium profile"
| "PowerMilliwatts profile kStandby = pp_standby profile"
| "PowerMilliwatts profile kOff = pp_off profile"

text \<open>
  The value drawn by \<open>std::normal_distribution\<close> from a generator seeded with \<open>seed\<close> is left open by the
  standard and is a parameter (of mean, deviation and seed).
\<close>

definition SampleLifetimeMs ::
  "(rat \<Rightarrow> rat) \<Rightarrow> (rat \<Rightarrow> rat \<Rightarrow> u64 \<Rightarrow> rat) \<Rightarrow> ReliabilityProfile \<Rightarrow> u64 \<Rightarrow> u64" where
  "SampleLifetimeMs rl normal profile seed =
     (if rp_lifetime_stddev_ms profile = 0
      then max (rp_mean_lifetime_ms profile) (rp_minimum_lifetime_ms profile)
      else let sampled = normal (to_ld rl (rp_mean_lifetime_ms profile)) (to_ld rl (rp_lifetime_stddev_ms profile)) seed
           in if sampled \<le> to_ld rl (rp_minimum_lifetime_ms profile) then rp_minimum_lifetime_ms profile
              else if sampled \<ge> to_ld rl (- 1) then - 1
              else from_ld sampled)"

definition IsServingLifecycle :: "LifecycleState \<Rightarrow> bool" where
  "IsServingLifecycle state \<longleftrightarrow> state = kWorking \<or> state = kDraining"

definition IsTerminalLifecycle :: "LifecycleState \<Rightarrow> bool" where
  "IsTerminalLifecycle state \<longleftrightarrow> state = kRetired"

fun ManagedNodeKindName :: "NodeKind \<Rightarrow> string" where
  "ManagedNodeKindName kStorage = ''STORAGE''"
| "ManagedNodeKindName kMetadata = ''METADATA''"
| "ManagedNodeKindName kOpticalLibrary = ''OPTICAL_LIBRARY''"

fun ExecutionModeName :: "ExecutionMode \<Rightarrow> string" where
  "ExecutionModeName kPhysical = ''PHYSICAL''"
| "ExecutionModeName kVirtual = ''VIRTUAL''"
| "ExecutionModeName kSimulated = ''SIMULATED''"

fun DeviceKindName :: "DeviceKind \<Rightarrow> string" where
  "DeviceKindName kHdd = ''HDD''"
| "DeviceKindName kSsd = ''SSD''"
| "DeviceKindName kDisc = ''DISC''"
| "DeviceKindName kOpticalDrive = ''OPTICAL_DRIVE''"

fun AccessPathName :: "AccessPath \<Rightarrow> string" where
  "AccessPathName kDefault = ''DEFAULT''"
| "AccessPathName kOpticalCacheHit = ''OPTICAL_CACHE_HIT''"
| "AccessPathName kOpticalDisc = ''OPTICAL_DISC''"
| "AccessPathName kArchive = ''ARCHIVE''"
| "AccessPathName kMigration = ''MIGRATION''"

fun LifecycleStateName :: "LifecycleState \<Rightarrow> string" where
  "LifecycleStateName kJoining = ''JOINING''"
| "LifecycleStateName kWorking = ''WORKING''"
| "LifecycleStateName kDraining = ''DRAINING''"
| "LifecycleStateName kExiting = ''EXITING''"
| "LifecycleStateName kRetired = ''RETIRED''"

fun ManagedHealthStateName :: "HealthState \<Rightarrow> string" where
  "ManagedHealthStateName kHealthy = ''HEALTHY''"
| "ManagedHealthStateName kSuspect = ''SUSPECT''"
| "ManagedHealthStateName kFailed = ''FAILED''"

fun PowerLevelName :: "PowerLevel \<Rightarrow> string" where
  "PowerLevelName kOff = ''OFF''"
| "PowerLevelName kStandby = ''STANDBY''"
| "PowerLevelName kMedium = ''MEDIUM''"
| "PowerLevelName kPeak = ''PEAK''"

fun TransitionStateName :: "TransitionState \<Rightarrow> string" where
  "TransitionStateName kStable = ''STABLE''"
| "TransitionStateName kStarting = ''STARTING''"
| "TransitionStateName kStopping = ''STOPPING''"
| "TransitionStateName kRebooting = ''REBOOTING''"

fun AdministrativeStateName :: "AdministrativeState \<Rightarrow> string" where
  "AdministrativeStateName kEnabled = ''ENABLED''"
| "AdministrativeStateName kAdminDraining = ''DRAINING''"
| "AdministrativeStateName kDisabled = ''DISABLED''"

fun NodeServiceModeName :: "NodeServiceMode \<Rightarrow> string" where
  "NodeServiceModeName kReadWrite = ''READ_WRITE''"
| "NodeServiceModeName kReadOnly = ''READ_ONLY''"

fun FailureSourceName :: "FailureSource \<Rightarrow> string" where
  "FailureSourceName kNone = ''NONE''"
| "FailureSourceName kHeartbeatTimeout = ''HEARTBEAT_TIMEOUT''"
| "FailureSourceName kReliabilityModel = ''RELIABILITY_MODEL''"
| "FailureSourceName kInjected = ''INJECTED''"

section \<open>Properties\<close>

subsection \<open>Inventory sums\<close>

lemma foldl_if_filter:
  "foldl (\<lambda>t x. if P x then f t x else t) s xs = foldl f s (filter P xs)"
  by (induction xs arbitrary: s) auto

definition data_devices :: "NodeInventorySnapshot \<Rightarrow> DeviceInventory list" where
  "data_devices s = filter (\<lambda>d. IsDataDevice (di_kind d)) (is_devices s)"

lemma inventory_sums:
  "InventoryCapacityBytes s = sat_sum di_capacity_bytes (data_devices s)"
  "InventoryFreeBytes s = sat_sum (\<lambda>d. min (di_free_bytes d) (di_capacity_bytes d)) (data_devices s)"
  "InventoryUsedBytes s = sat_sum DeviceUsedBytes (data_devices s)"
  "InventoryHealthyCapacityBytes s = sat_sum di_capacity_bytes (filter di_is_healthy (data_devices s))"
  "InventoryHealthyFreeBytes s =
     sat_sum (\<lambda>d. min (di_free_bytes d) (di_capacity_bytes d)) (filter di_is_healthy (data_devices s))"
  by (simp_all add: InventoryCapacityBytes_def InventoryFreeBytes_def InventoryUsedBytes_def
      InventoryHealthyCapacityBytes_def InventoryHealthyFreeBytes_def foldl_if_filter sat_sum_def data_devices_def
      conj_commute)

lemma unat_min: "unat (min a b :: 'a::len word) = min (unat a) (unat b)"
  by (simp add: min_def word_le_nat_alt)

lemma unat_DeviceUsedBytes: "unat (DeviceUsedBytes d) = unat (di_capacity_bytes d) - unat (di_free_bytes d)"
  by (auto simp: DeviceUsedBytes_def word_less_nat_alt unat_sub_no_wrap word_le_nat_alt)

lemma sum_free_used:
  "sum_list (map (\<lambda>d. unat (min (di_free_bytes d) (di_capacity_bytes d))) ds) +
   sum_list (map (\<lambda>d. unat (DeviceUsedBytes d)) ds) = sum_list (map (\<lambda>d. unat (di_capacity_bytes d)) ds)"
  by (induction ds) (auto simp: unat_min unat_DeviceUsedBytes)

lemma sum_filter_le: "sum_list (map f (filter P xs)) \<le> sum_list (map (f :: 'a \<Rightarrow> nat) xs)"
  by (induction xs) auto

text \<open>The inventory sums of any snapshot: each is the exact sum over the data devices capped at
  \<open>UINT64_MAX\<close>, never a wrapped one; below the cap capacity is free plus used, and the healthy figures
  are parts of the totals.\<close>

theorem inventory_accounting:
  assumes "sum_list (map (\<lambda>d. unat (di_capacity_bytes d)) (data_devices s)) < 2 ^ 64"
  shows "unat (InventoryCapacityBytes s) = sum_list (map (\<lambda>d. unat (di_capacity_bytes d)) (data_devices s)) \<and>
    unat (InventoryCapacityBytes s) = unat (InventoryFreeBytes s) + unat (InventoryUsedBytes s) \<and>
    InventoryHealthyFreeBytes s \<le> InventoryFreeBytes s \<and> InventoryHealthyFreeBytes s \<le> InventoryHealthyCapacityBytes s \<and>
    InventoryHealthyCapacityBytes s \<le> InventoryCapacityBytes s"
proof -
  define M where "M = (2 :: nat) ^ 64 - 1"
  define cap fre use hcap hfre where
    "cap = sum_list (map (\<lambda>d. unat (di_capacity_bytes d)) (data_devices s))" and
    "fre = sum_list (map (\<lambda>d. unat (min (di_free_bytes d) (di_capacity_bytes d))) (data_devices s))" and
    "use = sum_list (map (\<lambda>d. unat (DeviceUsedBytes d)) (data_devices s))" and
    "hcap = sum_list (map (\<lambda>d. unat (di_capacity_bytes d)) (filter di_is_healthy (data_devices s)))" and
    "hfre = sum_list (map (\<lambda>d. unat (min (di_free_bytes d) (di_capacity_bytes d))) (filter di_is_healthy (data_devices s)))"
  note defs = this
  have le: "cap \<le> M" "fre + use = cap" "hfre \<le> hcap" "hcap \<le> cap" "hfre \<le> fre"
    using assms sum_free_used[of "data_devices s"] sum_free_used[of "filter di_is_healthy (data_devices s)"]
    unfolding defs M_def by (auto intro: sum_filter_le)
  have vals: "unat (InventoryCapacityBytes s) = min cap M" "unat (InventoryFreeBytes s) = min fre M"
    "unat (InventoryUsedBytes s) = min use M" "unat (InventoryHealthyCapacityBytes s) = min hcap M"
    "unat (InventoryHealthyFreeBytes s) = min hfre M"
    unfolding inventory_sums unat_sat_sum defs M_def by (rule refl)+
  show ?thesis unfolding word_le_nat_alt vals defs(1)[symmetric] using le by simp
qed

definition sample_device :: "string \<Rightarrow> u64 \<Rightarrow> u64 \<Rightarrow> DeviceInventory" where
  "sample_device disk capacity free_bytes = \<lparr>di_disk_id = disk, di_kind = kHdd, di_capacity_bytes = capacity,
     di_free_bytes = free_bytes, di_is_healthy = True, di_read_bandwidth = 0, di_write_bandwidth = 0,
     di_accumulated_write_bytes = 0, di_last_update_ms = 0, di_health_source = []\<rparr>"

definition sample_inventory :: NodeInventorySnapshot where
  "sample_inventory = \<lparr>is_node_id = ''n1'', is_generation = 1, is_observed_at_ms = 1,
     is_devices = [sample_device ''d0'' 100 40, sample_device ''d1'' 200 200]\<rparr>"

theorem inventory_accounting_witness:
  "unat (InventoryCapacityBytes sample_inventory) =
      sum_list (map (\<lambda>d. unat (di_capacity_bytes d)) (data_devices sample_inventory)) \<and>
    unat (InventoryCapacityBytes sample_inventory) =
      unat (InventoryFreeBytes sample_inventory) + unat (InventoryUsedBytes sample_inventory) \<and>
    InventoryHealthyFreeBytes sample_inventory \<le> InventoryFreeBytes sample_inventory \<and>
    InventoryHealthyFreeBytes sample_inventory \<le> InventoryHealthyCapacityBytes sample_inventory \<and>
    InventoryHealthyCapacityBytes sample_inventory \<le> InventoryCapacityBytes sample_inventory"
  by (rule inventory_accounting)
     (simp add: sample_inventory_def sample_device_def data_devices_def IsDataDevice_def)

subsection \<open>What validation accepts\<close>

definition group_ok :: "DeviceGroup \<Rightarrow> bool" where
  "group_ok g \<longleftrightarrow> dg_name g \<noteq> [] \<and> dg_device_count g \<noteq> 0 \<and> dg_max_concurrency g \<le> dg_device_count g \<and>
     (IsDataDevice (dg_kind g) \<longrightarrow> dg_device_capacity_bytes g \<noteq> 0) \<and>
     (dg_kind g \<in> {kHdd, kSsd} \<longrightarrow>
        DeviceBandwidthBytesPerSecond g kRead \<noteq> 0 \<or> DeviceBandwidthBytesPerSecond g kWrite \<noteq> 0) \<and>
     (dg_kind g = kOpticalDrive \<longrightarrow>
        DeviceBandwidthBytesPerSecond g kRead \<noteq> 0 \<and> DeviceBandwidthBytesPerSecond g kWrite \<noteq> 0)"

lemma if_Inl_iff: "(if P then Inl e else X) = Inr y \<longleftrightarrow> \<not> P \<and> X = Inr y"
  by simp

lemma check_groups_Cons:
  "check_groups (g # gs) names (a, b, c, d) = Inr fl \<longleftrightarrow> group_ok g \<and> dg_name g \<notin> set names \<and>
     check_groups gs (dg_name g # names) (a \<or> dg_kind g = kHdd \<or> dg_kind g = kSsd, b \<or> dg_kind g = kSsd,
       c \<or> dg_kind g = kDisc, d \<or> dg_kind g = kOpticalDrive) = Inr fl"
  unfolding check_groups.simps if_Inl_iff group_ok_def not_less[symmetric] insert_iff by blast

lemma check_groups_iff:
  "check_groups gs names (a, b, c, d) = Inr fl \<longleftrightarrow>
     list_all group_ok gs \<and> distinct (map dg_name gs) \<and> (\<forall>g \<in> set gs. dg_name g \<notin> set names) \<and>
     fl = (a \<or> (\<exists>g \<in> set gs. dg_kind g = kHdd \<or> dg_kind g = kSsd), b \<or> (\<exists>g \<in> set gs. dg_kind g = kSsd),
           c \<or> (\<exists>g \<in> set gs. dg_kind g = kDisc), d \<or> (\<exists>g \<in> set gs. dg_kind g = kOpticalDrive))"
proof (induction gs arbitrary: names a b c d)
  case Nil
  then show ?case by (simp add: eq_commute)
next
  case (Cons g gs)
  have names: "(\<forall>h \<in> set gs. dg_name h \<notin> set (dg_name g # names)) \<longleftrightarrow>
      dg_name g \<notin> dg_name ` set gs \<and> (\<forall>h \<in> set gs. dg_name h \<notin> set names)" by (auto simp: image_iff)
  show ?case unfolding check_groups_Cons Cons.IH names by (simp add: disj_assoc conj_ac)
qed

definition profile_ok :: "NodeHardwareProfile \<Rightarrow> bool" where
  "profile_ok p \<longleftrightarrow> hp_node_id p \<noteq> [] \<and> hp_logical_node_count p \<noteq> 0 \<and> hp_technology_generation p \<noteq> 0 \<and>
     hp_instance_generation p \<noteq> 0 \<and> hp_external_network_bandwidth p \<noteq> 0 \<and> hp_device_groups p \<noteq> [] \<and>
     list_all group_ok (hp_device_groups p) \<and> distinct (map dg_name (hp_device_groups p)) \<and>
     (case hp_kind p of
        kStorage \<Rightarrow> dg_kind ` set (hp_device_groups p) \<inter> {kHdd, kSsd} \<noteq> {}
      | kMetadata \<Rightarrow> kSsd \<in> dg_kind ` set (hp_device_groups p)
      | kOpticalLibrary \<Rightarrow> dg_kind ` set (hp_device_groups p) \<inter> {kHdd, kSsd} \<noteq> {} \<and>
          {kDisc, kOpticalDrive} \<subseteq> dg_kind ` set (hp_device_groups p)) \<and>
     pp_off (hp_power p) \<le> pp_standby (hp_power p) \<and> pp_standby (hp_power p) \<le> pp_medium (hp_power p) \<and>
     pp_medium (hp_power p) \<le> pp_peak (hp_power p) \<and> pp_peak (hp_power p) \<noteq> 0 \<and>
     rp_mean_lifetime_ms (hp_reliability p) \<noteq> 0 \<and> rp_minimum_lifetime_ms (hp_reliability p) \<noteq> 0 \<and>
     (rp_model (hp_reliability p) = kBathtubCurve \<and> rp_wearout_start_age_ms (hp_reliability p) \<noteq> 0 \<longrightarrow>
        rp_early_failure_window_ms (hp_reliability p) \<le> rp_wearout_start_age_ms (hp_reliability p))"

lemma check_devices_iff:
  "check_devices ds ids = Inr () \<longleftrightarrow> list_all (\<lambda>d. di_disk_id d \<noteq> [] \<and> di_free_bytes d \<le> di_capacity_bytes d) ds \<and>
     distinct (map di_disk_id ds) \<and> set (map di_disk_id ds) \<inter> set ids = {}"
  by (induction ds arbitrary: ids) (auto simp: not_less)

lemma kind_groups:
  "(dg_kind ` set gs \<inter> {kHdd, kSsd} \<noteq> {}) = (\<exists>g \<in> set gs. dg_kind g = kHdd \<or> dg_kind g = kSsd)"
  "(k \<in> dg_kind ` set gs) = (\<exists>g \<in> set gs. dg_kind g = k)"
  by blast+

lemma ValidateNodeHardwareProfile_iff:
  "ValidateNodeHardwareProfile p = Inr () \<longleftrightarrow> profile_ok p"
proof (cases "list_all group_ok (hp_device_groups p) \<and> distinct (map dg_name (hp_device_groups p))")
  case True
  let ?G = "set (hp_device_groups p)"
  have c: "check_groups (hp_device_groups p) [] (False, False, False, False) =
      Inr (\<exists>g \<in> ?G. dg_kind g = kHdd \<or> dg_kind g = kSsd, \<exists>g \<in> ?G. dg_kind g = kSsd,
           \<exists>g \<in> ?G. dg_kind g = kDisc, \<exists>g \<in> ?G. dg_kind g = kOpticalDrive)"
    using True by (simp add: check_groups_iff)
  show ?thesis
    unfolding ValidateNodeHardwareProfile_def profile_ok_def c kind_groups insert_subset sum.case prod.case if_Inl_iff
      not_less[symmetric]
    using True by (cases "hp_kind p") (simp_all only: NodeKind.case NodeKind.distinct simp_thms empty_subsetI, blast+)
next
  case False
  then obtain e where c: "check_groups (hp_device_groups p) [] (False, False, False, False) = Inl e"
    by (cases "check_groups (hp_device_groups p) [] (False, False, False, False)")
       (auto simp: check_groups_iff)
  have "\<not> profile_ok p" using False unfolding profile_ok_def by blast
  moreover have "ValidateNodeHardwareProfile p \<noteq> Inr ()"
    unfolding ValidateNodeHardwareProfile_def c by simp
  ultimately show ?thesis by simp
qed

lemma sat_sum_pos: "x \<in> set xs \<Longrightarrow> f x \<noteq> 0 \<Longrightarrow> sat_sum f xs \<noteq> 0"
proof -
  assume x: "x \<in> set xs" "f x \<noteq> 0"
  then have "0 < unat (f x)" "unat (f x) \<le> sum_list (map (\<lambda>x. unat (f x)) xs)"
    by (auto simp: unat_gt_0 intro: member_le_sum_list)
  then have "unat (sat_sum f xs) \<noteq> 0" unfolding unat_sat_sum by simp
  then show ?thesis by auto
qed

lemma SaturatingMultiply_eq_0_iff: "SaturatingMultiply a b = 0 \<longleftrightarrow> a = 0 \<or> b = 0"
proof -
  have "SaturatingMultiply a b = 0 \<longleftrightarrow> min (unat a * unat b) (2 ^ 64 - 1) = 0"
    using unat_SaturatingMultiply[of a b] unat_eq_zero[of "SaturatingMultiply a b"] by simp
  then show ?thesis by (auto simp: min_def unat_eq_zero split: if_splits)
qed

definition group_concurrency :: "DeviceGroup \<Rightarrow> u32" where
  "group_concurrency g = (if dg_max_concurrency g = 0 then dg_device_count g
     else min (dg_device_count g) (dg_max_concurrency g))"

lemma capacity_sum:
  "CalculateCapacityBytes p = sat_sum (\<lambda>g. SaturatingMultiply (dg_device_capacity_bytes g) (ucast (dg_device_count g)))
     (filter (\<lambda>g. dg_kind g \<noteq> kOpticalDrive) (hp_device_groups p))"
  unfolding CalculateCapacityBytes_def sat_sum_def foldl_if_filter[symmetric] by (rule foldl_cong) auto

lemma bandwidth_sum:
  assumes "path \<noteq> kArchive" "path \<noteq> kMigration"
  shows "CalculateInternalBandwidthBytesPerSecond p path direction =
    sat_sum (\<lambda>g. SaturatingMultiply (DeviceBandwidthBytesPerSecond g direction) (ucast (group_concurrency g)))
      (filter (\<lambda>g. GroupMatchesPath (dg_kind g) path \<and> DeviceBandwidthBytesPerSecond g direction \<noteq> 0) (hp_device_groups p))"
  unfolding CalculateInternalBandwidthBytesPerSecond_def sat_sum_def foldl_if_filter[symmetric] Let_def
  using assms by (auto simp: group_concurrency_def intro!: foldl_cong)

lemma ucast_u32_u64_eq_0: "(ucast (w :: u32) :: u64) = 0 \<longleftrightarrow> w = 0"
  by (metis unat_eq_zero unat_ucast_up[where 'a = 32 and 'b = 64, simplified])

lemma group_ok_concurrency: "group_ok g \<Longrightarrow> (ucast (group_concurrency g) :: u64) \<noteq> 0"
  by (auto simp: group_ok_def group_concurrency_def ucast_u32_u64_eq_0 min_def)

lemma bandwidth_pos:
  assumes "g \<in> set (hp_device_groups p)" "group_ok g" "GroupMatchesPath (dg_kind g) path"
    and "DeviceBandwidthBytesPerSecond g direction \<noteq> 0" "path \<noteq> kArchive" "path \<noteq> kMigration"
  shows "CalculateInternalBandwidthBytesPerSecond p path direction \<noteq> 0"
  unfolding bandwidth_sum[OF assms(5,6)]
  using assms(1-4) by (intro sat_sum_pos[of g]) (auto simp: SaturatingMultiply_eq_0_iff group_ok_concurrency)

lemma peak_estimate_valid:
  assumes "CalculateInternalBandwidthBytesPerSecond p path direction \<noteq> 0" "hp_external_network_bandwidth p \<noteq> 0"
  shows "pe_valid (EstimatePerformanceAtPower rl p n path direction kPeak q t)"
  using assms by (auto simp: EstimatePerformanceAtPower_def Let_def min_def)

text \<open>A hardware profile that validation accepts can serve: its capacity is not zero, the power draw
  grows with the power level, and at peak power the performance estimate is valid for reading or for
  writing, for an optical library also from disc in both directions.  Off and standby nodes never get a
  valid estimate.\<close>

theorem valid_profile_serves:
  assumes "ValidateNodeHardwareProfile p = Inr ()"
  shows "CalculateCapacityBytes p \<noteq> 0 \<and>
    PowerMilliwatts (hp_power p) kOff \<le> PowerMilliwatts (hp_power p) kStandby \<and>
    PowerMilliwatts (hp_power p) kStandby \<le> PowerMilliwatts (hp_power p) kMedium \<and>
    PowerMilliwatts (hp_power p) kMedium \<le> PowerMilliwatts (hp_power p) kPeak \<and>
    (\<exists>d. pe_valid (EstimatePerformanceAtPower rl p n kDefault d kPeak q t)) \<and>
    (hp_kind p = kOpticalLibrary \<longrightarrow> pe_valid (EstimatePerformanceAtPower rl p n kOpticalDisc kRead kPeak q t) \<and>
       pe_valid (EstimatePerformanceAtPower rl p n kOpticalDisc kWrite kPeak q t)) \<and>
    (lvl \<in> {kOff, kStandby} \<longrightarrow> \<not> pe_valid (EstimatePerformanceAtPower rl p n path dir lvl q t))"
proof -
  let ?G = "set (hp_device_groups p)"
  have ok: "profile_ok p" using assms ValidateNodeHardwareProfile_iff by simp
  then have gok: "\<And>g. g \<in> ?G \<Longrightarrow> group_ok g" and net: "hp_external_network_bandwidth p \<noteq> 0"
    by (auto simp: profile_ok_def list_all_iff)
  have "\<exists>g \<in> ?G. dg_kind g = kHdd \<or> dg_kind g = kSsd"
    using ok unfolding profile_ok_def kind_groups by (cases "hp_kind p") auto
  then obtain g where g: "g \<in> ?G" "dg_kind g \<in> {kHdd, kSsd}" by auto
  have "CalculateCapacityBytes p \<noteq> 0"
    unfolding capacity_sum using g gok[OF g(1)]
    by (intro sat_sum_pos[of g]) (auto simp: SaturatingMultiply_eq_0_iff group_ok_def IsDataDevice_def ucast_u32_u64_eq_0)
  moreover obtain d where "DeviceBandwidthBytesPerSecond g d \<noteq> 0"
    using gok[OF g(1)] g(2) unfolding group_ok_def by blast
  then have "pe_valid (EstimatePerformanceAtPower rl p n kDefault d kPeak q t)"
    using g gok[OF g(1)] net by (intro peak_estimate_valid bandwidth_pos[of g]) (auto simp: GroupMatchesPath_def)
  moreover have "pe_valid (EstimatePerformanceAtPower rl p n kOpticalDisc d kPeak q t)" if "hp_kind p = kOpticalLibrary" for d
  proof -
    have "kOpticalDrive \<in> dg_kind ` ?G" using ok that unfolding profile_ok_def by simp
    then obtain h where h: "h \<in> ?G" "dg_kind h = kOpticalDrive" unfolding kind_groups by blast
    then have "DeviceBandwidthBytesPerSecond h d \<noteq> 0" using gok[OF h(1)] unfolding group_ok_def by (cases d) auto
    then show ?thesis
      using h gok[OF h(1)] net by (intro peak_estimate_valid bandwidth_pos[of h]) (auto simp: GroupMatchesPath_def)
  qed
  moreover have "\<not> pe_valid (EstimatePerformanceAtPower rl p n path dir lvl q t)" if "lvl \<in> {kOff, kStandby}"
    using that by (auto simp: EstimatePerformanceAtPower_def Let_def)
  moreover have "pp_off (hp_power p) \<le> pp_standby (hp_power p)" "pp_standby (hp_power p) \<le> pp_medium (hp_power p)"
    "pp_medium (hp_power p) \<le> pp_peak (hp_power p)" using ok unfolding profile_ok_def by blast+
  ultimately show ?thesis by auto
qed

text \<open>The default profiles of the three node kinds pass validation for every nonempty node id.\<close>

lemma default_profiles_valid:
  assumes "node_id \<noteq> []"
  shows "ValidateNodeHardwareProfile (DefaultStorageNodeProfile node_id) = Inr ()"
    and "ValidateNodeHardwareProfile (DefaultMetadataNodeProfile node_id) = Inr ()"
    and "ValidateNodeHardwareProfile (DefaultOpticalLibraryProfile node_id) = Inr ()"
  using assms
  by (simp_all add: ValidateNodeHardwareProfile_def DefaultStorageNodeProfile_def DefaultMetadataNodeProfile_def
      DefaultOpticalLibraryProfile_def default_profile_def device_group_def lifetime_def IsDataDevice_def
      DeviceBandwidthBytesPerSecond_def kMegabyte_def kGigabyte_def kTerabyte_def kYearMs_def
      StoragePowerProfile_def MetadataPowerProfile_def OpticalPowerProfile_def)

theorem valid_profile_serves_witness:
  "CalculateCapacityBytes (DefaultOpticalLibraryProfile ''o1'') \<noteq> 0 \<and>
    pe_valid (EstimatePerformanceAtPower (\<lambda>x. x) (DefaultOpticalLibraryProfile ''o1'') 10 kOpticalDisc kWrite kPeak 0 0) \<and>
    \<not> pe_valid (EstimatePerformanceAtPower (\<lambda>x. x) (DefaultOpticalLibraryProfile ''o1'') 10 kDefault kRead kOff 0 0)"
  using valid_profile_serves[OF default_profiles_valid(3)[of "''o1''"], of "\<lambda>x. x" 10 0 0 kOff kDefault kRead]
  by (simp add: DefaultOpticalLibraryProfile_def)

end
