(* ===== verification/Node_Records.thy ===== *)
theory Node_Records
  imports Node_Model
begin

text \<open>
  The data of the scheduler's node catalog: the node records of
  \<open>src/src/storage_model/NodeModel.h\<close>, the inputs and the policy of
  \<open>src/src/scheduler/power/NodePowerManager.h\<close> and its state, with the orders the code and the proofs use
  on power levels and lifecycle states.
\<close>

section \<open>Orders on the enumerations\<close>

fun power_rank :: "PowerLevel \<Rightarrow> nat" where
  "power_rank kOff = 0" | "power_rank kStandby = 1" | "power_rank kMedium = 2" | "power_rank kPeak = 3"

lemma power_rank_inj: "power_rank a = power_rank b \<longleftrightarrow> a = b"
  by (cases a; cases b) auto

instantiation PowerLevel :: linorder
begin

definition less_eq_PowerLevel :: "PowerLevel \<Rightarrow> PowerLevel \<Rightarrow> bool" where
  "less_eq_PowerLevel a b \<longleftrightarrow> power_rank a \<le> power_rank b"

definition less_PowerLevel :: "PowerLevel \<Rightarrow> PowerLevel \<Rightarrow> bool" where
  "less_PowerLevel a b \<longleftrightarrow> power_rank a < power_rank b"

instance
  by standard (auto simp: less_eq_PowerLevel_def less_PowerLevel_def power_rank_inj[symmetric])

end

fun lifecycle_rank :: "LifecycleState \<Rightarrow> nat" where
  "lifecycle_rank kJoining = 0" | "lifecycle_rank kWorking = 1" | "lifecycle_rank kDraining = 2"
| "lifecycle_rank kExiting = 3" | "lifecycle_rank kRetired = 4"

lemma lifecycle_rank_inj: "lifecycle_rank a = lifecycle_rank b \<longleftrightarrow> a = b"
  by (cases a; cases b) auto

instantiation LifecycleState :: linorder
begin

definition less_eq_LifecycleState :: "LifecycleState \<Rightarrow> LifecycleState \<Rightarrow> bool" where
  "less_eq_LifecycleState a b \<longleftrightarrow> lifecycle_rank a \<le> lifecycle_rank b"

definition less_LifecycleState :: "LifecycleState \<Rightarrow> LifecycleState \<Rightarrow> bool" where
  "less_LifecycleState a b \<longleftrightarrow> lifecycle_rank a < lifecycle_rank b"

instance
  by standard (auto simp: less_eq_LifecycleState_def less_LifecycleState_def lifecycle_rank_inj[symmetric])

end

section \<open>Records\<close>

record NodeMetricsStreamState =
  st_access_path :: AccessPath
  st_reporter_epoch :: u64
  st_report_sequence :: u64
  st_window_end_ms :: u64
  st_utilization :: rat
  st_queue_depth :: u32
  st_retired :: bool
  st_read_operations :: u64
  st_write_operations :: u64
  st_read_bytes :: u64
  st_write_bytes :: u64

record NodeReadinessStatus =
  rs_observed :: bool
  rs_initialization_complete :: bool
  rs_inventory_ready :: bool
  rs_metadata_ready :: bool
  rs_observed_at_ms :: u64
  rs_message :: string

definition Ready :: "NodeReadinessStatus \<Rightarrow> bool" where
  "Ready r \<longleftrightarrow> rs_observed r \<and> rs_initialization_complete r \<and> rs_inventory_ready r \<and> rs_metadata_ready r"

record NodeRecord =
  n_profile :: NodeHardwareProfile
  n_identity :: NodeIdentity
  n_inventory :: NodeInventorySnapshot
  n_lifecycle :: LifecycleState
  n_health :: HealthState
  n_administrative_state :: AdministrativeState
  n_service_mode :: NodeServiceMode
  n_power_level :: PowerLevel
  n_actuated_power_level :: PowerLevel
  n_transition :: TransitionState
  n_join_time_ms :: u64
  n_sampled_lifetime_ms :: u64
  n_planned_exit_time_ms :: u64
  n_actual_exit_time_ms :: u64
  n_last_heartbeat_ms :: u64
  n_last_access_ms :: u64
  n_last_metrics_end_ms :: u64
  n_last_metrics_sequence :: u64
  n_last_metrics_reporter_epoch :: u64
  n_power_state_enter_ms :: u64
  n_last_energy_update_ms :: u64
  n_energy_microjoules :: u64
  n_last_actuated_energy_update_ms :: u64
  n_actuated_energy_microjoules :: u64
  n_resident_data_bytes :: u64
  n_last_utilization :: rat
  n_last_queue_depth :: u32
  n_access_operation_count :: u64
  n_accumulated_write_bytes :: u64
  n_wake_count :: u64
  n_standby_transition_count :: u64
  n_power_off_count :: u64
  n_replacement_count :: u64
  n_predecessor_node_id :: string
  n_drain_remaining_objects :: u64
  n_drain_remaining_bytes :: u64
  n_drain_active_requests :: u32
  n_drain_last_report_ms :: u64
  n_failure_reason :: string
  n_failure_source :: FailureSource
  n_last_power_actuation_ms :: u64
  n_last_power_actuation_error :: string
  n_reliability_seed :: u64
  n_next_failure_time_ms :: u64
  n_repair_due_time_ms :: u64
  n_failure_count :: u64
  n_optical_library :: OpticalLibraryStatus
  n_readiness :: NodeReadinessStatus
  n_metrics_streams :: "NodeMetricsStreamState list"

record NodeAccessMetrics =
  am_reporter_epoch :: u64
  am_report_sequence :: u64
  am_window_start_ms :: u64
  am_window_end_ms :: u64
  am_read_operations :: u64
  am_write_operations :: u64
  am_other_operations :: u64
  am_read_bytes :: u64
  am_write_bytes :: u64
  am_active_requests :: u32
  am_max_queue_depth :: u32
  am_busy_time_ms :: u64
  am_last_access_ms :: u64
  am_access_path :: AccessPath
  am_instance_generation :: u64

record NodeAccessEvent =
  ev_event_time_us :: u64
  ev_is_read :: bool
  ev_is_write :: bool
  ev_bytes :: u64
  ev_queue_depth :: u32
  ev_access_path :: AccessPath

record PowerPolicy =
  pol_peak_utilization :: rat
  pol_peak_queue_depth :: u32
  pol_metrics_freshness_ms :: u64
  pol_standby_after_ms :: u64
  pol_off_after_ms :: u64
  pol_minimum_residency_ms :: u64
  pol_allow_off_with_resident_data :: bool
  pol_min_online_storage_nodes :: u32
  pol_min_online_metadata_nodes :: u32
  pol_min_online_optical_nodes :: u32
  pol_min_online_storage_capacity_bytes :: u64
  pol_min_online_storage_free_bytes :: u64
  pol_history_max_samples :: u32

record NodePowerSummary =
  su_generation :: u64
  su_total_nodes :: u64
  su_joining_nodes :: u64
  su_working_nodes :: u64
  su_draining_nodes :: u64
  su_failed_nodes :: u64
  su_retired_nodes :: u64
  su_storage_nodes :: u64
  su_metadata_nodes :: u64
  su_optical_library_nodes :: u64
  su_peak_nodes :: u64
  su_medium_nodes :: u64
  su_standby_nodes :: u64
  su_off_nodes :: u64
  su_total_power_milliwatts :: u64
  su_total_energy_microjoules :: u64
  su_total_actuated_power_milliwatts :: u64
  su_total_actuated_energy_microjoules :: u64
  su_total_capacity_bytes :: u64
  su_total_free_bytes :: u64
  su_total_used_bytes :: u64
  su_available_capacity_bytes :: u64
  su_unavailable_capacity_bytes :: u64
  su_accumulated_write_bytes :: u64
  su_wake_count :: u64
  su_standby_transition_count :: u64
  su_power_off_count :: u64
  su_replacement_count :: u64

record NodePowerSample =
  ps_timestamp_ms :: u64
  ps_summary :: NodePowerSummary

record NodePowerManager =
  pm_policy :: PowerPolicy
  pm_generation :: u64
  pm_nodes :: "(string \<times> NodeRecord) list"
  pm_history :: "NodePowerSample list"

record NodeCatalogSnapshot =
  cs_format_version :: u32
  cs_generation :: u64
  cs_nodes :: "NodeRecord list"
  cs_history :: "NodePowerSample list"

text \<open>Roundings of \<open>long double\<close> and \<open>double\<close>, the draw of the normal distribution for a mean, a deviation
  and a seed, and \<open>-log(1 - u) * mean\<close> for the uniform draw \<open>u\<close> of a seed.\<close>

record float_env =
  fe_rl :: "rat \<Rightarrow> rat"
  fe_rd :: "rat \<Rightarrow> rat"
  fe_normal :: "rat \<Rightarrow> rat \<Rightarrow> u64 \<Rightarrow> rat"
  fe_interval :: "rat \<Rightarrow> u64 \<Rightarrow> rat"

datatype power_error =
    InvalidPolicyUtilization | InvalidPolicyThresholds | InvalidNode model_error | RetiredNodeId string
  | NodeExists string | NodeNotFound string | PredecessorNotFound string | PredecessorNotRetired
  | ReplacementKind | ReplacementGeneration | NotJoining | NotReady | AlreadyExiting | DrainIncomplete
  | StillResidentData | OpticalNotObserved | OpticalStillOccupied | PhysicalNotOff | RetiredCannotFail
  | NotRepairable | RetiredHeartbeat string | StaleHeartbeat | StaleInventoryGeneration | RetiredReadiness
  | ReadinessGeneration | ReadinessNotObserved | StaleReadiness | OpticalGeneration | OpticalDowngrade
  | NotOpticalLibrary | RetiredOptical | StaleOptical | RetiredStaysDisabled | DrainingCannotEnable
  | RetiredServiceMode | ServiceModeKind | FullyRecorded | CompactIdZero | CompactIdWidth | CompactIdImmutable
  | PowerOffUnsafe | MetricsWindow | MetricsUnavailable | MetricsGeneration | StaleMetrics | EventUnavailable
  | LateEvent | NotDraining | StaleDrain | SnapshotVersion | SnapshotInventory model_error
  | SnapshotOptical model_error | SnapshotDuplicate string

end
