(* ===== verification/Node_Power.thy ===== *)
theory Node_Power
  imports Node_Records "HOL-Library.AList" "HOL-Library.List_Lexorder" "HOL-Library.Char_ord"
begin

text \<open>
  The node catalog and power manager of the scheduler
  (\<open>src/src/scheduler/power/NodePowerManager.cpp\<close>, its header and the node records of
  \<open>src/src/storage_model/NodeModel.h\<close>): registration, activation, draining, retirement, failure and repair of
  nodes, heartbeats, optical-library status, metrics, the power policy with its energy accounting, ticks,
  summaries, snapshots.  Every public operation is a function from the manager to an error or the next
  manager; a rejected call changes nothing, as in the code, where every check precedes the first write.

  \<open>nodes_\<close> is an association list: its order stands for the unspecified iteration order of the hash map.
  The code works on a reference into \<open>nodes_\<close> while \<open>CanPowerOffLocked\<close> scans the map; the model scans the
  map with the candidate's old record, which the scan skips by its node id.  Floating point follows
  \<open>Node_Model\<close>; what the random-number library draws is part of the parameter \<open>float_env\<close>.
\<close>

section \<open>Sampling of failures\<close>

definition ValidatePowerPolicy :: "PowerPolicy \<Rightarrow> power_error + unit" where
  "ValidatePowerPolicy policy =
     (if pol_peak_utilization policy < 0 \<or> pol_peak_utilization policy > 1 then Inl InvalidPolicyUtilization
      else if pol_off_after_ms policy \<le> pol_standby_after_ms policy then Inl InvalidPolicyThresholds
      else Inr ())"

definition new_manager :: "PowerPolicy \<Rightarrow> power_error + NodePowerManager" where
  "new_manager policy = (case ValidatePowerPolicy policy of Inl e \<Rightarrow> Inl e
     | Inr u \<Rightarrow> Inr \<lparr>pm_policy = policy, pm_generation = 1, pm_nodes = [], pm_history = []\<rparr>)"

definition SampleFailureIntervalMs :: "float_env \<Rightarrow> u64 \<Rightarrow> u64 \<Rightarrow> u64" where
  "SampleFailureIntervalMs env mean_ms seed =
     (if mean_ms = 0 then 0
      else let sampled = fe_interval env (to_ld (fe_rl env) mean_ms) seed
           in if sampled \<ge> to_ld (fe_rl env) (- 1) then - 1 else max 1 (from_ld sampled))"

definition FailureMeanMsForFit :: "float_env \<Rightarrow> u64 \<Rightarrow> u64" where
  "FailureMeanMsForFit env failure_rate_fit =
     (if failure_rate_fit = 0 then 0
      else let mean = fe_rl env (fe_rl env (1000000000 * 3600000) / to_ld (fe_rl env) failure_rate_fit)
           in if mean \<ge> to_ld (fe_rl env) (- 1) then - 1 else max 1 (from_ld mean))"

text \<open>The loop over at most three phases of the bathtub curve: the failure time found, if any.\<close>

fun failure_phases :: "float_env \<Rightarrow> NodeRecord \<Rightarrow> nat \<Rightarrow> u64 \<Rightarrow> u64 \<Rightarrow> u64 option" where
  "failure_phases env node 0 cursor phase_attempt = None"
| "failure_phases env node (Suc remaining) cursor phase_attempt =
     (let reliability = hp_reliability (n_profile node);
          age = cursor - n_join_time_ms node;
          (fit, phase_end_age) =
            (if rp_early_failure_window_ms reliability \<noteq> 0 \<and> age < rp_early_failure_window_ms reliability
             then (rp_early_failure_rate_fit reliability, rp_early_failure_window_ms reliability)
             else if rp_wearout_start_age_ms reliability = 0 \<or> age < rp_wearout_start_age_ms reliability
             then (rp_useful_life_failure_rate_fit reliability, rp_wearout_start_age_ms reliability)
             else (rp_wearout_failure_rate_fit reliability, 0));
          mean_ms = FailureMeanMsForFit env fit;
          candidate = SaturatingAdd cursor (SampleFailureIntervalMs env mean_ms
                        (n_reliability_seed node + n_failure_count node * 7 + phase_attempt));
          phase_end = (if phase_end_age = 0 then 0 else SaturatingAdd (n_join_time_ms node) phase_end_age)
      in if mean_ms \<noteq> 0 \<and> (phase_end = 0 \<or> candidate < phase_end) then Some candidate
         else if phase_end_age = 0 then None
         else let next_ms = SaturatingAdd (n_join_time_ms node) phase_end_age
              in if next_ms \<le> cursor then None
                 else failure_phases env node remaining next_ms (phase_attempt + 1))"

definition ScheduleNextFailureTime :: "float_env \<Rightarrow> NodeRecord \<Rightarrow> u64 \<Rightarrow> u64" where
  "ScheduleNextFailureTime env node from_ms =
     (let reliability = hp_reliability (n_profile node);
          exponential = (if rp_mean_time_between_failures_ms reliability = 0 then 0
            else SaturatingAdd from_ms (SampleFailureIntervalMs env (rp_mean_time_between_failures_ms reliability)
                   (n_reliability_seed node + n_failure_count node)))
      in if rp_model reliability \<noteq> kBathtubCurve then exponential
         else case failure_phases env node 3 (max from_ms (n_join_time_ms node)) 0 of
                Some t \<Rightarrow> t | None \<Rightarrow> exponential)"

section \<open>Energy and power level of one node\<close>

definition CapacityBytesForSafety :: "NodeRecord \<Rightarrow> u64" where
  "CapacityBytesForSafety node =
     (if is_devices (n_inventory node) = [] then CalculateCapacityBytes (n_profile node)
      else InventoryHealthyCapacityBytes (n_inventory node))"

definition FreeBytesForSafety :: "NodeRecord \<Rightarrow> u64" where
  "FreeBytesForSafety node =
     (if is_devices (n_inventory node) \<noteq> [] then InventoryHealthyFreeBytes (n_inventory node)
      else let capacity = CalculateCapacityBytes (n_profile node)
           in if capacity > n_resident_data_bytes node then capacity - n_resident_data_bytes node else 0)"

definition IntegrateEnergyLocked :: "NodeRecord \<Rightarrow> u64 \<Rightarrow> NodeRecord" where
  "IntegrateEnergyLocked node now_ms =
     (let node1 = (if now_ms > n_last_energy_update_ms node then
            node\<lparr>n_energy_microjoules := SaturatingAdd (n_energy_microjoules node)
                   (SaturatingMultiply (PowerMilliwatts (hp_power (n_profile node)) (n_power_level node))
                      (now_ms - n_last_energy_update_ms node)),
                 n_last_energy_update_ms := now_ms\<rparr> else node)
      in if now_ms > n_last_actuated_energy_update_ms node1 then
            node1\<lparr>n_actuated_energy_microjoules := SaturatingAdd (n_actuated_energy_microjoules node1)
                   (SaturatingMultiply (PowerMilliwatts (hp_power (n_profile node1)) (n_actuated_power_level node1))
                      (now_ms - n_last_actuated_energy_update_ms node1)),
                  n_last_actuated_energy_update_ms := now_ms\<rparr> else node1)"

definition SetPowerLevelLocked :: "PowerPolicy \<Rightarrow> NodeRecord \<Rightarrow> PowerLevel \<Rightarrow> u64 \<Rightarrow> bool \<Rightarrow> bool \<times> NodeRecord" where
  "SetPowerLevelLocked policy node level now_ms force =
     (if n_power_level node = level then (False, node)
      else if \<not> force \<and> level < n_power_level node \<and> now_ms \<ge> n_power_state_enter_ms node \<and>
              now_ms - n_power_state_enter_ms node < pol_minimum_residency_ms policy then (False, node)
      else let node1 = IntegrateEnergyLocked node now_ms;
               previous = n_power_level node1;
               node2 = node1\<lparr>n_power_level := level, n_power_state_enter_ms := now_ms\<rparr>;
               node3 = (if (previous = kOff \<or> previous = kStandby) \<and> (level = kMedium \<or> level = kPeak)
                        then node2\<lparr>n_wake_count := n_wake_count node2 + 1\<rparr> else node2);
               node4 = (if level = kStandby
                        then node3\<lparr>n_standby_transition_count := n_standby_transition_count node3 + 1\<rparr> else node3);
               node5 = (if level = kOff then node4\<lparr>n_power_off_count := n_power_off_count node4 + 1\<rparr> else node4)
           in (True, node5))"

definition optical_busy :: "OpticalLibraryStatus \<Rightarrow> bool" where
  "optical_busy ol \<longleftrightarrow> ol_pending_archive_batches ol \<noteq> 0 \<or> ol_background_tasks ol \<noteq> 0 \<or>
     ol_pending_write_tasks ol \<noteq> 0 \<or> ol_pending_read_tasks ol \<noteq> 0 \<or> ol_busy_drives ol \<noteq> 0"

definition DesiredPowerLevelLocked :: "PowerPolicy \<Rightarrow> NodeRecord \<Rightarrow> u64 \<Rightarrow> PowerLevel" where
  "DesiredPowerLevelLocked policy node now_ms =
     (let ol = n_optical_library node;
          fresh = (now_ms \<ge> n_last_metrics_end_ms node \<and>
                   now_ms - n_last_metrics_end_ms node < pol_metrics_freshness_ms policy);
          loaded = (n_last_utilization node \<ge> pol_peak_utilization policy \<or>
                    n_last_queue_depth node \<ge> pol_peak_queue_depth policy)
      in if n_health node = kFailed \<or> n_administrative_state node = kDisabled \<or> n_lifecycle node = kJoining \<or>
            n_lifecycle node = kExiting \<or> n_lifecycle node = kRetired then kOff
         else if hp_kind (n_profile node) = kOpticalLibrary \<and> ol_telemetry_version ol \<noteq> 0 \<and>
                 (\<not> ol_observed ol \<or> \<not> ol_inventory_valid ol \<or> \<not> ol_staging_valid ol \<or> \<not> ol_background_valid ol \<or>
                  now_ms > ol_valid_until_ms ol) then kMedium
         else if hp_kind (n_profile node) = kOpticalLibrary \<and> ol_observed ol \<and> optical_busy ol then
                if fresh \<and> loaded then kPeak else kMedium
         else let idle_ms = (if now_ms > n_last_access_ms node then now_ms - n_last_access_ms node else 0);
                  may_power_off = (pol_allow_off_with_resident_data policy \<or> n_resident_data_bytes node = 0)
              in if idle_ms \<ge> pol_off_after_ms policy \<and> may_power_off then kOff
                 else if idle_ms \<ge> pol_standby_after_ms policy then kStandby
                 else if fresh \<and> loaded then kPeak
                 else kMedium)"

text \<open>The nodes that keep serving when the candidate is switched off.\<close>

definition remains_online :: "NodeRecord \<Rightarrow> NodeRecord \<Rightarrow> bool" where
  "remains_online candidate node \<longleftrightarrow> \<not> (hp_node_id (n_profile node) = hp_node_id (n_profile candidate) \<or>
     n_lifecycle node \<noteq> kWorking \<or> n_health node = kFailed \<or> n_administrative_state node \<noteq> kEnabled \<or>
     n_power_level node = kOff \<or> n_transition node \<noteq> kStable \<or>
     (hp_execution_mode (n_profile node) = kPhysical \<and> n_actuated_power_level node = kOff))"

definition minimum_online :: "PowerPolicy \<Rightarrow> NodeKind \<Rightarrow> u32" where
  "minimum_online policy kind = (case kind of kStorage \<Rightarrow> pol_min_online_storage_nodes policy
     | kMetadata \<Rightarrow> pol_min_online_metadata_nodes policy | kOpticalLibrary \<Rightarrow> pol_min_online_optical_nodes policy)"

definition CanPowerOffLocked :: "PowerPolicy \<Rightarrow> (string \<times> NodeRecord) list \<Rightarrow> NodeRecord \<Rightarrow> bool" where
  "CanPowerOffLocked policy nodes candidate =
     (case foldl (\<lambda>(same_kind :: u32, capacity, free) (key, node).
          if \<not> remains_online candidate node then (same_kind, capacity, free)
          else let same_kind1 = (if hp_kind (n_profile node) = hp_kind (n_profile candidate) then same_kind + 1 else same_kind)
               in if hp_kind (n_profile node) = kStorage
                  then (same_kind1, SaturatingAdd capacity (CapacityBytesForSafety node),
                        SaturatingAdd free (FreeBytesForSafety node))
                  else (same_kind1, capacity, free)) (0, 0, 0) nodes of
        (remaining_same_kind, remaining_storage_capacity, remaining_storage_free) \<Rightarrow>
          if remaining_same_kind < minimum_online policy (hp_kind (n_profile candidate)) then False
          else if hp_kind (n_profile candidate) = kStorage \<and>
                  (remaining_storage_capacity < pol_min_online_storage_capacity_bytes policy \<or>
                   remaining_storage_free < pol_min_online_storage_free_bytes policy) then False
          else True)"

text \<open>The level the policy aims at, with the standby level instead of an unsafe power-off.\<close>

definition safe_desired :: "PowerPolicy \<Rightarrow> (string \<times> NodeRecord) list \<Rightarrow> NodeRecord \<Rightarrow> u64 \<Rightarrow> PowerLevel" where
  "safe_desired policy nodes node now_ms =
     (let desired = DesiredPowerLevelLocked policy node now_ms
      in if desired = kOff \<and> n_lifecycle node = kWorking \<and> \<not> CanPowerOffLocked policy nodes node then kStandby
         else desired)"

definition consider_boundary :: "u64 \<Rightarrow> u64 \<Rightarrow> u64 \<Rightarrow> u64" where
  "consider_boundary cursor_ms next_ms boundary_ms =
     (if boundary_ms > cursor_ms \<and> boundary_ms < next_ms then boundary_ms else next_ms)"

definition next_boundary :: "PowerPolicy \<Rightarrow> NodeRecord \<Rightarrow> u64 \<Rightarrow> u64 \<Rightarrow> u64" where
  "next_boundary policy node cursor_ms now_ms =
     foldl (consider_boundary cursor_ms) now_ms
       ([SaturatingAdd (n_last_metrics_end_ms node) (pol_metrics_freshness_ms policy),
         SaturatingAdd (n_last_access_ms node) (pol_standby_after_ms policy),
         SaturatingAdd (n_last_access_ms node) (pol_off_after_ms policy),
         SaturatingAdd (n_power_state_enter_ms node) (pol_minimum_residency_ms policy)] @
        (if ol_telemetry_version (n_optical_library node) \<noteq> 0
         then [SaturatingAdd (ol_valid_until_ms (n_optical_library node)) 1] else []))"

lemma IntegrateEnergyLocked_last [simp]:
  "n_last_energy_update_ms (IntegrateEnergyLocked node t) = max (n_last_energy_update_ms node) t"
  by (auto simp: IntegrateEnergyLocked_def Let_def max_def)

lemma SetPowerLevelLocked_last:
  "n_last_energy_update_ms (snd (SetPowerLevelLocked policy node level t force)) \<in>
     {n_last_energy_update_ms node, max (n_last_energy_update_ms node) t}"
  by (simp add: SetPowerLevelLocked_def Let_def)

lemma foldl_consider_boundary:
  "cursor < now_ms \<Longrightarrow> cursor < foldl (consider_boundary cursor) now_ms bs \<and> foldl (consider_boundary cursor) now_ms bs \<le> now_ms"
  by (induction bs arbitrary: now_ms) (fastforce simp: consider_boundary_def intro: order_trans less_imp_le)+

lemma next_boundary_bounds: "cursor < now_ms \<Longrightarrow> cursor < next_boundary policy node cursor now_ms \<and>
    next_boundary policy node cursor now_ms \<le> now_ms"
  unfolding next_boundary_def by (rule foldl_consider_boundary)

text \<open>The loop of \<open>AdvancePowerPolicyLocked\<close>: from boundary to boundary up to \<open>now_ms\<close>.\<close>

function advance_loop ::
  "PowerPolicy \<Rightarrow> (string \<times> NodeRecord) list \<Rightarrow> u64 \<Rightarrow> bool \<times> NodeRecord \<Rightarrow> bool \<times> NodeRecord" where
  "advance_loop policy nodes now_ms (changed, node) =
     (if n_last_energy_update_ms node < now_ms then
        let cursor_ms = n_last_energy_update_ms node;
            (set1, node1) = SetPowerLevelLocked policy node (safe_desired policy nodes node cursor_ms) cursor_ms False;
            node2 = IntegrateEnergyLocked node1 (next_boundary policy node1 cursor_ms now_ms)
        in advance_loop policy nodes now_ms (set1 \<or> changed, node2)
      else (changed, node))"
  by pat_completeness auto
termination
proof (relation "measure (\<lambda>(policy, nodes, now_ms, c, node). unat now_ms - unat (n_last_energy_update_ms node))")
  fix policy nodes now_ms changed node cursor_ms x set1 node1 node2
  assume lt: "n_last_energy_update_ms node < now_ms" and c: "cursor_ms = n_last_energy_update_ms node"
    and x: "x = SetPowerLevelLocked policy node (safe_desired policy nodes node cursor_ms) cursor_ms False"
      "(set1, node1) = x"
    and n2: "node2 = IntegrateEnergyLocked node1 (next_boundary policy node1 cursor_ms now_ms)"
  have "node1 = snd (SetPowerLevelLocked policy node (safe_desired policy nodes node cursor_ms) cursor_ms False)"
    using x by (metis snd_conv)
  then have "n_last_energy_update_ms node1 = cursor_ms"
    using SetPowerLevelLocked_last[of policy node "safe_desired policy nodes node cursor_ms" cursor_ms False] c by auto
  then have "cursor_ms < n_last_energy_update_ms node2"
    using next_boundary_bounds[of cursor_ms now_ms policy node1] lt c n2 by (auto simp: max_def)
  then show "((policy, nodes, now_ms, set1 \<or> changed, node2), policy, nodes, now_ms, changed, node) \<in>
      measure (\<lambda>(policy, nodes, now_ms, c, node). unat now_ms - unat (n_last_energy_update_ms node))"
    using lt c by (auto simp: word_less_nat_alt)
qed simp

declare advance_loop.simps [simp del]

definition AdvancePowerPolicyLocked ::
  "PowerPolicy \<Rightarrow> (string \<times> NodeRecord) list \<Rightarrow> NodeRecord \<Rightarrow> u64 \<Rightarrow> bool \<times> NodeRecord" where
  "AdvancePowerPolicyLocked policy nodes node now_ms =
     (if now_ms \<le> n_last_energy_update_ms node then (False, node)
      else case advance_loop policy nodes now_ms (False, node) of
        (changed, node1) \<Rightarrow>
          (case SetPowerLevelLocked policy node1 (safe_desired policy nodes node1 now_ms) now_ms False of
             (set1, node2) \<Rightarrow> (set1 \<or> changed, node2)))"

section \<open>Operations on one node of the catalog\<close>

text \<open>The common shape of the operations: find the node, check, update it in place, advance the catalog
  generation when something changed.\<close>

definition bump :: "bool \<Rightarrow> NodePowerManager \<Rightarrow> NodePowerManager" where
  "bump changed m = (if changed then m\<lparr>pm_generation := pm_generation m + 1\<rparr> else m)"

definition with_node ::
  "NodePowerManager \<Rightarrow> string \<Rightarrow> (NodeRecord \<Rightarrow> power_error + bool \<times> NodeRecord) \<Rightarrow> power_error + NodePowerManager" where
  "with_node m node_id f =
     (case map_of (pm_nodes m) node_id of
        None \<Rightarrow> Inl (NodeNotFound node_id)
      | Some node \<Rightarrow>
          (case f node of
             Inl e \<Rightarrow> Inl e
           | Inr (changed, node1) \<Rightarrow> Inr (bump changed (m\<lparr>pm_nodes := AList.update node_id node1 (pm_nodes m)\<rparr>))))"

abbreviation advance :: "NodePowerManager \<Rightarrow> NodeRecord \<Rightarrow> u64 \<Rightarrow> NodeRecord" where
  "advance m node now_ms \<equiv> snd (AdvancePowerPolicyLocked (pm_policy m) (pm_nodes m) node now_ms)"

abbreviation set_power :: "NodePowerManager \<Rightarrow> NodeRecord \<Rightarrow> PowerLevel \<Rightarrow> u64 \<Rightarrow> NodeRecord" where
  "set_power m node level now_ms \<equiv> snd (SetPowerLevelLocked (pm_policy m) node level now_ms True)"

definition empty_optical :: OpticalLibraryStatus where
  "empty_optical = \<lparr>ol_observed = False, ol_total_slots = 0, ol_local_disc_count = 0, ol_blank_disc_count = 0,
     ol_recording_disc_count = 0, ol_recorded_disc_count = 0, ol_defective_disc_count = 0, ol_staging_capacity_bytes = 0,
     ol_staging_used_bytes = 0, ol_pending_write_tasks = 0, ol_pending_read_tasks = 0, ol_busy_drives = 0,
     ol_observed_at_ms = 0, ol_telemetry_version = 0, ol_inventory_valid = False, ol_staging_valid = False,
     ol_background_valid = False, ol_physical_health_observed = False, ol_observation_source = [],
     ol_collection_error = [], ol_pending_archive_batches = 0, ol_background_tasks = 0,
     ol_staging_read_reserved_bytes = 0, ol_staging_write_reserved_bytes = 0, ol_configured_disc_count = 0,
     ol_valid_until_ms = 0, ol_accepts_archive_writes = False\<rparr>"

text \<open>A default-initialised record with the given profile.\<close>

definition default_node :: "NodeHardwareProfile \<Rightarrow> NodeRecord" where
  "default_node profile = \<lparr>n_profile = profile,
     n_identity = \<lparr>ni_node_id = [], ni_compact_id = 0, ni_kind = kStorage, ni_execution_mode = kPhysical,
                   ni_service_address = []\<rparr>,
     n_inventory = \<lparr>is_node_id = [], is_generation = 0, is_observed_at_ms = 0, is_devices = []\<rparr>,
     n_lifecycle = kJoining, n_health = kHealthy, n_administrative_state = kEnabled, n_service_mode = kReadWrite,
     n_power_level = kOff, n_actuated_power_level = kOff, n_transition = kStable, n_join_time_ms = 0,
     n_sampled_lifetime_ms = 0, n_planned_exit_time_ms = 0, n_actual_exit_time_ms = 0, n_last_heartbeat_ms = 0,
     n_last_access_ms = 0, n_last_metrics_end_ms = 0, n_last_metrics_sequence = 0, n_last_metrics_reporter_epoch = 0,
     n_power_state_enter_ms = 0, n_last_energy_update_ms = 0, n_energy_microjoules = 0,
     n_last_actuated_energy_update_ms = 0, n_actuated_energy_microjoules = 0, n_resident_data_bytes = 0,
     n_last_utilization = 0, n_last_queue_depth = 0, n_access_operation_count = 0, n_accumulated_write_bytes = 0,
     n_wake_count = 0, n_standby_transition_count = 0, n_power_off_count = 0, n_replacement_count = 0,
     n_predecessor_node_id = [], n_drain_remaining_objects = 0, n_drain_remaining_bytes = 0, n_drain_active_requests = 0,
     n_drain_last_report_ms = 0, n_failure_reason = [], n_failure_source = kNone, n_last_power_actuation_ms = 0,
     n_last_power_actuation_error = [], n_reliability_seed = 0, n_next_failure_time_ms = 0, n_repair_due_time_ms = 0,
     n_failure_count = 0, n_optical_library = empty_optical,
     n_readiness = \<lparr>rs_observed = False, rs_initialization_complete = False, rs_inventory_ready = False,
                    rs_metadata_ready = False, rs_observed_at_ms = 0, rs_message = []\<rparr>,
     n_metrics_streams = []\<rparr>"

definition registered_node :: "float_env \<Rightarrow> NodeHardwareProfile \<Rightarrow> u64 \<Rightarrow> u64 \<Rightarrow> NodeRecord" where
  "registered_node env profile join_time_ms lifetime_seed =
     (let node = default_node profile;
          lifetime_ms = SampleLifetimeMs (fe_rl env) (fe_normal env) (hp_reliability profile) lifetime_seed;
          node1 = node\<lparr>
            n_identity := (n_identity node)\<lparr>ni_node_id := hp_node_id profile, ni_kind := hp_kind profile,
                             ni_execution_mode := hp_execution_mode profile\<rparr>,
            n_inventory := (n_inventory node)\<lparr>is_node_id := hp_node_id profile\<rparr>,
            n_join_time_ms := join_time_ms, n_sampled_lifetime_ms := lifetime_ms,
            n_planned_exit_time_ms := SaturatingAdd join_time_ms lifetime_ms, n_reliability_seed := lifetime_seed\<rparr>
      in node1\<lparr>n_next_failure_time_ms := ScheduleNextFailureTime env node1 join_time_ms,
           n_last_access_ms := join_time_ms, n_power_state_enter_ms := join_time_ms,
           n_last_energy_update_ms := join_time_ms, n_last_actuated_energy_update_ms := join_time_ms,
           n_last_power_actuation_ms := join_time_ms\<rparr>)"

definition RegisterNode ::
  "float_env \<Rightarrow> NodePowerManager \<Rightarrow> NodeHardwareProfile \<Rightarrow> u64 \<Rightarrow> u64 \<Rightarrow> power_error + NodePowerManager" where
  "RegisterNode env m profile join_time_ms lifetime_seed =
     (case ValidateNodeHardwareProfile profile of
        Inl e \<Rightarrow> Inl (InvalidNode e)
      | Inr u \<Rightarrow>
          (case map_of (pm_nodes m) (hp_node_id profile) of
             Some existing \<Rightarrow> Inl (if n_lifecycle existing = kRetired then RetiredNodeId (hp_node_id profile)
                                  else NodeExists (hp_node_id profile))
           | None \<Rightarrow> Inr (bump True (m\<lparr>pm_nodes := pm_nodes m @
                       [(hp_node_id profile, registered_node env profile join_time_ms lifetime_seed)]\<rparr>))))"

definition RegisterReplacementNode ::
  "float_env \<Rightarrow> NodePowerManager \<Rightarrow> NodeHardwareProfile \<Rightarrow> string \<Rightarrow> u64 \<Rightarrow> u64 \<Rightarrow> power_error + NodePowerManager" where
  "RegisterReplacementNode env m profile predecessor_node_id join_time_ms lifetime_seed =
     (case (if predecessor_node_id = [] then None else map_of (pm_nodes m) predecessor_node_id) of
        None \<Rightarrow> Inl (PredecessorNotFound predecessor_node_id)
      | Some predecessor \<Rightarrow>
          if n_lifecycle predecessor \<noteq> kRetired then Inl PredecessorNotRetired
          else if hp_kind profile \<noteq> hp_kind (n_profile predecessor) then Inl ReplacementKind
          else if hp_technology_generation profile \<le> hp_technology_generation (n_profile predecessor)
            then Inl ReplacementGeneration
          else (case RegisterNode env m profile join_time_ms lifetime_seed of
                  Inl e \<Rightarrow> Inl e
                | Inr m1 \<Rightarrow> Inr (bump True (m1\<lparr>pm_nodes := map (\<lambda>(k, node).
                     (k, let node1 = (if k = hp_node_id profile
                                      then node\<lparr>n_predecessor_node_id := predecessor_node_id\<rparr> else node)
                         in if k = predecessor_node_id
                            then node1\<lparr>n_replacement_count := n_replacement_count node1 + 1\<rparr> else node1))
                     (pm_nodes m1)\<rparr>))))"

definition ActivateNode :: "NodePowerManager \<Rightarrow> string \<Rightarrow> u64 \<Rightarrow> power_error + NodePowerManager" where
  "ActivateNode m node_id now_ms = with_node m node_id (\<lambda>node.
     if n_lifecycle node \<noteq> kJoining then Inl NotJoining
     else if \<not> Ready (n_readiness node) \<and> rs_observed (n_readiness node) then Inl NotReady
     else let node1 = (if \<not> Ready (n_readiness node) then node\<lparr>n_readiness :=
                 \<lparr>rs_observed = True, rs_initialization_complete = True, rs_inventory_ready = True,
                  rs_metadata_ready = True, rs_observed_at_ms = now_ms,
                  rs_message = ''explicit activation readiness assertion''\<rparr>\<rparr> else node);
              node2 = advance m node1 now_ms;
              node3 = node2\<lparr>n_lifecycle := kWorking, n_health := kHealthy, n_administrative_state := kEnabled,
                        n_last_access_ms := max (n_last_access_ms node2) now_ms\<rparr>;
              node4 = set_power m node3 kMedium now_ms
          in Inr (True, if hp_execution_mode (n_profile node4) \<noteq> kPhysical
                        then node4\<lparr>n_actuated_power_level := kMedium\<rparr> else node4))"

text \<open>A removal that was already begun is accepted without a change of the generation.\<close>

definition BeginRemoveNode :: "NodePowerManager \<Rightarrow> string \<Rightarrow> u64 \<Rightarrow> power_error + NodePowerManager" where
  "BeginRemoveNode m node_id now_ms = with_node m node_id (\<lambda>node.
     if n_lifecycle node = kDraining then Inr (False, node)
     else if n_lifecycle node = kRetired \<or> n_lifecycle node = kExiting then Inl AlreadyExiting
     else let node1 = advance m node now_ms
          in Inr (True, node1\<lparr>n_lifecycle := kDraining, n_administrative_state := kAdminDraining,
                          n_drain_remaining_bytes := n_resident_data_bytes node1, n_drain_last_report_ms := now_ms\<rparr>))"

definition empty_virtual_optical :: "NodeRecord \<Rightarrow> bool" where
  "empty_virtual_optical node \<longleftrightarrow> hp_kind (n_profile node) = kOpticalLibrary \<and>
     hp_execution_mode (n_profile node) \<noteq> kPhysical \<and> ol_observed (n_optical_library node) \<and>
     ol_blank_disc_count (n_optical_library node) = ol_local_disc_count (n_optical_library node) \<and>
     ol_recording_disc_count (n_optical_library node) = 0 \<and> ol_pending_write_tasks (n_optical_library node) = 0 \<and>
     ol_pending_read_tasks (n_optical_library node) = 0 \<and> ol_busy_drives (n_optical_library node) = 0"

definition FinalizeRemoveNode :: "NodePowerManager \<Rightarrow> string \<Rightarrow> u64 \<Rightarrow> bool \<Rightarrow> power_error + NodePowerManager" where
  "FinalizeRemoveNode m node_id now_ms force = with_node m node_id (\<lambda>node.
     let ol = n_optical_library node
     in if \<not> force \<and> n_lifecycle node \<noteq> kExiting then Inl DrainIncomplete
        else if n_resident_data_bytes node \<noteq> 0 then Inl StillResidentData
        else if hp_kind (n_profile node) = kOpticalLibrary \<and>
                (\<not> ol_observed ol \<or>
                 (ol_telemetry_version ol \<noteq> 0 \<and>
                  (\<not> ol_inventory_valid ol \<or> \<not> ol_background_valid ol \<or> now_ms > ol_valid_until_ms ol \<or>
                   ol_pending_archive_batches ol \<noteq> 0 \<or> ol_background_tasks ol \<noteq> 0)) \<or>
                 (ol_local_disc_count ol \<noteq> 0 \<and> \<not> empty_virtual_optical node))
          then Inl (if \<not> ol_observed ol then OpticalNotObserved else OpticalStillOccupied)
        else if hp_execution_mode (n_profile node) = kPhysical \<and> n_actuated_power_level node \<noteq> kOff
          then Inl PhysicalNotOff
        else let node1 = advance m node now_ms;
                 node2 = node1\<lparr>n_lifecycle := kRetired, n_administrative_state := kDisabled,
                           n_actual_exit_time_ms := now_ms, n_transition := kStable\<rparr>;
                 node3 = set_power m node2 kOff now_ms
             in Inr (True, node3\<lparr>n_actuated_power_level := kOff\<rparr>))"

definition MarkNodeFailed :: "NodePowerManager \<Rightarrow> string \<Rightarrow> u64 \<Rightarrow> string \<Rightarrow> power_error + NodePowerManager" where
  "MarkNodeFailed m node_id now_ms reason = with_node m node_id (\<lambda>node.
     if n_lifecycle node = kRetired then Inl RetiredCannotFail
     else let node1 = advance m node now_ms;
              repair = rp_mean_repair_time_ms (hp_reliability (n_profile node1));
              node2 = node1\<lparr>n_health := kFailed, n_failure_reason := reason, n_failure_source := kInjected,
                        n_failure_count := n_failure_count node1 + 1,
                        n_repair_due_time_ms := (if repair = 0 then 0 else SaturatingAdd now_ms repair)\<rparr>
          in Inr (True, set_power m node2 kOff now_ms))"

definition RepairNode :: "float_env \<Rightarrow> NodePowerManager \<Rightarrow> string \<Rightarrow> u64 \<Rightarrow> power_error + NodePowerManager" where
  "RepairNode env m node_id now_ms = with_node m node_id (\<lambda>node.
     if n_health node \<noteq> kFailed \<or> n_lifecycle node = kRetired then Inl NotRepairable
     else let node1 = advance m node now_ms;
              node2 = node1\<lparr>n_health := kHealthy, n_failure_reason := [], n_failure_source := kNone,
                        n_repair_due_time_ms := 0\<rparr>;
              node3 = node2\<lparr>n_next_failure_time_ms := ScheduleNextFailureTime env node2 now_ms\<rparr>;
              node4 = set_power m node3 kMedium now_ms
          in Inr (True, if hp_execution_mode (n_profile node4) \<noteq> kPhysical
                        then node4\<lparr>n_actuated_power_level := kMedium\<rparr> else node4))"

definition heartbeat_update :: "NodeRecord \<Rightarrow> string \<Rightarrow> NodeInventorySnapshot \<Rightarrow> u64 \<Rightarrow> NodeRecord" where
  "heartbeat_update node service_address inventory now_ms =
     (let reported = foldl (\<lambda>total device. SaturatingAdd total (di_accumulated_write_bytes device)) 0 (is_devices inventory);
          node1 = node\<lparr>n_identity := (n_identity node)\<lparr>ni_node_id := hp_node_id (n_profile node),
                          ni_kind := hp_kind (n_profile node), ni_execution_mode := hp_execution_mode (n_profile node),
                          ni_service_address := service_address\<rparr>,
                    n_inventory := inventory, n_last_heartbeat_ms := now_ms,
                    n_resident_data_bytes := InventoryUsedBytes inventory,
                    n_accumulated_write_bytes := max (n_accumulated_write_bytes node) reported\<rparr>;
          node2 = (if n_health node1 = kSuspect \<or> n_failure_source node1 = kHeartbeatTimeout
                   then node1\<lparr>n_health := kHealthy, n_failure_source := kNone, n_failure_reason := []\<rparr> else node1)
      in if hp_execution_mode (n_profile node2) = kPhysical then
           let node3 = node2\<lparr>n_actuated_power_level :=
                         (if n_power_level node2 = kOff then kMedium else n_power_level node2)\<rparr>
           in if n_transition node3 = kStarting \<or> n_transition node3 = kRebooting
              then node3\<lparr>n_transition := kStable\<rparr> else node3
         else node2)"

definition ReportHeartbeat ::
  "NodePowerManager \<Rightarrow> string \<Rightarrow> string \<Rightarrow> NodeInventorySnapshot \<Rightarrow> u64 \<Rightarrow> power_error + NodePowerManager" where
  "ReportHeartbeat m node_id service_address inventory0 now_ms = with_node m node_id (\<lambda>node.
     if n_lifecycle node = kRetired then Inl (RetiredHeartbeat node_id)
     else if now_ms < n_last_heartbeat_ms node then Inl StaleHeartbeat
     else let inventory1 = inventory0\<lparr>is_node_id := node_id\<rparr>;
              inventory2 = (if is_observed_at_ms inventory1 = 0 then inventory1\<lparr>is_observed_at_ms := now_ms\<rparr> else inventory1);
              inventory = (if is_generation inventory2 = 0
                           then inventory2\<lparr>is_generation := is_generation (n_inventory node) + 1\<rparr> else inventory2)
          in case ValidateNodeInventorySnapshot inventory of
               Inl e \<Rightarrow> Inl (InvalidNode e)
             | Inr u \<Rightarrow>
                 if is_generation (n_inventory node) \<noteq> 0 \<and> is_generation inventory < is_generation (n_inventory node)
                 then Inl StaleInventoryGeneration
                 else Inr (True, heartbeat_update (advance m node now_ms) service_address inventory now_ms))"

definition ReportReadiness ::
  "NodePowerManager \<Rightarrow> string \<Rightarrow> NodeReadinessStatus \<Rightarrow> u64 \<Rightarrow> power_error + NodePowerManager" where
  "ReportReadiness m node_id readiness instance_generation = with_node m node_id (\<lambda>node.
     if n_lifecycle node = kRetired then Inl RetiredReadiness
     else if (hp_kind (n_profile node) = kOpticalLibrary \<and> ol_telemetry_version (n_optical_library node) \<noteq> 0 \<and>
              instance_generation = 0) \<or>
             (instance_generation \<noteq> 0 \<and> instance_generation \<noteq> hp_instance_generation (n_profile node))
       then Inl ReadinessGeneration
     else if \<not> rs_observed readiness \<or> rs_observed_at_ms readiness = 0 then Inl ReadinessNotObserved
     else if rs_observed_at_ms readiness < rs_observed_at_ms (n_readiness node) then Inl StaleReadiness
     else Inr (True, node\<lparr>n_readiness := readiness\<rparr>))"

definition ReportOpticalLibraryStatus ::
  "NodePowerManager \<Rightarrow> string \<Rightarrow> OpticalLibraryStatus \<Rightarrow> u64 \<Rightarrow> power_error + NodePowerManager" where
  "ReportOpticalLibraryStatus m node_id status instance_generation =
     (case ValidateOpticalLibraryStatus status of
        Inl e \<Rightarrow> Inl (InvalidNode e)
      | Inr u \<Rightarrow> with_node m node_id (\<lambda>node.
          if ((ol_telemetry_version (n_optical_library node) \<noteq> 0 \<or> ol_telemetry_version status \<noteq> 0) \<and>
              instance_generation = 0) \<or>
             (instance_generation \<noteq> 0 \<and> instance_generation \<noteq> hp_instance_generation (n_profile node))
            then Inl OpticalGeneration
          else if ol_telemetry_version (n_optical_library node) \<noteq> 0 \<and> ol_telemetry_version status = 0 then Inl OpticalDowngrade
          else if hp_kind (n_profile node) \<noteq> kOpticalLibrary then Inl NotOpticalLibrary
          else if n_lifecycle node = kRetired then Inl RetiredOptical
          else if ol_observed_at_ms status < ol_observed_at_ms (n_optical_library node) then Inl StaleOptical
          else let node1 = (advance m node (ol_observed_at_ms status))\<lparr>n_optical_library := status\<rparr>;
                   node2 = (if ol_observed status \<and> optical_busy status \<and> IsServingLifecycle (n_lifecycle node1) \<and>
                               n_health node1 = kHealthy \<and> n_administrative_state node1 = kEnabled \<and>
                               n_power_level node1 < kMedium
                            then set_power m node1 kMedium (ol_observed_at_ms status) else node1);
                   node3 = (if ol_observed status \<and> (ol_telemetry_version status = 0 \<or> ol_inventory_valid status) \<and>
                               ol_local_disc_count status > 0 \<and>
                               ol_recorded_disc_count status = ol_local_disc_count status \<and> ol_pending_write_tasks status = 0
                            then node2\<lparr>n_service_mode := kReadOnly\<rparr> else node2)
               in Inr (True, node3)))"

definition SetAdministrativeState ::
  "NodePowerManager \<Rightarrow> string \<Rightarrow> AdministrativeState \<Rightarrow> power_error + NodePowerManager" where
  "SetAdministrativeState m node_id state = with_node m node_id (\<lambda>node.
     if n_lifecycle node = kRetired \<and> state \<noteq> kDisabled then Inl RetiredStaysDisabled
     else if (n_lifecycle node = kDraining \<or> n_lifecycle node = kExiting) \<and> state = kEnabled then Inl DrainingCannotEnable
     else if n_administrative_state node \<noteq> state then Inr (True, node\<lparr>n_administrative_state := state\<rparr>)
     else Inr (False, node))"

definition fully_recorded :: "OpticalLibraryStatus \<Rightarrow> bool" where
  "fully_recorded ol \<longleftrightarrow> ol_observed ol \<and> ol_local_disc_count ol > 0 \<and>
     ol_recorded_disc_count ol = ol_local_disc_count ol \<and> ol_pending_write_tasks ol = 0"

definition SetServiceMode :: "NodePowerManager \<Rightarrow> string \<Rightarrow> NodeServiceMode \<Rightarrow> power_error + NodePowerManager" where
  "SetServiceMode m node_id mode = with_node m node_id (\<lambda>node.
     if n_lifecycle node = kRetired then Inl RetiredServiceMode
     else if hp_kind (n_profile node) \<noteq> kOpticalLibrary then Inl ServiceModeKind
     else if mode = kReadWrite \<and> fully_recorded (n_optical_library node) then Inl FullyRecorded
     else if n_service_mode node \<noteq> mode then Inr (True, node\<lparr>n_service_mode := mode\<rparr>)
     else Inr (False, node))"

definition AssignCmsCompactId :: "NodePowerManager \<Rightarrow> string \<Rightarrow> u32 \<Rightarrow> power_error + NodePowerManager" where
  "AssignCmsCompactId m node_id compact_id =
     (if compact_id = 0 then Inl CompactIdZero
      else with_node m node_id (\<lambda>node.
        let maximum = (if hp_kind (n_profile node) = kOpticalLibrary then 0x00ffffff else 0x0000ffff)
        in if compact_id > maximum then Inl CompactIdWidth
           else if ni_compact_id (n_identity node) \<noteq> 0 \<and> ni_compact_id (n_identity node) \<noteq> compact_id
             then Inl CompactIdImmutable
           else if ni_compact_id (n_identity node) = compact_id then Inr (False, node)
           else Inr (True, node\<lparr>n_identity := (n_identity node)\<lparr>ni_compact_id := compact_id\<rparr>\<rparr>)))"

definition SetTransitionState ::
  "NodePowerManager \<Rightarrow> string \<Rightarrow> TransitionState \<Rightarrow> u64 \<Rightarrow> power_error + NodePowerManager" where
  "SetTransitionState m node_id state now_ms = with_node m node_id (\<lambda>node.
     let node1 = advance m node now_ms
     in if n_transition node1 \<noteq> state then Inr (True, node1\<lparr>n_transition := state\<rparr>) else Inr (False, node1))"

definition RequestPowerLevel ::
  "NodePowerManager \<Rightarrow> string \<Rightarrow> PowerLevel \<Rightarrow> u64 \<Rightarrow> bool \<Rightarrow> power_error + NodePowerManager" where
  "RequestPowerLevel m node_id level now_ms force = with_node m node_id (\<lambda>node.
     if level = kOff \<and> \<not> force \<and> \<not> CanPowerOffLocked (pm_policy m) (pm_nodes m) node then Inl PowerOffUnsafe
     else case SetPowerLevelLocked (pm_policy m) node level now_ms force of
       (changed, node1) \<Rightarrow>
         let touch = (force \<and> level \<ge> kMedium \<and> now_ms > n_last_access_ms node1);
             node2 = (if touch then node1\<lparr>n_last_access_ms := now_ms\<rparr> else node1);
             node3 = (if hp_execution_mode (n_profile node2) \<noteq> kPhysical
                      then node2\<lparr>n_actuated_power_level := level\<rparr> else node2)
         in Inr (changed \<or> touch, node3))"

definition SetResidentDataBytes :: "NodePowerManager \<Rightarrow> string \<Rightarrow> u64 \<Rightarrow> power_error + NodePowerManager" where
  "SetResidentDataBytes m node_id n = with_node m node_id (\<lambda>node.
     if n_resident_data_bytes node \<noteq> n then Inr (True, node\<lparr>n_resident_data_bytes := n\<rparr>) else Inr (False, node))"

definition ReportDrainProgress ::
  "NodePowerManager \<Rightarrow> string \<Rightarrow> u64 \<Rightarrow> u64 \<Rightarrow> u64 \<Rightarrow> u32 \<Rightarrow> power_error + NodePowerManager" where
  "ReportDrainProgress m node_id report_ts_ms remaining_objects remaining_bytes active_requests = with_node m node_id (\<lambda>node.
     if n_lifecycle node \<noteq> kDraining \<and> n_lifecycle node \<noteq> kExiting then Inl NotDraining
     else if report_ts_ms < n_drain_last_report_ms node then Inl StaleDrain
     else let node1 = (advance m node report_ts_ms)\<lparr>n_drain_remaining_objects := remaining_objects,
                        n_drain_remaining_bytes := remaining_bytes, n_drain_active_requests := active_requests,
                        n_drain_last_report_ms := report_ts_ms, n_resident_data_bytes := remaining_bytes\<rparr>
          in Inr (True, if remaining_objects = 0 \<and> remaining_bytes = 0 \<and> active_requests = 0
                        then node1\<lparr>n_lifecycle := kExiting\<rparr> else node1))"

definition ReportPowerActuation ::
  "NodePowerManager \<Rightarrow> string \<Rightarrow> PowerLevel \<Rightarrow> u64 \<Rightarrow> bool \<Rightarrow> string \<Rightarrow> power_error + NodePowerManager" where
  "ReportPowerActuation m node_id applied_level now_ms success message = with_node m node_id (\<lambda>node.
     let node1 = (IntegrateEnergyLocked node now_ms)\<lparr>n_last_power_actuation_ms := now_ms,
                   n_last_power_actuation_error := (if success then [] else message)\<rparr>
     in Inr (True, if success then node1\<lparr>n_actuated_power_level := applied_level\<rparr> else node1))"

section \<open>Metrics\<close>

text \<open>The stream a report belongs to, and the values of its predecessor.\<close>

definition same_stream :: "NodeAccessMetrics \<Rightarrow> NodeMetricsStreamState \<Rightarrow> bool" where
  "same_stream metrics stream \<longleftrightarrow> st_access_path stream = am_access_path metrics \<and>
     st_reporter_epoch stream = am_reporter_epoch metrics"

definition empty_stream :: NodeMetricsStreamState where
  "empty_stream = \<lparr>st_access_path = kDefault, st_reporter_epoch = 0, st_report_sequence = 0, st_window_end_ms = 0,
     st_utilization = 0, st_queue_depth = 0, st_retired = False, st_read_operations = 0, st_write_operations = 0,
     st_read_bytes = 0, st_write_bytes = 0\<rparr>"

definition previous_stream :: "NodeRecord \<Rightarrow> NodeAccessMetrics \<Rightarrow> NodeMetricsStreamState" where
  "previous_stream node metrics =
     (case find (same_stream metrics) (n_metrics_streams node) of
        Some stream \<Rightarrow> stream
      | None \<Rightarrow> if am_access_path metrics = kDefault \<and> n_metrics_streams node = []
                then empty_stream\<lparr>st_reporter_epoch := n_last_metrics_reporter_epoch node,
                       st_report_sequence := n_last_metrics_sequence node, st_window_end_ms := n_last_metrics_end_ms node\<rparr>
                else empty_stream)"

definition same_reporter :: "NodeRecord \<Rightarrow> NodeAccessMetrics \<Rightarrow> bool" where
  "same_reporter node metrics \<longleftrightarrow> am_reporter_epoch metrics = 0 \<or>
     am_reporter_epoch metrics = st_reporter_epoch (previous_stream node metrics)"

definition duplicate_report :: "NodeRecord \<Rightarrow> NodeAccessMetrics \<Rightarrow> bool" where
  "duplicate_report node metrics \<longleftrightarrow> same_reporter node metrics \<and> am_report_sequence metrics \<noteq> 0 \<and>
     am_report_sequence metrics = st_report_sequence (previous_stream node metrics)"

definition path_end_ms :: "NodeRecord \<Rightarrow> NodeAccessMetrics \<Rightarrow> u64" where
  "path_end_ms node metrics = foldl (\<lambda>t stream. if st_access_path stream = am_access_path metrics
     then max t (st_window_end_ms stream) else t) (st_window_end_ms (previous_stream node metrics)) (n_metrics_streams node)"

definition stale_report :: "NodeRecord \<Rightarrow> NodeAccessMetrics \<Rightarrow> bool" where
  "stale_report node metrics \<longleftrightarrow>
     (let previous = previous_stream node metrics
      in st_retired previous \<or> am_window_end_ms metrics < path_end_ms node metrics \<or>
         (same_reporter node metrics \<and> am_report_sequence metrics \<noteq> 0 \<and>
          am_report_sequence metrics < st_report_sequence previous) \<or>
         (am_report_sequence metrics = 0 \<and> am_window_end_ms metrics \<le> st_window_end_ms previous \<and>
          st_window_end_ms previous \<noteq> 0))"

definition report_utilization :: "float_env \<Rightarrow> NodeHardwareProfile \<Rightarrow> NodeAccessMetrics \<Rightarrow> rat" where
  "report_utilization env profile metrics =
     (let rl = fe_rl env; rd = fe_rd env;
          window_ms = max 1 (am_window_end_ms metrics - am_window_start_ms metrics);
          read_bandwidth = min (hp_external_network_bandwidth profile)
            (CalculateInternalBandwidthBytesPerSecond profile (am_access_path metrics) kRead);
          write_bandwidth = min (hp_external_network_bandwidth profile)
            (CalculateInternalBandwidthBytesPerSecond profile (am_access_path metrics) kWrite);
          read_rate = rl (rl (to_ld rl (am_read_bytes metrics) * 1000) / to_ld rl window_ms);
          write_rate = rl (rl (to_ld rl (am_write_bytes metrics) * 1000) / to_ld rl window_ms);
          read_utilization = (if read_bandwidth = 0 then if am_read_bytes metrics = 0 then 0 else 1
                              else rl (read_rate / to_ld rl read_bandwidth));
          write_utilization = (if write_bandwidth = 0 then if am_write_bytes metrics = 0 then 0 else 1
                               else rl (write_rate / to_ld rl write_bandwidth));
          bandwidth_utilization = rd (min 1 (rl (read_utilization + write_utilization)));
          busy_utilization = min 1 (rd (to_ld rd (am_busy_time_ms metrics) / to_ld rd window_ms))
      in min 1 (max bandwidth_utilization busy_utilization))"

definition report_stream :: "float_env \<Rightarrow> NodeRecord \<Rightarrow> NodeAccessMetrics \<Rightarrow> NodeMetricsStreamState" where
  "report_stream env node metrics =
     (let previous = previous_stream node metrics;
          carry = (\<lambda>v. if same_reporter node metrics then v else 0)
      in \<lparr>st_access_path = am_access_path metrics, st_reporter_epoch = am_reporter_epoch metrics,
          st_report_sequence = am_report_sequence metrics, st_window_end_ms = am_window_end_ms metrics,
          st_utilization = report_utilization env (n_profile node) metrics, st_queue_depth = am_max_queue_depth metrics,
          st_retired = False,
          st_read_operations = SaturatingAdd (carry (st_read_operations previous)) (am_read_operations metrics),
          st_write_operations = SaturatingAdd (carry (st_write_operations previous)) (am_write_operations metrics),
          st_read_bytes = SaturatingAdd (carry (st_read_bytes previous)) (am_read_bytes metrics),
          st_write_bytes = SaturatingAdd (carry (st_write_bytes previous)) (am_write_bytes metrics)\<rparr>)"

fun replace_first :: "('a \<Rightarrow> bool) \<Rightarrow> 'a \<Rightarrow> 'a list \<Rightarrow> 'a list" where
  "replace_first P v [] = [v]"
| "replace_first P v (x # xs) = (if P x then v # xs else x # replace_first P v xs)"

definition store_stream :: "NodeAccessMetrics \<Rightarrow> NodeMetricsStreamState \<Rightarrow> NodeMetricsStreamState list \<Rightarrow> NodeMetricsStreamState list" where
  "store_stream metrics stream streams =
     replace_first (same_stream metrics) stream
       (map (\<lambda>old. if st_access_path old = am_access_path metrics \<and> st_reporter_epoch old \<noteq> am_reporter_epoch metrics
                   then old\<lparr>st_retired := True\<rparr> else old) streams)"

text \<open>Utilisation and queue depth over the fresh streams of the active reporters.\<close>

definition fresh_load :: "PowerPolicy \<Rightarrow> u64 \<Rightarrow> NodeMetricsStreamState list \<Rightarrow> rat \<times> u32" where
  "fresh_load policy accounting_ms streams =
     foldl (\<lambda>(utilization, queue_depth) current.
       if st_retired current \<or> accounting_ms - st_window_end_ms current \<ge> pol_metrics_freshness_ms policy
       then (utilization, queue_depth)
       else (max utilization (st_utilization current),
             ucast (min (0xFFFFFFFF :: u64) (ucast queue_depth + ucast (st_queue_depth current))))) (0, 0) streams"

definition report_operations :: "NodeAccessMetrics \<Rightarrow> u64" where
  "report_operations metrics = SaturatingAdd (SaturatingAdd (am_read_operations metrics) (am_write_operations metrics))
     (am_other_operations metrics)"

definition metrics_record ::
  "float_env \<Rightarrow> NodePowerManager \<Rightarrow> NodeRecord \<Rightarrow> NodeAccessMetrics \<Rightarrow> u64 \<Rightarrow> NodeRecord" where
  "metrics_record env m node0 metrics accounting_ms =
     (let node = advance m node0 accounting_ms;
          streams = store_stream metrics (report_stream env node0 metrics) (n_metrics_streams node);
          load = fresh_load (pm_policy m) accounting_ms streams
      in node\<lparr>n_metrics_streams := streams, n_last_utilization := fst load, n_last_queue_depth := snd load,
              n_last_metrics_end_ms := max (n_last_metrics_end_ms node) (am_window_end_ms metrics),
              n_last_metrics_sequence := (if am_report_sequence metrics = 0 then n_last_metrics_sequence node
                                          else am_report_sequence metrics),
              n_last_metrics_reporter_epoch := (if am_reporter_epoch metrics \<noteq> 0 then am_reporter_epoch metrics
                                                else n_last_metrics_reporter_epoch node),
              n_access_operation_count := SaturatingAdd (n_access_operation_count node) (report_operations metrics),
              n_accumulated_write_bytes := SaturatingAdd (n_accumulated_write_bytes node) (am_write_bytes metrics)\<rparr>)"

definition metrics_update :: "float_env \<Rightarrow> NodePowerManager \<Rightarrow> NodeRecord \<Rightarrow> NodeAccessMetrics \<Rightarrow> NodeRecord" where
  "metrics_update env m node0 metrics =
     (let policy = pm_policy m;
          accounting_ms = max (max (am_window_end_ms metrics) (n_last_metrics_end_ms node0)) (n_last_energy_update_ms node0);
          node1 = metrics_record env m node0 metrics accounting_ms
      in if report_operations metrics \<noteq> 0 \<or> am_read_bytes metrics \<noteq> 0 \<or> am_write_bytes metrics \<noteq> 0 \<or>
            am_active_requests metrics \<noteq> 0 then
           let reported_access = (if am_last_access_ms metrics = 0 then am_window_end_ms metrics else am_last_access_ms metrics);
               node2 = node1\<lparr>n_last_access_ms := max (n_last_access_ms node1) reported_access\<rparr>;
               peak = (n_last_utilization node2 \<ge> pol_peak_utilization policy \<or>
                       n_last_queue_depth node2 \<ge> pol_peak_queue_depth policy)
           in if accounting_ms - am_window_end_ms metrics < pol_metrics_freshness_ms policy
              then set_power m node2 (if peak then kPeak else kMedium) accounting_ms else node2
         else node1)"

definition ReportMetrics :: "float_env \<Rightarrow> NodePowerManager \<Rightarrow> string \<Rightarrow> NodeAccessMetrics \<Rightarrow> power_error + NodePowerManager" where
  "ReportMetrics env m node_id metrics =
     (if am_window_end_ms metrics < am_window_start_ms metrics then Inl MetricsWindow
      else with_node m node_id (\<lambda>node.
        if \<not> IsServingLifecycle (n_lifecycle node) \<or> n_health node = kFailed \<or> n_administrative_state node = kDisabled
          then Inl MetricsUnavailable
        else if (hp_kind (n_profile node) = kOpticalLibrary \<and> ol_telemetry_version (n_optical_library node) \<noteq> 0 \<and>
                 am_instance_generation metrics = 0) \<or>
                (am_instance_generation metrics \<noteq> 0 \<and>
                 am_instance_generation metrics \<noteq> hp_instance_generation (n_profile node))
          then Inl MetricsGeneration
        else if duplicate_report node metrics then Inr (False, node)
        else if stale_report node metrics then Inl StaleMetrics
        else Inr (True, metrics_update env m node metrics)))"

definition event_update :: "float_env \<Rightarrow> NodePowerManager \<Rightarrow> NodeRecord \<Rightarrow> NodeAccessEvent \<Rightarrow> u64 \<Rightarrow> NodeRecord" where
  "event_update env m node0 event event_ms =
     (let rl = fe_rl env; policy = pm_policy m;
          node = advance m node0 event_ms;
          interval_ms = (if n_last_metrics_end_ms node = 0 \<or> event_ms \<le> n_last_metrics_end_ms node then 1
                         else event_ms - n_last_metrics_end_ms node);
          effective = min (hp_external_network_bandwidth (n_profile node))
            (CalculateInternalBandwidthBytesPerSecond (n_profile node) (ev_access_path event)
               (if ev_is_write event then kWrite else kRead));
          rate = rl (rl (to_ld rl (ev_bytes event) * 1000) / to_ld rl interval_ms);
          node1 = node\<lparr>n_last_utilization := (if effective = 0 then 0
                       else min 1 (fe_rd env (rl (rate / to_ld rl effective)))),
                    n_last_queue_depth := ev_queue_depth event,
                    n_last_metrics_end_ms := max (n_last_metrics_end_ms node) event_ms,
                    n_last_access_ms := max (n_last_access_ms node) event_ms,
                    n_access_operation_count := SaturatingAdd (n_access_operation_count node) 1,
                    n_accumulated_write_bytes := (if ev_is_write event
                       then SaturatingAdd (n_accumulated_write_bytes node) (ev_bytes event)
                       else n_accumulated_write_bytes node)\<rparr>;
          peak = (n_last_utilization node1 \<ge> pol_peak_utilization policy \<or> ev_queue_depth event \<ge> pol_peak_queue_depth policy);
          node2 = set_power m node1 (if peak then kPeak else kMedium) event_ms
      in if n_lifecycle node2 = kWorking \<and> event_ms \<ge> n_planned_exit_time_ms node2
         then node2\<lparr>n_lifecycle := kDraining, n_drain_remaining_bytes := n_resident_data_bytes node2,
                n_drain_last_report_ms := event_ms\<rparr> else node2)"

definition ReportAccessEvent :: "float_env \<Rightarrow> NodePowerManager \<Rightarrow> string \<Rightarrow> NodeAccessEvent \<Rightarrow> power_error + NodePowerManager" where
  "ReportAccessEvent env m node_id event = with_node m node_id (\<lambda>node.
     let event_ms = ev_event_time_us event div 1000
     in if \<not> IsServingLifecycle (n_lifecycle node) \<or> n_health node = kFailed \<or> n_administrative_state node = kDisabled
          then Inl EventUnavailable
        else if event_ms < n_last_metrics_end_ms node then Inl LateEvent
        else Inr (True, event_update env m node event event_ms))"

section \<open>Operations on the whole catalog\<close>

definition evaluate_health :: "PowerPolicy \<Rightarrow> u64 \<Rightarrow> u64 \<Rightarrow> u64 \<Rightarrow> NodeRecord \<Rightarrow> bool \<times> NodeRecord" where
  "evaluate_health policy now_ms suspect_timeout_ms dead_timeout_ms node =
     (if hp_execution_mode (n_profile node) = kSimulated \<or> n_lifecycle node = kRetired \<or>
         (n_power_level node = kOff \<and>
          (hp_execution_mode (n_profile node) \<noteq> kPhysical \<or> n_actuated_power_level node = kOff)) then (False, node)
      else let reference = (if n_last_heartbeat_ms node = 0 then n_join_time_ms node else n_last_heartbeat_ms node);
               elapsed = (if now_ms > reference then now_ms - reference else 0)
           in if dead_timeout_ms \<noteq> 0 \<and> elapsed \<ge> dead_timeout_ms then
                if (n_failure_source node = kNone \<or> n_failure_source node = kHeartbeatTimeout) \<and>
                   (n_health node \<noteq> kFailed \<or> n_failure_source node \<noteq> kHeartbeatTimeout)
                then (True, snd (SetPowerLevelLocked policy
                       (node\<lparr>n_health := kFailed, n_failure_source := kHeartbeatTimeout,
                          n_failure_reason := ''heartbeat timeout'', n_failure_count := n_failure_count node + 1\<rparr>)
                       kOff now_ms True))
                else (False, node)
              else if suspect_timeout_ms \<noteq> 0 \<and> elapsed \<ge> suspect_timeout_ms then
                if n_failure_source node = kNone \<and> n_health node \<noteq> kSuspect
                then (True, node\<lparr>n_health := kSuspect\<rparr>) else (False, node)
              else if n_health node = kSuspect then (True, node\<lparr>n_health := kHealthy\<rparr>)
              else (False, node))"

definition EvaluateHeartbeatHealth :: "NodePowerManager \<Rightarrow> u64 \<Rightarrow> u64 \<Rightarrow> u64 \<Rightarrow> u64 \<times> NodePowerManager" where
  "EvaluateHeartbeatHealth m now_ms suspect_timeout_ms dead_timeout_ms =
     (let results = map (\<lambda>(k, node). (k, evaluate_health (pm_policy m) now_ms suspect_timeout_ms dead_timeout_ms node))
                      (pm_nodes m);
          m1 = bump (\<exists>r \<in> set results. fst (snd r)) (m\<lparr>pm_nodes := map (\<lambda>(k, r). (k, snd r)) results\<rparr>)
      in (pm_generation m1, m1))"

definition SummaryNode :: "NodeRecord \<Rightarrow> NodePowerSummary \<Rightarrow> NodePowerSummary" where
  "SummaryNode node s0 =
     (let s1 = (case hp_kind (n_profile node) of
                  kStorage \<Rightarrow> s0\<lparr>su_storage_nodes := su_storage_nodes s0 + 1\<rparr>
                | kMetadata \<Rightarrow> s0\<lparr>su_metadata_nodes := su_metadata_nodes s0 + 1\<rparr>
                | kOpticalLibrary \<Rightarrow> s0\<lparr>su_optical_library_nodes := su_optical_library_nodes s0 + 1\<rparr>);
          s2 = (case n_lifecycle node of
                  kJoining \<Rightarrow> s1\<lparr>su_joining_nodes := su_joining_nodes s1 + 1\<rparr>
                | kWorking \<Rightarrow> s1\<lparr>su_working_nodes := su_working_nodes s1 + 1\<rparr>
                | kDraining \<Rightarrow> s1\<lparr>su_draining_nodes := su_draining_nodes s1 + 1\<rparr>
                | kExiting \<Rightarrow> s1\<lparr>su_draining_nodes := su_draining_nodes s1 + 1\<rparr>
                | kRetired \<Rightarrow> s1\<lparr>su_retired_nodes := su_retired_nodes s1 + 1\<rparr>);
          s3 = (if n_health node = kFailed \<and> n_lifecycle node \<noteq> kRetired
                then s2\<lparr>su_failed_nodes := su_failed_nodes s2 + 1\<rparr> else s2);
          s4 = (case n_power_level node of
                  kPeak \<Rightarrow> s3\<lparr>su_peak_nodes := su_peak_nodes s3 + 1\<rparr>
                | kMedium \<Rightarrow> s3\<lparr>su_medium_nodes := su_medium_nodes s3 + 1\<rparr>
                | kStandby \<Rightarrow> s3\<lparr>su_standby_nodes := su_standby_nodes s3 + 1\<rparr>
                | kOff \<Rightarrow> s3\<lparr>su_off_nodes := su_off_nodes s3 + 1\<rparr>);
          capacity = (if is_devices (n_inventory node) = [] then CalculateCapacityBytes (n_profile node)
                      else InventoryCapacityBytes (n_inventory node));
          free = (if is_devices (n_inventory node) = []
                  then if capacity > n_resident_data_bytes node then capacity - n_resident_data_bytes node else 0
                  else InventoryFreeBytes (n_inventory node));
          used = (if capacity > free then capacity - free else 0);
          available = (hp_participates_in_placement (n_profile node) \<and> n_lifecycle node = kWorking \<and>
                       n_health node = kHealthy \<and> n_administrative_state node = kEnabled \<and>
                       n_service_mode node = kReadWrite \<and> n_power_level node \<noteq> kOff \<and> n_transition node = kStable \<and>
                       (hp_execution_mode (n_profile node) \<noteq> kPhysical \<or> n_actuated_power_level node \<noteq> kOff));
          available_free = (if available then FreeBytesForSafety node else 0)
      in s4\<lparr>su_total_power_milliwatts := SaturatingAdd (su_total_power_milliwatts s4)
              (PowerMilliwatts (hp_power (n_profile node)) (n_power_level node)),
            su_total_energy_microjoules := SaturatingAdd (su_total_energy_microjoules s4) (n_energy_microjoules node),
            su_total_actuated_power_milliwatts := SaturatingAdd (su_total_actuated_power_milliwatts s4)
              (PowerMilliwatts (hp_power (n_profile node)) (n_actuated_power_level node)),
            su_total_actuated_energy_microjoules := SaturatingAdd (su_total_actuated_energy_microjoules s4)
              (n_actuated_energy_microjoules node),
            su_total_capacity_bytes := SaturatingAdd (su_total_capacity_bytes s4) capacity,
            su_total_free_bytes := SaturatingAdd (su_total_free_bytes s4) free,
            su_total_used_bytes := SaturatingAdd (su_total_used_bytes s4) used,
            su_available_capacity_bytes := SaturatingAdd (su_available_capacity_bytes s4) available_free,
            su_unavailable_capacity_bytes := SaturatingAdd (su_unavailable_capacity_bytes s4)
              (if free > available_free then free - available_free else 0),
            su_accumulated_write_bytes := SaturatingAdd (su_accumulated_write_bytes s4) (n_accumulated_write_bytes node),
            su_wake_count := SaturatingAdd (su_wake_count s4) (n_wake_count node),
            su_standby_transition_count := SaturatingAdd (su_standby_transition_count s4) (n_standby_transition_count node),
            su_power_off_count := SaturatingAdd (su_power_off_count s4) (n_power_off_count node),
            su_replacement_count := SaturatingAdd (su_replacement_count s4) (n_replacement_count node)\<rparr>)"

definition empty_summary :: NodePowerSummary where
  "empty_summary = \<lparr>su_generation = 0, su_total_nodes = 0, su_joining_nodes = 0, su_working_nodes = 0,
     su_draining_nodes = 0, su_failed_nodes = 0, su_retired_nodes = 0, su_storage_nodes = 0, su_metadata_nodes = 0,
     su_optical_library_nodes = 0, su_peak_nodes = 0, su_medium_nodes = 0, su_standby_nodes = 0, su_off_nodes = 0,
     su_total_power_milliwatts = 0, su_total_energy_microjoules = 0, su_total_actuated_power_milliwatts = 0,
     su_total_actuated_energy_microjoules = 0, su_total_capacity_bytes = 0, su_total_free_bytes = 0,
     su_total_used_bytes = 0, su_available_capacity_bytes = 0, su_unavailable_capacity_bytes = 0,
     su_accumulated_write_bytes = 0, su_wake_count = 0, su_standby_transition_count = 0, su_power_off_count = 0,
     su_replacement_count = 0\<rparr>"

definition SummaryLocked :: "NodePowerManager \<Rightarrow> NodePowerSummary" where
  "SummaryLocked m = foldl (\<lambda>s (k, node). SummaryNode node s)
     (empty_summary\<lparr>su_generation := pm_generation m, su_total_nodes := of_nat (length (pm_nodes m))\<rparr>) (pm_nodes m)"

text \<open>\<open>pop_front\<close> while the history is longer than the limit.\<close>

definition trim_history :: "PowerPolicy \<Rightarrow> NodePowerSample list \<Rightarrow> NodePowerSample list" where
  "trim_history policy history = drop (length history - unat (pol_history_max_samples policy)) history"

definition RecordHistoryLocked :: "NodePowerManager \<Rightarrow> u64 \<Rightarrow> NodePowerManager" where
  "RecordHistoryLocked m now_ms =
     (if pol_history_max_samples (pm_policy m) = 0 then m
      else if pm_history m \<noteq> [] \<and> ps_timestamp_ms (last (pm_history m)) = now_ms
      then m\<lparr>pm_history := butlast (pm_history m) @ [(last (pm_history m))\<lparr>ps_summary := SummaryLocked m\<rparr>]\<rparr>
      else m\<lparr>pm_history := trim_history (pm_policy m)
               (pm_history m @ [\<lparr>ps_timestamp_ms = now_ms, ps_summary = SummaryLocked m\<rparr>])\<rparr>)"

text \<open>The stages of a tick for one node: a due repair, a due failure, the end of the planned lifetime.\<close>

definition tick_repair :: "float_env \<Rightarrow> PowerPolicy \<Rightarrow> u64 \<Rightarrow> NodeRecord \<Rightarrow> bool \<times> NodeRecord" where
  "tick_repair env policy now_ms node =
     (if n_health node = kFailed \<and> n_repair_due_time_ms node \<noteq> 0 \<and> now_ms \<ge> n_repair_due_time_ms node \<and>
         n_lifecycle node \<noteq> kRetired then
        let node1 = node\<lparr>n_health := kHealthy, n_failure_reason := [], n_failure_source := kNone, n_repair_due_time_ms := 0\<rparr>;
            node2 = node1\<lparr>n_next_failure_time_ms := ScheduleNextFailureTime env node1 now_ms\<rparr>
        in (True, snd (SetPowerLevelLocked policy node2 kMedium now_ms True))
      else (False, node))"

definition tick_fail :: "PowerPolicy \<Rightarrow> u64 \<Rightarrow> NodeRecord \<Rightarrow> bool \<times> NodeRecord" where
  "tick_fail policy now_ms node =
     (if n_health node = kHealthy \<and> n_lifecycle node = kWorking \<and> n_next_failure_time_ms node \<noteq> 0 \<and>
         now_ms \<ge> n_next_failure_time_ms node then
        let repair = rp_mean_repair_time_ms (hp_reliability (n_profile node));
            node1 = node\<lparr>n_health := kFailed, n_failure_reason := ''stochastic reliability failure'',
                      n_failure_source := kReliabilityModel, n_failure_count := n_failure_count node + 1,
                      n_repair_due_time_ms := (if repair = 0 then 0 else SaturatingAdd now_ms repair)\<rparr>
        in (True, snd (SetPowerLevelLocked policy node1 kOff now_ms True))
      else (False, node))"

definition tick_expire :: "u64 \<Rightarrow> NodeRecord \<Rightarrow> bool \<times> NodeRecord" where
  "tick_expire now_ms node =
     (if n_lifecycle node = kWorking \<and> now_ms \<ge> n_planned_exit_time_ms node
      then (True, node\<lparr>n_lifecycle := kDraining, n_administrative_state := kAdminDraining,
              n_drain_remaining_bytes := n_resident_data_bytes node, n_drain_last_report_ms := now_ms\<rparr>)
      else (False, node))"

text \<open>One node of a tick, with the map as the earlier nodes of the tick left it.\<close>

definition tick_node :: "float_env \<Rightarrow> PowerPolicy \<Rightarrow> (string \<times> NodeRecord) list \<Rightarrow> u64 \<Rightarrow> NodeRecord \<Rightarrow> bool \<times> NodeRecord" where
  "tick_node env policy nodes now_ms node0 =
     (case AdvancePowerPolicyLocked policy nodes node0 now_ms of (ch1, node1) \<Rightarrow>
      case tick_repair env policy now_ms node1 of (ch2, node2) \<Rightarrow>
      case tick_fail policy now_ms node2 of (ch3, node3) \<Rightarrow>
      case tick_expire now_ms node3 of (ch4, node4) \<Rightarrow>
      case SetPowerLevelLocked policy node4 (safe_desired policy nodes node4 now_ms) now_ms False of (ch5, node5) \<Rightarrow>
        (ch1 \<or> ch2 \<or> ch3 \<or> ch4 \<or> ch5,
         if hp_execution_mode (n_profile node5) \<noteq> kPhysical
         then node5\<lparr>n_actuated_power_level := n_power_level node5\<rparr> else node5))"

definition tick_matches :: "int \<Rightarrow> NodeRecord \<Rightarrow> bool" where
  "tick_matches execution_filter node \<longleftrightarrow> \<not> ((execution_filter = 0 \<and> hp_execution_mode (n_profile node) = kSimulated) \<or>
     (execution_filter = 1 \<and> hp_execution_mode (n_profile node) \<noteq> kSimulated))"

fun tick_loop ::
  "float_env \<Rightarrow> PowerPolicy \<Rightarrow> u64 \<Rightarrow> int \<Rightarrow> string list \<Rightarrow> bool \<times> (string \<times> NodeRecord) list \<Rightarrow>
   bool \<times> (string \<times> NodeRecord) list" where
  "tick_loop env policy now_ms execution_filter [] (changed, nodes) = (changed, nodes)"
| "tick_loop env policy now_ms execution_filter (k # ks) (changed, nodes) =
     (case map_of nodes k of
        None \<Rightarrow> tick_loop env policy now_ms execution_filter ks (changed, nodes)
      | Some node \<Rightarrow>
          if \<not> tick_matches execution_filter node then tick_loop env policy now_ms execution_filter ks (changed, nodes)
          else (case tick_node env policy nodes now_ms node of
                  (ch, node1) \<Rightarrow> tick_loop env policy now_ms execution_filter ks
                    (changed \<or> ch, AList.update k node1 nodes)))"

definition TickMatchingLocked :: "float_env \<Rightarrow> NodePowerManager \<Rightarrow> u64 \<Rightarrow> int \<Rightarrow> u64 \<times> NodePowerManager" where
  "TickMatchingLocked env m now_ms execution_filter =
     (case tick_loop env (pm_policy m) now_ms execution_filter (map fst (pm_nodes m)) (False, pm_nodes m) of
        (changed, nodes) \<Rightarrow>
          let m1 = RecordHistoryLocked (bump changed (m\<lparr>pm_nodes := nodes\<rparr>)) now_ms in (pm_generation m1, m1))"

definition Tick :: "float_env \<Rightarrow> NodePowerManager \<Rightarrow> u64 \<Rightarrow> u64 \<times> NodePowerManager" where
  "Tick env m now_ms = TickMatchingLocked env m now_ms (- 1)"

definition TickRealTime :: "float_env \<Rightarrow> NodePowerManager \<Rightarrow> u64 \<Rightarrow> u64 \<times> NodePowerManager" where
  "TickRealTime env m now_ms = TickMatchingLocked env m now_ms 0"

definition AdvanceSimulatedTime :: "float_env \<Rightarrow> NodePowerManager \<Rightarrow> u64 \<Rightarrow> u64 \<times> NodePowerManager" where
  "AdvanceSimulatedTime env m now_ms = TickMatchingLocked env m now_ms 1"

section \<open>Queries\<close>

definition GetNode :: "NodePowerManager \<Rightarrow> string \<Rightarrow> NodeRecord option" where
  "GetNode m node_id = map_of (pm_nodes m) node_id"

record ManagedNodeFilter =
  mf_kind :: "NodeKind option"
  mf_execution_mode :: "ExecutionMode option"
  mf_lifecycle :: "LifecycleState option"
  mf_health :: "HealthState option"
  mf_power_level :: "PowerLevel option"
  mf_include_retired :: bool

definition opt_matches :: "'a option \<Rightarrow> 'a \<Rightarrow> bool" where
  "opt_matches f v \<longleftrightarrow> (case f of None \<Rightarrow> True | Some w \<Rightarrow> v = w)"

definition MatchesFilter :: "NodeRecord \<Rightarrow> ManagedNodeFilter \<Rightarrow> bool" where
  "MatchesFilter node flt \<longleftrightarrow> opt_matches (mf_kind flt) (hp_kind (n_profile node)) \<and>
     opt_matches (mf_execution_mode flt) (hp_execution_mode (n_profile node)) \<and>
     opt_matches (mf_lifecycle flt) (n_lifecycle node) \<and> opt_matches (mf_health flt) (n_health node) \<and>
     opt_matches (mf_power_level flt) (n_power_level node) \<and>
     (mf_include_retired flt \<or> \<not> IsTerminalLifecycle (n_lifecycle node))"

definition SortByNodeId :: "NodeRecord list \<Rightarrow> NodeRecord list" where
  "SortByNodeId nodes = sort_key (\<lambda>node. hp_node_id (n_profile node)) nodes"

definition ListNodes :: "NodePowerManager \<Rightarrow> ManagedNodeFilter \<Rightarrow> NodeRecord list" where
  "ListNodes m flt = SortByNodeId (filter (\<lambda>node. MatchesFilter node flt) (map snd (pm_nodes m)))"

definition any_node :: ManagedNodeFilter where
  "any_node = \<lparr>mf_kind = None, mf_execution_mode = None, mf_lifecycle = None, mf_health = None,
     mf_power_level = None, mf_include_retired = True\<rparr>"

definition ListByLifecycle :: "NodePowerManager \<Rightarrow> LifecycleState \<Rightarrow> NodeRecord list" where
  "ListByLifecycle m state = ListNodes m (any_node\<lparr>mf_lifecycle := Some state\<rparr>)"

definition ListFailedNodes :: "NodePowerManager \<Rightarrow> NodeRecord list" where
  "ListFailedNodes m = ListNodes m (any_node\<lparr>mf_health := Some kFailed, mf_include_retired := False\<rparr>)"

definition MetricsHistory :: "NodePowerManager \<Rightarrow> u64 \<Rightarrow> u64 \<Rightarrow> u32 \<Rightarrow> NodePowerSample list" where
  "MetricsHistory m start_ms end_ms limit =
     (let bounded = (if limit = 0 then 1000 else min limit 100000)
      in take (unat bounded) (filter (\<lambda>sample. \<not> (ps_timestamp_ms sample < start_ms \<or>
           (end_ms \<noteq> 0 \<and> ps_timestamp_ms sample > end_ms))) (pm_history m)))"

section \<open>Snapshot and restore\<close>

definition kNodeCatalogSnapshotFormatVersion :: u32 where
  "kNodeCatalogSnapshotFormatVersion = 2"

definition Snapshot :: "NodePowerManager \<Rightarrow> NodeCatalogSnapshot" where
  "Snapshot m = \<lparr>cs_format_version = kNodeCatalogSnapshotFormatVersion, cs_generation = pm_generation m,
     cs_nodes = SortByNodeId (map snd (pm_nodes m)), cs_history = pm_history m\<rparr>"

definition repair_node :: "NodeRecord \<Rightarrow> NodeRecord" where
  "repair_node node =
     (let node1 = (if ni_node_id (n_identity node) = [] then node\<lparr>n_identity := (n_identity node)\<lparr>
                     ni_node_id := hp_node_id (n_profile node), ni_kind := hp_kind (n_profile node),
                     ni_execution_mode := hp_execution_mode (n_profile node)\<rparr>\<rparr> else node);
          node2 = (if is_node_id (n_inventory node1) = []
                   then node1\<lparr>n_inventory := (n_inventory node1)\<lparr>is_node_id := hp_node_id (n_profile node1)\<rparr>\<rparr> else node1)
      in if n_last_actuated_energy_update_ms node2 = 0
         then node2\<lparr>n_last_actuated_energy_update_ms := n_last_energy_update_ms node2\<rparr> else node2)"

fun restore_nodes ::
  "NodeRecord list \<Rightarrow> (string \<times> NodeRecord) list \<Rightarrow> power_error + (string \<times> NodeRecord) list" where
  "restore_nodes [] restored = Inr restored"
| "restore_nodes (node0 # rest) restored =
     (case ValidateNodeHardwareProfile (n_profile node0) of
        Inl e \<Rightarrow> Inl (InvalidNode e)
      | Inr u \<Rightarrow>
          let node = repair_node node0
          in case (if is_devices (n_inventory node) = [] then Inr () else ValidateNodeInventorySnapshot (n_inventory node)) of
               Inl e \<Rightarrow> Inl (SnapshotInventory e)
             | Inr u \<Rightarrow>
                 (case (if hp_kind (n_profile node) \<noteq> kOpticalLibrary then Inr ()
                        else ValidateOpticalLibraryStatus (n_optical_library node)) of
                    Inl e \<Rightarrow> Inl (SnapshotOptical e)
                  | Inr u \<Rightarrow>
                      if map_of restored (hp_node_id (n_profile node)) \<noteq> None
                      then Inl (SnapshotDuplicate (hp_node_id (n_profile node)))
                      else restore_nodes rest (restored @ [(hp_node_id (n_profile node), node)])))"

definition Restore :: "NodePowerManager \<Rightarrow> NodeCatalogSnapshot \<Rightarrow> power_error + NodePowerManager" where
  "Restore m snapshot =
     (if cs_format_version snapshot = 0 \<or> cs_format_version snapshot > kNodeCatalogSnapshotFormatVersion
      then Inl SnapshotVersion
      else case restore_nodes (cs_nodes snapshot) [] of
        Inl e \<Rightarrow> Inl e
      | Inr restored \<Rightarrow> Inr (m\<lparr>pm_nodes := restored, pm_generation := max 1 (cs_generation snapshot),
          pm_history := trim_history (pm_policy m) (cs_history snapshot)\<rparr>))"

end
