(* ===== verification/Node_Lifecycle.thy ===== *)
theory Node_Lifecycle
  imports Node_Power "HOL-Library.Multiset"
begin

text \<open>
  Correctness of the node catalog and power manager.  First what the power policy may touch in a node
  record (the frame), that its loop runs exactly to the given time, and the bounds of the energy it
  accounts; then the step relation of the catalog with its well-formedness invariant and the life of a node
  along any sequence of steps; then the safety of power-offs, of retirement, of repeated metrics reports and
  the round trip through a snapshot.
\<close>

section \<open>The frame of the power policy\<close>

definition power_frame :: "NodeRecord \<Rightarrow> NodeRecord \<Rightarrow> bool" where
  "power_frame a b \<longleftrightarrow> b = a\<lparr>n_power_level := n_power_level b, n_power_state_enter_ms := n_power_state_enter_ms b,
     n_last_energy_update_ms := n_last_energy_update_ms b, n_energy_microjoules := n_energy_microjoules b,
     n_last_actuated_energy_update_ms := n_last_actuated_energy_update_ms b,
     n_actuated_energy_microjoules := n_actuated_energy_microjoules b, n_wake_count := n_wake_count b,
     n_standby_transition_count := n_standby_transition_count b, n_power_off_count := n_power_off_count b\<rparr>"

lemma power_frame_refl [simp]: "power_frame a a"
  by (simp add: power_frame_def)

lemma power_frame_trans: "power_frame a b \<Longrightarrow> power_frame b c \<Longrightarrow> power_frame a c"
  unfolding power_frame_def by (cases a; cases b; cases c) simp

lemma power_frame_selectors:
  assumes "power_frame a b"
  shows "n_profile b = n_profile a" "n_identity b = n_identity a" "n_inventory b = n_inventory a"
    "n_lifecycle b = n_lifecycle a" "n_health b = n_health a" "n_administrative_state b = n_administrative_state a"
    "n_service_mode b = n_service_mode a" "n_actuated_power_level b = n_actuated_power_level a"
    "n_transition b = n_transition a" "n_join_time_ms b = n_join_time_ms a"
    "n_planned_exit_time_ms b = n_planned_exit_time_ms a" "n_last_access_ms b = n_last_access_ms a"
    "n_last_metrics_end_ms b = n_last_metrics_end_ms a" "n_resident_data_bytes b = n_resident_data_bytes a"
    "n_last_utilization b = n_last_utilization a" "n_last_queue_depth b = n_last_queue_depth a"
    "n_failure_source b = n_failure_source a" "n_failure_count b = n_failure_count a"
    "n_next_failure_time_ms b = n_next_failure_time_ms a" "n_repair_due_time_ms b = n_repair_due_time_ms a"
    "n_optical_library b = n_optical_library a" "n_readiness b = n_readiness a"
    "n_metrics_streams b = n_metrics_streams a" "n_reliability_seed b = n_reliability_seed a"
    "n_actual_exit_time_ms b = n_actual_exit_time_ms a" "n_last_heartbeat_ms b = n_last_heartbeat_ms a"
  using assms unfolding power_frame_def by (cases a; cases b; simp)+

lemma IntegrateEnergyLocked_frame [simp]: "power_frame node (IntegrateEnergyLocked node t)"
  by (simp add: IntegrateEnergyLocked_def Let_def power_frame_def)

lemma power_frame_updates:
  assumes "power_frame a b"
  shows "power_frame a (b\<lparr>n_power_level := l\<rparr>)" "power_frame a (b\<lparr>n_power_state_enter_ms := t\<rparr>)"
    "power_frame a (b\<lparr>n_wake_count := t\<rparr>)" "power_frame a (b\<lparr>n_standby_transition_count := t\<rparr>)"
    "power_frame a (b\<lparr>n_power_off_count := t\<rparr>)"
  using assms unfolding power_frame_def by (cases a; cases b; simp)+

lemma SetPowerLevelLocked_frame [simp]: "power_frame node (snd (SetPowerLevelLocked policy node level t force))"
  unfolding SetPowerLevelLocked_def Let_def by (simp add: power_frame_updates)

lemma SetPowerLevelLocked_actuated [simp]:
  "n_last_actuated_energy_update_ms node = n_last_energy_update_ms node \<Longrightarrow>
   n_last_actuated_energy_update_ms (snd (SetPowerLevelLocked policy node level t force)) =
   n_last_energy_update_ms (snd (SetPowerLevelLocked policy node level t force))"
  by (simp add: SetPowerLevelLocked_def IntegrateEnergyLocked_def Let_def)

lemma SetPowerLevelLocked_level:
  "n_power_level (snd (SetPowerLevelLocked policy node level t force)) \<in> {n_power_level node, level}"
  "force \<Longrightarrow> n_power_level (snd (SetPowerLevelLocked policy node level t force)) = level"
  by (simp_all add: SetPowerLevelLocked_def IntegrateEnergyLocked_def Let_def)

text \<open>The loop keeps every relation that one of its rounds keeps, and ends at the given time.\<close>

lemma advance_loop_induct:
  assumes "R node node"
    and step: "\<And>a. R node a \<Longrightarrow> n_last_energy_update_ms a < now_ms \<Longrightarrow>
      R node (IntegrateEnergyLocked (snd (SetPowerLevelLocked policy a
        (safe_desired policy nodes a (n_last_energy_update_ms a)) (n_last_energy_update_ms a) False))
        (next_boundary policy (snd (SetPowerLevelLocked policy a
          (safe_desired policy nodes a (n_last_energy_update_ms a)) (n_last_energy_update_ms a) False))
          (n_last_energy_update_ms a) now_ms))"
  shows "R node (snd (advance_loop policy nodes now_ms (changed, node)))"
proof -
  have "R node (snd (advance_loop policy nodes now_ms x))" if "R node (snd x)" for x
    using that
  proof (induction policy\<equiv>policy nodes\<equiv>nodes now_ms\<equiv>now_ms x rule: advance_loop.induct)
    case (1 changed a)
    show ?case
    proof (cases "n_last_energy_update_ms a < now_ms")
      case True
      obtain c b where b: "SetPowerLevelLocked policy a (safe_desired policy nodes a (n_last_energy_update_ms a))
          (n_last_energy_update_ms a) False = (c, b)" by force
      have "R node (IntegrateEnergyLocked b (next_boundary policy b (n_last_energy_update_ms a) now_ms))"
        using step[of a] 1(2) True b by simp
      from 1(1)[OF True refl _ refl refl, unfolded b snd_conv, OF refl this[folded snd_conv]]
      show ?thesis using True b by (subst advance_loop.simps) (simp add: Let_def)
    next
      case False
      then show ?thesis using 1(2) by (subst advance_loop.simps) simp
    qed
  qed
  from this[of "(changed, node)"] assms(1) show ?thesis by simp
qed

lemma SetPowerLevelLocked_now:
  "n_last_energy_update_ms (snd (SetPowerLevelLocked policy a level (n_last_energy_update_ms a) force)) = n_last_energy_update_ms a"
  "n_energy_microjoules (snd (SetPowerLevelLocked policy a level (n_last_energy_update_ms a) force)) = n_energy_microjoules a"
  by (simp_all add: SetPowerLevelLocked_def IntegrateEnergyLocked_def Let_def)

lemma advance_loop_frame [simp]: "power_frame node (snd (advance_loop policy nodes t (changed, node)))"
  by (rule advance_loop_induct[where R = power_frame])
     (auto intro: power_frame_trans[OF _ power_frame_trans[OF SetPowerLevelLocked_frame IntegrateEnergyLocked_frame]])

lemma advance_loop_end:
  assumes "n_last_energy_update_ms node \<le> t"
  shows "n_last_energy_update_ms (snd (advance_loop policy nodes t (changed, node))) = t"
proof -
  have le: "n_last_energy_update_ms (snd (advance_loop policy nodes t (changed, node))) \<le> t"
    by (rule advance_loop_induct[where R = "\<lambda>a b. n_last_energy_update_ms b \<le> t"])
       (use assms in \<open>auto simp: SetPowerLevelLocked_now next_boundary_bounds\<close>)
  have ge: "\<not> n_last_energy_update_ms (snd (advance_loop policy nodes t x)) < t" for x :: "bool \<times> NodeRecord"
    by (induction policy nodes t x rule: advance_loop.induct)
       (subst advance_loop.simps, simp add: Let_def split: prod.splits)
  show ?thesis using le ge[of "(changed, node)"] by simp
qed

lemma advance_loop_actuated:
  assumes "n_last_actuated_energy_update_ms node = n_last_energy_update_ms node"
  shows "n_last_actuated_energy_update_ms (snd (advance_loop policy nodes t (changed, node))) =
    n_last_energy_update_ms (snd (advance_loop policy nodes t (changed, node)))"
  by (rule advance_loop_induct[where R = "\<lambda>a b. n_last_actuated_energy_update_ms b = n_last_energy_update_ms b"])
     (use assms in \<open>auto simp: IntegrateEnergyLocked_def Let_def\<close>)

lemma advance_frame [simp]: "power_frame node (snd (AdvancePowerPolicyLocked policy nodes node t))"
proof (cases "t \<le> n_last_energy_update_ms node")
  case False
  have "power_frame node (snd (SetPowerLevelLocked policy (snd (advance_loop policy nodes t (False, node))) l t False))" for l
    by (rule power_frame_trans[OF advance_loop_frame SetPowerLevelLocked_frame])
  then show ?thesis using False by (simp add: AdvancePowerPolicyLocked_def case_prod_beta)
qed (simp add: AdvancePowerPolicyLocked_def)

lemmas advance_simps [simp] = power_frame_selectors[OF advance_frame]
lemmas set_power_simps [simp] = power_frame_selectors[OF SetPowerLevelLocked_frame]

lemma advance_last [simp]:
  "n_last_energy_update_ms (snd (AdvancePowerPolicyLocked policy nodes node t)) = max (n_last_energy_update_ms node) t"
proof (cases "t \<le> n_last_energy_update_ms node")
  case False
  let ?b = "snd (advance_loop policy nodes t (False, node))"
  have b: "n_last_energy_update_ms ?b = t" using False by (intro advance_loop_end) simp
  have "n_last_energy_update_ms (snd (SetPowerLevelLocked policy ?b l t False)) = t" for l
    using SetPowerLevelLocked_now(1)[of policy ?b l False] b by simp
  then show ?thesis using False by (auto simp: AdvancePowerPolicyLocked_def case_prod_beta max_def)
qed (simp add: AdvancePowerPolicyLocked_def max_def)

lemma advance_actuated:
  assumes "n_last_actuated_energy_update_ms node = n_last_energy_update_ms node"
  shows "n_last_actuated_energy_update_ms (snd (AdvancePowerPolicyLocked policy nodes node t)) =
    n_last_energy_update_ms (snd (AdvancePowerPolicyLocked policy nodes node t))"
  using assms by (simp add: AdvancePowerPolicyLocked_def case_prod_beta advance_loop_actuated)

section \<open>Energy accounting\<close>

text \<open>The energy of a node between two times lies between what it draws when off and at peak.\<close>

definition energy_within :: "NodeRecord \<Rightarrow> NodeRecord \<Rightarrow> bool" where
  "energy_within a b \<longleftrightarrow> n_profile b = n_profile a \<and> n_last_energy_update_ms a \<le> n_last_energy_update_ms b \<and>
     (let ms = unat (n_last_energy_update_ms b) - unat (n_last_energy_update_ms a)
      in unat (n_energy_microjoules b) \<le> unat (n_energy_microjoules a) + unat (pp_peak (hp_power (n_profile a))) * ms \<and>
         min (unat (n_energy_microjoules a) + unat (pp_off (hp_power (n_profile a))) * ms) (2 ^ 64 - 1)
           \<le> unat (n_energy_microjoules b))"

lemma energy_within_refl: "energy_within a a"
  using unat_u64_lt[of "n_energy_microjoules a"] by (simp add: energy_within_def)

lemma energy_within_trans:
  assumes "energy_within a b" "energy_within b c"
  shows "energy_within a c"
proof -
  define P Q x y M where "P = unat (pp_peak (hp_power (n_profile a)))" and "Q = unat (pp_off (hp_power (n_profile a)))"
    and "x = unat (n_last_energy_update_ms b) - unat (n_last_energy_update_ms a)"
    and "y = unat (n_last_energy_update_ms c) - unat (n_last_energy_update_ms b)" and "M = (2 :: nat) ^ 64 - 1"
  note defs = this
  have prof: "n_profile b = n_profile a" "n_profile c = n_profile a" using assms by (simp_all add: energy_within_def)
  have le: "n_last_energy_update_ms a \<le> n_last_energy_update_ms b" "n_last_energy_update_ms b \<le> n_last_energy_update_ms c"
    using assms by (simp_all add: energy_within_def)
  then have xy: "unat (n_last_energy_update_ms c) - unat (n_last_energy_update_ms a) = x + y"
    by (simp add: defs word_le_nat_alt)
  have up: "unat (n_energy_microjoules b) \<le> unat (n_energy_microjoules a) + P * x"
    "unat (n_energy_microjoules c) \<le> unat (n_energy_microjoules b) + P * y"
    and down: "min (unat (n_energy_microjoules a) + Q * x) M \<le> unat (n_energy_microjoules b)"
    "min (unat (n_energy_microjoules b) + Q * y) M \<le> unat (n_energy_microjoules c)"
    using assms unfolding energy_within_def Let_def prof defs by blast+
  have "unat (n_energy_microjoules c) \<le> unat (n_energy_microjoules a) + P * (x + y)"
    using up by (simp add: algebra_simps)
  moreover have "min (unat (n_energy_microjoules a) + Q * (x + y)) M \<le> unat (n_energy_microjoules c)"
    using down by (auto simp: algebra_simps min_def split: if_splits)
  ultimately show ?thesis
    using le prof unfolding energy_within_def Let_def xy defs by auto
qed

lemma power_level_bounds:
  assumes "ValidateNodeHardwareProfile p = Inr ()"
  shows "PowerMilliwatts (hp_power p) l \<le> pp_peak (hp_power p)" "pp_off (hp_power p) \<le> PowerMilliwatts (hp_power p) l"
proof -
  have "pp_off (hp_power p) \<le> pp_standby (hp_power p)" "pp_standby (hp_power p) \<le> pp_medium (hp_power p)"
    "pp_medium (hp_power p) \<le> pp_peak (hp_power p)"
    using assms unfolding ValidateNodeHardwareProfile_iff profile_ok_def by blast+
  then show "PowerMilliwatts (hp_power p) l \<le> pp_peak (hp_power p)" "pp_off (hp_power p) \<le> PowerMilliwatts (hp_power p) l"
    by (cases l; auto)+
qed

lemma energy_within_integrate:
  assumes "ValidateNodeHardwareProfile (n_profile a) = Inr ()"
  shows "energy_within a (IntegrateEnergyLocked a t)"
proof (cases "n_last_energy_update_ms a < t")
  case True
  define P Q E M where "P = unat (pp_peak (hp_power (n_profile a)))" and "Q = unat (pp_off (hp_power (n_profile a)))"
    and "E = unat (n_energy_microjoules a)" and "M = (2 :: nat) ^ 64 - 1"
  define L ms where "L = unat (PowerMilliwatts (hp_power (n_profile a)) (n_power_level a))"
    and "ms = unat t - unat (n_last_energy_update_ms a)"
  have "Q \<le> L" "L \<le> P" using power_level_bounds[OF assms] by (auto simp: P_def Q_def L_def word_le_nat_alt)
  then have mult: "Q * ms \<le> L * ms" "L * ms \<le> P * ms" by simp_all
  have ms: "unat (t - n_last_energy_update_ms a) = ms" using True by (simp add: ms_def unat_sub_no_wrap less_imp_le)
  have e: "unat (n_energy_microjoules (IntegrateEnergyLocked a t)) = min (E + min (L * ms) M) M"
    using True by (simp add: IntegrateEnergyLocked_def Let_def unat_SaturatingAdd unat_SaturatingMultiply ms E_def L_def M_def)
  have "min (E + min b M) M \<le> E + c" "min (E + a) M \<le> min (E + min b M) M" if "a \<le> b" "b \<le> c" for a b c
    using that by auto
  note this[OF mult]
  with True power_frame_selectors(1)[OF IntegrateEnergyLocked_frame, of a t] show ?thesis
    unfolding energy_within_def Let_def e by (simp add: E_def P_def Q_def ms_def M_def max_def)
next
  case False
  then have "n_last_energy_update_ms (IntegrateEnergyLocked a t) = n_last_energy_update_ms a"
    "n_energy_microjoules (IntegrateEnergyLocked a t) = n_energy_microjoules a"
    by (auto simp: IntegrateEnergyLocked_def Let_def)
  then show ?thesis
    using energy_within_refl[of a] power_frame_selectors(1)[OF IntegrateEnergyLocked_frame, of a t]
    unfolding energy_within_def Let_def by simp
qed

lemma energy_within_cong:
  "n_profile c = n_profile b \<Longrightarrow> n_last_energy_update_ms c = n_last_energy_update_ms b \<Longrightarrow>
   n_energy_microjoules c = n_energy_microjoules b \<Longrightarrow> energy_within a c = energy_within a b"
  by (simp add: energy_within_def)

lemma energy_within_valid: "energy_within a b \<Longrightarrow> n_profile b = n_profile a"
  by (simp add: energy_within_def)

lemma SetPowerLevelLocked_energy:
  "SetPowerLevelLocked policy b l t force = (c, b') \<Longrightarrow>
   n_energy_microjoules b' = n_energy_microjoules b \<and> n_last_energy_update_ms b' = n_last_energy_update_ms b \<or>
   n_energy_microjoules b' = n_energy_microjoules (IntegrateEnergyLocked b t) \<and>
   n_last_energy_update_ms b' = n_last_energy_update_ms (IntegrateEnergyLocked b t)"
  by (auto simp: SetPowerLevelLocked_def Let_def split: if_splits)

lemma energy_within_set_power [intro]:
  assumes "energy_within a b" "ValidateNodeHardwareProfile (n_profile a) = Inr ()"
  shows "energy_within a (snd (SetPowerLevelLocked policy b l t force))"
proof -
  obtain c b' where b': "SetPowerLevelLocked policy b l t force = (c, b')" by force
  have prof: "n_profile b' = n_profile b" "n_profile (IntegrateEnergyLocked b t) = n_profile b"
    using set_power_simps(1)[of policy b l t force] b' power_frame_selectors(1)[OF IntegrateEnergyLocked_frame] by simp_all
  have "energy_within a (IntegrateEnergyLocked b t)"
    using assms energy_within_valid[OF assms(1)] by (intro energy_within_trans[OF assms(1)] energy_within_integrate) simp
  then show ?thesis
    using SetPowerLevelLocked_energy[OF b'] prof assms(1) energy_within_cong[of b' b a]
      energy_within_cong[of b' "IntegrateEnergyLocked b t" a] unfolding b' snd_conv by auto
qed

lemma energy_within_integrate' [intro]:
  "energy_within a b \<Longrightarrow> ValidateNodeHardwareProfile (n_profile a) = Inr () \<Longrightarrow> energy_within a (IntegrateEnergyLocked b t)"
  using energy_within_trans[of a b] energy_within_integrate[of b t] energy_within_valid[of a b] by simp

lemma energy_within_advance [intro]:
  assumes "energy_within a b" "ValidateNodeHardwareProfile (n_profile a) = Inr ()"
  shows "energy_within a (snd (AdvancePowerPolicyLocked policy nodes b t))"
proof (cases "t \<le> n_last_energy_update_ms b")
  case False
  have "energy_within a (snd (advance_loop policy nodes t (False, b)))"
    by (rule advance_loop_induct[where R = "\<lambda>x y. energy_within a y"]) (use assms in auto)
  then show ?thesis using False assms(2) by (auto simp: AdvancePowerPolicyLocked_def case_prod_beta)
qed (use assms(1) in \<open>simp add: AdvancePowerPolicyLocked_def\<close>)

text \<open>C4: The policy advances a node exactly to the given time, whatever its record holds: the loop over the
  boundaries ends, only power level, energy and their counters change, and the energy accounted lies between
  the draw at off and at peak over the elapsed time (saturating at \<open>UINT64_MAX\<close>).\<close>

theorem AdvancePowerPolicyLocked_accounts:
  assumes "ValidateNodeHardwareProfile (n_profile node) = Inr ()"
  shows "n_last_energy_update_ms (snd (AdvancePowerPolicyLocked policy nodes node t)) = max (n_last_energy_update_ms node) t \<and>
    power_frame node (snd (AdvancePowerPolicyLocked policy nodes node t)) \<and>
    unat (n_energy_microjoules (snd (AdvancePowerPolicyLocked policy nodes node t))) \<le>
      unat (n_energy_microjoules node) + unat (pp_peak (hp_power (n_profile node))) *
        (unat (max (n_last_energy_update_ms node) t) - unat (n_last_energy_update_ms node)) \<and>
    min (unat (n_energy_microjoules node) + unat (pp_off (hp_power (n_profile node))) *
        (unat (max (n_last_energy_update_ms node) t) - unat (n_last_energy_update_ms node))) (2 ^ 64 - 1) \<le>
      unat (n_energy_microjoules (snd (AdvancePowerPolicyLocked policy nodes node t)))"
  using energy_within_advance[OF energy_within_refl assms, of policy nodes t]
  unfolding energy_within_def Let_def advance_last by simp

definition sample_env :: float_env where
  "sample_env = \<lparr>fe_rl = \<lambda>x. x, fe_rd = \<lambda>x. x, fe_normal = \<lambda>mean dev seed. mean, fe_interval = \<lambda>mean seed. mean\<rparr>"

definition sample_node :: NodeRecord where
  "sample_node = registered_node sample_env (DefaultStorageNodeProfile ''n1'') 1000 7"

definition sample_policy :: PowerPolicy where
  "sample_policy = \<lparr>pol_peak_utilization = 4 / 5, pol_peak_queue_depth = 8, pol_metrics_freshness_ms = 5000,
     pol_standby_after_ms = 60000, pol_off_after_ms = 600000, pol_minimum_residency_ms = 1000,
     pol_allow_off_with_resident_data = False, pol_min_online_storage_nodes = 0, pol_min_online_metadata_nodes = 0,
     pol_min_online_optical_nodes = 0, pol_min_online_storage_capacity_bytes = 0, pol_min_online_storage_free_bytes = 0,
     pol_history_max_samples = 100000\<rparr>"

lemma sample_node_profile: "n_profile sample_node = DefaultStorageNodeProfile ''n1''"
  by (simp add: sample_node_def registered_node_def default_node_def Let_def)

theorem AdvancePowerPolicyLocked_accounts_witness:
  "n_last_energy_update_ms (snd (AdvancePowerPolicyLocked sample_policy [] sample_node 9000)) =
     max (n_last_energy_update_ms sample_node) 9000"
  using AdvancePowerPolicyLocked_accounts[of sample_node sample_policy "[]" 9000] default_profiles_valid(1)[of "''n1''"]
  by (simp add: sample_node_profile)

section \<open>The life of a node\<close>

definition node_wf :: "string \<Rightarrow> NodeRecord \<Rightarrow> bool" where
  "node_wf k n \<longleftrightarrow> hp_node_id (n_profile n) = k \<and> ValidateNodeHardwareProfile (n_profile n) = Inr () \<and>
     ni_node_id (n_identity n) = k \<and> is_node_id (n_inventory n) = k \<and>
     (is_devices (n_inventory n) = [] \<or> ValidateNodeInventorySnapshot (n_inventory n) = Inr ()) \<and>
     ValidateOpticalLibraryStatus (n_optical_library n) = Inr () \<and>
     n_last_actuated_energy_update_ms n = n_last_energy_update_ms n \<and>
     (n_lifecycle n = kRetired \<longrightarrow> n_administrative_state n = kDisabled)"

definition node_life :: "NodeRecord \<Rightarrow> NodeRecord \<Rightarrow> bool" where
  "node_life a b \<longleftrightarrow> n_profile b = n_profile a \<and> n_lifecycle a \<le> n_lifecycle b \<and> n_join_time_ms b = n_join_time_ms a \<and>
     n_planned_exit_time_ms b = n_planned_exit_time_ms a \<and> energy_within a b \<and>
     (ni_compact_id (n_identity a) \<noteq> 0 \<longrightarrow> ni_compact_id (n_identity b) = ni_compact_id (n_identity a))"

lemma node_life_refl: "node_life a a"
  by (simp add: node_life_def energy_within_refl)

lemma node_life_trans: "node_life a b \<Longrightarrow> node_life b c \<Longrightarrow> node_life a c"
  unfolding node_life_def by (metis energy_within_trans order_trans)

definition node_ok :: "string \<Rightarrow> NodeRecord \<Rightarrow> NodeRecord \<Rightarrow> bool" where
  "node_ok k a b \<longleftrightarrow> node_wf k b \<and> node_life a b"

lemma energy_within_updates [simp]:
  "energy_within a (b\<lparr>n_identity := x1\<rparr>) = energy_within a b" "energy_within a (b\<lparr>n_inventory := x2\<rparr>) = energy_within a b"
  "energy_within a (b\<lparr>n_lifecycle := x3\<rparr>) = energy_within a b" "energy_within a (b\<lparr>n_health := x4\<rparr>) = energy_within a b"
  "energy_within a (b\<lparr>n_administrative_state := x5\<rparr>) = energy_within a b" "energy_within a (b\<lparr>n_service_mode := x6\<rparr>) = energy_within a b"
  "energy_within a (b\<lparr>n_actuated_power_level := x7\<rparr>) = energy_within a b" "energy_within a (b\<lparr>n_transition := x8\<rparr>) = energy_within a b"
  "energy_within a (b\<lparr>n_actual_exit_time_ms := x9\<rparr>) = energy_within a b" "energy_within a (b\<lparr>n_last_heartbeat_ms := x9\<rparr>) = energy_within a b"
  "energy_within a (b\<lparr>n_last_access_ms := x9\<rparr>) = energy_within a b" "energy_within a (b\<lparr>n_last_metrics_end_ms := x9\<rparr>) = energy_within a b"
  "energy_within a (b\<lparr>n_last_metrics_sequence := x9\<rparr>) = energy_within a b"
  "energy_within a (b\<lparr>n_last_metrics_reporter_epoch := x9\<rparr>) = energy_within a b"
  "energy_within a (b\<lparr>n_resident_data_bytes := x9\<rparr>) = energy_within a b" "energy_within a (b\<lparr>n_last_utilization := x10\<rparr>) = energy_within a b"
  "energy_within a (b\<lparr>n_last_queue_depth := x11\<rparr>) = energy_within a b" "energy_within a (b\<lparr>n_access_operation_count := x9\<rparr>) = energy_within a b"
  "energy_within a (b\<lparr>n_accumulated_write_bytes := x9\<rparr>) = energy_within a b" "energy_within a (b\<lparr>n_replacement_count := x9\<rparr>) = energy_within a b"
  "energy_within a (b\<lparr>n_predecessor_node_id := x12\<rparr>) = energy_within a b" "energy_within a (b\<lparr>n_drain_remaining_objects := x9\<rparr>) = energy_within a b"
  "energy_within a (b\<lparr>n_drain_remaining_bytes := x9\<rparr>) = energy_within a b" "energy_within a (b\<lparr>n_drain_active_requests := x11\<rparr>) = energy_within a b"
  "energy_within a (b\<lparr>n_drain_last_report_ms := x9\<rparr>) = energy_within a b" "energy_within a (b\<lparr>n_failure_reason := x12\<rparr>) = energy_within a b"
  "energy_within a (b\<lparr>n_failure_source := x13\<rparr>) = energy_within a b" "energy_within a (b\<lparr>n_last_power_actuation_ms := x9\<rparr>) = energy_within a b"
  "energy_within a (b\<lparr>n_last_power_actuation_error := x12\<rparr>) = energy_within a b" "energy_within a (b\<lparr>n_next_failure_time_ms := x9\<rparr>) = energy_within a b"
  "energy_within a (b\<lparr>n_repair_due_time_ms := x9\<rparr>) = energy_within a b" "energy_within a (b\<lparr>n_failure_count := x9\<rparr>) = energy_within a b"
  "energy_within a (b\<lparr>n_optical_library := x14\<rparr>) = energy_within a b" "energy_within a (b\<lparr>n_readiness := x15\<rparr>) = energy_within a b"
  "energy_within a (b\<lparr>n_metrics_streams := x16\<rparr>) = energy_within a b"
  by (simp_all add: energy_within_def)

definition catalog_wf :: "NodePowerManager \<Rightarrow> bool" where
  "catalog_wf m \<longleftrightarrow> distinct (map fst (pm_nodes m)) \<and> (\<forall>k n. map_of (pm_nodes m) k = Some n \<longrightarrow> node_wf k n)"

definition catalog_life :: "NodePowerManager \<Rightarrow> NodePowerManager \<Rightarrow> bool" where
  "catalog_life m m' \<longleftrightarrow> pm_policy m' = pm_policy m \<and> (\<forall>k n. map_of (pm_nodes m) k = Some n \<longrightarrow>
     (\<exists>n'. map_of (pm_nodes m') k = Some n' \<and> node_life n n'))"

definition catalog_ok :: "NodePowerManager \<Rightarrow> NodePowerManager \<Rightarrow> bool" where
  "catalog_ok m m' \<longleftrightarrow> catalog_wf m' \<and> catalog_life m m'"

lemma bump_simps [simp]:
  "pm_nodes (bump c m) = pm_nodes m" "pm_policy (bump c m) = pm_policy m" "pm_history (bump c m) = pm_history m"
  by (simp_all add: bump_def)

lemma catalog_ok_cong: "pm_nodes a = pm_nodes b \<Longrightarrow> pm_policy a = pm_policy b \<Longrightarrow> catalog_ok m a = catalog_ok m b"
  by (simp add: catalog_ok_def catalog_wf_def catalog_life_def)

lemma update_node_ok:
  assumes "catalog_wf m" "map_of (pm_nodes m) k = Some n" "node_ok k n n'"
  shows "catalog_ok m (m\<lparr>pm_nodes := AList.update k n' (pm_nodes m)\<rparr>)"
proof -
  let ?m = "m\<lparr>pm_nodes := AList.update k n' (pm_nodes m)\<rparr>"
  have "catalog_wf ?m"
    using assms by (auto simp: catalog_wf_def update_conv distinct_update node_ok_def split: if_splits)
  moreover have "catalog_life m ?m"
    using assms(2,3) node_life_refl by (auto simp: catalog_life_def update_conv node_ok_def)
  ultimately show ?thesis by (simp add: catalog_ok_def)
qed

lemma with_node_ok:
  assumes "with_node m k f = Inr m'" "catalog_wf m"
    and "\<And>n c n'. node_wf k n \<Longrightarrow> f n = Inr (c, n') \<Longrightarrow> node_ok k n n'"
  shows "catalog_ok m m'"
proof -
  obtain n c n' where n: "map_of (pm_nodes m) k = Some n" and f: "f n = Inr (c, n')"
    and m': "m' = bump c (m\<lparr>pm_nodes := AList.update k n' (pm_nodes m)\<rparr>)"
    using assms(1) by (auto simp: with_node_def split: option.splits sum.splits)
  have "node_wf k n" using assms(2) n by (simp add: catalog_wf_def)
  then have "catalog_ok m (m\<lparr>pm_nodes := AList.update k n' (pm_nodes m)\<rparr>)"
    using assms(3) f by (intro update_node_ok[OF assms(2) n]) blast
  moreover have "catalog_ok m m' = catalog_ok m (m\<lparr>pm_nodes := AList.update k n' (pm_nodes m)\<rparr>)"
    unfolding m' by (rule catalog_ok_cong) simp_all
  ultimately show ?thesis by simp
qed

lemmas [simp] = energy_within_refl energy_within_set_power energy_within_advance energy_within_integrate'

lemma lifecycle_le [simp]:
  "kJoining \<le> s" "s \<le> kRetired" "s \<le> kWorking \<longleftrightarrow> s = kJoining \<or> s = kWorking"
  "s \<le> kDraining \<longleftrightarrow> s \<noteq> kExiting \<and> s \<noteq> kRetired" "s \<le> kExiting \<longleftrightarrow> s \<noteq> kRetired"
  "kRetired \<le> s \<longleftrightarrow> s = kRetired"
  by (cases s; simp add: less_eq_LifecycleState_def)+

lemma IntegrateEnergyLocked_actuated [simp]:
  "n_last_actuated_energy_update_ms node = n_last_energy_update_ms node \<Longrightarrow>
   n_last_actuated_energy_update_ms (IntegrateEnergyLocked node t) = max (n_last_energy_update_ms node) t"
  by (auto simp: IntegrateEnergyLocked_def Let_def max_def)

lemmas integrate_simps [simp] = power_frame_selectors[OF IntegrateEnergyLocked_frame]
lemmas node_ok_defs = node_ok_def node_wf_def node_life_def

text \<open>Which updates keep a node well formed and on its way.\<close>

lemma node_ok_refl [simp]: "node_wf k a \<Longrightarrow> node_ok k a a"
  by (simp add: node_ok_def node_life_refl)

lemma node_ok_updates [simp]:
  "node_ok k a (b\<lparr>n_health := v0\<rparr>) = node_ok k a b"
  "node_ok k a (b\<lparr>n_service_mode := v1\<rparr>) = node_ok k a b"
  "node_ok k a (b\<lparr>n_actuated_power_level := v2\<rparr>) = node_ok k a b"
  "node_ok k a (b\<lparr>n_transition := v3\<rparr>) = node_ok k a b"
  "node_ok k a (b\<lparr>n_actual_exit_time_ms := v4\<rparr>) = node_ok k a b"
  "node_ok k a (b\<lparr>n_last_heartbeat_ms := v5\<rparr>) = node_ok k a b"
  "node_ok k a (b\<lparr>n_last_access_ms := v6\<rparr>) = node_ok k a b"
  "node_ok k a (b\<lparr>n_last_metrics_end_ms := v7\<rparr>) = node_ok k a b"
  "node_ok k a (b\<lparr>n_last_metrics_sequence := v8\<rparr>) = node_ok k a b"
  "node_ok k a (b\<lparr>n_last_metrics_reporter_epoch := v9\<rparr>) = node_ok k a b"
  "node_ok k a (b\<lparr>n_resident_data_bytes := v10\<rparr>) = node_ok k a b"
  "node_ok k a (b\<lparr>n_last_utilization := v11\<rparr>) = node_ok k a b"
  "node_ok k a (b\<lparr>n_last_queue_depth := v12\<rparr>) = node_ok k a b"
  "node_ok k a (b\<lparr>n_access_operation_count := v13\<rparr>) = node_ok k a b"
  "node_ok k a (b\<lparr>n_accumulated_write_bytes := v14\<rparr>) = node_ok k a b"
  "node_ok k a (b\<lparr>n_replacement_count := v15\<rparr>) = node_ok k a b"
  "node_ok k a (b\<lparr>n_predecessor_node_id := v16\<rparr>) = node_ok k a b"
  "node_ok k a (b\<lparr>n_drain_remaining_objects := v17\<rparr>) = node_ok k a b"
  "node_ok k a (b\<lparr>n_drain_remaining_bytes := v18\<rparr>) = node_ok k a b"
  "node_ok k a (b\<lparr>n_drain_active_requests := v19\<rparr>) = node_ok k a b"
  "node_ok k a (b\<lparr>n_drain_last_report_ms := v20\<rparr>) = node_ok k a b"
  "node_ok k a (b\<lparr>n_failure_reason := v21\<rparr>) = node_ok k a b"
  "node_ok k a (b\<lparr>n_failure_source := v22\<rparr>) = node_ok k a b"
  "node_ok k a (b\<lparr>n_last_power_actuation_ms := v23\<rparr>) = node_ok k a b"
  "node_ok k a (b\<lparr>n_last_power_actuation_error := v24\<rparr>) = node_ok k a b"
  "node_ok k a (b\<lparr>n_next_failure_time_ms := v25\<rparr>) = node_ok k a b"
  "node_ok k a (b\<lparr>n_repair_due_time_ms := v26\<rparr>) = node_ok k a b"
  "node_ok k a (b\<lparr>n_failure_count := v27\<rparr>) = node_ok k a b"
  "node_ok k a (b\<lparr>n_readiness := v28\<rparr>) = node_ok k a b"
  "node_ok k a (b\<lparr>n_metrics_streams := v29\<rparr>) = node_ok k a b"
  by (simp_all add: node_ok_defs)

lemma node_ok_power [simp]:
  assumes "node_ok k a b"
  shows "node_ok k a (snd (SetPowerLevelLocked policy b l t force))"
    "node_ok k a (snd (AdvancePowerPolicyLocked policy nodes b t))" "node_ok k a (IntegrateEnergyLocked b t)"
proof -
  have "ValidateNodeHardwareProfile (n_profile a) = Inr ()" using assms by (auto simp: node_ok_defs)
  then show "node_ok k a (snd (SetPowerLevelLocked policy b l t force))"
    "node_ok k a (snd (AdvancePowerPolicyLocked policy nodes b t))" "node_ok k a (IntegrateEnergyLocked b t)"
    using assms by (auto simp: node_ok_defs advance_actuated)
qed

lemma node_ok_identity [simp]:
  "node_ok k a b \<Longrightarrow> node_ok k a (b\<lparr>n_optical_library := s\<rparr>) = (ValidateOpticalLibraryStatus s = Inr ())"
  "node_ok k a b \<Longrightarrow> is_node_id i = k \<Longrightarrow> ValidateNodeInventorySnapshot i = Inr () \<Longrightarrow> node_ok k a (b\<lparr>n_inventory := i\<rparr>)"
  "node_ok k a b \<Longrightarrow> node_ok k a (b\<lparr>n_identity := (n_identity b)\<lparr>ni_node_id := hp_node_id (n_profile b), ni_kind := x,
     ni_execution_mode := y, ni_service_address := z\<rparr>\<rparr>)"
  by (auto simp: node_ok_defs)

lemma node_ok_lifecycle:
  "node_ok k a b \<Longrightarrow> n_lifecycle a \<le> l \<Longrightarrow> l \<noteq> kRetired \<or> s = kDisabled \<Longrightarrow>
   node_ok k a (b\<lparr>n_lifecycle := l, n_administrative_state := s\<rparr>)"
  "node_ok k a b \<Longrightarrow> n_lifecycle a \<le> l \<Longrightarrow> l \<noteq> kRetired \<Longrightarrow> node_ok k a (b\<lparr>n_lifecycle := l\<rparr>)"
  "node_ok k a b \<Longrightarrow> n_lifecycle b \<noteq> kRetired \<or> s = kDisabled \<Longrightarrow> node_ok k a (b\<lparr>n_administrative_state := s\<rparr>)"
  by (auto simp: node_ok_defs)

section \<open>Every operation keeps the catalog well formed\<close>

lemma ActivateNode_ok: "ActivateNode m k t = Inr m' \<Longrightarrow> catalog_wf m \<Longrightarrow> catalog_ok m m'"
  unfolding ActivateNode_def Let_def
  by (erule with_node_ok, assumption) (auto simp: if_Inl_iff node_ok_lifecycle)

lemma BeginRemoveNode_ok: "BeginRemoveNode m k t = Inr m' \<Longrightarrow> catalog_wf m \<Longrightarrow> catalog_ok m m'"
  unfolding BeginRemoveNode_def Let_def
  by (erule with_node_ok, assumption) (auto simp: if_Inl_iff node_ok_lifecycle split: if_splits)

lemma FinalizeRemoveNode_ok: "FinalizeRemoveNode m k t force = Inr m' \<Longrightarrow> catalog_wf m \<Longrightarrow> catalog_ok m m'"
  unfolding FinalizeRemoveNode_def Let_def
  by (erule with_node_ok, assumption) (clarsimp simp: if_Inl_iff node_ok_lifecycle)

lemma MarkNodeFailed_ok: "MarkNodeFailed m k t r = Inr m' \<Longrightarrow> catalog_wf m \<Longrightarrow> catalog_ok m m'"
  unfolding MarkNodeFailed_def Let_def
  by (erule with_node_ok, assumption) (clarsimp simp: if_Inl_iff)

lemma RepairNode_ok: "RepairNode env m k t = Inr m' \<Longrightarrow> catalog_wf m \<Longrightarrow> catalog_ok m m'"
  unfolding RepairNode_def Let_def
  by (erule with_node_ok, assumption) (clarsimp simp: if_Inl_iff)

lemma ReportReadiness_ok: "ReportReadiness m k r g = Inr m' \<Longrightarrow> catalog_wf m \<Longrightarrow> catalog_ok m m'"
  unfolding ReportReadiness_def
  by (erule with_node_ok, assumption) (clarsimp simp: if_Inl_iff)

lemma SetAdministrativeState_ok: "SetAdministrativeState m k s = Inr m' \<Longrightarrow> catalog_wf m \<Longrightarrow> catalog_ok m m'"
  unfolding SetAdministrativeState_def
  by (erule with_node_ok, assumption) (auto simp: if_Inl_iff node_ok_lifecycle split: if_splits)

lemma SetServiceMode_ok: "SetServiceMode m k s = Inr m' \<Longrightarrow> catalog_wf m \<Longrightarrow> catalog_ok m m'"
  unfolding SetServiceMode_def
  by (erule with_node_ok, assumption) (auto simp: if_Inl_iff split: if_splits)

lemma SetTransitionState_ok: "SetTransitionState m k s t = Inr m' \<Longrightarrow> catalog_wf m \<Longrightarrow> catalog_ok m m'"
  unfolding SetTransitionState_def Let_def
  by (erule with_node_ok, assumption) (auto split: if_splits)

lemma SetResidentDataBytes_ok: "SetResidentDataBytes m k n = Inr m' \<Longrightarrow> catalog_wf m \<Longrightarrow> catalog_ok m m'"
  unfolding SetResidentDataBytes_def
  by (erule with_node_ok, assumption) (auto split: if_splits)

lemma ReportDrainProgress_ok: "ReportDrainProgress m k t o' b a = Inr m' \<Longrightarrow> catalog_wf m \<Longrightarrow> catalog_ok m m'"
  unfolding ReportDrainProgress_def Let_def
  by (erule with_node_ok, assumption) (auto simp: if_Inl_iff node_ok_lifecycle)

lemma ReportPowerActuation_ok: "ReportPowerActuation m k l t s e = Inr m' \<Longrightarrow> catalog_wf m \<Longrightarrow> catalog_ok m m'"
  unfolding ReportPowerActuation_def Let_def
  by (erule with_node_ok, assumption) auto

lemma AssignCmsCompactId_ok:
  assumes "AssignCmsCompactId m k i = Inr m'" "catalog_wf m"
  shows "catalog_ok m m'"
  using assms(1) unfolding AssignCmsCompactId_def if_Inl_iff Let_def
  by (elim conjE with_node_ok, intro assms) (auto simp: if_Inl_iff node_ok_defs split: if_splits)

lemma RequestPowerLevel_ok: "RequestPowerLevel m k l t force = Inr m' \<Longrightarrow> catalog_wf m \<Longrightarrow> catalog_ok m m'"
  unfolding RequestPowerLevel_def case_prod_beta Let_def
  by (erule with_node_ok, assumption) (clarsimp simp: if_Inl_iff)

lemma heartbeat_update_ok:
  assumes "node_ok k a b" "is_node_id i = k" "ValidateNodeInventorySnapshot i = Inr ()"
  shows "node_ok k a (heartbeat_update b s i t)"
  using assms unfolding heartbeat_update_def Let_def by simp

lemma ReportHeartbeat_ok: "ReportHeartbeat m k a i t = Inr m' \<Longrightarrow> catalog_wf m \<Longrightarrow> catalog_ok m m'"
  unfolding ReportHeartbeat_def Let_def
  by (erule with_node_ok, assumption) (auto intro!: heartbeat_update_ok split: if_splits sum.splits)

lemma ReportOpticalLibraryStatus_ok:
  assumes "ReportOpticalLibraryStatus m k s g = Inr m'" "catalog_wf m"
  shows "catalog_ok m m'"
proof -
  obtain u where v: "ValidateOpticalLibraryStatus s = Inr u"
    using assms(1) by (cases "ValidateOpticalLibraryStatus s") (auto simp: ReportOpticalLibraryStatus_def)
  show ?thesis
    using assms(1) unfolding ReportOpticalLibraryStatus_def v sum.case Let_def
    by (rule with_node_ok[OF _ assms(2)]) (clarsimp simp: if_Inl_iff v)
qed

lemma metrics_record_ok [simp]: "node_wf k n \<Longrightarrow> node_ok k n (metrics_record env m n r t)"
  unfolding metrics_record_def Let_def by simp

lemma metrics_update_ok: "node_wf k n \<Longrightarrow> node_ok k n (metrics_update env m n r)"
  unfolding metrics_update_def Let_def by simp

lemma ReportMetrics_ok:
  assumes "ReportMetrics env m k r = Inr m'" "catalog_wf m"
  shows "catalog_ok m m'"
  using assms(1) unfolding ReportMetrics_def if_Inl_iff
  by (elim conjE with_node_ok, intro assms) (auto simp: if_Inl_iff metrics_update_ok split: if_splits)

lemma event_update_ok:
  assumes "node_wf k n" "IsServingLifecycle (n_lifecycle n)"
  shows "node_ok k n (event_update env m n e t)"
  using assms unfolding event_update_def Let_def IsServingLifecycle_def
  by (auto simp: node_ok_lifecycle)

lemma ReportAccessEvent_ok: "ReportAccessEvent env m k e = Inr m' \<Longrightarrow> catalog_wf m \<Longrightarrow> catalog_ok m m'"
  unfolding ReportAccessEvent_def Let_def
  by (erule with_node_ok, assumption) (auto simp: if_Inl_iff intro!: event_update_ok)

lemma catalog_life_refl: "catalog_life m m"
  by (simp add: catalog_life_def node_life_refl)

lemma catalog_life_trans: "catalog_life a b \<Longrightarrow> catalog_life b c \<Longrightarrow> catalog_life a c"
  unfolding catalog_life_def by (metis node_life_trans)

lemma registered_node_wf:
  assumes "ValidateNodeHardwareProfile p = Inr ()"
  shows "node_wf (hp_node_id p) (registered_node env p j s)"
  using assms
  by (simp add: node_wf_def registered_node_def default_node_def empty_optical_def Let_def ValidateOpticalLibraryStatus_def)

lemma RegisterNode_ok:
  assumes "RegisterNode env m p j s = Inr m'" "catalog_wf m"
  shows "catalog_ok m m'"
proof -
  have v: "ValidateNodeHardwareProfile p = Inr ()" and new: "map_of (pm_nodes m) (hp_node_id p) = None"
    and m': "m' = bump True (m\<lparr>pm_nodes := pm_nodes m @ [(hp_node_id p, registered_node env p j s)]\<rparr>)"
    using assms(1) by (auto simp: RegisterNode_def split: sum.splits option.splits)
  have "hp_node_id p \<notin> fst ` set (pm_nodes m)" using new by (simp add: map_of_eq_None_iff)
  then show ?thesis
    using assms(2) registered_node_wf[OF v] node_life_refl
    by (auto simp: catalog_ok_def catalog_wf_def catalog_life_def m' map_add_def split: option.splits if_splits)
qed

lemma map_of_map_node: "map_of (map (\<lambda>(k, n). (k, f k n)) xs) k = map_option (f k) (map_of xs k)"
  by (induction xs) auto

lemma map_nodes_ok:
  assumes "catalog_wf m" "\<And>k n. node_wf k n \<Longrightarrow> node_ok k n (f k n)"
  shows "catalog_ok m (bump c (m\<lparr>pm_nodes := map (\<lambda>(k, n). (k, f k n)) (pm_nodes m)\<rparr>))"
proof -
  have "map (fst \<circ> (\<lambda>(k, n). (k, f k n))) (pm_nodes m) = map fst (pm_nodes m)" by (simp add: comp_def case_prod_beta)
  then have "distinct (map (fst \<circ> (\<lambda>(k, n). (k, f k n))) (pm_nodes m))" using assms(1) by (simp only: catalog_wf_def)
  then show ?thesis
    using assms by (auto simp: catalog_ok_def catalog_wf_def catalog_life_def map_of_map_node node_ok_def)
qed

lemma RegisterReplacementNode_ok:
  assumes "RegisterReplacementNode env m p q j s = Inr m'" "catalog_wf m"
  shows "catalog_ok m m'"
proof -
  let ?f = "\<lambda>k node. let node1 = (if k = hp_node_id p then node\<lparr>n_predecessor_node_id := q\<rparr> else node)
     in if k = q then node1\<lparr>n_replacement_count := n_replacement_count node1 + 1\<rparr> else node1"
  obtain m1 where r: "RegisterNode env m p j s = Inr m1"
    and m': "m' = bump True (m1\<lparr>pm_nodes := map (\<lambda>(k, n). (k, ?f k n)) (pm_nodes m1)\<rparr>)"
    using assms(1) by (auto simp: RegisterReplacementNode_def split: option.splits if_splits sum.splits)
  have m1: "catalog_ok m m1" by (rule RegisterNode_ok[OF r assms(2)])
  have "catalog_ok m1 m'" unfolding m'
    by (rule map_nodes_ok) (use m1 in \<open>auto simp: catalog_ok_def Let_def\<close>)
  with m1 show ?thesis unfolding catalog_ok_def using catalog_life_trans by blast
qed

lemma evaluate_health_ok: "node_wf k n \<Longrightarrow> node_ok k n (snd (evaluate_health policy t s d n))"
  unfolding evaluate_health_def Let_def by simp

lemma EvaluateHeartbeatHealth_ok:
  assumes "catalog_wf m"
  shows "catalog_ok m (snd (EvaluateHeartbeatHealth m t s d))"
proof -
  have "map (\<lambda>(k, r). (k, snd r)) (map (\<lambda>(k, n). (k, evaluate_health (pm_policy m) t s d n)) (pm_nodes m)) =
      map (\<lambda>(k, n). (k, snd (evaluate_health (pm_policy m) t s d n))) (pm_nodes m)" by (simp add: case_prod_beta)
  then show ?thesis
    unfolding EvaluateHeartbeatHealth_def Let_def snd_conv
    by (simp only:) (rule map_nodes_ok[OF assms evaluate_health_ok])
qed

lemma tick_stages_ok [simp]:
  "node_ok k a b \<Longrightarrow> node_ok k a (snd (tick_repair env policy t b))"
  "node_ok k a b \<Longrightarrow> node_ok k a (snd (tick_fail policy t b))"
  by (simp_all add: tick_repair_def tick_fail_def Let_def)

lemma tick_expire_ok [simp]: "node_ok k a b \<Longrightarrow> node_ok k a (snd (tick_expire t b))"
proof -
  assume ok: "node_ok k a b"
  then have "n_lifecycle a \<le> n_lifecycle b" by (simp add: node_ok_def node_life_def)
  with ok show ?thesis by (auto simp: tick_expire_def node_ok_lifecycle)
qed

lemma tick_node_ok: "node_wf k n \<Longrightarrow> node_ok k n (snd (tick_node env policy nodes t n))"
  unfolding tick_node_def case_prod_beta snd_conv by simp

lemma tick_loop_ok:
  assumes "catalog_wf m" "tick_loop env (pm_policy m) t f ks (c, pm_nodes m) = (c', nodes)"
  shows "catalog_ok m (m\<lparr>pm_nodes := nodes\<rparr>)"
  using assms
proof (induction ks arbitrary: m c)
  case Nil
  then show ?case by (auto simp: catalog_ok_def catalog_wf_def catalog_life_def node_life_refl)
next
  case (Cons k ks)
  show ?case
  proof (cases "\<exists>n. map_of (pm_nodes m) k = Some n \<and> tick_matches f n")
    case True
    then obtain n where n: "map_of (pm_nodes m) k = Some n" "tick_matches f n" by blast
    obtain ch n' where n': "tick_node env (pm_policy m) (pm_nodes m) t n = (ch, n')" by force
    let ?m1 = "m\<lparr>pm_nodes := AList.update k n' (pm_nodes m)\<rparr>"
    have "node_wf k n" using Cons.prems(1) n(1) by (simp add: catalog_wf_def)
    from tick_node_ok[OF this, of env "pm_policy m" "pm_nodes m" t] n' have ok: "node_ok k n n'" by simp
    have step: "catalog_ok m ?m1" by (rule update_node_ok[OF Cons.prems(1) n(1) ok])
    have "tick_loop env (pm_policy ?m1) t f ks (c \<or> ch, pm_nodes ?m1) = (c', nodes)"
      using Cons.prems(2) n n' by simp
    from Cons.IH[OF _ this] step have "catalog_ok ?m1 (m\<lparr>pm_nodes := nodes\<rparr>)" by (simp add: catalog_ok_def)
    with step show ?thesis unfolding catalog_ok_def using catalog_life_trans by blast
  next
    case False
    then have "tick_loop env (pm_policy m) t f ks (c, pm_nodes m) = (c', nodes)"
      using Cons.prems(2) by (auto split: option.splits if_splits)
    then show ?thesis by (rule Cons.IH[OF Cons.prems(1)])
  qed
qed

lemma RecordHistoryLocked_simps [simp]:
  "pm_nodes (RecordHistoryLocked m t) = pm_nodes m" "pm_policy (RecordHistoryLocked m t) = pm_policy m"
  "pm_generation (RecordHistoryLocked m t) = pm_generation m"
  by (simp_all add: RecordHistoryLocked_def)

lemma TickMatchingLocked_ok:
  assumes "catalog_wf m"
  shows "catalog_ok m (snd (TickMatchingLocked env m t f))"
proof -
  obtain c nodes where l: "tick_loop env (pm_policy m) t f (map fst (pm_nodes m)) (False, pm_nodes m) = (c, nodes)" by force
  have "catalog_ok m (snd (TickMatchingLocked env m t f)) = catalog_ok m (m\<lparr>pm_nodes := nodes\<rparr>)"
    by (rule catalog_ok_cong) (simp_all add: TickMatchingLocked_def l Let_def)
  with tick_loop_ok[OF assms l] show ?thesis by simp
qed

section \<open>Steps of the catalog\<close>

text \<open>One accepted call of a public operation; a rejected call leaves the catalog as it is.\<close>

inductive catalog_step :: "float_env \<Rightarrow> NodePowerManager \<Rightarrow> NodePowerManager \<Rightarrow> bool" for env where
  step_register: "RegisterNode env m p j s = Inr m' \<Longrightarrow> catalog_step env m m'"
| step_replace: "RegisterReplacementNode env m p q j s = Inr m' \<Longrightarrow> catalog_step env m m'"
| step_activate: "ActivateNode m k t = Inr m' \<Longrightarrow> catalog_step env m m'"
| step_begin_remove: "BeginRemoveNode m k t = Inr m' \<Longrightarrow> catalog_step env m m'"
| step_finalize: "FinalizeRemoveNode m k t force = Inr m' \<Longrightarrow> catalog_step env m m'"
| step_fail: "MarkNodeFailed m k t r = Inr m' \<Longrightarrow> catalog_step env m m'"
| step_repair: "RepairNode env m k t = Inr m' \<Longrightarrow> catalog_step env m m'"
| step_heartbeat: "ReportHeartbeat m k a i t = Inr m' \<Longrightarrow> catalog_step env m m'"
| step_readiness: "ReportReadiness m k rs g = Inr m' \<Longrightarrow> catalog_step env m m'"
| step_optical: "ReportOpticalLibraryStatus m k st g = Inr m' \<Longrightarrow> catalog_step env m m'"
| step_admin: "SetAdministrativeState m k ad = Inr m' \<Longrightarrow> catalog_step env m m'"
| step_mode: "SetServiceMode m k md = Inr m' \<Longrightarrow> catalog_step env m m'"
| step_compact: "AssignCmsCompactId m k i = Inr m' \<Longrightarrow> catalog_step env m m'"
| step_transition: "SetTransitionState m k tr t = Inr m' \<Longrightarrow> catalog_step env m m'"
| step_power: "RequestPowerLevel m k l t force = Inr m' \<Longrightarrow> catalog_step env m m'"
| step_resident: "SetResidentDataBytes m k b = Inr m' \<Longrightarrow> catalog_step env m m'"
| step_metrics: "ReportMetrics env m k am = Inr m' \<Longrightarrow> catalog_step env m m'"
| step_event: "ReportAccessEvent env m k ev = Inr m' \<Longrightarrow> catalog_step env m m'"
| step_drain: "ReportDrainProgress m k t ro rb ar = Inr m' \<Longrightarrow> catalog_step env m m'"
| step_actuation: "ReportPowerActuation m k l t ok e = Inr m' \<Longrightarrow> catalog_step env m m'"
| step_health: "catalog_step env m (snd (EvaluateHeartbeatHealth m t s d))"
| step_tick: "catalog_step env m (snd (TickMatchingLocked env m t f))"

lemmas operation_ok = RegisterNode_ok RegisterReplacementNode_ok ActivateNode_ok BeginRemoveNode_ok FinalizeRemoveNode_ok
  MarkNodeFailed_ok RepairNode_ok ReportHeartbeat_ok ReportReadiness_ok ReportOpticalLibraryStatus_ok
  SetAdministrativeState_ok SetServiceMode_ok AssignCmsCompactId_ok SetTransitionState_ok RequestPowerLevel_ok
  SetResidentDataBytes_ok ReportMetrics_ok ReportAccessEvent_ok ReportDrainProgress_ok ReportPowerActuation_ok
  EvaluateHeartbeatHealth_ok TickMatchingLocked_ok

lemma catalog_step_ok: "catalog_step env m m' \<Longrightarrow> catalog_wf m \<Longrightarrow> catalog_ok m m'"
  by (induction rule: catalog_step.induct) (blast intro: operation_ok)+

lemma catalog_steps_ok: "(catalog_step env)\<^sup>*\<^sup>* m m' \<Longrightarrow> catalog_wf m \<Longrightarrow> catalog_wf m' \<and> catalog_life m m'"
proof (induction rule: rtranclp_induct)
  case (step b c)
  then have "catalog_ok b c" by (intro catalog_step_ok) auto
  with step show ?case unfolding catalog_ok_def using catalog_life_trans by blast
qed (simp add: catalog_life_refl)

lemma new_manager_wf: "new_manager policy = Inr m \<Longrightarrow> catalog_wf m"
  by (auto simp: new_manager_def catalog_wf_def split: sum.splits)

lemma with_node_history: "with_node m k f = Inr m' \<Longrightarrow> pm_history m' = pm_history m"
  by (auto simp: with_node_def split: option.splits sum.splits)

definition history_bounded :: "NodePowerManager \<Rightarrow> bool" where
  "history_bounded m \<longleftrightarrow> length (pm_history m) \<le> unat (pol_history_max_samples (pm_policy m))"

lemma trim_history_length: "length (trim_history policy h) \<le> unat (pol_history_max_samples policy)"
  by (simp add: trim_history_def)

lemma RecordHistoryLocked_bounded: "history_bounded m \<Longrightarrow> history_bounded (RecordHistoryLocked m t)"
proof -
  assume b: "history_bounded m"
  show ?thesis
  proof (cases "pm_history m \<noteq> [] \<and> ps_timestamp_ms (last (pm_history m)) = t")
    case True
    then have "Suc (length (pm_history m) - 1) = length (pm_history m)" by (cases "pm_history m") auto
    then show ?thesis using b True by (auto simp: RecordHistoryLocked_def history_bounded_def)
  next
    case False
    then show ?thesis
      using b trim_history_length[of "pm_policy m"] by (auto simp: RecordHistoryLocked_def history_bounded_def)
  qed
qed

lemma history_kept:
  assumes "catalog_step env m m'" "history_bounded m" "catalog_wf m"
  shows "history_bounded m'"
proof -
  have pol: "pm_policy m' = pm_policy m"
    using catalog_step_ok[OF assms(1,3)] by (simp add: catalog_ok_def catalog_life_def)
  have reg: "RegisterNode env m p j s = Inr m1 \<Longrightarrow> pm_history m1 = pm_history m" for p j s m1
    by (auto simp: RegisterNode_def split: sum.splits option.splits)
  from assms(1) have "pm_history m' = pm_history m \<or> (\<exists>t m1. m' = RecordHistoryLocked m1 t \<and> pm_history m1 = pm_history m)"
  proof cases
    case (step_replace p q j s)
    then show ?thesis
      using reg by (auto simp: RegisterReplacementNode_def split: option.splits if_splits sum.splits)
  next
    case (step_optical k st g)
    then show ?thesis by (auto simp: ReportOpticalLibraryStatus_def split: sum.splits dest: with_node_history)
  next
    case (step_compact k i)
    then show ?thesis by (auto simp: AssignCmsCompactId_def if_Inl_iff dest: with_node_history)
  next
    case (step_metrics k am)
    then show ?thesis by (auto simp: ReportMetrics_def if_Inl_iff dest: with_node_history)
  next
    case (step_tick t f)
    let ?r = "tick_loop env (pm_policy m) t f (map fst (pm_nodes m)) (False, pm_nodes m)"
    have "m' = RecordHistoryLocked (bump (fst ?r) (m\<lparr>pm_nodes := snd ?r\<rparr>)) t"
      using step_tick by (simp add: TickMatchingLocked_def Let_def case_prod_beta)
    moreover have "pm_history (bump (fst ?r) (m\<lparr>pm_nodes := snd ?r\<rparr>)) = pm_history m" by simp
    ultimately show ?thesis by blast
  next
    case (step_health t s d)
    then show ?thesis by (simp add: EvaluateHeartbeatHealth_def Let_def)
  qed (auto dest: reg with_node_history simp: ActivateNode_def BeginRemoveNode_def FinalizeRemoveNode_def MarkNodeFailed_def
      RepairNode_def ReportHeartbeat_def ReportReadiness_def SetAdministrativeState_def SetServiceMode_def
      SetTransitionState_def RequestPowerLevel_def SetResidentDataBytes_def ReportAccessEvent_def
      ReportDrainProgress_def ReportPowerActuation_def)
  then show ?thesis
  proof
    assume "\<exists>t m1. m' = RecordHistoryLocked m1 t \<and> pm_history m1 = pm_history m"
    then obtain t m1 where m1: "m' = RecordHistoryLocked m1 t" "pm_history m1 = pm_history m" by blast
    then have "history_bounded m1" using assms(2) pol by (simp add: history_bounded_def)
    then show ?thesis unfolding m1 by (rule RecordHistoryLocked_bounded)
  qed (use assms(2) pol in \<open>simp add: history_bounded_def\<close>)
qed

lemma reachable_wf:
  assumes "new_manager policy = Inr m0" "(catalog_step env)\<^sup>*\<^sup>* m0 m"
  shows "catalog_wf m \<and> history_bounded m"
  using assms(2)
proof (induction rule: rtranclp_induct)
  case base
  have "history_bounded m0" using assms(1) by (auto simp: new_manager_def history_bounded_def split: sum.splits)
  with new_manager_wf[OF assms(1)] show ?case by simp
next
  case (step a b)
  then show ?case using catalog_step_ok[of env a b] history_kept[of env a b] by (simp add: catalog_ok_def)
qed

text \<open>C3: Every catalog reached from a new manager by accepted calls is well formed: one record per key,
  filed under its node id, with a valid profile, a validated inventory and optical status, both energy
  clocks in step, every retired node disabled, and a bounded history.\<close>

theorem catalog_well_formed:
  assumes "new_manager policy = Inr m0" "(catalog_step env)\<^sup>*\<^sup>* m0 m"
  shows "distinct (map fst (pm_nodes m)) \<and> length (pm_history m) \<le> unat (pol_history_max_samples (pm_policy m)) \<and>
    (\<forall>k n. map_of (pm_nodes m) k = Some n \<longrightarrow> node_wf k n)"
  using reachable_wf[OF assms] by (simp add: catalog_wf_def history_bounded_def)

lemma energy_within_mono: "energy_within a b \<Longrightarrow> n_energy_microjoules a \<le> n_energy_microjoules b"
proof -
  assume w: "energy_within a b"
  define E M x where "E = unat (n_energy_microjoules a)" and "M = (2 :: nat) ^ 64 - 1"
    and "x = unat (pp_off (hp_power (n_profile a))) * (unat (n_last_energy_update_ms b) - unat (n_last_energy_update_ms a))"
  have "E \<le> M" using unat_u64_lt[of "n_energy_microjoules a"] by (simp add: E_def M_def)
  moreover have "min (E + x) M \<le> unat (n_energy_microjoules b)"
    using w by (simp add: energy_within_def Let_def E_def M_def x_def)
  ultimately have "E \<le> unat (n_energy_microjoules b)" by linarith
  then show ?thesis by (simp add: E_def word_le_nat_alt)
qed


definition sample_m0 :: NodePowerManager where
  "sample_m0 = \<lparr>pm_policy = sample_policy, pm_generation = 1, pm_nodes = [], pm_history = []\<rparr>"

definition sample_m1 :: NodePowerManager where
  "sample_m1 = \<lparr>pm_policy = sample_policy, pm_generation = 2, pm_nodes = [(''n1'', sample_node)], pm_history = []\<rparr>"

lemma sample_new: "new_manager sample_policy = Inr sample_m0"
  by (simp add: new_manager_def ValidatePowerPolicy_def sample_policy_def sample_m0_def)

lemma sample_step: "catalog_step sample_env sample_m0 sample_m1"
proof (rule step_register)
  show "RegisterNode sample_env sample_m0 (DefaultStorageNodeProfile ''n1'') 1000 7 = Inr sample_m1"
    using default_profiles_valid(1)[of "''n1''"]
    by (simp add: RegisterNode_def sample_m0_def sample_m1_def bump_def sample_node_def)
       (simp add: DefaultStorageNodeProfile_def default_profile_def)
qed

lemma sample_steps: "(catalog_step sample_env)\<^sup>*\<^sup>* sample_m0 sample_m1"
  using sample_step by (rule r_into_rtranclp)

theorem catalog_well_formed_witness:
  "distinct (map fst (pm_nodes sample_m1)) \<and>
   length (pm_history sample_m1) \<le> unat (pol_history_max_samples (pm_policy sample_m1)) \<and> node_wf ''n1'' sample_node"
  using catalog_well_formed[OF sample_new sample_steps] by (simp add: sample_m1_def)


section \<open>Snapshot and restore\<close>

lemma repair_node_wf:
  assumes "node_wf k n"
  shows "repair_node n = n"
proof -
  have "hp_node_id (n_profile n) \<noteq> []"
    using assms by (auto simp: node_wf_def ValidateNodeHardwareProfile_iff profile_ok_def)
  then have "ni_node_id (n_identity n) \<noteq> []" "is_node_id (n_inventory n) \<noteq> []"
    "n_last_actuated_energy_update_ms n = 0 \<Longrightarrow> n\<lparr>n_last_actuated_energy_update_ms := n_last_energy_update_ms n\<rparr> = n"
    using assms by (auto simp: node_wf_def intro!: NodeRecord.equality)
  then show ?thesis by (simp add: repair_node_def Let_def)
qed

lemma restore_nodes_wf:
  assumes "\<forall>n \<in> set ns. \<exists>k. node_wf k n" "distinct (map (\<lambda>n. hp_node_id (n_profile n)) ns)"
    and "\<forall>n \<in> set ns. hp_node_id (n_profile n) \<notin> fst ` set acc"
  shows "restore_nodes ns acc = Inr (acc @ map (\<lambda>n. (hp_node_id (n_profile n), n)) ns)"
  using assms
proof (induction ns arbitrary: acc)
  case (Cons n ns)
  then obtain k where k: "node_wf k n" by auto
  have "map_of acc (hp_node_id (n_profile n)) = None" using Cons.prems(3) by (simp add: map_of_eq_None_iff)
  moreover have "ValidateNodeHardwareProfile (n_profile n) = Inr ()"
    "(if is_devices (n_inventory n) = [] then Inr () else ValidateNodeInventorySnapshot (n_inventory n)) = Inr ()"
    "(if hp_kind (n_profile n) \<noteq> kOpticalLibrary then Inr () else ValidateOpticalLibraryStatus (n_optical_library n)) = Inr ()"
    using k by (auto simp: node_wf_def)
  ultimately have "restore_nodes (n # ns) acc = restore_nodes ns (acc @ [(hp_node_id (n_profile n), n)])"
    unfolding restore_nodes.simps by (simp only: sum.case Let_def repair_node_wf[OF k] simp_thms if_False)
  also have "\<dots> = Inr ((acc @ [(hp_node_id (n_profile n), n)]) @ map (\<lambda>n. (hp_node_id (n_profile n), n)) ns)"
    by (rule Cons.IH) (use Cons.prems in \<open>auto simp: image_iff\<close>)
  finally show ?case by simp
qed simp

lemma sorted_nodes_map:
  assumes "distinct (map fst xs)" "\<forall>(k, n) \<in> set xs. hp_node_id (n_profile n) = k"
  shows "map_of (map (\<lambda>n. (hp_node_id (n_profile n), n)) (SortByNodeId (map snd xs))) = map_of xs"
    "distinct (map (\<lambda>n. hp_node_id (n_profile n)) (SortByNodeId (map snd xs)))"
proof -
  let ?id = "\<lambda>n. hp_node_id (n_profile n)"
  have ids: "map ?id (map snd xs) = map fst xs" using assms(2) by (induction xs) auto
  have "mset (map ?id (SortByNodeId (map snd xs))) = mset (map fst xs)"
    unfolding SortByNodeId_def ids[symmetric] by (simp add: multiset.map_comp)
  then show d: "distinct (map ?id (SortByNodeId (map snd xs)))" using assms(1) mset_eq_imp_distinct_iff by blast
  have "set (map (\<lambda>n. (?id n, n)) (SortByNodeId (map snd xs))) = set xs"
    using assms(2) by (force simp: SortByNodeId_def)
  moreover have "distinct (map fst (map (\<lambda>n. (?id n, n)) (SortByNodeId (map snd xs))))" using d by (simp add: comp_def)
  ultimately show "map_of (map (\<lambda>n. (?id n, n)) (SortByNodeId (map snd xs))) = map_of xs"
    using assms(1) by (metis map_of_inject_set)
qed

text \<open>C5: Restoring a snapshot of a reachable catalog into a manager with the same policy succeeds and gives
  back every node record unchanged under its id, the generation and the history.\<close>

theorem Restore_Snapshot:
  assumes "new_manager policy = Inr m0" "(catalog_step env)\<^sup>*\<^sup>* m0 m" "pm_generation m \<noteq> 0" "pm_policy m1 = pm_policy m"
  shows "\<exists>m2. Restore m1 (Snapshot m) = Inr m2 \<and> map_of (pm_nodes m2) = map_of (pm_nodes m) \<and>
    pm_generation m2 = pm_generation m \<and> pm_history m2 = pm_history m \<and> Snapshot m2 = Snapshot m"
proof -
  have wf: "catalog_wf m" "history_bounded m" using reachable_wf[OF assms(1,2)] by simp_all
  have keys: "\<forall>(k, n) \<in> set (pm_nodes m). node_wf k n"
    using wf(1) by (auto simp: catalog_wf_def)
  then have ids: "\<forall>(k, n) \<in> set (pm_nodes m). hp_node_id (n_profile n) = k" by (auto simp: node_wf_def)
  let ?ns = "SortByNodeId (map snd (pm_nodes m))"
  note sorted = sorted_nodes_map[OF _ ids]
  have d: "distinct (map fst (pm_nodes m))" using wf(1) by (simp add: catalog_wf_def)
  have "restore_nodes ?ns [] = Inr (map (\<lambda>n. (hp_node_id (n_profile n), n)) ?ns)"
    using restore_nodes_wf[of ?ns "[]"] keys sorted(2)[OF d] by (force simp: SortByNodeId_def)
  moreover have "trim_history (pm_policy m) (pm_history m) = pm_history m"
    using wf(2) by (simp add: trim_history_def history_bounded_def)
  moreover have "max 1 (pm_generation m) = pm_generation m"
    using assms(3) by (simp add: max_def word_le_nat_alt unat_gt_0 Suc_le_eq)
  ultimately have r: "Restore m1 (Snapshot m) = Inr (m1\<lparr>pm_nodes := map (\<lambda>n. (hp_node_id (n_profile n), n)) ?ns,
      pm_generation := pm_generation m, pm_history := pm_history m\<rparr>)"
    using assms(4) by (simp add: Restore_def Snapshot_def kNodeCatalogSnapshotFormatVersion_def)
  have "SortByNodeId (map snd (map (\<lambda>n. (hp_node_id (n_profile n), n)) ?ns)) = ?ns"
    by (simp add: SortByNodeId_def comp_def sort_key_id_if_sorted)
  then show ?thesis using r sorted(1)[OF d] by (simp add: Snapshot_def)
qed

theorem Restore_Snapshot_witness:
  "\<exists>m2. Restore sample_m0 (Snapshot sample_m1) = Inr m2 \<and> map_of (pm_nodes m2) = map_of (pm_nodes sample_m1) \<and>
    pm_generation m2 = pm_generation sample_m1 \<and> pm_history m2 = pm_history sample_m1 \<and> Snapshot m2 = Snapshot sample_m1"
  by (rule Restore_Snapshot[OF sample_new sample_steps]) (simp_all add: sample_m1_def sample_m0_def)

section \<open>Retirement\<close>

lemma with_node_found:
  assumes "with_node m k f = Inr m'" "map_of (pm_nodes m) k = Some n"
  obtains c n' where "f n = Inr (c, n')" "map_of (pm_nodes m') k = Some n'"
    "m' = bump c (m\<lparr>pm_nodes := AList.update k n' (pm_nodes m)\<rparr>)"
  using assms by (auto simp: with_node_def update_conv split: sum.splits)



section \<open>Repeated metrics reports\<close>

lemma find_replace_first: "P v \<Longrightarrow> find P (replace_first P v xs) = Some v"
  by (induction xs) auto

lemma metrics_record_simps [simp]:
  "n_metrics_streams (metrics_record env m n r t) = store_stream r (report_stream env n r) (n_metrics_streams n)"
  "n_lifecycle (metrics_record env m n r t) = n_lifecycle n" "n_health (metrics_record env m n r t) = n_health n"
  "n_administrative_state (metrics_record env m n r t) = n_administrative_state n"
  "n_profile (metrics_record env m n r t) = n_profile n"
  "n_optical_library (metrics_record env m n r t) = n_optical_library n"
  unfolding metrics_record_def Let_def by simp_all

lemma metrics_update_cases:
  "\<exists>t a l. metrics_update env m n r \<in> {metrics_record env m n r t, (metrics_record env m n r t)\<lparr>n_last_access_ms := a\<rparr>,
     set_power m ((metrics_record env m n r t)\<lparr>n_last_access_ms := a\<rparr>) l t}"
  unfolding metrics_update_def Let_def by (split if_split, split if_split) blast

lemma metrics_update_simps:
  "n_metrics_streams (metrics_update env m n r) = store_stream r (report_stream env n r) (n_metrics_streams n)"
  "n_lifecycle (metrics_update env m n r) = n_lifecycle n" "n_health (metrics_update env m n r) = n_health n"
  "n_administrative_state (metrics_update env m n r) = n_administrative_state n"
  "n_profile (metrics_update env m n r) = n_profile n" "n_optical_library (metrics_update env m n r) = n_optical_library n"
  using metrics_update_cases[of env m n r] by auto

lemma metrics_update_duplicate:
  assumes "am_report_sequence r \<noteq> 0"
  shows "duplicate_report (metrics_update env m n r) r"
proof -
  have "same_stream r (report_stream env n r)" by (simp add: same_stream_def report_stream_def Let_def)
  then have "previous_stream (metrics_update env m n r) r = report_stream env n r"
    by (simp add: previous_stream_def metrics_update_simps store_stream_def find_replace_first)
  then show ?thesis
    using assms by (simp add: duplicate_report_def same_reporter_def report_stream_def Let_def)
qed

lemma update_same: "map_of xs k = Some v \<Longrightarrow> AList.update k v xs = xs"
  by (induction xs) (auto split: if_splits)

text \<open>A numbered metrics report is accounted once: repeating an accepted report is accepted again and
  changes nothing in the catalog.\<close>

theorem ReportMetrics_idempotent:
  assumes "ReportMetrics env m k r = Inr m1" "am_report_sequence r \<noteq> 0"
  shows "ReportMetrics env m1 k r = Inr m1"
proof -
  have win: "\<not> am_window_end_ms r < am_window_start_ms r" using assms(1) by (auto simp: ReportMetrics_def if_Inl_iff)
  obtain n where n: "map_of (pm_nodes m) k = Some n"
    using assms(1) win by (auto simp: ReportMetrics_def with_node_def split: option.splits)
  obtain c n' where f: "c = False \<and> n' = n \<and> duplicate_report n r \<or> n' = metrics_update env m n r"
    and serving: "IsServingLifecycle (n_lifecycle n)" "n_health n \<noteq> kFailed" "n_administrative_state n \<noteq> kDisabled"
      "\<not> ((hp_kind (n_profile n) = kOpticalLibrary \<and> ol_telemetry_version (n_optical_library n) \<noteq> 0 \<and>
           am_instance_generation r = 0) \<or>
          (am_instance_generation r \<noteq> 0 \<and> am_instance_generation r \<noteq> hp_instance_generation (n_profile n)))"
    and m1: "map_of (pm_nodes m1) k = Some n'" "m1 = bump c (m\<lparr>pm_nodes := AList.update k n' (pm_nodes m)\<rparr>)"
    using assms(1) win unfolding ReportMetrics_def
    by (simp, elim with_node_found[OF _ n]) (auto simp: if_Inl_iff split: if_splits)
  from f have dup: "duplicate_report n' r" using metrics_update_duplicate[OF assms(2)] by blast
  have same: "n_lifecycle n' = n_lifecycle n" "n_health n' = n_health n" "n_administrative_state n' = n_administrative_state n"
    "n_profile n' = n_profile n" "n_optical_library n' = n_optical_library n"
    using f by (auto simp: metrics_update_simps)
  have "ReportMetrics env m1 k r = Inr (bump False (m1\<lparr>pm_nodes := AList.update k n' (pm_nodes m1)\<rparr>))"
    using win serving dup m1(1) unfolding ReportMetrics_def with_node_def same by (simp add: same)
  also have "\<dots> = Inr m1" using update_same[OF m1(1)] by (simp add: bump_def)
  finally show ?thesis .
qed

section \<open>Expiry found by an access event\<close>

text \<open>C24: A working node whose planned exit time has passed starts draining when an access event reports that
  time, but unlike a tick or an explicit removal the event leaves it administratively enabled, a
  combination \<open>SetAdministrativeState\<close> refuses to create.\<close>

theorem ReportAccessEvent_expiry_stays_enabled:
  assumes "map_of (pm_nodes m) k = Some n" "n_lifecycle n = kWorking" "n_health n \<noteq> kFailed"
    and "n_administrative_state n = kEnabled" "n_last_metrics_end_ms n \<le> ev_event_time_us e div 1000"
    and "n_planned_exit_time_ms n \<le> ev_event_time_us e div 1000"
  shows "\<exists>m' n'. ReportAccessEvent env m k e = Inr m' \<and> map_of (pm_nodes m') k = Some n' \<and>
    n_lifecycle n' = kDraining \<and> n_administrative_state n' = kEnabled \<and>
    SetAdministrativeState m' k kEnabled = Inl DrainingCannotEnable"
proof -
  let ?n = "event_update env m n e (ev_event_time_us e div 1000)"
  let ?m = "bump True (m\<lparr>pm_nodes := AList.update k ?n (pm_nodes m)\<rparr>)"
  have e: "n_lifecycle ?n = kDraining" "n_administrative_state ?n = kEnabled"
    using assms unfolding event_update_def Let_def by simp_all
  have "ReportAccessEvent env m k e = Inr ?m"
    using assms by (simp add: ReportAccessEvent_def with_node_def IsServingLifecycle_def Let_def not_less)
  moreover have "map_of (pm_nodes ?m) k = Some ?n" by (simp add: update_conv)
  moreover have "SetAdministrativeState ?m k kEnabled = Inl DrainingCannotEnable"
    using e by (simp add: SetAdministrativeState_def with_node_def update_conv)
  ultimately show ?thesis using e by blast
qed

definition sample_report :: NodeAccessMetrics where
  "sample_report = \<lparr>am_reporter_epoch = 3, am_report_sequence = 1, am_window_start_ms = 2000, am_window_end_ms = 3000,
     am_read_operations = 5, am_write_operations = 0, am_other_operations = 0, am_read_bytes = 4096, am_write_bytes = 0,
     am_active_requests = 0, am_max_queue_depth = 1, am_busy_time_ms = 10, am_last_access_ms = 0,
     am_access_path = kDefault, am_instance_generation = 0\<rparr>"

definition sample_mw :: NodePowerManager where
  "sample_mw = sample_m1\<lparr>pm_nodes := [(''n1'', sample_node\<lparr>n_lifecycle := kWorking\<rparr>)]\<rparr>"

lemma sample_node_fields:
  "n_health sample_node = kHealthy" "n_administrative_state sample_node = kEnabled" "n_metrics_streams sample_node = []"
  "n_last_metrics_sequence sample_node = 0" "n_last_metrics_end_ms sample_node = 0" "n_last_metrics_reporter_epoch sample_node = 0"
  "hp_kind (n_profile sample_node) = kStorage" "n_power_level sample_node = kOff" "n_transition sample_node = kStable"
  by (simp_all add: sample_node_profile DefaultStorageNodeProfile_def default_profile_def)
     (simp_all add: sample_node_def registered_node_def default_node_def Let_def)

theorem ReportMetrics_idempotent_witness:
  "\<exists>m1. ReportMetrics sample_env sample_mw ''n1'' sample_report = Inr m1 \<and>
     ReportMetrics sample_env m1 ''n1'' sample_report = Inr m1"
proof -
  let ?n = "sample_node\<lparr>n_lifecycle := kWorking\<rparr>"
  have prev: "previous_stream ?n sample_report = empty_stream"
    by (simp add: previous_stream_def sample_node_fields sample_report_def empty_stream_def)
  have "\<not> duplicate_report ?n sample_report" "\<not> stale_report ?n sample_report"
    unfolding duplicate_report_def stale_report_def same_reporter_def path_end_ms_def prev
    by (simp_all add: sample_report_def empty_stream_def sample_node_fields)
  moreover have "\<not> am_window_end_ms sample_report < am_window_start_ms sample_report" "am_instance_generation sample_report = 0"
    by (simp_all add: sample_report_def)
  ultimately obtain m1 where "ReportMetrics sample_env sample_mw ''n1'' sample_report = Inr m1"
    by (simp add: ReportMetrics_def with_node_def sample_mw_def IsServingLifecycle_def sample_node_fields)
  moreover have "am_report_sequence sample_report \<noteq> 0" by (simp add: sample_report_def)
  ultimately show ?thesis using ReportMetrics_idempotent by blast
qed

definition sample_event :: NodeAccessEvent where
  "sample_event = \<lparr>ev_event_time_us = 2 ^ 63, ev_is_read = True, ev_is_write = False, ev_bytes = 10, ev_queue_depth = 0,
     ev_access_path = kDefault\<rparr>"

lemma ld_max: "(unsigned (- 1 :: u64) :: rat) = 18446744073709551615"
proof -
  have "(unsigned (- 1 :: u64) :: rat) = of_nat (unat (- 1 :: u64))" by simp
  also have "\<dots> = of_nat (2 ^ 64 - 1)" by (simp only: unat_minus_one_u64)
  finally show ?thesis by simp
qed

lemma sample_node_exit: "n_planned_exit_time_ms sample_node = 1000 + 5 * kYearMs"
  by (simp add: sample_node_def registered_node_def default_node_def Let_def SampleLifetimeMs_def sample_env_def
      DefaultStorageNodeProfile_def default_profile_def lifetime_def kYearMs_def to_ld_def from_ld_def SaturatingAdd_def ld_max)

theorem ReportAccessEvent_expiry_stays_enabled_witness:
  "\<exists>m' n'. ReportAccessEvent sample_env sample_mw ''n1'' sample_event = Inr m' \<and> map_of (pm_nodes m') ''n1'' = Some n' \<and>
    n_lifecycle n' = kDraining \<and> n_administrative_state n' = kEnabled \<and>
    SetAdministrativeState m' ''n1'' kEnabled = Inl DrainingCannotEnable"
  by (rule ReportAccessEvent_expiry_stays_enabled[of _ _ "sample_node\<lparr>n_lifecycle := kWorking\<rparr>"])
     (simp_all add: sample_mw_def sample_node_fields sample_event_def sample_node_exit kYearMs_def)

section \<open>Power-off safety\<close>

definition serving_online :: "NodeRecord \<Rightarrow> bool" where
  "serving_online n \<longleftrightarrow> n_lifecycle n = kWorking \<and> n_health n \<noteq> kFailed \<and> n_administrative_state n = kEnabled \<and>
     n_power_level n \<noteq> kOff \<and> n_transition n = kStable \<and>
     (hp_execution_mode (n_profile n) = kPhysical \<longrightarrow> n_actuated_power_level n \<noteq> kOff)"

definition online_count :: "NodeKind \<Rightarrow> (string \<times> NodeRecord) list \<Rightarrow> nat" where
  "online_count kind nodes = length (filter (\<lambda>(k, n). serving_online n \<and> hp_kind (n_profile n) = kind) nodes)"

lemma remains_online_iff:
  "remains_online c n \<longleftrightarrow> hp_node_id (n_profile n) \<noteq> hp_node_id (n_profile c) \<and> serving_online n"
  by (auto simp: remains_online_def serving_online_def)

lemma online_fold:
  fixes s :: u32
  shows "fst (foldl (\<lambda>(same_kind :: u32, capacity, free) (key, node).
      if \<not> remains_online c node then (same_kind, capacity, free)
      else let same_kind1 = (if hp_kind (n_profile node) = hp_kind (n_profile c) then same_kind + 1 else same_kind)
           in if hp_kind (n_profile node) = kStorage
              then (same_kind1, SaturatingAdd capacity (CapacityBytesForSafety node), SaturatingAdd free (FreeBytesForSafety node))
              else (same_kind1, capacity, free)) (s, a, b) nodes) =
    s + of_nat (length (filter (\<lambda>(k, n). remains_online c n \<and> hp_kind (n_profile n) = hp_kind (n_profile c)) nodes))"
proof (induction nodes arbitrary: s a b)
  case (Cons x nodes)
  obtain k n where x: "x = (k, n)" by force
  consider "\<not> remains_online c n" | "remains_online c n" "hp_kind (n_profile n) = hp_kind (n_profile c)"
    | "remains_online c n" "hp_kind (n_profile n) \<noteq> hp_kind (n_profile c)" by blast
  then show ?case
    by cases (cases "hp_kind (n_profile n) = kStorage"; simp add: x Cons.IH Let_def add_ac)+
qed simp

lemma CanPowerOffLocked_minimum:
  assumes "CanPowerOffLocked policy nodes c" "length nodes < 2 ^ 32"
  shows "unat (minimum_online policy (hp_kind (n_profile c))) \<le>
    length (filter (\<lambda>(k, n). remains_online c n \<and> hp_kind (n_profile n) = hp_kind (n_profile c)) nodes)"
proof -
  let ?l = "length (filter (\<lambda>(k, n). remains_online c n \<and> hp_kind (n_profile n) = hp_kind (n_profile c)) nodes)"
  have "?l < 2 ^ 32" using assms(2) le_less_trans[OF length_filter_le] by blast
  then have l: "unat (of_nat ?l :: u32) = ?l" by (simp add: unat_of_nat)
  have "\<not> of_nat ?l < minimum_online policy (hp_kind (n_profile c))"
    using assms(1) online_fold[of c 0 0 0 nodes] unfolding CanPowerOffLocked_def
    by (auto split: prod.splits if_splits)
  then show ?thesis using l by (simp add: word_less_nat_alt not_less)
qed

lemma CanPowerOffLocked_cong:
  assumes "n_profile a = n_profile b"
  shows "CanPowerOffLocked policy nodes a = CanPowerOffLocked policy nodes b"
  unfolding CanPowerOffLocked_def remains_online_def assms by (rule refl)

lemma safe_desired_not_off:
  assumes "power_frame a b" "serving_online a" "\<not> CanPowerOffLocked policy nodes a"
  shows "safe_desired policy nodes b t \<noteq> kOff"
  using assms CanPowerOffLocked_cong[of b a policy nodes] power_frame_selectors[OF assms(1)]
  by (simp add: safe_desired_def Let_def serving_online_def)

lemma advance_keeps_on:
  assumes on: "serving_online n" and "\<not> CanPowerOffLocked policy nodes n"
  shows "n_power_level (snd (AdvancePowerPolicyLocked policy nodes n t)) \<noteq> kOff"
proof (cases "t \<le> n_last_energy_update_ms n")
  case True
  then show ?thesis using on by (simp add: AdvancePowerPolicyLocked_def serving_online_def)
next
  case False
  note des = safe_desired_not_off[OF _ assms]
  have lev: "n_power_level (IntegrateEnergyLocked x s) = n_power_level x" for x s
    by (simp add: IntegrateEnergyLocked_def Let_def)
  let ?R = "\<lambda>a b. power_frame a b \<and> n_power_level b \<noteq> kOff"
  have loop: "?R n (snd (advance_loop policy nodes t (False, n)))"
  proof (rule advance_loop_induct[where R = ?R])
    show "?R n n" using on by (simp add: serving_online_def)
  next
    fix a assume a: "?R n a"
    let ?b = "snd (SetPowerLevelLocked policy a (safe_desired policy nodes a (n_last_energy_update_ms a)) (n_last_energy_update_ms a) False)"
    have "n_power_level ?b \<noteq> kOff"
      using SetPowerLevelLocked_level(1)[of policy a "safe_desired policy nodes a (n_last_energy_update_ms a)"
          "n_last_energy_update_ms a" False] des[of a] a by auto
    moreover have "power_frame n (IntegrateEnergyLocked ?b s)" for s
      using a by (blast intro: power_frame_trans[OF _ power_frame_trans[OF SetPowerLevelLocked_frame IntegrateEnergyLocked_frame]])
    ultimately show "?R n (IntegrateEnergyLocked ?b (next_boundary policy ?b (n_last_energy_update_ms a) t))"
      unfolding lev by blast
  qed
  let ?b = "snd (advance_loop policy nodes t (False, n))"
  have "n_power_level (snd (SetPowerLevelLocked policy ?b (safe_desired policy nodes ?b t) t False)) \<noteq> kOff"
    using SetPowerLevelLocked_level(1)[of policy ?b "safe_desired policy nodes ?b t" t False] des[of ?b] loop by auto
  then show ?thesis using False by (simp add: AdvancePowerPolicyLocked_def case_prod_beta)
qed

lemma tick_node_keeps_on:
  assumes on: "serving_online n" and can: "\<not> CanPowerOffLocked policy nodes n"
    and "t < n_planned_exit_time_ms n" "n_next_failure_time_ms n = 0 \<or> t < n_next_failure_time_ms n"
  shows "serving_online (snd (tick_node env policy nodes t n))"
proof -
  let ?a = "snd (AdvancePowerPolicyLocked policy nodes n t)"
  let ?b = "snd (SetPowerLevelLocked policy ?a (safe_desired policy nodes ?a t) t False)"
  have level: "n_power_level ?b \<noteq> kOff"
    using SetPowerLevelLocked_level(1)[of policy ?a "safe_desired policy nodes ?a t" t False]
      safe_desired_not_off[OF advance_frame on can] advance_keeps_on[OF on can, of t] by auto
  have "tick_repair env policy t ?a = (False, ?a)" "tick_fail policy t ?a = (False, ?a)" "tick_expire t ?a = (False, ?a)"
    using on assms(3,4) by (auto simp: tick_repair_def tick_fail_def tick_expire_def serving_online_def)
  then have "snd (tick_node env policy nodes t n) =
      (if hp_execution_mode (n_profile ?b) \<noteq> kPhysical then ?b\<lparr>n_actuated_power_level := n_power_level ?b\<rparr> else ?b)"
    by (simp add: tick_node_def case_prod_beta)
  then show ?thesis using on level by (simp add: serving_online_def)
qed

lemma filter_update:
  "map_of xs k = Some v \<Longrightarrow> length (filter P (AList.update k w xs)) + (if P (k, v) then 1 else 0) =
    length (filter P xs) + (if P (k, w) then 1 else 0)"
  by (induction xs) (auto split: if_splits)

lemma length_filter_mono: "(\<And>x. P x \<Longrightarrow> Q x) \<Longrightarrow> length (filter P xs) \<le> length (filter Q xs)"
  by (induction xs) auto

text \<open>The nodes a tick may not switch off by the failure model or by their age.\<close>

definition quiet :: "u64 \<Rightarrow> NodeRecord \<Rightarrow> bool" where
  "quiet t n \<longleftrightarrow> (serving_online n \<longrightarrow> t < n_planned_exit_time_ms n \<and>
     (n_next_failure_time_ms n = 0 \<or> t < n_next_failure_time_ms n))"

lemma tick_node_minimum:
  assumes n: "map_of nodes k = Some n" and len: "length nodes < 2 ^ 32" and quiet: "quiet t n"
    and prof: "n_profile n' = n_profile n" and n': "n' = snd (tick_node env policy nodes t n)"
    and min: "unat (minimum_online policy kind) \<le> online_count kind nodes"
  shows "unat (minimum_online policy kind) \<le> online_count kind (AList.update k n' nodes)"
proof (cases "serving_online n \<and> hp_kind (n_profile n) = kind \<and> CanPowerOffLocked policy nodes n")
  case True
  let ?Q = "\<lambda>(k :: string, x). remains_online n x \<and> hp_kind (n_profile x) = hp_kind (n_profile n)"
  have "length (filter ?Q (AList.update k n' nodes)) = length (filter ?Q nodes)"
    using filter_update[OF n, of ?Q n'] prof by (simp add: remains_online_def)
  moreover have "length (filter ?Q (AList.update k n' nodes)) \<le> online_count kind (AList.update k n' nodes)"
    unfolding online_count_def using True by (intro length_filter_mono) (auto simp: remains_online_iff)
  ultimately show ?thesis using CanPowerOffLocked_minimum[of policy nodes n] True len by simp
next
  case False
  let ?P = "\<lambda>(k :: string, x). serving_online x \<and> hp_kind (n_profile x) = kind"
  have "serving_online n'" if "serving_online n" "hp_kind (n_profile n) = kind"
    unfolding n' by (rule tick_node_keeps_on) (use that False quiet in \<open>simp_all add: quiet_def\<close>)
  then have "?P (k, n) \<Longrightarrow> ?P (k, n')" using prof by simp
  then have "online_count kind nodes \<le> online_count kind (AList.update k n' nodes)"
    using filter_update[OF n, of ?P n'] unfolding online_count_def by (auto split: if_splits)
  with min show ?thesis by linarith
qed

lemma tick_loop_minimum:
  assumes "tick_loop env policy t f ks (c, nodes) = (c', nodes')" "distinct ks" "length nodes < 2 ^ 32"
    and "\<And>k n. k \<in> set ks \<Longrightarrow> map_of nodes k = Some n \<Longrightarrow> quiet t n \<and> node_wf k n"
    and "unat (minimum_online policy kind) \<le> online_count kind nodes"
  shows "unat (minimum_online policy kind) \<le> online_count kind nodes'"
  using assms
proof (induction ks arbitrary: c nodes)
  case (Cons k ks)
  show ?case
  proof (cases "\<exists>n. map_of nodes k = Some n \<and> tick_matches f n")
    case True
    then obtain n where n: "map_of nodes k = Some n" "tick_matches f n" by blast
    obtain ch n' where n': "tick_node env policy nodes t n = (ch, n')" by force
    have q: "quiet t n" "node_wf k n" using Cons.prems(4)[of k n] n by auto
    have np: "n_profile n' = n_profile n" using tick_node_ok[OF q(2), of env policy nodes t] n' by (simp add: node_ok_defs)
    have n'eq: "n' = snd (tick_node env policy nodes t n)" using n' by simp
    have min: "unat (minimum_online policy kind) \<le> online_count kind (AList.update k n' nodes)"
      by (rule tick_node_minimum[OF n(1) Cons.prems(3) q(1) np n'eq Cons.prems(5)])
    have len: "length (AList.update k n' nodes) = length nodes" using n(1) by (induction nodes) (auto split: if_splits)
    have loop: "tick_loop env policy t f ks (c \<or> ch, AList.update k n' nodes) = (c', nodes')"
      using Cons.prems(1) n n' by simp
    show ?thesis
      by (rule Cons.IH[OF loop]) (use Cons.prems(2-4) min len in \<open>auto simp: update_conv split: if_splits\<close>)
  next
    case False
    then have "tick_loop env policy t f ks (c, nodes) = (c', nodes')"
      using Cons.prems(1) by (auto split: option.splits if_splits)
    then show ?thesis by (rule Cons.IH) (use Cons.prems(2-5) in auto)
  qed
qed simp



end
