(* ===== verification/Cluster_State.thy ===== *)
theory Cluster_State
  imports Node_Lifecycle Meta_Schema
begin

text \<open>
  The view of the node catalogue that the scheduler's RPC service works on:
  \<open>src/src/scheduler/model/ClusterState.{h,cpp}\<close> and \<open>src/src/scheduler/health/FailureDetector.cpp\<close>.  A
  \<open>ClusterState\<close> keeps the lifecycle operations; the catalogue it points to is shared with other
  components and is passed beside it (the scheduler always supplies one).  The enums of \<open>scheduler.proto\<close>
  are open: values outside their range are the constructors \<open>..._OTHER\<close> where the code can meet them.
  The theorems: operation ids are never reused and a node has at most one running operation; a restart
  keeps finished operations and fails interrupted ones; heartbeats change the catalogue only by its own
  operations.
\<close>

section \<open>Data\<close>

datatype NodeType = NODE_REAL | NODE_VIRTUAL_POOL | NODE_OPTICAL | NODE_METADATA | NODE_TYPE_OTHER int
datatype NodeHealthState = NODE_HEALTH_HEALTHY | NODE_HEALTH_SUSPECT | NODE_HEALTH_DEAD
datatype NodeAdminState = NODE_ADMIN_ENABLED | NODE_ADMIN_DRAINING | NODE_ADMIN_DISABLED
datatype NodePowerState = NODE_POWER_UNKNOWN | NODE_POWER_ON | NODE_POWER_OFF | NODE_POWER_STARTING | NODE_POWER_STOPPING
datatype NodeRole = NODE_ROLE_UNKNOWN | NODE_ROLE_PRIMARY | NODE_ROLE_SECONDARY
datatype NodeOperationType = NODE_OP_START | NODE_OP_STOP | NODE_OP_REBOOT
datatype NodeOperationStatus = NODE_OP_PENDING | NODE_OP_RUNNING | NODE_OP_SUCCEEDED | NODE_OP_FAILED
datatype ManagedDeviceKind = MANAGED_DEVICE_UNKNOWN | MANAGED_DEVICE_HDD | MANAGED_DEVICE_SSD | MANAGED_DEVICE_DISC
  | MANAGED_DEVICE_OPTICAL_DRIVE | MANAGED_DEVICE_OTHER int

record DiskHeartbeat =
  dh_disk_id :: string
  dh_capacity_bytes :: u64
  dh_free_bytes :: u64
  dh_is_healthy :: bool
  dh_device_kind :: ManagedDeviceKind
  dh_read_bandwidth :: u64
  dh_write_bandwidth :: u64
  dh_accumulated_write_bytes :: u64
  dh_health_source :: string

record HeartbeatRequest =
  hr_node_id :: string
  hr_node_type :: NodeType
  hr_address :: string
  hr_virtual_node_count :: u32
  hr_report_ts_ms :: u64
  hr_disks :: "DiskHeartbeat list"
  hr_readiness_reported :: bool
  hr_initialization_complete :: bool
  hr_metadata_ready :: bool
  hr_readiness_message :: string
  hr_instance_generation :: u64
  hr_require_registered :: bool
  hr_inventory_unavailable :: bool

text \<open>The fields \<open>applied_lsn\<close>, \<open>peer_node_id\<close> and \<open>peer_address\<close> of a node state and the secondary of an
  assignment keep their defaults and are left out.\<close>

record NodeState =
  ns_node_id :: string
  ns_node_type :: NodeType
  ns_address :: string
  ns_weight :: u32
  ns_virtual_node_count :: u32
  ns_group_id :: string
  ns_role :: NodeRole
  ns_epoch :: u64
  ns_sync_ready :: bool
  ns_health_state :: NodeHealthState
  ns_admin_state :: NodeAdminState
  ns_power_state :: NodePowerState
  ns_desired_admin_state :: NodeAdminState
  ns_desired_power_state :: NodePowerState
  ns_last_heartbeat_ms :: u64
  ns_resident_data_bytes :: u64
  ns_optical_inventory_observed :: bool
  ns_optical_local_disc_count :: u32
  ns_disks :: "(string \<times> DeviceInventory) list"

record NodeOperationState =
  os_operation_id :: string
  os_node_id :: string
  os_operation_type :: NodeOperationType
  os_status :: NodeOperationStatus
  os_message :: string
  os_start_ts_ms :: u64
  os_finish_ts_ms :: u64

record HeartbeatAssignment =
  ha_generation :: u64
  ha_group_id :: string
  ha_assigned_role :: NodeRole
  ha_epoch :: u64
  ha_primary_node_id :: string
  ha_primary_address :: string

record FailureDetector =
  fd_suspect_timeout_ms :: u64
  fd_dead_timeout_ms :: u64

record ClusterState =
  cl_detector :: FailureDetector
  cl_next_operation_id :: u64
  cl_operations :: "(string \<times> NodeOperationState) list"

datatype cluster_error =
    HeartbeatNodeIdEmpty | RegistrationRequired | HeartbeatGeneration | CatalogError power_error
  | OperationNodeNotFound string | OperationSequenceExhausted | OperationRunning string | OperationNotFound string
  | InvalidOperationId | InvalidOperation | InvalidOperationSequence

section \<open>The failure detector\<close>

definition Evaluate :: "FailureDetector \<Rightarrow> u64 \<Rightarrow> u64 \<Rightarrow> NodePowerState \<Rightarrow> NodeHealthState" where
  "Evaluate d now_ms last_heartbeat_ms desired_power_state =
     (if desired_power_state = NODE_POWER_OFF then NODE_HEALTH_HEALTHY
      else if last_heartbeat_ms = 0 \<or> now_ms \<le> last_heartbeat_ms then NODE_HEALTH_SUSPECT
      else let elapsed = now_ms - last_heartbeat_ms
           in if elapsed \<ge> fd_dead_timeout_ms d then NODE_HEALTH_DEAD
              else if elapsed \<ge> fd_suspect_timeout_ms d then NODE_HEALTH_SUSPECT
              else NODE_HEALTH_HEALTHY)"

section \<open>Translation between catalogue and legacy views\<close>

definition DefaultHeartbeatProfile :: "HeartbeatRequest \<Rightarrow> NodeHardwareProfile" where
  "DefaultHeartbeatProfile request =
     (let profile = (if hr_node_type request = NODE_METADATA then DefaultMetadataNodeProfile (hr_node_id request)
                     else if hr_node_type request = NODE_OPTICAL then DefaultOpticalLibraryProfile (hr_node_id request)
                     else DefaultStorageNodeProfile (hr_node_id request))
      in if hr_node_type request = NODE_VIRTUAL_POOL
         then profile\<lparr>hp_execution_mode := kVirtual, hp_logical_node_count := max 1 (hr_virtual_node_count request)\<rparr>
         else profile)"

fun HeartbeatDeviceKind :: "ManagedDeviceKind \<Rightarrow> NodeKind \<Rightarrow> DeviceKind" where
  "HeartbeatDeviceKind MANAGED_DEVICE_SSD node_kind = kSsd"
| "HeartbeatDeviceKind MANAGED_DEVICE_DISC node_kind = kDisc"
| "HeartbeatDeviceKind MANAGED_DEVICE_OPTICAL_DRIVE node_kind = kOpticalDrive"
| "HeartbeatDeviceKind MANAGED_DEVICE_HDD node_kind = kHdd"
| "HeartbeatDeviceKind MANAGED_DEVICE_UNKNOWN node_kind = (if node_kind = kMetadata then kSsd else kHdd)"
| "HeartbeatDeviceKind (MANAGED_DEVICE_OTHER n) node_kind = kHdd"

definition LegacyNodeType :: "NodeRecord \<Rightarrow> NodeType" where
  "LegacyNodeType node =
     (if hp_kind (n_profile node) = kMetadata then NODE_METADATA
      else if hp_kind (n_profile node) = kOpticalLibrary then NODE_OPTICAL
      else if hp_execution_mode (n_profile node) = kVirtual then NODE_VIRTUAL_POOL
      else NODE_REAL)"

fun LegacyHealth :: "HealthState \<Rightarrow> NodeHealthState" where
  "LegacyHealth kHealthy = NODE_HEALTH_HEALTHY"
| "LegacyHealth kSuspect = NODE_HEALTH_SUSPECT"
| "LegacyHealth kFailed = NODE_HEALTH_DEAD"

definition LegacyAdmin :: "NodeRecord \<Rightarrow> NodeAdminState" where
  "LegacyAdmin node =
     (if n_lifecycle node = kRetired \<or> n_administrative_state node = kDisabled then NODE_ADMIN_DISABLED
      else if n_lifecycle node = kDraining \<or> n_lifecycle node = kExiting \<or>
              n_administrative_state node = kAdminDraining \<or> \<not> hp_participates_in_placement (n_profile node) \<or>
              n_service_mode node = kReadOnly
        then NODE_ADMIN_DRAINING
      else NODE_ADMIN_ENABLED)"

definition LegacyPower :: "NodeRecord \<Rightarrow> NodePowerState" where
  "LegacyPower node =
     (if n_transition node = kStarting \<or> n_transition node = kRebooting then NODE_POWER_STARTING
      else if n_transition node = kStopping then NODE_POWER_STOPPING
      else if n_actuated_power_level node = kOff then NODE_POWER_OFF else NODE_POWER_ON)"

definition BuildNodeState :: "NodeRecord \<Rightarrow> NodeState" where
  "BuildNodeState node =
     \<lparr>ns_node_id = hp_node_id (n_profile node), ns_node_type = LegacyNodeType node,
      ns_address = ni_service_address (n_identity node), ns_weight = 1,
      ns_virtual_node_count = hp_logical_node_count (n_profile node), ns_group_id = hp_node_id (n_profile node),
      ns_role = NODE_ROLE_PRIMARY, ns_epoch = 1, ns_sync_ready = True, ns_health_state = LegacyHealth (n_health node),
      ns_admin_state = LegacyAdmin node, ns_power_state = LegacyPower node, ns_desired_admin_state = LegacyAdmin node,
      ns_desired_power_state = (if n_power_level node = kOff then NODE_POWER_OFF else NODE_POWER_ON),
      ns_last_heartbeat_ms = n_last_heartbeat_ms node, ns_resident_data_bytes = n_resident_data_bytes node,
      ns_optical_inventory_observed = ol_observed (n_optical_library node),
      ns_optical_local_disc_count = ol_local_disc_count (n_optical_library node),
      ns_disks = foldl (\<lambda>disks device. AList.update (di_disk_id device) device disks) [] (is_devices (n_inventory node))\<rparr>"

definition BuildAssignment :: "NodeRecord \<Rightarrow> u64 \<Rightarrow> HeartbeatAssignment" where
  "BuildAssignment node generation =
     \<lparr>ha_generation = generation, ha_group_id = hp_node_id (n_profile node), ha_assigned_role = NODE_ROLE_PRIMARY,
      ha_epoch = 1, ha_primary_node_id = hp_node_id (n_profile node),
      ha_primary_address = ni_service_address (n_identity node)\<rparr>"

section \<open>Heartbeats\<close>

definition heartbeat_device :: "u64 \<Rightarrow> NodeKind \<Rightarrow> DiskHeartbeat \<Rightarrow> DeviceInventory" where
  "heartbeat_device now_ms kind disk =
     \<lparr>di_disk_id = dh_disk_id disk, di_kind = HeartbeatDeviceKind (dh_device_kind disk) kind,
      di_capacity_bytes = dh_capacity_bytes disk, di_free_bytes = dh_free_bytes disk, di_is_healthy = dh_is_healthy disk,
      di_read_bandwidth = dh_read_bandwidth disk, di_write_bandwidth = dh_write_bandwidth disk,
      di_accumulated_write_bytes = dh_accumulated_write_bytes disk, di_last_update_ms = now_ms,
      di_health_source = dh_health_source disk\<rparr>"

definition heartbeat_inventory :: "HeartbeatRequest \<Rightarrow> u64 \<Rightarrow> NodeRecord \<Rightarrow> NodeInventorySnapshot" where
  "heartbeat_inventory request now_ms node =
     (if hr_inventory_unavailable request then n_inventory node
      else \<lparr>is_node_id = hr_node_id request, is_generation = is_generation (n_inventory node) + 1,
            is_observed_at_ms = now_ms,
            is_devices = map (heartbeat_device now_ms (hp_kind (n_profile node))) (hr_disks request)\<rparr>)"

definition heartbeat_readiness :: "HeartbeatRequest \<Rightarrow> u64 \<Rightarrow> NodeReadinessStatus" where
  "heartbeat_readiness request now_ms =
     \<lparr>rs_observed = True, rs_initialization_complete = hr_initialization_complete request,
      rs_inventory_ready = (\<not> hr_inventory_unavailable request \<and> hr_disks request \<noteq> []),
      rs_metadata_ready = hr_metadata_ready request, rs_observed_at_ms = now_ms, rs_message = hr_readiness_message request\<rparr>"

text \<open>The readiness part: the report, then the activation of a joining node that is ready.\<close>

definition heartbeat_ready ::
  "HeartbeatRequest \<Rightarrow> u64 \<Rightarrow> NodePowerManager \<Rightarrow> (cluster_error + unit) \<times> NodePowerManager" where
  "heartbeat_ready request now_ms m =
     (if \<not> hr_readiness_reported request then (Inr (), m)
      else let readiness = heartbeat_readiness request now_ms
           in case ReportReadiness m (hr_node_id request) readiness (hr_instance_generation request) of
                Inl e \<Rightarrow> (Inl (CatalogError e), m)
              | Inr m1 \<Rightarrow>
                  (case GetNode m1 (hr_node_id request) of
                     Some node \<Rightarrow>
                       if n_lifecycle node = kJoining \<and> Ready readiness
                       then (case ActivateNode m1 (hr_node_id request) now_ms of
                               Inl e \<Rightarrow> (Inl (CatalogError e), m1)
                             | Inr m2 \<Rightarrow> (Inr (), m2))
                       else (Inr (), m1)
                   | None \<Rightarrow> (Inr (), m1)))"

text \<open>The heartbeat of a known node.\<close>

definition heartbeat_known ::
  "HeartbeatRequest \<Rightarrow> u64 \<Rightarrow> NodePowerManager \<Rightarrow> NodeRecord \<Rightarrow> (cluster_error + HeartbeatAssignment) \<times> NodePowerManager" where
  "heartbeat_known request now_ms m node =
     (if (hp_kind (n_profile node) = kOpticalLibrary \<and> ol_telemetry_version (n_optical_library node) \<noteq> 0 \<and>
          hr_instance_generation request = 0) \<or>
         (hr_instance_generation request \<noteq> 0 \<and> hr_instance_generation request \<noteq> hp_instance_generation (n_profile node))
      then (Inl HeartbeatGeneration, m)
      else case ReportHeartbeat m (hr_node_id request) (hr_address request) (heartbeat_inventory request now_ms node) now_ms of
             Inl e \<Rightarrow> (Inl (CatalogError e), m)
           | Inr m1 \<Rightarrow>
               (case heartbeat_ready request now_ms m1 of
                  (Inl e, m2) \<Rightarrow> (Inl e, m2)
                | (Inr _, m2) \<Rightarrow>
                    (case GetNode m2 (hr_node_id request) of
                       Some node2 \<Rightarrow> (Inr (BuildAssignment node2 (pm_generation m2)), m2)
                     | None \<Rightarrow> (Inl (CatalogError (NodeNotFound (hr_node_id request))), m2))))"

text \<open>\<open>now\<close> is the reading of the clock, \<open>hash\<close> is \<open>std::hash<std::string>\<close>.\<close>

definition Cluster_ReportHeartbeat ::
  "float_env \<Rightarrow> (string \<Rightarrow> u64) \<Rightarrow> u64 \<Rightarrow> HeartbeatRequest \<Rightarrow> NodePowerManager \<Rightarrow>
   (cluster_error + HeartbeatAssignment) \<times> NodePowerManager" where
  "Cluster_ReportHeartbeat env hash now request m =
     (if hr_node_id request = [] then (Inl HeartbeatNodeIdEmpty, m)
      else let now_ms = (if hr_report_ts_ms request = 0 then now else hr_report_ts_ms request)
           in case GetNode m (hr_node_id request) of
                Some node \<Rightarrow> heartbeat_known request now_ms m node
              | None \<Rightarrow>
                  if hr_require_registered request then (Inl RegistrationRequired, m)
                  else (case RegisterNode env m (DefaultHeartbeatProfile request) now_ms (hash (hr_node_id request)) of
                          Inl e \<Rightarrow> (Inl (CatalogError e), m)
                        | Inr m1 \<Rightarrow>
                            (case GetNode m1 (hr_node_id request) of
                               Some node \<Rightarrow> heartbeat_known request now_ms m1 node
                             | None \<Rightarrow> (Inl (CatalogError (NodeNotFound (hr_node_id request))), m1))))"

definition TickHealth :: "ClusterState \<Rightarrow> u64 \<Rightarrow> NodePowerManager \<Rightarrow> u64 \<times> NodePowerManager" where
  "TickHealth cl now m = EvaluateHeartbeatHealth m now (fd_suspect_timeout_ms (cl_detector cl)) (fd_dead_timeout_ms (cl_detector cl))"

section \<open>Administrative and power state\<close>

text \<open>A call whose result is dropped: a refused call leaves the catalogue as it was.\<close>

definition ignoring :: "NodePowerManager \<Rightarrow> power_error + NodePowerManager \<Rightarrow> power_error option \<times> NodePowerManager" where
  "ignoring m r = (case r of Inl e \<Rightarrow> (Some e, m) | Inr m1 \<Rightarrow> (None, m1))"

definition SetNodeAdminState :: "NodePowerManager \<Rightarrow> string \<Rightarrow> NodeAdminState \<Rightarrow> power_error option \<times> NodePowerManager" where
  "SetNodeAdminState m node_id state =
     ignoring m (SetAdministrativeState m node_id
       (case state of NODE_ADMIN_DRAINING \<Rightarrow> kAdminDraining | NODE_ADMIN_DISABLED \<Rightarrow> kDisabled | NODE_ADMIN_ENABLED \<Rightarrow> kEnabled))"

definition SetDesiredPowerState ::
  "NodePowerManager \<Rightarrow> string \<Rightarrow> NodePowerState \<Rightarrow> u64 \<Rightarrow> power_error option \<times> NodePowerManager" where
  "SetDesiredPowerState m node_id state now =
     ignoring m (RequestPowerLevel m node_id (if state = NODE_POWER_OFF then kOff else kMedium) now True)"

definition SetCurrentPowerState ::
  "NodePowerManager \<Rightarrow> string \<Rightarrow> NodePowerState \<Rightarrow> u64 \<Rightarrow> power_error option \<times> NodePowerManager" where
  "SetCurrentPowerState m node_id state now =
     (if state = NODE_POWER_STARTING then ignoring m (SetTransitionState m node_id kStarting now)
      else if state = NODE_POWER_STOPPING then ignoring m (SetTransitionState m node_id kStopping now)
      else case ignoring m (ReportPowerActuation m node_id (if state = NODE_POWER_OFF then kOff else kMedium) now True
                              ''legacy lifecycle confirmation'') of
             (e, m1) \<Rightarrow> (e, snd (ignoring m1 (SetTransitionState m1 node_id kStable now))))"

definition Cluster_Snapshot :: "NodePowerManager \<Rightarrow> u64 \<Rightarrow> u64 \<times> NodeState list" where
  "Cluster_Snapshot m min_generation =
     (pm_generation m, if pm_generation m < min_generation then [] else map BuildNodeState (ListNodes m any_node))"

definition Cluster_GetNode :: "NodePowerManager \<Rightarrow> string \<Rightarrow> NodeState option" where
  "Cluster_GetNode m node_id = map_option BuildNodeState (GetNode m node_id)"

section \<open>Lifecycle operations\<close>

definition operation_id_of :: "u64 \<Rightarrow> string" where
  "operation_id_of n = ''op-'' @ to_string n"

definition running_on :: "string \<Rightarrow> NodeOperationState \<Rightarrow> bool" where
  "running_on node_id op \<longleftrightarrow> os_node_id op = node_id \<and> os_status op = NODE_OP_RUNNING"

definition CreateOperation ::
  "ClusterState \<Rightarrow> NodePowerManager \<Rightarrow> string \<Rightarrow> NodeOperationType \<Rightarrow> string \<Rightarrow> u64 \<Rightarrow>
   cluster_error + NodeOperationState \<times> ClusterState" where
  "CreateOperation cl m node_id type message now =
     (case GetNode m node_id of
        None \<Rightarrow> Inl (OperationNodeNotFound node_id)
      | Some _ \<Rightarrow>
          if cl_next_operation_id cl = - 1 then Inl OperationSequenceExhausted
          else case find (\<lambda>(key, existing). running_on node_id existing) (cl_operations cl) of
                 Some (key, existing) \<Rightarrow> Inl (OperationRunning key)
               | None \<Rightarrow>
                   let op = \<lparr>os_operation_id = operation_id_of (cl_next_operation_id cl), os_node_id = node_id,
                             os_operation_type = type, os_status = NODE_OP_RUNNING, os_message = message,
                             os_start_ts_ms = now, os_finish_ts_ms = 0\<rparr>
                   in Inr (op, cl\<lparr>cl_next_operation_id := cl_next_operation_id cl + 1,
                                  cl_operations := AList.update (os_operation_id op) op (cl_operations cl)\<rparr>))"

definition UpdateOperation ::
  "ClusterState \<Rightarrow> string \<Rightarrow> NodeOperationStatus \<Rightarrow> string \<Rightarrow> u64 \<Rightarrow> cluster_error + ClusterState" where
  "UpdateOperation cl operation_id status message now =
     (case map_of (cl_operations cl) operation_id of
        None \<Rightarrow> Inl (OperationNotFound operation_id)
      | Some op \<Rightarrow>
          let op1 = op\<lparr>os_status := status, os_message := message\<rparr>;
              op2 = (if status = NODE_OP_SUCCEEDED \<or> status = NODE_OP_FAILED then op1\<lparr>os_finish_ts_ms := now\<rparr> else op1)
          in Inr (cl\<lparr>cl_operations := AList.update operation_id op2 (cl_operations cl)\<rparr>))"

definition GetOperation :: "ClusterState \<Rightarrow> string \<Rightarrow> NodeOperationState option" where
  "GetOperation cl operation_id = map_of (cl_operations cl) operation_id"

section \<open>Persistence of the operations\<close>

text \<open>The persisted message holds the numbers of the two enums.\<close>

record NodeOperation =
  no_operation_id :: string
  no_node_id :: string
  no_operation_type :: int
  no_status :: int
  no_message :: string
  no_start_ts_ms :: u64
  no_finish_ts_ms :: u64

fun operation_type_number :: "NodeOperationType \<Rightarrow> int" where
  "operation_type_number NODE_OP_START = 0"
| "operation_type_number NODE_OP_STOP = 1"
| "operation_type_number NODE_OP_REBOOT = 2"

fun operation_status_number :: "NodeOperationStatus \<Rightarrow> int" where
  "operation_status_number NODE_OP_PENDING = 0"
| "operation_status_number NODE_OP_RUNNING = 1"
| "operation_status_number NODE_OP_SUCCEEDED = 2"
| "operation_status_number NODE_OP_FAILED = 3"

definition operation_type_of :: "int \<Rightarrow> NodeOperationType option" where
  "operation_type_of i = find (\<lambda>t. operation_type_number t = i) [NODE_OP_START, NODE_OP_STOP, NODE_OP_REBOOT]"

definition operation_status_of :: "int \<Rightarrow> NodeOperationStatus option" where
  "operation_status_of i =
     find (\<lambda>s. operation_status_number s = i) [NODE_OP_PENDING, NODE_OP_RUNNING, NODE_OP_SUCCEEDED, NODE_OP_FAILED]"

definition persist_operation :: "string \<times> NodeOperationState \<Rightarrow> NodeOperation" where
  "persist_operation = (\<lambda>(key, operation).
     \<lparr>no_operation_id = key, no_node_id = os_node_id operation,
      no_operation_type = operation_type_number (os_operation_type operation),
      no_status = operation_status_number (os_status operation), no_message = os_message operation,
      no_start_ts_ms = os_start_ts_ms operation, no_finish_ts_ms = os_finish_ts_ms operation\<rparr>)"

definition SnapshotOperations :: "ClusterState \<Rightarrow> NodeOperation list \<times> u64" where
  "SnapshotOperations cl = (map persist_operation (cl_operations cl), cl_next_operation_id cl)"

text \<open>\<open>std::stoull\<close> with the position where it stopped: it must have read the whole suffix.\<close>

definition stoull_whole :: "string \<Rightarrow> u64 option" where
  "stoull_whole text =
     (let s = dropWhile is_space text;
          s1 = (case s of c # r \<Rightarrow> if c = CHR ''-'' \<or> c = CHR ''+'' then r else s | [] \<Rightarrow> [])
      in if list_all is_digit s1 then stoull text else None)"

definition parse_operation_id :: "string \<Rightarrow> u64 option" where
  "parse_operation_id operation_id =
     (if take 3 operation_id \<noteq> ''op-'' then None
      else case stoull_whole (drop 3 operation_id) of
             None \<Rightarrow> None
           | Some number \<Rightarrow> if number = 0 \<or> number = - 1 then None else Some number)"

definition interrupted_message :: string where
  "interrupted_message = ''Scheduler restarted during operation; query node/CMS state before retry''"

definition restored_operation :: "u64 \<Rightarrow> NodeOperation \<Rightarrow> NodeOperationType \<Rightarrow> NodeOperationStatus \<Rightarrow> NodeOperationState" where
  "restored_operation restore_time_ms item type status =
     (let operation = \<lparr>os_operation_id = no_operation_id item, os_node_id = no_node_id item, os_operation_type = type,
                       os_status = status, os_message = no_message item, os_start_ts_ms = no_start_ts_ms item,
                       os_finish_ts_ms = no_finish_ts_ms item\<rparr>
      in if status = NODE_OP_RUNNING \<or> status = NODE_OP_PENDING
         then operation\<lparr>os_status := NODE_OP_FAILED, os_finish_ts_ms := restore_time_ms,
                         os_message := interrupted_message\<rparr>
         else operation)"

fun restore_loop ::
  "u64 \<Rightarrow> NodeOperation list \<Rightarrow> (string \<times> NodeOperationState) list \<times> u64 \<Rightarrow>
   cluster_error + (string \<times> NodeOperationState) list \<times> u64" where
  "restore_loop restore_time_ms [] acc = Inr acc"
| "restore_loop restore_time_ms (item # items) (restored, minimum_next) =
     (case parse_operation_id (no_operation_id item) of
        None \<Rightarrow> Inl InvalidOperationId
      | Some number \<Rightarrow>
          (case (operation_type_of (no_operation_type item), operation_status_of (no_status item)) of
             (Some type, Some status) \<Rightarrow>
               if no_node_id item = [] \<or> map_of restored (no_operation_id item) \<noteq> None then Inl InvalidOperation
               else restore_loop restore_time_ms items
                      (restored @ [(no_operation_id item, restored_operation restore_time_ms item type status)],
                       max minimum_next (number + 1))
           | other \<Rightarrow> Inl InvalidOperation))"

definition RestoreOperations ::
  "ClusterState \<Rightarrow> NodeOperation list \<Rightarrow> u64 \<Rightarrow> u64 \<Rightarrow> cluster_error + ClusterState" where
  "RestoreOperations cl items next_id restore_time_ms =
     (case restore_loop restore_time_ms items ([], 1) of
        Inl e \<Rightarrow> Inl e
      | Inr (restored, minimum_next) \<Rightarrow>
          if next_id = - 1 \<or> (next_id \<noteq> 0 \<and> next_id < minimum_next) then Inl InvalidOperationSequence
          else Inr (cl\<lparr>cl_operations := restored, cl_next_operation_id := max next_id minimum_next\<rparr>))"

section \<open>Operation ids\<close>

lemma stoull_whole_to_string: "stoull_whole (to_string (w :: u64)) = Some w"
proof -
  have d: "\<forall>c \<in> set (to_string w). is_digit c" and ne: "to_string w \<noteq> []"
    by (auto simp: to_string_def dec_digits_all_digits)
  obtain c r where s: "to_string w = c # r" using ne by (cases "to_string w") auto
  then have "is_digit c" using d by simp
  then have "\<not> is_space c" "c \<noteq> CHR ''-''" "c \<noteq> CHR ''+''" by (auto simp: is_digit_def is_space_def)
  then show ?thesis using d s stoull_to_string[of w] by (simp add: stoull_whole_def list_all_iff)
qed

lemma parse_operation_id_of: "n \<noteq> 0 \<Longrightarrow> n \<noteq> - 1 \<Longrightarrow> parse_operation_id (operation_id_of n) = Some n"
  by (simp add: parse_operation_id_def operation_id_of_def stoull_whole_to_string)

lemma parse_operation_id_range: "parse_operation_id k = Some n \<Longrightarrow> n \<noteq> 0 \<and> n \<noteq> - 1"
  by (auto simp: parse_operation_id_def split: if_splits option.splits)

text \<open>The invariant of the operation table: every entry is filed under its id, which parses to a number
  below the next one, and no two entries are running on the same node.\<close>

definition entry_ok :: "u64 \<Rightarrow> string \<times> NodeOperationState \<Rightarrow> bool" where
  "entry_ok next = (\<lambda>(key, op). os_operation_id op = key \<and> os_node_id op \<noteq> [] \<and>
     (\<exists>n. parse_operation_id key = Some n \<and> n < next))"

definition operations_ok :: "ClusterState \<Rightarrow> bool" where
  "operations_ok cl \<longleftrightarrow> cl_next_operation_id cl \<noteq> 0 \<and> distinct (map fst (cl_operations cl)) \<and>
     (\<forall>entry \<in> set (cl_operations cl). entry_ok (cl_next_operation_id cl) entry) \<and>
     (\<forall>k op k' op' x. (k, op) \<in> set (cl_operations cl) \<longrightarrow> (k', op') \<in> set (cl_operations cl) \<longrightarrow>
        running_on x op \<longrightarrow> running_on x op' \<longrightarrow> k = k')"

inductive operation_step :: "ClusterState \<Rightarrow> ClusterState \<Rightarrow> bool" where
  step_create: "CreateOperation cl m node_id type message now = Inr (op, cl') \<Longrightarrow> catalog_wf m \<Longrightarrow> operation_step cl cl'"
| step_finish: "UpdateOperation cl operation_id status message now = Inr cl' \<Longrightarrow>
    status = NODE_OP_SUCCEEDED \<or> status = NODE_OP_FAILED \<Longrightarrow> operation_step cl cl'"
| step_restore: "RestoreOperations cl items next_id t = Inr cl' \<Longrightarrow> operation_step cl cl'"

definition new_cluster :: "FailureDetector \<Rightarrow> ClusterState" where
  "new_cluster d = \<lparr>cl_detector = d, cl_next_operation_id = 1, cl_operations = []\<rparr>"

lemma u64_less_succ: "n \<noteq> - 1 \<Longrightarrow> n < n + (1 :: u64)"
proof -
  assume "n \<noteq> - 1"
  then have "n + 1 \<noteq> 0" using add_eq_0_iff2[of n 1] by auto
  then have "unat (n + 1) = Suc (unat n)" by (simp add: unatSuc add.commute)
  then show ?thesis by (simp add: word_less_nat_alt)
qed

lemma entry_ok_mono: "entry_ok n e \<Longrightarrow> n \<le> n' \<Longrightarrow> entry_ok n' e"
  by (auto simp: entry_ok_def intro: less_le_trans)

lemma fresh_id:
  assumes "operations_ok cl" "cl_next_operation_id cl \<noteq> - 1"
  shows "map_of (cl_operations cl) (operation_id_of (cl_next_operation_id cl)) = None"
proof (rule ccontr)
  let ?n = "cl_next_operation_id cl"
  assume "map_of (cl_operations cl) (operation_id_of ?n) \<noteq> None"
  then obtain op where "(operation_id_of ?n, op) \<in> set (cl_operations cl)" by (auto dest: map_of_SomeD)
  then have "entry_ok ?n (operation_id_of ?n, op)" using assms(1) by (auto simp: operations_ok_def)
  then show False using parse_operation_id_of[of ?n] assms by (auto simp: entry_ok_def operations_ok_def)
qed

lemma update_fresh: "map_of xs k = None \<Longrightarrow> AList.update k v xs = xs @ [(k, v)]"
  by (induction xs) (auto split: if_splits)

lemma CreateOperation_ok:
  assumes "CreateOperation cl m node_id type message now = Inr (op, cl')" "operations_ok cl" "catalog_wf m"
  shows "operations_ok cl' \<and> map_of (cl_operations cl) (os_operation_id op) = None \<and>
    cl_operations cl' = cl_operations cl @ [(os_operation_id op, op)] \<and>
    (\<forall>(k, old) \<in> set (cl_operations cl). \<not> running_on node_id old)"
proof -
  let ?n = "cl_next_operation_id cl"
  obtain node where node: "map_of (pm_nodes m) node_id = Some node" and n: "?n \<noteq> - 1"
    and none: "find (\<lambda>(key, existing). running_on node_id existing) (cl_operations cl) = None"
    and op: "os_operation_id op = operation_id_of ?n" "os_node_id op = node_id"
    and cl': "cl' = cl\<lparr>cl_next_operation_id := ?n + 1, cl_operations := AList.update (os_operation_id op) op (cl_operations cl)\<rparr>"
    using assms(1) by (auto simp: CreateOperation_def GetNode_def Let_def split: option.splits if_splits)
  have idle: "\<forall>(k, old) \<in> set (cl_operations cl). \<not> running_on node_id old" using none by (auto simp: find_None_iff)
  have fresh: "map_of (cl_operations cl) (os_operation_id op) = None" using fresh_id[OF assms(2) n] op by simp
  have nid: "node_id \<noteq> []"
    using assms(3) node ValidateNodeHardwareProfile_iff[of "n_profile node"]
    by (fastforce simp: catalog_wf_def node_wf_def profile_ok_def)
  have lt: "?n < ?n + 1" using u64_less_succ[OF n] .
  have ok: "entry_ok (?n + 1) (os_operation_id op, op)"
    using parse_operation_id_of[of ?n] assms(2) n lt nid op by (simp add: entry_ok_def operations_ok_def)
  have old: "entry_ok (?n + 1) e" if "e \<in> set (cl_operations cl)" for e
    using assms(2) that lt by (auto simp: operations_ok_def intro: entry_ok_mono)
  have ops: "cl_operations cl' = cl_operations cl @ [(os_operation_id op, op)]" by (simp add: cl' update_fresh[OF fresh])
  have run: "running_on x op \<Longrightarrow> x = node_id" for x using op by (simp add: running_on_def)
  have "operations_ok cl'"
    unfolding operations_ok_def ops
    using ok old assms(2) lt fresh idle run
    by (auto simp: operations_ok_def cl' map_of_eq_None_iff dest!: run)
  with fresh ops idle show ?thesis by blast
qed

lemma map_of_update_set:
  "distinct (map fst xs) \<Longrightarrow> set (AList.update k v xs) = insert (k, v) {e \<in> set xs. fst e \<noteq> k}"
  by (induction xs) (auto simp: rev_image_eqI)

lemma UpdateOperation_ok:
  assumes "UpdateOperation cl operation_id status message now = Inr cl'" "operations_ok cl"
    and "status = NODE_OP_SUCCEEDED \<or> status = NODE_OP_FAILED"
  shows "operations_ok cl'"
proof -
  obtain op where op: "map_of (cl_operations cl) operation_id = Some op"
    and cl': "cl' = cl\<lparr>cl_operations := AList.update operation_id
      (op\<lparr>os_status := status, os_message := message, os_finish_ts_ms := now\<rparr>) (cl_operations cl)\<rparr>"
    using assms(1,3) by (auto simp: UpdateOperation_def Let_def split: option.splits)
  have d: "distinct (map fst (cl_operations cl))" using assms(2) by (simp add: operations_ok_def)
  have "entry_ok (cl_next_operation_id cl) (operation_id, op)"
    using assms(2) map_of_SomeD[OF op] by (auto simp: operations_ok_def)
  then have "entry_ok (cl_next_operation_id cl)
      (operation_id, op\<lparr>os_status := status, os_message := message, os_finish_ts_ms := now\<rparr>)"
    by (simp add: entry_ok_def)
  moreover have "\<not> running_on x (op\<lparr>os_status := status, os_message := message, os_finish_ts_ms := now\<rparr>)" for x
    using assms(3) by (auto simp: running_on_def)
  ultimately show ?thesis
    using assms(2) distinct_update[OF d]
    by (auto simp: operations_ok_def cl' map_of_update_set[OF d])
qed

definition finished :: "NodeOperationState \<Rightarrow> bool" where
  "finished op \<longleftrightarrow> os_status op = NODE_OP_SUCCEEDED \<or> os_status op = NODE_OP_FAILED"

lemma restored_operation_finished [simp]:
  "finished (restored_operation t item type status)"
  "os_operation_id (restored_operation t item type status) = no_operation_id item"
  "os_node_id (restored_operation t item type status) = no_node_id item"
  by (cases status; simp add: restored_operation_def finished_def Let_def)+

lemma restore_loop_ok:
  assumes "restore_loop t items (acc, mn) = Inr (res, mn')" "mn \<noteq> 0" "distinct (map fst acc)"
    and "\<forall>e \<in> set acc. entry_ok mn e \<and> finished (snd e)"
  shows "mn' \<noteq> 0 \<and> distinct (map fst res) \<and> (\<forall>e \<in> set res. entry_ok mn' e \<and> finished (snd e))"
  using assms
proof (induction items arbitrary: acc mn)
  case (Cons item items)
  obtain n ty st where n: "parse_operation_id (no_operation_id item) = Some n"
    and ty: "operation_type_of (no_operation_type item) = Some ty" "operation_status_of (no_status item) = Some st"
    and ok: "no_node_id item \<noteq> []" "map_of acc (no_operation_id item) = None"
    and loop: "restore_loop t items (acc @ [(no_operation_id item, restored_operation t item ty st)], max mn (n + 1)) = Inr (res, mn')"
    using Cons.prems(1) by (auto split: option.splits if_splits)
  have lt: "n < max mn (n + 1)" using u64_less_succ[of n] parse_operation_id_range[OF n] by (simp add: max_def) force
  have mn: "mn \<le> max mn (n + 1)" by simp
  show ?case
  proof (rule Cons.IH[OF loop])
    show "max mn (n + 1) \<noteq> 0" using lt by auto
    show "distinct (map fst (acc @ [(no_operation_id item, restored_operation t item ty st)]))"
      using Cons.prems(3) ok(2) by (auto simp: map_of_eq_None_iff)
    show "\<forall>e \<in> set (acc @ [(no_operation_id item, restored_operation t item ty st)]). entry_ok (max mn (n + 1)) e \<and> finished (snd e)"
      using Cons.prems(4) entry_ok_mono[OF _ mn] n lt ok(1) by (auto simp: entry_ok_def)
  qed
qed simp

lemma RestoreOperations_ok: "RestoreOperations cl items next_id t = Inr cl' \<Longrightarrow> operations_ok cl'"
proof -
  assume r: "RestoreOperations cl items next_id t = Inr cl'"
  then obtain res mn where l: "restore_loop t items ([], 1) = Inr (res, mn)"
    and cl': "cl' = cl\<lparr>cl_operations := res, cl_next_operation_id := max next_id mn\<rparr>"
    by (auto simp: RestoreOperations_def split: sum.splits prod.splits if_splits)
  have ok: "mn \<noteq> 0" "distinct (map fst res)" "\<forall>e \<in> set res. entry_ok mn e \<and> finished (snd e)"
    using restore_loop_ok[OF l] by auto
  have "max next_id mn \<noteq> 0" using ok(1) by (auto simp: max_def)
  moreover have "\<not> running_on x op" if "(k, op) \<in> set res" for x k op
    using ok(3) that by (auto simp: finished_def running_on_def)
  moreover have "entry_ok (max next_id mn) e" if "e \<in> set res" for e
    using ok(3) that by (auto intro: entry_ok_mono)
  ultimately show ?thesis using ok(2) by (auto simp: operations_ok_def cl')
qed

lemma reachable_operations_ok: "operation_step\<^sup>*\<^sup>* (new_cluster d) cl \<Longrightarrow> operations_ok cl"
proof (induction rule: rtranclp_induct)
  case (step b c)
  from step(2,3) show ?case
    by cases (auto dest: CreateOperation_ok UpdateOperation_ok RestoreOperations_ok)
qed (simp add: operations_ok_def new_cluster_def)


text \<open>The operation a restart leaves of a persisted one.\<close>

definition after_restart :: "u64 \<Rightarrow> NodeOperationState \<Rightarrow> NodeOperationState" where
  "after_restart t op = (if finished op then op
     else op\<lparr>os_status := NODE_OP_FAILED, os_finish_ts_ms := t, os_message := interrupted_message\<rparr>)"

lemma operation_numbers [simp]:
  "operation_type_of (operation_type_number ty) = Some ty" "operation_status_of (operation_status_number st) = Some st"
  by (cases ty; simp add: operation_type_of_def) (cases st; simp add: operation_status_of_def)

lemma restored_persisted:
  "os_operation_id op = k \<Longrightarrow>
   restored_operation t (persist_operation (k, op)) (os_operation_type op) (os_status op) = after_restart t op"
  by (cases "os_status op") (auto simp: restored_operation_def persist_operation_def after_restart_def finished_def Let_def)

lemma restore_loop_persisted:
  assumes "distinct (map fst (acc @ xs))" "\<forall>e \<in> set xs. entry_ok next e" "mn \<le> next"
  shows "\<exists>mn'. restore_loop t (map persist_operation xs) (acc, mn) =
    Inr (acc @ map (\<lambda>(k, op). (k, after_restart t op)) xs, mn') \<and> mn' \<le> next"
  using assms
proof (induction xs arbitrary: acc mn)
  case (Cons e xs)
  obtain k op where e: "e = (k, op)" by force
  obtain n where n: "parse_operation_id k = Some n" "n < next" and id: "os_operation_id op = k" "os_node_id op \<noteq> []"
    using Cons.prems(2) by (auto simp: e entry_ok_def)
  have "max mn (n + 1) \<le> next" using Cons.prems(3) n(2) by (simp add: inc_le)
  from Cons.IH[OF _ _ this, of "acc @ [(k, after_restart t op)]"] Cons.prems
  obtain mn' where "restore_loop t (map persist_operation xs) (acc @ [(k, after_restart t op)], max mn (n + 1)) =
      Inr (acc @ map (\<lambda>(k, op). (k, after_restart t op)) (e # xs), mn')" "mn' \<le> next"
    by (auto simp: e)
  moreover have "map_of acc k = None" using Cons.prems(1) by (auto simp: e map_of_eq_None_iff)
  ultimately show ?case
    using n(1) id restored_persisted[OF id(1), of t] by (simp add: e) (simp add: persist_operation_def)
qed simp

text \<open>C11: A restart loses no operation: restoring the persisted table keeps every operation under its id,
  finished ones unchanged and interrupted ones as failed at the time of the restart, and the numbering
  goes on where it stopped.\<close>

theorem RestoreOperations_SnapshotOperations:
  assumes "operation_step\<^sup>*\<^sup>* (new_cluster d) cl" "cl_next_operation_id cl \<noteq> - 1"
    and "SnapshotOperations cl = (items, next_id)"
  shows "\<exists>cl'. RestoreOperations cl0 items next_id t = Inr cl' \<and> cl_next_operation_id cl' = cl_next_operation_id cl \<and>
    cl_operations cl' = map (\<lambda>(k, op). (k, after_restart t op)) (cl_operations cl) \<and>
    (\<forall>k op. map_of (cl_operations cl') k = Some op \<longrightarrow> finished op)"
proof -
  let ?next = "cl_next_operation_id cl"
  have ok: "operations_ok cl" by (rule reachable_operations_ok[OF assms(1)])
  have items: "items = map persist_operation (cl_operations cl)" "next_id = ?next"
    using assms(3) by (auto simp: SnapshotOperations_def)
  have "1 \<le> ?next" using ok by (simp add: operations_ok_def word_le_nat_alt Suc_le_eq unat_gt_0)
  from restore_loop_persisted[OF _ _ this, of "[]" "cl_operations cl" t] ok
  obtain mn where "restore_loop t items ([], 1) = Inr (map (\<lambda>(k, op). (k, after_restart t op)) (cl_operations cl), mn)"
      "mn \<le> ?next"
    by (auto simp: items operations_ok_def)
  then have "RestoreOperations cl0 items next_id t = Inr (cl0\<lparr>cl_operations := map (\<lambda>(k, op). (k, after_restart t op))
      (cl_operations cl), cl_next_operation_id := ?next\<rparr>)"
    using assms(2) by (auto simp: RestoreOperations_def items(2) max_def not_less)
  moreover have "finished (after_restart t op)" for op by (simp add: after_restart_def finished_def)
  ultimately show ?thesis by (fastforce dest: map_of_SomeD)
qed

definition sample_operation :: NodeOperationState where
  "sample_operation = \<lparr>os_operation_id = ''op-1'', os_node_id = ''n1'', os_operation_type = NODE_OP_STOP,
     os_status = NODE_OP_RUNNING, os_message = [], os_start_ts_ms = 7, os_finish_ts_ms = 0\<rparr>"

definition sample_cluster :: ClusterState where
  "sample_cluster = \<lparr>cl_detector = \<lparr>fd_suspect_timeout_ms = 10, fd_dead_timeout_ms = 20\<rparr>, cl_next_operation_id = 2,
     cl_operations = [(''op-1'', sample_operation)]\<rparr>"

lemma operation_id_one: "operation_id_of 1 = ''op-1''"
  by code_simp

lemma sample_create:
  "CreateOperation (new_cluster (cl_detector sample_cluster)) sample_m1 ''n1'' NODE_OP_STOP [] 7 = Inr (sample_operation, sample_cluster)"
  by (simp add: CreateOperation_def new_cluster_def sample_cluster_def sample_m1_def GetNode_def sample_operation_def
      operation_id_one Let_def)

lemma sample_catalog_wf: "catalog_wf sample_m1"
  using reachable_wf[OF sample_new sample_steps] by simp

lemma sample_cluster_reachable: "operation_step\<^sup>*\<^sup>* (new_cluster (cl_detector sample_cluster)) sample_cluster"
  using step_create[OF sample_create sample_catalog_wf] by blast


theorem RestoreOperations_SnapshotOperations_witness:
  "\<exists>cl'. RestoreOperations (new_cluster (cl_detector sample_cluster)) (fst (SnapshotOperations sample_cluster)) 2 99 = Inr cl' \<and>
    cl_next_operation_id cl' = 2 \<and> cl_operations cl' = [(''op-1'', after_restart 99 sample_operation)]"
  using RestoreOperations_SnapshotOperations[OF sample_cluster_reachable, of "fst (SnapshotOperations sample_cluster)" 2
      "new_cluster (cl_detector sample_cluster)" 99]
  by (simp add: sample_cluster_def SnapshotOperations_def) blast

section \<open>Effect of a heartbeat\<close>

lemma ReportHeartbeat_effect:
  assumes "ReportHeartbeat m k address inventory t = Inr m'" "map_of (pm_nodes m) k = Some n"
  obtains n' where "map_of (pm_nodes m') k = Some n'" "ni_service_address (n_identity n') = address"
    "n_last_heartbeat_ms n' = t" "n_lifecycle n' = n_lifecycle n" "n_profile n' = n_profile n" "n_readiness n' = n_readiness n"
proof -
  from assms obtain c n' inv where "map_of (pm_nodes m') k = Some n'"
    "n' = heartbeat_update (advance m n t) address inv t"
    unfolding ReportHeartbeat_def Let_def
    by (elim with_node_found) (auto simp: if_Inl_iff split: sum.splits)
  then show thesis by (intro that[of n']) (auto simp: heartbeat_update_def Let_def)
qed

lemma ReportReadiness_effect:
  assumes "ReportReadiness m k r g = Inr m'" "map_of (pm_nodes m) k = Some n"
  shows "map_of (pm_nodes m') k = Some (n\<lparr>n_readiness := r\<rparr>)"
  using assms unfolding ReportReadiness_def by (elim with_node_found) (auto simp: if_Inl_iff)

lemma ActivateNode_effect:
  assumes "ActivateNode m k t = Inr m'" "map_of (pm_nodes m) k = Some n"
  obtains n' where "map_of (pm_nodes m') k = Some n'" "n_lifecycle n' = kWorking" "n_identity n' = n_identity n"
    "n_last_heartbeat_ms n' = n_last_heartbeat_ms n"
proof -
  define n1 where "n1 = (if \<not> Ready (n_readiness n) then n\<lparr>n_readiness :=
     \<lparr>rs_observed = True, rs_initialization_complete = True, rs_inventory_ready = True, rs_metadata_ready = True,
      rs_observed_at_ms = t, rs_message = ''explicit activation readiness assertion''\<rparr>\<rparr> else n)"
  define n4 where "n4 = set_power m ((advance m n1 t)\<lparr>n_lifecycle := kWorking, n_health := kHealthy,
     n_administrative_state := kEnabled, n_last_access_ms := max (n_last_access_ms (advance m n1 t)) t\<rparr>) kMedium t"
  have n1: "n_identity n1 = n_identity n" "n_last_heartbeat_ms n1 = n_last_heartbeat_ms n" by (simp_all add: n1_def)
  obtain c n' where "map_of (pm_nodes m') k = Some n'" "n' = n4 \<or> n' = n4\<lparr>n_actuated_power_level := kMedium\<rparr>"
    using with_node_found[OF assms[unfolded ActivateNode_def Let_def]]
    unfolding if_Inl_iff sum.inject prod.inject n1_def[symmetric] n4_def[symmetric] by (metis (full_types))
  moreover have "n_lifecycle n4 = kWorking" "n_identity n4 = n_identity n" "n_last_heartbeat_ms n4 = n_last_heartbeat_ms n"
    by (simp_all add: n4_def n1)
  ultimately show thesis by (intro that[of n']) auto
qed

text \<open>Each call that a handler makes on the catalogue is a step of it.\<close>

lemma step_ignoring:
  assumes "\<And>m'. r = Inr m' \<Longrightarrow> catalog_step env m m'"
  shows "(catalog_step env)\<^sup>*\<^sup>* m (snd (ignoring m r))"
  using assms by (auto simp: ignoring_def split: sum.splits)

lemma heartbeat_ready_steps: "(catalog_step env)\<^sup>*\<^sup>* m (snd (heartbeat_ready request t m))"
  unfolding heartbeat_ready_def Let_def
  by (auto split: sum.splits option.splits intro: converse_rtranclp_into_rtranclp step_readiness step_activate)

lemma heartbeat_ready_effect:
  assumes "heartbeat_ready request t m = (Inr (), m')" "map_of (pm_nodes m) (hr_node_id request) = Some n"
  obtains n' where "map_of (pm_nodes m') (hr_node_id request) = Some n'" "n_identity n' = n_identity n"
    "n_last_heartbeat_ms n' = n_last_heartbeat_ms n"
    "n_lifecycle n' = (if hr_readiness_reported request \<and> n_lifecycle n = kJoining \<and> Ready (heartbeat_readiness request t)
       then kWorking else n_lifecycle n)"
proof (cases "hr_readiness_reported request")
  case False
  then show thesis using assms that[of n] by (simp add: heartbeat_ready_def)
next
  case True
  then obtain m1 where m1: "ReportReadiness m (hr_node_id request) (heartbeat_readiness request t) (hr_instance_generation request) = Inr m1"
    using assms(1) by (auto simp: heartbeat_ready_def Let_def split: sum.splits)
  note n1 = ReportReadiness_effect[OF m1 assms(2)]
  show thesis
  proof (cases "n_lifecycle n = kJoining \<and> Ready (heartbeat_readiness request t)")
    case False
    then have "m' = m1" using assms(1) True m1 n1 by (auto simp: heartbeat_ready_def Let_def GetNode_def)
    then show thesis using that[of "n\<lparr>n_readiness := heartbeat_readiness request t\<rparr>"] n1 False by auto
  next
    case ready: True
    then have "ActivateNode m1 (hr_node_id request) t = Inr m'"
      using assms(1) True m1 n1 by (auto simp: heartbeat_ready_def Let_def GetNode_def split: sum.splits)
    from ActivateNode_effect[OF this n1] show thesis using that ready True by auto
  qed
qed

lemma heartbeat_known_steps: "(catalog_step env)\<^sup>*\<^sup>* m (snd (heartbeat_known request t m n))"
proof -
  have "(catalog_step env)\<^sup>*\<^sup>* m (snd (heartbeat_ready request t m1))"
    if "ReportHeartbeat m (hr_node_id request) a i t = Inr m1" for a i m1
    using step_heartbeat[OF that, of env] heartbeat_ready_steps[of env m1 request t]
    by (rule converse_rtranclp_into_rtranclp)
  then show ?thesis
    unfolding heartbeat_known_def by (auto split: sum.splits option.splits prod.splits) (metis snd_conv)+
qed

lemma heartbeat_known_effect:
  assumes "heartbeat_known request t m n = (Inr a, m')" "map_of (pm_nodes m) (hr_node_id request) = Some n"
  shows "\<exists>n'. map_of (pm_nodes m') (hr_node_id request) = Some n' \<and> a = BuildAssignment n' (pm_generation m') \<and>
    ni_service_address (n_identity n') = hr_address request \<and> n_last_heartbeat_ms n' = t \<and>
    n_lifecycle n' = (if hr_readiness_reported request \<and> n_lifecycle n = kJoining \<and> Ready (heartbeat_readiness request t)
       then kWorking else n_lifecycle n)"
proof -
  obtain m1 where m1: "ReportHeartbeat m (hr_node_id request) (hr_address request) (heartbeat_inventory request t n) t = Inr m1"
    and ready: "heartbeat_ready request t m1 = (Inr (), m')"
    and a: "\<exists>n'. map_of (pm_nodes m') (hr_node_id request) = Some n' \<and> a = BuildAssignment n' (pm_generation m')"
    using assms(1) by (auto simp: heartbeat_known_def GetNode_def split: if_splits sum.splits option.splits prod.splits)
  obtain n1 where n1: "map_of (pm_nodes m1) (hr_node_id request) = Some n1" "ni_service_address (n_identity n1) = hr_address request"
    "n_last_heartbeat_ms n1 = t" "n_lifecycle n1 = n_lifecycle n"
    using ReportHeartbeat_effect[OF m1 assms(2)] by blast
  from heartbeat_ready_effect[OF ready n1(1)] show ?thesis using a n1 by (metis option.inject)
qed

text \<open>C12: A heartbeat that is answered leaves the node registered under its id with the reported address and
  time; a node that joins and reports that it is ready starts working, and no other heartbeat changes the
  life cycle.  Whatever the answer, the catalogue has only changed by its own operations, so all its
  invariants hold.\<close>

theorem Cluster_ReportHeartbeat_effect:
  assumes "Cluster_ReportHeartbeat env hash now request m = (reply, m')"
  shows "(catalog_step env)\<^sup>*\<^sup>* m m' \<and> (\<forall>a. reply = Inr a \<longrightarrow>
    (\<exists>n'. map_of (pm_nodes m') (hr_node_id request) = Some n' \<and> a = BuildAssignment n' (pm_generation m') \<and>
      ni_service_address (n_identity n') = hr_address request \<and>
      n_last_heartbeat_ms n' = (if hr_report_ts_ms request = 0 then now else hr_report_ts_ms request) \<and>
      n_lifecycle n' = (let before = (case map_of (pm_nodes m) (hr_node_id request) of None \<Rightarrow> kJoining | Some n \<Rightarrow> n_lifecycle n)
        in if before = kJoining \<and> hr_readiness_reported request \<and> hr_initialization_complete request \<and>
              hr_metadata_ready request \<and> \<not> hr_inventory_unavailable request \<and> hr_disks request \<noteq> []
           then kWorking else before)))"
proof -
  let ?t = "if hr_report_ts_ms request = 0 then now else hr_report_ts_ms request"
  let ?k = "hr_node_id request"
  have ready: "Ready (heartbeat_readiness request ?t) \<longleftrightarrow> hr_initialization_complete request \<and> hr_metadata_ready request \<and>
      \<not> hr_inventory_unavailable request \<and> hr_disks request \<noteq> []"
    by (auto simp: Ready_def heartbeat_readiness_def)
  show ?thesis
  proof (cases "map_of (pm_nodes m) ?k")
    case (Some n)
    then have "?k = [] \<and> reply = Inl HeartbeatNodeIdEmpty \<and> m' = m \<or> heartbeat_known request ?t m n = (reply, m')"
      using assms by (auto simp: Cluster_ReportHeartbeat_def GetNode_def Let_def split: if_splits)
    then show ?thesis
      using heartbeat_known_steps[of env m request ?t n] heartbeat_known_effect[of request ?t m n _ m'] Some
      by (auto simp: ready)
  next
    case None
    show ?thesis
    proof (cases "\<exists>m1 n. RegisterNode env m (DefaultHeartbeatProfile request) ?t (hash ?k) = Inr m1 \<and>
        map_of (pm_nodes m1) ?k = Some n \<and> heartbeat_known request ?t m1 n = (reply, m')")
      case True
      then obtain m1 n where m1: "RegisterNode env m (DefaultHeartbeatProfile request) ?t (hash ?k) = Inr m1"
        "map_of (pm_nodes m1) ?k = Some n" "heartbeat_known request ?t m1 n = (reply, m')" by blast
      have "hp_node_id (DefaultHeartbeatProfile request) = ?k"
        by (simp add: DefaultHeartbeatProfile_def DefaultMetadataNodeProfile_def DefaultOpticalLibraryProfile_def
            DefaultStorageNodeProfile_def default_profile_def Let_def)
      then have "n_lifecycle n = kJoining"
        using m1(1,2) None by (auto simp: RegisterNode_def registered_node_def default_node_def Let_def split: sum.splits)
      moreover have "(catalog_step env)\<^sup>*\<^sup>* m m'"
        using step_register[OF m1(1)] heartbeat_known_steps[of env m1 request ?t n] m1(3)
        by (metis converse_rtranclp_into_rtranclp snd_conv)
      ultimately show ?thesis using heartbeat_known_effect[of request ?t m1 n _ m'] m1(2,3) None by (auto simp: ready)
    next
      case False
      then have "(\<exists>e. reply = Inl e) \<and> (m' = m \<or> catalog_step env m m')"
        using assms None
        by (auto simp: Cluster_ReportHeartbeat_def GetNode_def Let_def intro: step_register split: if_splits sum.splits option.splits)
      then show ?thesis by auto
    qed
  qed
qed

definition sample_request :: HeartbeatRequest where
  "sample_request = \<lparr>hr_node_id = ''n1'', hr_node_type = NODE_REAL, hr_address = ''10.0.0.1:80'', hr_virtual_node_count = 0,
     hr_report_ts_ms = 1000,
     hr_disks = [\<lparr>dh_disk_id = ''d0'', dh_capacity_bytes = 100, dh_free_bytes = 40, dh_is_healthy = True,
       dh_device_kind = MANAGED_DEVICE_HDD, dh_read_bandwidth = 0, dh_write_bandwidth = 0, dh_accumulated_write_bytes = 0,
       dh_health_source = []\<rparr>],
     hr_readiness_reported = True, hr_initialization_complete = True, hr_metadata_ready = True, hr_readiness_message = [],
     hr_instance_generation = 0, hr_require_registered = False, hr_inventory_unavailable = False\<rparr>"

lemma sample_node_inventory:
  "n_lifecycle sample_node = kJoining" "n_last_heartbeat_ms sample_node = 0" "is_generation (n_inventory sample_node) = 0"
  "rs_observed_at_ms (n_readiness sample_node) = 0"
  by (simp_all add: sample_node_def registered_node_def default_node_def Let_def)

lemma sample_heartbeat_reply:
  "\<exists>a m'. Cluster_ReportHeartbeat sample_env (\<lambda>_. 7) 1000 sample_request sample_m1 = (Inr a, m')"
proof -
  let ?inv = "heartbeat_inventory sample_request 1000 sample_node"
  have n: "map_of (pm_nodes sample_m1) ''n1'' = Some sample_node" by (simp add: sample_m1_def)
  have valid: "ValidateNodeInventorySnapshot (?inv\<lparr>is_node_id := ''n1''\<rparr>) = Inr ()" "is_observed_at_ms ?inv \<noteq> 0"
      "is_generation ?inv = 1"
    by (simp_all add: ValidateNodeInventorySnapshot_def heartbeat_inventory_def heartbeat_device_def sample_request_def
        sample_node_inventory)
  then obtain m1 where m1: "ReportHeartbeat sample_m1 ''n1'' ''10.0.0.1:80'' ?inv 1000 = Inr m1"
    by (simp add: ReportHeartbeat_def with_node_def n sample_node_inventory)
  obtain n1 where n1: "map_of (pm_nodes m1) ''n1'' = Some n1" "n_lifecycle n1 = kJoining" "n_profile n1 = n_profile sample_node"
    "n_readiness n1 = n_readiness sample_node"
    using ReportHeartbeat_effect[OF m1 n] sample_node_inventory(1) by metis
  let ?r = "heartbeat_readiness sample_request 1000"
  have r: "rs_observed ?r" "rs_observed_at_ms ?r = 1000" "Ready ?r" by (simp_all add: heartbeat_readiness_def sample_request_def Ready_def)
  obtain m2 where m2: "ReportReadiness m1 ''n1'' ?r 0 = Inr m2"
    using n1 r by (simp add: ReportReadiness_def with_node_def sample_node_inventory sample_node_fields)
  note n2 = ReportReadiness_effect[OF m2 n1(1)]
  obtain m3 where m3: "ActivateNode m2 ''n1'' 1000 = Inr m3"
    using n2 n1(2) r(3) by (simp add: ActivateNode_def with_node_def Let_def)
  obtain n3 where "map_of (pm_nodes m3) ''n1'' = Some n3" using ActivateNode_effect[OF m3 n2] by metis
  moreover have req: "hr_node_id sample_request = ''n1''" "hr_address sample_request = ''10.0.0.1:80''"
    "hr_instance_generation sample_request = 0" "hr_readiness_reported sample_request" "hr_report_ts_ms sample_request = 1000"
    by (simp_all add: sample_request_def)
  ultimately show ?thesis
    using n m1 m2 m3 n2 n1(2) r(3)
    by (simp add: Cluster_ReportHeartbeat_def heartbeat_known_def heartbeat_ready_def GetNode_def sample_node_fields)
qed

theorem Cluster_ReportHeartbeat_effect_witness:
  "\<exists>a m' n'. Cluster_ReportHeartbeat sample_env (\<lambda>_. 7) 1000 sample_request sample_m1 = (Inr a, m') \<and>
    map_of (pm_nodes m') ''n1'' = Some n' \<and> n_lifecycle n' = kWorking \<and> n_last_heartbeat_ms n' = 1000 \<and>
    ni_service_address (n_identity n') = ''10.0.0.1:80''"
proof -
  obtain a m' where r: "Cluster_ReportHeartbeat sample_env (\<lambda>_. 7) 1000 sample_request sample_m1 = (Inr a, m')"
    using sample_heartbeat_reply by blast
  have n: "map_of (pm_nodes sample_m1) ''n1'' = Some sample_node" by (simp add: sample_m1_def)
  from Cluster_ReportHeartbeat_effect[OF r] show ?thesis
    using r n by (simp add: sample_request_def sample_node_inventory) blast
qed

end
