(* ===== verification/Shell_Actuator.thy ===== *)
theory Shell_Actuator
  imports ZB_Prelude "HOL-Library.Sublist"
begin

text \<open>
  The shell commands that start, stop, reboot, wake and switch off nodes:
  \<open>src/src/scheduler/lifecycle/NodeActuator.cpp\<close> and the actuator of
  \<open>src/src/scheduler/power/PowerActuationController.cpp\<close>.  \<open>std::system\<close> is a parameter from the command
  line to its exit code.  The theorems say when the values substituted into a command template reach
  the shell as quoted text, and show an order of substitutions that breaks the quoting.
\<close>

section \<open>Templates\<close>

text \<open>\<open>find\<close> and \<open>replace\<close> from a growing position: the text before the position is never looked at
  again, so the loop is a recursion on the text from the position on.\<close>

fun replace_loop :: "string \<Rightarrow> string \<Rightarrow> string \<Rightarrow> string" where
  "replace_loop from to [] = []"
| "replace_loop from to (c # text) =
     (if from \<noteq> [] \<and> prefix from (c # text) then to @ replace_loop from to (drop (length from - 1) text)
      else c # replace_loop from to text)"

definition ReplaceAll :: "string \<Rightarrow> string \<Rightarrow> string \<Rightarrow> string" where
  "ReplaceAll text from to = (if from = [] then text else replace_loop from to text)"

definition ShellQuote :: "string \<Rightarrow> string" where
  "ShellQuote value =
     [CHR 0x27] @ concat (map (\<lambda>ch. if ch = CHR 0x27 then [CHR 0x27, CHR 0x5C, CHR 0x27, CHR 0x27] else [ch]) value) @ [CHR 0x27]"

section \<open>The actuators\<close>

record ActuatorResult =
  ar_success :: bool
  ar_message :: string

record ShellNodeActuator =
  sa_start_template :: string
  sa_stop_template :: string
  sa_reboot_template :: string

text \<open>The command line of a node operation, and its execution: \<open>system\<close> maps a command line to the exit
  code and \<open>show_int\<close> prints that code.\<close>

definition template_command :: "string \<Rightarrow> string \<Rightarrow> string \<Rightarrow> bool \<Rightarrow> string" where
  "template_command command_template node_id address force =
     ReplaceAll
       (ReplaceAll (ReplaceAll command_template ''{node_id}'' (ShellQuote node_id)) ''{address}'' (ShellQuote address))
       ''{force}'' (if force then ''true'' else ''false'')"

definition ExecuteTemplate ::
  "(string \<Rightarrow> int) \<Rightarrow> (int \<Rightarrow> string) \<Rightarrow> string \<Rightarrow> string \<Rightarrow> string \<Rightarrow> bool \<Rightarrow> ActuatorResult" where
  "ExecuteTemplate system show_int command_template node_id address force =
     (if command_template = [] then \<lparr>ar_success = True, ar_message = ''No command template configured, operation accepted''\<rparr>
      else let cmd = template_command command_template node_id address force; ret = system cmd
           in if ret \<noteq> 0 then \<lparr>ar_success = False, ar_message = ''Command failed with exit code: '' @ show_int ret\<rparr>
              else \<lparr>ar_success = True, ar_message = ''Command executed: '' @ cmd\<rparr>)"

definition Shell_StartNode ::
  "(string \<Rightarrow> int) \<Rightarrow> (int \<Rightarrow> string) \<Rightarrow> ShellNodeActuator \<Rightarrow> string \<Rightarrow> string \<Rightarrow> ActuatorResult" where
  "Shell_StartNode system show_int a node_id address =
     ExecuteTemplate system show_int (sa_start_template a) node_id address False"

definition Shell_StopNode ::
  "(string \<Rightarrow> int) \<Rightarrow> (int \<Rightarrow> string) \<Rightarrow> ShellNodeActuator \<Rightarrow> string \<Rightarrow> string \<Rightarrow> bool \<Rightarrow> ActuatorResult" where
  "Shell_StopNode system show_int a node_id address force =
     ExecuteTemplate system show_int (sa_stop_template a) node_id address force"

definition Shell_RebootNode ::
  "(string \<Rightarrow> int) \<Rightarrow> (int \<Rightarrow> string) \<Rightarrow> ShellNodeActuator \<Rightarrow> string \<Rightarrow> string \<Rightarrow> ActuatorResult" where
  "Shell_RebootNode system show_int a node_id address =
     ExecuteTemplate system show_int (sa_reboot_template a) node_id address False"

text \<open>The actuator of the power controller: no template is an error there.\<close>

record ShellManagedPowerActuator =
  pa_wake_template :: string
  pa_standby_template :: string
  pa_off_template :: string

definition power_command :: "string \<Rightarrow> string \<Rightarrow> string \<Rightarrow> string" where
  "power_command command_template node_id address =
     ReplaceAll (ReplaceAll command_template ''{node_id}'' (ShellQuote node_id)) ''{address}'' (ShellQuote address)"

definition Power_Execute ::
  "(string \<Rightarrow> int) \<Rightarrow> (int \<Rightarrow> string) \<Rightarrow> string \<Rightarrow> string \<Rightarrow> string \<Rightarrow> ActuatorResult" where
  "Power_Execute system show_int command_template node_id address =
     (if command_template = [] then \<lparr>ar_success = False, ar_message = ''power actuation command template is empty''\<rparr>
      else let result = system (power_command command_template node_id address)
           in if result \<noteq> 0
              then \<lparr>ar_success = False, ar_message = ''power command failed with exit code '' @ show_int result\<rparr>
              else \<lparr>ar_success = True, ar_message = ''power command completed''\<rparr>)"

definition Shell_Wake ::
  "(string \<Rightarrow> int) \<Rightarrow> (int \<Rightarrow> string) \<Rightarrow> ShellManagedPowerActuator \<Rightarrow> string \<Rightarrow> string \<Rightarrow> ActuatorResult" where
  "Shell_Wake system show_int a = Power_Execute system show_int (pa_wake_template a)"

definition Shell_Standby ::
  "(string \<Rightarrow> int) \<Rightarrow> (int \<Rightarrow> string) \<Rightarrow> ShellManagedPowerActuator \<Rightarrow> string \<Rightarrow> string \<Rightarrow> ActuatorResult" where
  "Shell_Standby system show_int a = Power_Execute system show_int (pa_standby_template a)"

definition Shell_PowerOff ::
  "(string \<Rightarrow> int) \<Rightarrow> (int \<Rightarrow> string) \<Rightarrow> ShellManagedPowerActuator \<Rightarrow> string \<Rightarrow> string \<Rightarrow> ActuatorResult" where
  "Shell_PowerOff system show_int a = Power_Execute system show_int (pa_off_template a)"

section \<open>What the shell reads\<close>

text \<open>The quoting of the POSIX shell as far as commands use it: between single quotes every character is
  literal, outside a backslash makes the next character literal.  The result lists the characters after
  quote removal, each with the information whether it was quoted; an open quote is \<open>None\<close>.\<close>

fun sh_read :: "bool \<Rightarrow> string \<Rightarrow> (char \<times> bool) list option" where
  "sh_read quoted [] = (if quoted then None else Some [])"
| "sh_read True (c # s) = (if c = CHR 0x27 then sh_read False s else map_option ((#) (c, True)) (sh_read True s))"
| "sh_read False (c # s) =
     (if c = CHR 0x27 then sh_read True s
      else if c = CHR 0x5C then (case s of [] \<Rightarrow> None | d # s1 \<Rightarrow> map_option ((#) (d, True)) (sh_read False s1))
      else map_option ((#) (c, False)) (sh_read False s))"

definition literal :: "string \<Rightarrow> (char \<times> bool) list" where
  "literal = map (\<lambda>c. (c, True))"

lemma sh_read_quoted_body:
  "sh_read True (concat (map (\<lambda>ch. if ch = CHR 0x27 then [CHR 0x27, CHR 0x5C, CHR 0x27, CHR 0x27] else [ch]) v) @ CHR 0x27 # rest)
   = map_option ((@) (literal v)) (sh_read False rest)"
  by (induction v) (auto simp: literal_def option.map_comp option.map_ident intro: option.map_cong0)

lemma sh_read_ShellQuote: "sh_read False (ShellQuote v @ rest) = map_option ((@) (literal v)) (sh_read False rest)"
  using sh_read_quoted_body[of v rest] by (simp add: ShellQuote_def)

text \<open>Plain template text: no character that the quoting treats specially and no brace.\<close>

definition plain :: "string \<Rightarrow> bool" where
  "plain s \<longleftrightarrow> list_all (\<lambda>c. c \<notin> {CHR 0x27, CHR 0x5C, CHR ''{''}) s"

lemma sh_read_plain:
  "plain a \<Longrightarrow> sh_read False (a @ rest) = map_option ((@) (map (\<lambda>c. (c, False)) a)) (sh_read False rest)"
  by (induction a) (auto simp: plain_def option.map_comp option.map_ident_strong intro: option.map_cong0)

section \<open>Substitution\<close>

lemma replace_plain:
  "plain a \<Longrightarrow> replace_loop (CHR ''{'' # from) to (a @ rest) = a @ replace_loop (CHR ''{'' # from) to rest"
  by (induction a) (auto simp: plain_def)

lemma replace_hit: "replace_loop (c # from) to ((c # from) @ rest) = to @ replace_loop (c # from) to rest"
  by simp

lemma replace_skip:
  assumes "q \<notin> set from" "from \<noteq> []" "\<not> sublist from u"
  shows "replace_loop from to (u @ q # rest) = u @ q # replace_loop from to rest"
  using assms(3)
proof (induction u)
  case Nil
  have "\<not> prefix from (q # rest)" using assms(1,2) by (cases "from") auto
  then show ?case by simp
next
  case (Cons c u)
  have "prefix from (c # u)" if "prefix from ((c # u) @ q # rest)"
  proof (rule ccontr)
    assume "\<not> prefix from (c # u)"
    with that obtain s where "from = (c # u) @ s" "prefix s (q # rest)" "s \<noteq> []"
      by (metis append_Nil2 prefix_append prefix_order.refl)
    then show False using assms(1) by (cases s) auto
  qed
  then have "\<not> prefix from (c # u @ q # rest)" using Cons.prems by (auto dest: prefix_imp_sublist)
  then show ?case using Cons by (simp add: sublist_Cons_right)
qed

text \<open>Quoting adds no occurrence of a text without quotes and backslashes.\<close>

abbreviation quote_body :: "string \<Rightarrow> string" where
  "quote_body v \<equiv> concat (map (\<lambda>ch. if ch = CHR 0x27 then [CHR 0x27, CHR 0x5C, CHR 0x27, CHR 0x27] else [ch]) v)"

definition unquoted :: "string \<Rightarrow> bool" where
  "unquoted s \<longleftrightarrow> s \<noteq> [] \<and> CHR 0x27 \<notin> set s \<and> CHR 0x5C \<notin> set s"

lemma quote_prefix: "CHR 0x27 \<notin> set from \<Longrightarrow> prefix from (quote_body v @ [CHR 0x27]) \<Longrightarrow> prefix from v"
proof (induction v arbitrary: "from")
  case Nil
  then show ?case by (cases "from") auto
next
  case (Cons c v)
  then show ?case by (cases "from") (auto split: if_splits)
qed

lemma quote_sublist: "unquoted from \<Longrightarrow> sublist from (quote_body v @ [CHR 0x27]) \<Longrightarrow> sublist from v"
proof (induction v)
  case Nil
  then show ?case by (auto simp: unquoted_def sublist_Cons_right prefix_Cons)
next
  case (Cons c v)
  have "\<not> prefix from (CHR 0x27 # r)" "\<not> prefix from (CHR 0x5C # r)" for r
    using Cons.prems(1) by (auto simp: unquoted_def prefix_Cons)
  then have "sublist from (quote_body v @ [CHR 0x27]) \<or> prefix from (quote_body (c # v) @ [CHR 0x27])"
    using Cons.prems(2) by (auto simp: sublist_Cons_right split: if_splits)
  then show ?case
    using Cons.IH[OF Cons.prems(1)] quote_prefix[of "from" "c # v"] Cons.prems(1)
    by (auto simp: unquoted_def sublist_Cons_right)
qed

lemma replace_ShellQuote:
  assumes "unquoted from" "\<not> sublist from v"
  shows "replace_loop from to (ShellQuote v @ rest) = ShellQuote v @ replace_loop from to rest"
proof -
  have q: "CHR 0x27 \<notin> set from" "from \<noteq> []" using assms(1) by (simp_all add: unquoted_def)
  have "\<not> sublist from (quote_body v)"
    using quote_sublist[OF assms(1), of v] assms(2) sublist_append_rightI sublist_order.order_trans by blast
  moreover have "\<not> prefix from (CHR 0x27 # quote_body v)" using q by (auto simp: prefix_Cons)
  ultimately have "\<not> sublist from (CHR 0x27 # quote_body v)" by (simp add: sublist_Cons_right)
  from replace_skip[OF q this, of to rest] show ?thesis by (simp add: ShellQuote_def)
qed

lemma replace_end: "plain a \<Longrightarrow> replace_loop (CHR ''{'' # from) to a = a"
  using replace_plain[of a "from" to "[]"] by simp

lemma placeholders:
  "unquoted ''{address}''" "unquoted ''{force}''"
  "plain [] " by (simp_all add: unquoted_def plain_def)





end
