(* ===== verification/Lifecycle_Manager.thy ===== *)
theory Lifecycle_Manager
  imports Cluster_State Shell_Actuator
begin

text \<open>
  Start, stop and reboot of nodes, \<open>src/src/scheduler/lifecycle/LifecycleManager.cpp\<close>, and the periodic
  actuation of the power levels, \<open>PowerActuationController\<close> of
  \<open>src/src/scheduler/power/PowerActuationController.cpp\<close>.  The actuators are parameters: functions from node
  id and address to a result, of which \<open>Shell_Actuator\<close> gives the ones the scheduler uses.  \<open>clock\<close> gives
  the readings of the system clock in the order the code takes them.  The theorems: an operation always
  ends finished and changes the catalogue only by its own operations; a stopped node is off and disabled;
  a failed operation does not restore every node; the actuation of standby is recorded as medium power.
\<close>

section \<open>Lifecycle operations\<close>

record NodeActuator =
  act_StartNode :: "string \<Rightarrow> string \<Rightarrow> ActuatorResult"
  act_StopNode :: "string \<Rightarrow> string \<Rightarrow> bool \<Rightarrow> ActuatorResult"
  act_RebootNode :: "string \<Rightarrow> string \<Rightarrow> ActuatorResult"

datatype lifecycle_error =
    LifecycleNodeNotFound string | SafeStopDiscs | SafeStopData | CreateFailed cluster_error | ActuatorFailed string

type_synonym clock = "nat \<Rightarrow> u64"

definition prepare_operation :: "clock \<Rightarrow> NodePowerManager \<Rightarrow> string \<Rightarrow> NodeOperationType \<Rightarrow> NodePowerManager" where
  "prepare_operation clock m node_id type =
     (case type of
        NODE_OP_STOP \<Rightarrow>
          let m1 = snd (SetNodeAdminState m node_id NODE_ADMIN_DRAINING);
              m2 = snd (SetDesiredPowerState m1 node_id NODE_POWER_OFF (clock 1))
          in snd (SetCurrentPowerState m2 node_id NODE_POWER_STOPPING (clock 2))
      | NODE_OP_START \<Rightarrow>
          let m1 = snd (SetDesiredPowerState m node_id NODE_POWER_ON (clock 1));
              m2 = snd (SetCurrentPowerState m1 node_id NODE_POWER_STARTING (clock 2))
          in snd (SetNodeAdminState m2 node_id NODE_ADMIN_ENABLED)
      | NODE_OP_REBOOT \<Rightarrow>
          let m1 = snd (SetDesiredPowerState m node_id NODE_POWER_ON (clock 1));
              m2 = snd (SetCurrentPowerState m1 node_id NODE_POWER_STOPPING (clock 2))
          in snd (SetNodeAdminState m2 node_id NODE_ADMIN_DRAINING))"

definition actuate :: "NodeActuator option \<Rightarrow> NodeOperationType \<Rightarrow> string \<Rightarrow> string \<Rightarrow> bool \<Rightarrow> ActuatorResult" where
  "actuate actuator type node_id address force =
     (case actuator of
        None \<Rightarrow> \<lparr>ar_success = True, ar_message = ''No actuator configured''\<rparr>
      | Some a \<Rightarrow> (case type of NODE_OP_START \<Rightarrow> act_StartNode a node_id address
                  | NODE_OP_STOP \<Rightarrow> act_StopNode a node_id address force
                  | NODE_OP_REBOOT \<Rightarrow> act_RebootNode a node_id address))"

definition roll_back :: "clock \<Rightarrow> NodePowerManager \<Rightarrow> string \<Rightarrow> NodeState \<Rightarrow> NodePowerManager" where
  "roll_back clock m node_id node =
     (let m1 = snd (SetDesiredPowerState m node_id (ns_desired_power_state node) (clock 3));
          m2 = snd (SetCurrentPowerState m1 node_id (ns_power_state node) (clock 4))
      in snd (SetNodeAdminState m2 node_id (ns_admin_state node)))"

definition conclude :: "clock \<Rightarrow> NodePowerManager \<Rightarrow> string \<Rightarrow> NodeOperationType \<Rightarrow> NodePowerManager" where
  "conclude clock m node_id type =
     (case type of
        NODE_OP_STOP \<Rightarrow> snd (SetNodeAdminState (snd (SetCurrentPowerState m node_id NODE_POWER_OFF (clock 3))) node_id NODE_ADMIN_DISABLED)
      | NODE_OP_START \<Rightarrow> snd (SetCurrentPowerState m node_id NODE_POWER_STARTING (clock 3))
      | NODE_OP_REBOOT \<Rightarrow>
          snd (SetNodeAdminState (snd (SetCurrentPowerState m node_id NODE_POWER_STARTING (clock 3))) node_id NODE_ADMIN_ENABLED))"

text \<open>\<open>UpdateOperation\<close> is called for the operation just created; its result is dropped.\<close>

definition close_operation :: "ClusterState \<Rightarrow> string \<Rightarrow> NodeOperationStatus \<Rightarrow> string \<Rightarrow> u64 \<Rightarrow> ClusterState" where
  "close_operation cl operation_id status message now =
     (case UpdateOperation cl operation_id status message now of Inl e \<Rightarrow> cl | Inr cl1 \<Rightarrow> cl1)"

text \<open>The result is the error, if any, and the operation that the caller gets.\<close>

definition RunOperation ::
  "NodeActuator option \<Rightarrow> clock \<Rightarrow> ClusterState \<Rightarrow> NodePowerManager \<Rightarrow> string \<Rightarrow> NodeOperationType \<Rightarrow> bool \<Rightarrow> string \<Rightarrow>
   (lifecycle_error option \<times> NodeOperationState option) \<times> ClusterState \<times> NodePowerManager" where
  "RunOperation actuator clock cl m node_id type force reason =
     (case Cluster_GetNode m node_id of
        None \<Rightarrow> ((Some (LifecycleNodeNotFound node_id), None), cl, m)
      | Some node \<Rightarrow>
          if type = NODE_OP_STOP \<and> \<not> force \<and> (ns_resident_data_bytes node \<noteq> 0 \<or> ns_optical_local_disc_count node \<noteq> 0)
          then ((Some (if ns_optical_local_disc_count node \<noteq> 0 then SafeStopDiscs else SafeStopData), None), cl, m)
          else case CreateOperation cl m node_id type reason (clock 0) of
                 Inl e \<Rightarrow> ((Some (CreateFailed e), None), cl, m)
               | Inr (operation, cl1) \<Rightarrow>
                   let m1 = prepare_operation clock m node_id type;
                       result = actuate actuator type node_id (ns_address node) force
                   in if \<not> ar_success result
                      then let cl2 = close_operation cl1 (os_operation_id operation) NODE_OP_FAILED (ar_message result) (clock 5)
                           in ((Some (ActuatorFailed (ar_message result)), GetOperation cl2 (os_operation_id operation)),
                               cl2, roll_back clock m1 node_id node)
                      else let cl2 = close_operation cl1 (os_operation_id operation) NODE_OP_SUCCEEDED (ar_message result) (clock 5)
                           in ((None, GetOperation cl2 (os_operation_id operation)), cl2, conclude clock m1 node_id type))"

definition StartNode ::
  "NodeActuator option \<Rightarrow> clock \<Rightarrow> ClusterState \<Rightarrow> NodePowerManager \<Rightarrow> string \<Rightarrow> string \<Rightarrow>
   (lifecycle_error option \<times> NodeOperationState option) \<times> ClusterState \<times> NodePowerManager" where
  "StartNode actuator clock cl m node_id reason = RunOperation actuator clock cl m node_id NODE_OP_START False reason"

definition StopNode ::
  "NodeActuator option \<Rightarrow> clock \<Rightarrow> ClusterState \<Rightarrow> NodePowerManager \<Rightarrow> string \<Rightarrow> bool \<Rightarrow> string \<Rightarrow>
   (lifecycle_error option \<times> NodeOperationState option) \<times> ClusterState \<times> NodePowerManager" where
  "StopNode actuator clock cl m node_id force reason = RunOperation actuator clock cl m node_id NODE_OP_STOP force reason"

definition RebootNode ::
  "NodeActuator option \<Rightarrow> clock \<Rightarrow> ClusterState \<Rightarrow> NodePowerManager \<Rightarrow> string \<Rightarrow> string \<Rightarrow>
   (lifecycle_error option \<times> NodeOperationState option) \<times> ClusterState \<times> NodePowerManager" where
  "RebootNode actuator clock cl m node_id reason = RunOperation actuator clock cl m node_id NODE_OP_REBOOT False reason"

section \<open>Power actuation\<close>

record ManagedPowerActuator =
  act_Wake :: "string \<Rightarrow> string \<Rightarrow> ActuatorResult"
  act_Standby :: "string \<Rightarrow> string \<Rightarrow> ActuatorResult"
  act_PowerOff :: "string \<Rightarrow> string \<Rightarrow> ActuatorResult"

record PowerActuationController =
  pc_enabled :: bool
  pc_retry_interval_ms :: u64

definition new_controller :: "bool \<Rightarrow> u64 \<Rightarrow> PowerActuationController" where
  "new_controller enabled retry_interval_ms =
     \<lparr>pc_enabled = enabled, pc_retry_interval_ms = (if retry_interval_ms = 0 then 5000 else retry_interval_ms)\<rparr>"

definition actuation_due :: "PowerActuationController \<Rightarrow> u64 \<Rightarrow> NodeRecord \<Rightarrow> bool" where
  "actuation_due c now_ms node \<longleftrightarrow> \<not> (hp_execution_mode (n_profile node) \<noteq> kPhysical \<or>
     n_power_level node = n_actuated_power_level node \<or>
     (n_last_power_actuation_ms node \<noteq> 0 \<and> now_ms \<ge> n_last_power_actuation_ms node \<and>
      now_ms - n_last_power_actuation_ms node < pc_retry_interval_ms c))"

definition power_result :: "ManagedPowerActuator \<Rightarrow> NodeRecord \<Rightarrow> string \<Rightarrow> ActuatorResult" where
  "power_result a node address =
     (if n_power_level node = kOff then act_PowerOff a (hp_node_id (n_profile node)) address
      else if n_power_level node = kStandby then act_Standby a (hp_node_id (n_profile node)) address
      else act_Wake a (hp_node_id (n_profile node)) address)"

text \<open>\<open>t1\<close> and \<open>t2\<close> are the readings of the clock in the two calls on the cluster state.\<close>

definition actuate_node ::
  "ManagedPowerActuator \<Rightarrow> PowerActuationController \<Rightarrow> u64 \<Rightarrow> u64 \<Rightarrow> u64 \<Rightarrow> NodeRecord \<Rightarrow> NodePowerManager \<Rightarrow> NodePowerManager" where
  "actuate_node a c now_ms t1 t2 node m =
     (let node_id = hp_node_id (n_profile node)
      in if \<not> actuation_due c now_ms node then m
         else case Cluster_GetNode m node_id of
                None \<Rightarrow> m
              | Some cluster_node \<Rightarrow>
                  if ns_address cluster_node = [] then m
                  else let result = power_result a node (ns_address cluster_node);
                           m1 = snd (ignoring m (ReportPowerActuation m node_id (n_power_level node) now_ms
                                   (ar_success result) (ar_message result)));
                           legacy = (if n_power_level node = kOff then NODE_POWER_OFF else NODE_POWER_ON)
                       in if ar_success result
                          then snd (SetCurrentPowerState (snd (SetDesiredPowerState m1 node_id legacy t1)) node_id legacy t2)
                          else m1)"

fun actuate_loop ::
  "ManagedPowerActuator \<Rightarrow> PowerActuationController \<Rightarrow> u64 \<Rightarrow> clock \<Rightarrow> nat \<Rightarrow> NodeRecord list \<Rightarrow> NodePowerManager \<Rightarrow> NodePowerManager" where
  "actuate_loop a c now_ms clock i [] m = m"
| "actuate_loop a c now_ms clock i (node # nodes) m =
     actuate_loop a c now_ms clock (i + 2) nodes (actuate_node a c now_ms (clock i) (clock (i + 1)) node m)"

definition Controller_Tick ::
  "ManagedPowerActuator \<Rightarrow> PowerActuationController \<Rightarrow> clock \<Rightarrow> u64 \<Rightarrow> NodePowerManager \<Rightarrow> NodePowerManager" where
  "Controller_Tick a c clock now_ms m =
     (if \<not> pc_enabled c then m else actuate_loop a c now_ms clock 0 (ListNodes m any_node) m)"

section \<open>Steps of the catalogue\<close>

abbreviation catalog_steps :: "float_env \<Rightarrow> NodePowerManager \<Rightarrow> NodePowerManager \<Rightarrow> bool" where
  "catalog_steps env \<equiv> (catalog_step env)\<^sup>*\<^sup>*"

lemma SetNodeAdminState_steps [simp]: "catalog_steps env m (snd (SetNodeAdminState m k s))"
  unfolding SetNodeAdminState_def by (rule step_ignoring) (rule step_admin)

lemma SetDesiredPowerState_steps [simp]: "catalog_steps env m (snd (SetDesiredPowerState m k s t))"
  unfolding SetDesiredPowerState_def by (rule step_ignoring) (rule step_power)

lemma SetCurrentPowerState_steps [simp]: "catalog_steps env m (snd (SetCurrentPowerState m k s t))"
proof -
  have tr: "catalog_steps env m (snd (ignoring m (SetTransitionState m k tr t)))" for tr m
    by (rule step_ignoring) (rule step_transition)
  have "catalog_steps env m (snd (ignoring m (ReportPowerActuation m k l t ok e)))" for l ok e
    by (rule step_ignoring) (rule step_actuation)
  from rtranclp_trans[OF this tr] tr show ?thesis by (simp add: SetCurrentPowerState_def case_prod_beta)
qed

lemmas cluster_steps = rtranclp_trans[OF _ SetNodeAdminState_steps] rtranclp_trans[OF _ SetDesiredPowerState_steps]
  rtranclp_trans[OF _ SetCurrentPowerState_steps]

lemma prepare_steps: "catalog_steps env m (prepare_operation clock m k type)"
  unfolding prepare_operation_def Let_def by (cases type) (auto intro!: cluster_steps)

lemma roll_back_steps: "catalog_steps env m (roll_back clock m k node)"
  unfolding roll_back_def Let_def by (auto intro!: cluster_steps)

lemma conclude_steps: "catalog_steps env m (conclude clock m k type)"
  unfolding conclude_def by (cases type) (auto intro!: cluster_steps)

lemma update_last: "map_of xs k = None \<Longrightarrow> AList.update k v (xs @ [(k, w)]) = xs @ [(k, v)]"
  by (induction xs) (auto split: if_splits)

lemma map_of_last: "map_of xs k = None \<Longrightarrow> map_of (xs @ [(k, v)]) k = Some v"
  by (simp add: map_add_Some_iff)

text \<open>C10: Every start, stop and reboot either is refused and changes nothing, or runs: then it appends exactly
  one operation to the table, under a new id and already finished, succeeded or failed as the caller is
  told, and changes the catalogue only by its own operations.  In particular no operation stays running, so
  the node is never blocked for the next one.\<close>

theorem RunOperation_outcome:
  assumes "RunOperation actuator clock cl m k type force reason = ((err, op), cl', m')"
    and "operation_step\<^sup>*\<^sup>* (new_cluster d) cl" "catalog_wf m"
  shows "catalog_steps env m m' \<and> (case op of None \<Rightarrow> err \<noteq> None \<and> cl' = cl \<and> m' = m
    | Some x \<Rightarrow> os_node_id x = k \<and> os_operation_type x = type \<and> os_start_ts_ms x = clock 0 \<and> os_finish_ts_ms x = clock 5 \<and>
        os_status x = (if err = None then NODE_OP_SUCCEEDED else NODE_OP_FAILED) \<and>
        map_of (cl_operations cl) (os_operation_id x) = None \<and>
        cl_operations cl' = cl_operations cl @ [(os_operation_id x, x)])"
proof (cases "op = None \<and> m' = m \<and> cl' = cl \<and> err \<noteq> None")
  case False
  obtain node x cl1 where node: "Cluster_GetNode m k = Some node"
    and create: "CreateOperation cl m k type reason (clock 0) = Inr (x, cl1)"
    using assms(1) False by (auto simp: RunOperation_def Let_def split: option.splits if_splits sum.splits)
  let ?r = "actuate actuator type k (ns_address node) force"
  let ?m1 = "prepare_operation clock m k type"
  define st where "st = (if ar_success ?r then NODE_OP_SUCCEEDED else NODE_OP_FAILED)"
  have run: "err = (if ar_success ?r then None else Some (ActuatorFailed (ar_message ?r)))"
      "op = GetOperation cl' (os_operation_id x)" "cl' = close_operation cl1 (os_operation_id x) st (ar_message ?r) (clock 5)"
      "m' = (if ar_success ?r then conclude clock ?m1 k type else roll_back clock ?m1 k node)"
    using assms(1) False node create by (auto simp: RunOperation_def Let_def st_def split: if_splits)
  have new: "map_of (cl_operations cl) (os_operation_id x) = None" "cl_operations cl1 = cl_operations cl @ [(os_operation_id x, x)]"
    using CreateOperation_ok[OF create reachable_operations_ok[OF assms(2)] assms(3)] by auto
  have x: "os_node_id x = k" "os_operation_type x = type" "os_start_ts_ms x = clock 0"
    using create by (auto simp: CreateOperation_def Let_def split: option.splits if_splits)
  let ?y = "x\<lparr>os_status := st, os_message := ar_message ?r, os_finish_ts_ms := clock 5\<rparr>"
  have cl': "cl_operations cl' = cl_operations cl @ [(os_operation_id x, ?y)]"
    using new(1) by (simp add: run(3) close_operation_def UpdateOperation_def new(2) map_of_last update_last st_def del: map_of_append)
  then have "op = Some ?y" using new(1) by (simp add: run(2) GetOperation_def map_of_last del: map_of_append)
  moreover have "catalog_steps env m m'"
    unfolding run(4) using rtranclp_trans[OF prepare_steps conclude_steps] rtranclp_trans[OF prepare_steps roll_back_steps]
    by simp
  ultimately show ?thesis using x new(1) cl' by (simp add: run(1) st_def)
qed simp

section \<open>What an operation leaves of the node\<close>

text \<open>The parts of a node record that the calls below do not touch.\<close>

definition same_life :: "NodeRecord \<Rightarrow> NodeRecord \<Rightarrow> bool" where
  "same_life n n' \<longleftrightarrow> n_lifecycle n' = n_lifecycle n \<and> n_service_mode n' = n_service_mode n \<and> n_profile n' = n_profile n"

lemma ignoring_with_node:
  assumes "map_of (pm_nodes m) k = Some n"
  shows "\<exists>n'. map_of (pm_nodes (snd (ignoring m (with_node m k f)))) k = Some n' \<and>
    (n' = n \<and> (\<exists>e. f n = Inl e) \<or> (\<exists>c. f n = Inr (c, n')))"
  using assms by (auto simp: ignoring_def with_node_def update_conv split: sum.splits)

lemma SetAdmin_node:
  assumes "map_of (pm_nodes m) k = Some n"
  shows "\<exists>n'. map_of (pm_nodes (snd (SetNodeAdminState m k s))) k = Some n' \<and> same_life n n' \<and>
    n_actuated_power_level n' = n_actuated_power_level n \<and> n_transition n' = n_transition n \<and>
    (s = NODE_ADMIN_DISABLED \<longrightarrow> n_administrative_state n' = kDisabled) \<and>
    (s = NODE_ADMIN_DRAINING \<longrightarrow> n_lifecycle n \<noteq> kRetired \<longrightarrow> n_administrative_state n' = kAdminDraining)"
proof -
  define st where "st = (case s of NODE_ADMIN_DRAINING \<Rightarrow> kAdminDraining | NODE_ADMIN_DISABLED \<Rightarrow> kDisabled | NODE_ADMIN_ENABLED \<Rightarrow> kEnabled)"
  have st: "s = NODE_ADMIN_DISABLED \<Longrightarrow> st = kDisabled" "s = NODE_ADMIN_DRAINING \<Longrightarrow> st = kAdminDraining" by (simp_all add: st_def)
  let ?f = "\<lambda>node. if n_lifecycle node = kRetired \<and> st \<noteq> kDisabled then Inl RetiredStaysDisabled
     else if (n_lifecycle node = kDraining \<or> n_lifecycle node = kExiting) \<and> st = kEnabled then Inl DrainingCannotEnable
     else if n_administrative_state node \<noteq> st then Inr (True, node\<lparr>n_administrative_state := st\<rparr>)
     else Inr (False, node)"
  from ignoring_with_node[OF assms, of ?f] obtain n' where
    "map_of (pm_nodes (snd (SetNodeAdminState m k s))) k = Some n'" "n' = n \<and> (\<exists>e. ?f n = Inl e) \<or> (\<exists>c. ?f n = Inr (c, n'))"
    unfolding SetNodeAdminState_def SetAdministrativeState_def st_def[symmetric] by blast
  then show ?thesis using st by (auto simp: same_life_def split: if_splits)
qed

lemma SetDesired_node:
  assumes "map_of (pm_nodes m) k = Some n"
  shows "\<exists>n'. map_of (pm_nodes (snd (SetDesiredPowerState m k s t))) k = Some n' \<and> same_life n n'"
proof -
  let ?n1 = "snd (SetPowerLevelLocked (pm_policy m) n (if s = NODE_POWER_OFF then kOff else kMedium) t True)"
  have "same_life n ?n1" by (simp add: same_life_def)
  then show ?thesis using assms
    by (simp add: SetDesiredPowerState_def RequestPowerLevel_def ignoring_def with_node_def case_prod_beta Let_def update_conv
        same_life_def)
qed

lemma SetCurrent_node:
  assumes "map_of (pm_nodes m) k = Some n"
  shows "\<exists>n'. map_of (pm_nodes (snd (SetCurrentPowerState m k s t))) k = Some n' \<and> same_life n n' \<and>
    (s \<notin> {NODE_POWER_STARTING, NODE_POWER_STOPPING} \<longrightarrow>
       n_actuated_power_level n' = (if s = NODE_POWER_OFF then kOff else kMedium) \<and> n_transition n' = kStable)"
proof -
  have tr: "\<exists>n'. map_of (pm_nodes (snd (ignoring m (SetTransitionState m k tr t)))) k = Some n' \<and> same_life n n' \<and>
      n_actuated_power_level n' = n_actuated_power_level n \<and> n_transition n' = tr"
    if "map_of (pm_nodes m) k = Some n" for m n tr
    using that
    by (auto simp: SetTransitionState_def ignoring_def with_node_def Let_def update_conv same_life_def)
  define level where "level = (if s = NODE_POWER_OFF then kOff else kMedium)"
  define m1 where "m1 = snd (ignoring m (ReportPowerActuation m k level t True ''legacy lifecycle confirmation''))"
  have "\<exists>n'. map_of (pm_nodes m1) k = Some n' \<and> same_life n n' \<and> n_actuated_power_level n' = level"
    using assms by (auto simp: m1_def ReportPowerActuation_def ignoring_def with_node_def Let_def update_conv same_life_def)
  then obtain n1 where n1: "map_of (pm_nodes m1) k = Some n1" "same_life n n1" "n_actuated_power_level n1 = level" by blast
  have "snd (SetCurrentPowerState m k s t) = (if s = NODE_POWER_STARTING then snd (ignoring m (SetTransitionState m k kStarting t))
      else if s = NODE_POWER_STOPPING then snd (ignoring m (SetTransitionState m k kStopping t))
      else snd (ignoring m1 (SetTransitionState m1 k kStable t)))"
    by (simp add: SetCurrentPowerState_def m1_def level_def case_prod_beta)
  then show ?thesis
    using tr[OF assms, of kStarting] tr[OF assms, of kStopping] tr[OF n1(1), of kStable] n1(2,3)
    by (auto simp: level_def same_life_def)
qed

lemma prepare_node:
  assumes "map_of (pm_nodes m) k = Some n"
  shows "\<exists>n'. map_of (pm_nodes (prepare_operation clock m k type)) k = Some n' \<and> same_life n n'"
proof -
  have tr: "same_life a b \<Longrightarrow> same_life b c \<Longrightarrow> same_life a c" for a b c by (simp add: same_life_def)
  have adm: "\<exists>n'. map_of (pm_nodes (snd (SetNodeAdminState m k s))) k = Some n' \<and> same_life n n'"
    if "\<exists>n'. map_of (pm_nodes m) k = Some n' \<and> same_life n n'" for m s
    using that SetAdmin_node[of m k _ s] tr by blast
  have des: "\<exists>n'. map_of (pm_nodes (snd (SetDesiredPowerState m k s t))) k = Some n' \<and> same_life n n'"
    if "\<exists>n'. map_of (pm_nodes m) k = Some n' \<and> same_life n n'" for m s t
    using that SetDesired_node[of m k _ s t] tr by blast
  have cur: "\<exists>n'. map_of (pm_nodes (snd (SetCurrentPowerState m k s t))) k = Some n' \<and> same_life n n'"
    if "\<exists>n'. map_of (pm_nodes m) k = Some n' \<and> same_life n n'" for m s t
    using that SetCurrent_node[of m k _ s t] tr by blast
  have "\<exists>n'. map_of (pm_nodes m) k = Some n' \<and> same_life n n'" using assms by (simp add: same_life_def)
  then show ?thesis unfolding prepare_operation_def Let_def by (cases type) (simp_all add: adm des cur)
qed

text \<open>A stop that succeeds was safe, unless it was forced: the node held no data and no disc.  Afterwards
  the node is recorded as off, in no transition and disabled, in the same phase of its life.\<close>

theorem StopNode_switches_off:
  assumes "StopNode actuator clock cl m k force reason = ((None, op), cl', m')" "map_of (pm_nodes m) k = Some n"
  shows "(force \<or> n_resident_data_bytes n = 0 \<and> ol_local_disc_count (n_optical_library n) = 0) \<and>
    (\<exists>n'. map_of (pm_nodes m') k = Some n' \<and> n_actuated_power_level n' = kOff \<and> n_transition n' = kStable \<and>
       n_administrative_state n' = kDisabled \<and> n_lifecycle n' = n_lifecycle n)"
proof -
  let ?m1 = "prepare_operation clock m k NODE_OP_STOP"
  have m': "m' = conclude clock ?m1 k NODE_OP_STOP"
    and safe: "force \<or> n_resident_data_bytes n = 0 \<and> ol_local_disc_count (n_optical_library n) = 0"
    using assms
    by (auto simp: StopNode_def RunOperation_def Cluster_GetNode_def GetNode_def BuildNodeState_def Let_def
        split: if_splits sum.splits)
  obtain n1 where n1: "map_of (pm_nodes ?m1) k = Some n1" "same_life n n1" using prepare_node[OF assms(2)] by blast
  obtain n2 where n2: "map_of (pm_nodes (snd (SetCurrentPowerState ?m1 k NODE_POWER_OFF (clock 3)))) k = Some n2"
    "same_life n1 n2" "n_actuated_power_level n2 = kOff" "n_transition n2 = kStable"
    using SetCurrent_node[OF n1(1), of NODE_POWER_OFF "clock 3"] by auto
  from SetAdmin_node[OF n2(1), of NODE_ADMIN_DISABLED] show ?thesis
    using safe n1(2) n2 by (auto simp: m' conclude_def same_life_def)
qed

text \<open>A start that the actuator refuses is rolled back from the legacy view of the node, which shows a
  read-only node, or one outside placement, as draining: a working, enabled node of that kind is
  administratively draining after the failed start.\<close>

theorem failed_start_drains_node:
  assumes "StartNode actuator clock cl m k reason = ((Some (ActuatorFailed message), op), cl', m')"
    and "map_of (pm_nodes m) k = Some n" "n_lifecycle n = kWorking" "n_administrative_state n = kEnabled"
    and "n_service_mode n = kReadOnly \<or> \<not> hp_participates_in_placement (n_profile n)"
  shows "\<exists>n'. map_of (pm_nodes m') k = Some n' \<and> n_lifecycle n' = kWorking \<and> n_administrative_state n' = kAdminDraining"
proof -
  let ?m1 = "prepare_operation clock m k NODE_OP_START"
  have m': "m' = roll_back clock ?m1 k (BuildNodeState n)"
    using assms(1,2)
    by (auto simp: StartNode_def RunOperation_def Cluster_GetNode_def GetNode_def Let_def split: if_splits sum.splits)
  have admin: "ns_admin_state (BuildNodeState n) = NODE_ADMIN_DRAINING"
    using assms(3-5) by (auto simp: BuildNodeState_def LegacyAdmin_def)
  obtain n1 where n1: "map_of (pm_nodes ?m1) k = Some n1" "same_life n n1" using prepare_node[OF assms(2)] by blast
  obtain m2 n2 where n2: "m2 = snd (SetDesiredPowerState ?m1 k (ns_desired_power_state (BuildNodeState n)) (clock 3))"
    "map_of (pm_nodes m2) k = Some n2" "same_life n1 n2" using SetDesired_node[OF n1(1)] by blast
  obtain m3 n3 where n3: "m3 = snd (SetCurrentPowerState m2 k (ns_power_state (BuildNodeState n)) (clock 4))"
    "map_of (pm_nodes m3) k = Some n3" "same_life n2 n3" using SetCurrent_node[OF n2(2)] by blast
  have "m' = snd (SetNodeAdminState m3 k NODE_ADMIN_DRAINING)" by (simp add: m' roll_back_def admin n2(1) n3(1))
  with SetAdmin_node[OF n3(2), of NODE_ADMIN_DRAINING] show ?thesis
    using n1(2) n2(3) n3(3) assms(3) by (auto simp: same_life_def)
qed

section \<open>The actuation of power levels\<close>

lemma with_node_other: "k \<noteq> j \<Longrightarrow> map_of (pm_nodes (snd (ignoring m (with_node m j f)))) k = map_of (pm_nodes m) k"
  by (auto simp: ignoring_def with_node_def update_conv split: option.splits sum.splits)

lemma set_state_other:
  assumes "k \<noteq> j"
  shows "map_of (pm_nodes (snd (SetDesiredPowerState m j s t))) k = map_of (pm_nodes m) k"
    "map_of (pm_nodes (snd (SetCurrentPowerState m j s t))) k = map_of (pm_nodes m) k"
    "map_of (pm_nodes (snd (ignoring m (ReportPowerActuation m j l t ok e)))) k = map_of (pm_nodes m) k"
  using assms
  by (simp_all add: SetDesiredPowerState_def SetCurrentPowerState_def RequestPowerLevel_def ReportPowerActuation_def
      SetTransitionState_def with_node_other case_prod_beta)

lemma actuate_node_other:
  "k \<noteq> hp_node_id (n_profile node) \<Longrightarrow> map_of (pm_nodes (actuate_node a c t t1 t2 node m)) k = map_of (pm_nodes m) k"
  by (auto simp: actuate_node_def Let_def set_state_other split: option.splits)

lemma actuate_loop_other:
  "k \<notin> (\<lambda>n. hp_node_id (n_profile n)) ` set nodes \<Longrightarrow>
   map_of (pm_nodes (actuate_loop a c t clock i nodes m)) k = map_of (pm_nodes m) k"
  by (induction nodes arbitrary: i m) (simp_all add: actuate_node_other)

lemma actuate_node_effect:
  assumes "map_of (pm_nodes m) k = Some n" "hp_node_id (n_profile n) = k" "actuation_due c t n"
    and "ni_service_address (n_identity n) \<noteq> []" "ar_success (power_result a n (ni_service_address (n_identity n)))"
  shows "\<exists>n'. map_of (pm_nodes (actuate_node a c t t1 t2 n m)) k = Some n' \<and>
    n_actuated_power_level n' = (if n_power_level n = kOff then kOff else kMedium)"
proof -
  let ?r = "power_result a n (ni_service_address (n_identity n))"
  define m1 where "m1 = snd (ignoring m (ReportPowerActuation m k (n_power_level n) t (ar_success ?r) (ar_message ?r)))"
  define legacy where "legacy = (if n_power_level n = kOff then NODE_POWER_OFF else NODE_POWER_ON)"
  have "map_of (pm_nodes m1) k \<noteq> None"
    using assms(1) ignoring_with_node[OF assms(1)] by (auto simp: m1_def ReportPowerActuation_def)
  then obtain n1 where n1: "map_of (pm_nodes m1) k = Some n1" by blast
  obtain n2 where n2: "map_of (pm_nodes (snd (SetDesiredPowerState m1 k legacy t1))) k = Some n2"
    using SetDesired_node[OF n1] by blast
  have "actuate_node a c t t1 t2 n m = snd (SetCurrentPowerState (snd (SetDesiredPowerState m1 k legacy t1)) k legacy t2)"
    using assms by (simp add: actuate_node_def Cluster_GetNode_def GetNode_def BuildNodeState_def m1_def legacy_def)
  with SetCurrent_node[OF n2, of legacy t2] show ?thesis by (auto simp: legacy_def split: if_splits)
qed

lemma actuate_loop_effect:
  assumes "map_of (pm_nodes m) k = Some n" "hp_node_id (n_profile n) = k" "actuation_due c t n"
    and "ni_service_address (n_identity n) \<noteq> []" "ar_success (power_result a n (ni_service_address (n_identity n)))"
    and "n \<in> set nodes" "distinct (map (\<lambda>n. hp_node_id (n_profile n)) nodes)"
  shows "\<exists>n'. map_of (pm_nodes (actuate_loop a c t clock i nodes m)) k = Some n' \<and>
    n_actuated_power_level n' = (if n_power_level n = kOff then kOff else kMedium)"
  using assms
proof (induction nodes arbitrary: i m)
  case (Cons x nodes)
  show ?case
  proof (cases "x = n")
    case True
    then have "k \<notin> (\<lambda>n. hp_node_id (n_profile n)) ` set nodes" using Cons.prems(2,7) by auto
    then show ?thesis using actuate_node_effect[OF Cons.prems(1-5)] True by (simp add: actuate_loop_other)
  next
    case False
    moreover then have "hp_node_id (n_profile n) \<in> (\<lambda>n. hp_node_id (n_profile n)) ` set nodes" using Cons.prems(6) by auto
    ultimately have "k \<noteq> hp_node_id (n_profile x)" using Cons.prems(2,7) by auto
    then show ?thesis using Cons.IH[OF _ Cons.prems(2-5)] Cons.prems(1,6,7) False by (simp add: actuate_node_other)
  qed
qed simp


section \<open>Instances\<close>

definition refuse :: ActuatorResult where
  "refuse = \<lparr>ar_success = False, ar_message = ''refused''\<rparr>"

definition sample_actuator :: NodeActuator where
  "sample_actuator = \<lparr>act_StartNode = (\<lambda>_ _. refuse), act_StopNode = (\<lambda>_ _ _. refuse), act_RebootNode = (\<lambda>_ _. refuse)\<rparr>"

abbreviation sample_new_cluster :: ClusterState where
  "sample_new_cluster \<equiv> new_cluster (cl_detector sample_cluster)"

theorem RunOperation_outcome_witness:
  "\<exists>x cl' m'. RunOperation None (\<lambda>_. 7) sample_new_cluster sample_m1 ''n1'' NODE_OP_STOP True [] = ((None, Some x), cl', m') \<and>
    os_status x = NODE_OP_SUCCEEDED \<and> cl_operations cl' = [(os_operation_id x, x)]"
proof -
  obtain op cl' m' where r: "RunOperation None (\<lambda>_. 7) sample_new_cluster sample_m1 ''n1'' NODE_OP_STOP True [] = ((None, op), cl', m')"
    using sample_create by (simp add: RunOperation_def Cluster_GetNode_def GetNode_def sample_m1_def actuate_def Let_def)
  from RunOperation_outcome[OF r _ sample_catalog_wf, of "cl_detector sample_cluster"] show ?thesis
    using r by (cases op) (auto simp: new_cluster_def)
qed

theorem StopNode_switches_off_witness:
  "\<exists>op cl' m' n'. StopNode None (\<lambda>_. 7) sample_new_cluster sample_m1 ''n1'' True [] = ((None, op), cl', m') \<and>
    map_of (pm_nodes m') ''n1'' = Some n' \<and> n_actuated_power_level n' = kOff \<and> n_administrative_state n' = kDisabled"
proof -
  obtain op cl' m' where r: "StopNode None (\<lambda>_. 7) sample_new_cluster sample_m1 ''n1'' True [] = ((None, op), cl', m')"
    using sample_create by (simp add: StopNode_def RunOperation_def Cluster_GetNode_def GetNode_def sample_m1_def actuate_def Let_def)
  from StopNode_switches_off[OF r, of sample_node] show ?thesis using r by (auto simp: sample_m1_def)
qed

definition sample_reader :: NodeRecord where
  "sample_reader = sample_node\<lparr>n_lifecycle := kWorking, n_service_mode := kReadOnly\<rparr>"

theorem failed_start_drains_node_witness:
  "\<exists>op cl' m' n'. StartNode (Some sample_actuator) (\<lambda>_. 7) sample_new_cluster (sample_m1\<lparr>pm_nodes := [(''n1'', sample_reader)]\<rparr>) ''n1'' [] =
      ((Some (ActuatorFailed ''refused''), op), cl', m') \<and>
    map_of (pm_nodes m') ''n1'' = Some n' \<and> n_lifecycle n' = kWorking \<and> n_administrative_state n' = kAdminDraining"
proof -
  let ?m = "sample_m1\<lparr>pm_nodes := [(''n1'', sample_reader)]\<rparr>"
  obtain x cl1 where c: "CreateOperation sample_new_cluster ?m ''n1'' NODE_OP_START [] 7 = Inr (x, cl1)"
    by (simp add: CreateOperation_def new_cluster_def GetNode_def Let_def)
  obtain op cl' m' where r: "StartNode (Some sample_actuator) (\<lambda>_. 7) sample_new_cluster ?m ''n1'' [] =
      ((Some (ActuatorFailed ''refused''), op), cl', m')"
    by (simp add: StartNode_def RunOperation_def Cluster_GetNode_def GetNode_def c actuate_def sample_actuator_def refuse_def Let_def)
  have "map_of (pm_nodes ?m) ''n1'' = Some sample_reader" "n_lifecycle sample_reader = kWorking"
    "n_administrative_state sample_reader = kEnabled" "n_service_mode sample_reader = kReadOnly"
    by (simp_all add: sample_reader_def sample_node_fields)
  with failed_start_drains_node[OF r, of sample_reader] r show ?thesis by blast
qed

definition sample_idle :: NodeRecord where
  "sample_idle = sample_node\<lparr>n_power_level := kStandby,
     n_identity := (n_identity sample_node)\<lparr>ni_service_address := ''10.0.0.1:80''\<rparr>\<rparr>"

definition accept_power :: ManagedPowerActuator where
  "accept_power = (let ok = \<lambda>_ _. \<lparr>ar_success = True, ar_message = []\<rparr>
     in \<lparr>act_Wake = ok, act_Standby = ok, act_PowerOff = ok\<rparr>)"


end
