(* ===== verification/Drain_Migration.thy ===== *)
theory Drain_Migration
  imports Lifecycle_Manager
begin

text \<open>
  The migration of all data off a node that is to be retired:
  \<open>src/src/scheduler/migration/DrainMigrationCoordinator.{h,cpp}\<close>.  The backend that talks to data nodes and
  to the metadata server is a parameter, a record of functions over a state of its own; so are the hooks
  for optical libraries and logical disks.  The coordinator works on the node catalogue and the operation
  table of the other theories.  Error messages are the constructors of \<open>drain_error\<close>.  \<open>Tick\<close> is modelled
  without a concurrent tick: each task is executed under a lock of its own.
\<close>

section \<open>Data\<close>

record MigrationObject =
  mo_disk_id :: string
  mo_object_id :: string
  mo_inode_id :: u64
  mo_object_index :: u32
  mo_size_bytes :: u64

record MigrationTarget =
  mt_node_id :: string
  mt_address :: string
  mt_disk_id :: string

datatype DrainMigrationState = kDrainPending | kDrainRunning | kDrainRetryWait | kDrainCompleted | kDrainBlocked

datatype drain_error =
    FenceFailed string | EnumerationFailed string | UnmanagedObject string | InodeSpread | OwnerCheckFailed string
  | TargetWakeRequested | NoTarget | CopyFailed string string | CommitFailed string | DeleteFailed string string
  | FileCleanupFailed string | HookFailed string | SourceDisappeared | SourceNotEmpty string | LogicalSourceNotEmpty string
  | CmsReferences string | MetadataReferenced | OpticalUnobserved | OpticalOccupied | OpticalReferenced
  | FinalReportFailed power_error | StopFailed lifecycle_error | StopUnconfirmed | RetirementFailed power_error

record DrainMigrationTask =
  dt_migration_id :: string
  dt_source_node_id :: string
  dt_source_address :: string
  dt_state :: DrainMigrationState
  dt_created_at_ms :: u64
  dt_updated_at_ms :: u64
  dt_total_objects :: u64
  dt_total_bytes :: u64
  dt_remaining_objects :: u64
  dt_remaining_bytes :: u64
  dt_migrated_objects :: u64
  dt_migrated_bytes :: u64
  dt_retry_count :: u32
  dt_next_retry_ms :: u64
  dt_last_error :: "drain_error option"

record WorkItem =
  wi_inode_id :: u64
  wi_source_disk_id :: string
  wi_target :: MigrationTarget
  wi_objects :: "MigrationObject list"
  wi_target_selected :: bool
  wi_metadata_committed :: bool
  wi_cleanup_index :: nat

record InternalTask =
  it_view :: DrainMigrationTask
  it_published :: DrainMigrationTask
  it_work :: "WorkItem list"
  it_next_work :: nat
  it_enumerated :: bool

text \<open>A call of the backend: the error message or the result, and the new state of the outside world.\<close>

type_synonym ('w, 'a) backend_call = "'w \<Rightarrow> (string + 'a) \<times> 'w"

record 'w ObjectMigrationBackend =
  bk_BeginSourceDrain :: "string \<Rightarrow> string \<Rightarrow> ('w, unit) backend_call"
  bk_CleanupSourceFile :: "string \<Rightarrow> u64 \<Rightarrow> string \<Rightarrow> ('w, unit) backend_call"
  bk_SourceStillOwnsFile :: "string \<Rightarrow> string \<Rightarrow> u64 \<Rightarrow> ('w, bool) backend_call"
  bk_ListObjects :: "string \<Rightarrow> ('w, MigrationObject list) backend_call"
  bk_CopyAndVerify :: "string \<Rightarrow> MigrationObject \<Rightarrow> MigrationTarget \<Rightarrow> ('w, unit) backend_call"
  bk_CommitFileLocation :: "string \<Rightarrow> u64 \<Rightarrow> string \<Rightarrow> string \<Rightarrow> string \<Rightarrow> MigrationTarget \<Rightarrow> ('w, unit) backend_call"
  bk_DeleteSourceObject :: "string \<Rightarrow> MigrationObject \<Rightarrow> ('w, unit) backend_call"
  bk_VerifySourceEmpty :: "string \<Rightarrow> ('w, unit) backend_call"
  bk_VerifyCmsNodeReferencesZero :: "string \<Rightarrow> ('w, unit) backend_call"

text \<open>The default of \<open>VerifySourceEmpty\<close>.\<close>

definition VerifySourceEmpty :: "'w ObjectMigrationBackend \<Rightarrow> string \<Rightarrow> ('w, unit) backend_call" where
  "VerifySourceEmpty backend source_address w =
     (case bk_ListObjects backend source_address w of
        (Inl e, w1) \<Rightarrow> (Inl e, w1)
      | (Inr remaining, w1) \<Rightarrow>
          if remaining \<noteq> []
          then (Inl (''source still contains '' @ dec_digits (length remaining) @ '' objects after migration''), w1)
          else (Inr (), w1))"

record 'w world =
  w_outside :: 'w
  w_nodes :: NodePowerManager
  w_cluster :: ClusterState

text \<open>The coordinator's collaborators: backend, lifecycle actuator, and the hooks, absent before they are set.
  An advance hook reports success, an error message that may be empty, and the task it may have updated.\<close>

record 'w drain_config =
  dc_env :: float_env
  dc_backend :: "'w ObjectMigrationBackend"
  dc_actuator :: "NodeActuator option"
  dc_clock :: clock
  dc_logical_source_empty :: "(string \<Rightarrow> ('w, unit) backend_call) option"
  dc_logical_empty_drain_begin :: "(string \<Rightarrow> u64 \<Rightarrow> 'w world \<Rightarrow> (string + unit) \<times> 'w world) option"
  dc_optical_drain_begin :: "(string \<Rightarrow> u64 \<Rightarrow> 'w world \<Rightarrow> (string + unit) \<times> 'w world) option"
  dc_optical_drain_advance :: "(DrainMigrationTask \<Rightarrow> u64 \<Rightarrow> 'w world \<Rightarrow> (bool \<times> string) \<times> DrainMigrationTask \<times> 'w world) option"
  dc_physical_optical_begin :: "(string \<Rightarrow> u64 \<Rightarrow> 'w world \<Rightarrow> (string + unit) \<times> 'w world) option"
  dc_physical_optical_advance :: "(DrainMigrationTask \<Rightarrow> u64 \<Rightarrow> 'w world \<Rightarrow> (bool \<times> string) \<times> DrainMigrationTask \<times> 'w world) option"
  dc_retry_base_ms :: u64
  dc_max_retries :: u32

record DrainMigrationCoordinator =
  dm_next_id :: u64
  dm_tasks :: "(string \<times> InternalTask) list"

definition new_coordinator :: DrainMigrationCoordinator where
  "new_coordinator = \<lparr>dm_next_id = 1, dm_tasks = []\<rparr>"

definition bounded_retry :: "u64 \<Rightarrow> u32 \<Rightarrow> 'w drain_config \<Rightarrow> 'w drain_config" where
  "bounded_retry retry_base_ms max_retries cfg = cfg\<lparr>dc_retry_base_ms := max 1 retry_base_ms, dc_max_retries := max 1 max_retries\<rparr>"

definition SetLogicalSourceEmptyVerifier :: "(string \<Rightarrow> ('w, unit) backend_call) \<Rightarrow> 'w drain_config \<Rightarrow> 'w drain_config" where
  "SetLogicalSourceEmptyVerifier verifier cfg = cfg\<lparr>dc_logical_source_empty := Some verifier\<rparr>"

definition SetLogicalEmptyDrainBegin ::
  "(string \<Rightarrow> u64 \<Rightarrow> 'w world \<Rightarrow> (string + unit) \<times> 'w world) \<Rightarrow> 'w drain_config \<Rightarrow> 'w drain_config" where
  "SetLogicalEmptyDrainBegin begin_drain cfg = cfg\<lparr>dc_logical_empty_drain_begin := Some begin_drain\<rparr>"

definition SetLogicalOpticalDrain ::
  "(string \<Rightarrow> u64 \<Rightarrow> 'w world \<Rightarrow> (string + unit) \<times> 'w world) \<Rightarrow>
   (DrainMigrationTask \<Rightarrow> u64 \<Rightarrow> 'w world \<Rightarrow> (bool \<times> string) \<times> DrainMigrationTask \<times> 'w world) \<Rightarrow>
   'w drain_config \<Rightarrow> 'w drain_config" where
  "SetLogicalOpticalDrain begin_drain advance_drain cfg =
     cfg\<lparr>dc_optical_drain_begin := Some begin_drain, dc_optical_drain_advance := Some advance_drain\<rparr>"

definition SetPhysicalOpticalDrain ::
  "(string \<Rightarrow> u64 \<Rightarrow> 'w world \<Rightarrow> (string + unit) \<times> 'w world) \<Rightarrow>
   (DrainMigrationTask \<Rightarrow> u64 \<Rightarrow> 'w world \<Rightarrow> (bool \<times> string) \<times> DrainMigrationTask \<times> 'w world) \<Rightarrow>
   'w drain_config \<Rightarrow> 'w drain_config" where
  "SetPhysicalOpticalDrain begin_drain advance_drain cfg =
     cfg\<lparr>dc_physical_optical_begin := Some begin_drain, dc_physical_optical_advance := Some advance_drain\<rparr>"

definition call_backend :: "('w, 'a) backend_call \<Rightarrow> 'w world \<Rightarrow> (string + 'a) \<times> 'w world" where
  "call_backend f w = (case f (w_outside w) of (r, x) \<Rightarrow> (r, w\<lparr>w_outside := x\<rparr>))"

section \<open>Starting a drain\<close>

datatype start_error =
    CoordinatorNotInitialized | SourceNotFound string | LogicalBackendMissing | NoHeartbeatAddress string
  | NoServiceAddress | NoPhysicalOptical | NoLogicalOptical | NoLogicalGate | BeginFailed string
  | BeginRemoveFailed power_error

definition CanStart :: "'w drain_config \<Rightarrow> 'w world \<Rightarrow> string \<Rightarrow> start_error + unit" where
  "CanStart cfg w node_id =
     (if node_id = [] then Inl CoordinatorNotInitialized
      else case GetNode (w_nodes w) node_id of
             None \<Rightarrow> Inl (SourceNotFound node_id)
           | Some runtime \<Rightarrow>
               if hp_kind (n_profile runtime) = kStorage \<and> hp_execution_mode (n_profile runtime) = kVirtual \<and>
                  (dc_logical_source_empty cfg = None \<or> dc_logical_empty_drain_begin cfg = None)
               then Inl LogicalBackendMissing
               else if hp_execution_mode (n_profile runtime) \<noteq> kSimulated \<and> Cluster_GetNode (w_nodes w) node_id = None
               then Inl (NoHeartbeatAddress node_id)
               else if hp_kind (n_profile runtime) = kStorage \<and> hp_execution_mode (n_profile runtime) = kPhysical \<and>
                       (case Cluster_GetNode (w_nodes w) node_id of None \<Rightarrow> True | Some source \<Rightarrow> ns_address source = [])
               then Inl NoServiceAddress
               else Inr ())"

definition run_begin ::
  "start_error \<Rightarrow> (string \<Rightarrow> u64 \<Rightarrow> 'w world \<Rightarrow> (string + unit) \<times> 'w world) option \<Rightarrow> string \<Rightarrow> u64 \<Rightarrow> 'w world \<Rightarrow>
   (start_error + unit) \<times> 'w world" where
  "run_begin missing hook node_id now_ms w =
     (case hook of
        None \<Rightarrow> (Inl missing, w)
      | Some begin_drain \<Rightarrow> (case begin_drain node_id now_ms w of (Inl e, w1) \<Rightarrow> (Inl (BeginFailed e), w1) | (Inr u, w1) \<Rightarrow> (Inr (), w1)))"

definition begin_remove :: "string \<Rightarrow> u64 \<Rightarrow> 'w world \<Rightarrow> (start_error + unit) \<times> 'w world" where
  "begin_remove node_id now_ms w =
     (case BeginRemoveNode (w_nodes w) node_id now_ms of
        Inl e \<Rightarrow> (Inl (BeginRemoveFailed e), w)
      | Inr m1 \<Rightarrow> (Inr (), w\<lparr>w_nodes := m1\<rparr>))"

definition BeginManagedDrain :: "'w drain_config \<Rightarrow> string \<Rightarrow> u64 \<Rightarrow> 'w world \<Rightarrow> (start_error + unit) \<times> 'w world" where
  "BeginManagedDrain cfg node_id now_ms w =
     (case CanStart cfg w node_id of
        Inl e \<Rightarrow> (Inl e, w)
      | Inr u \<Rightarrow>
          (case GetNode (w_nodes w) node_id of
             None \<Rightarrow> (Inl (SourceNotFound node_id), w)
           | Some runtime \<Rightarrow>
               let kind = hp_kind (n_profile runtime); mode = hp_execution_mode (n_profile runtime)
               in if kind = kOpticalLibrary \<and> mode = kPhysical
                  then run_begin NoPhysicalOptical (dc_physical_optical_begin cfg) node_id now_ms w
                  else if kind = kOpticalLibrary \<and> mode = kVirtual
                  then run_begin NoLogicalOptical (dc_optical_drain_begin cfg) node_id now_ms w
                  else if kind = kStorage \<and> mode = kVirtual
                  then run_begin NoLogicalGate (dc_logical_empty_drain_begin cfg) node_id now_ms w
                  else if kind = kStorage \<and> mode = kPhysical
                  then (case Cluster_GetNode (w_nodes w) node_id of
                          None \<Rightarrow> (Inl (BeginFailed []), w)
                        | Some source \<Rightarrow>
                            (case call_backend (bk_BeginSourceDrain (dc_backend cfg) node_id (ns_address source)) w of
                               (Inl e, w1) \<Rightarrow> (Inl (BeginFailed e), w1)
                             | (Inr u, w1) \<Rightarrow> begin_remove node_id now_ms w1))
                  else begin_remove node_id now_ms w))"

definition empty_task :: DrainMigrationTask where
  "empty_task = \<lparr>dt_migration_id = [], dt_source_node_id = [], dt_source_address = [], dt_state = kDrainPending,
     dt_created_at_ms = 0, dt_updated_at_ms = 0, dt_total_objects = 0, dt_total_bytes = 0, dt_remaining_objects = 0,
     dt_remaining_bytes = 0, dt_migrated_objects = 0, dt_migrated_bytes = 0, dt_retry_count = 0, dt_next_retry_ms = 0,
     dt_last_error = None\<rparr>"

definition model_prefix :: string where
  "model_prefix = ''model://''"

definition started_task :: "NodePowerManager \<Rightarrow> NodeRecord \<Rightarrow> string \<Rightarrow> u64 \<Rightarrow> u64 \<Rightarrow> InternalTask" where
  "started_task m runtime node_id now_ms number =
     (let kind = hp_kind (n_profile runtime); mode = hp_execution_mode (n_profile runtime);
          source_address = (if mode \<noteq> kSimulated then case Cluster_GetNode m node_id of None \<Rightarrow> [] | Some s \<Rightarrow> ns_address s else []);
          requires_data_plane = (kind = kStorage \<and> (mode = kPhysical \<or> mode = kVirtual));
          view = empty_task\<lparr>dt_migration_id := ''drain-'' @ to_string now_ms @ ''-'' @ to_string number,
                   dt_source_node_id := node_id,
                   dt_source_address := (if mode = kVirtual \<and> kind = kStorage then model_prefix @ node_id else source_address),
                   dt_created_at_ms := now_ms, dt_updated_at_ms := now_ms,
                   dt_state := (if requires_data_plane then kDrainPending else kDrainRunning)\<rparr>
      in \<lparr>it_view = view, it_published = view, it_work = [], it_next_work = 0, it_enumerated = \<not> requires_data_plane\<rparr>)"

definition Start ::
  "'w drain_config \<Rightarrow> string \<Rightarrow> u64 \<Rightarrow> 'w world \<Rightarrow> DrainMigrationCoordinator \<Rightarrow> start_error + DrainMigrationCoordinator" where
  "Start cfg node_id now_ms w dm =
     (case CanStart cfg w node_id of
        Inl e \<Rightarrow> Inl e
      | Inr u \<Rightarrow>
          (case GetNode (w_nodes w) node_id of
             None \<Rightarrow> Inl (SourceNotFound node_id)
           | Some runtime \<Rightarrow>
               (case map_of (dm_tasks dm) node_id of
                  Some existing \<Rightarrow>
                    if dt_state (it_published existing) \<noteq> kDrainCompleted \<and> dt_state (it_published existing) \<noteq> kDrainBlocked
                    then Inr dm
                    else Inr (dm\<lparr>dm_next_id := dm_next_id dm + 1,
                           dm_tasks := AList.update node_id (started_task (w_nodes w) runtime node_id now_ms (dm_next_id dm)) (dm_tasks dm)\<rparr>)
                | None \<Rightarrow> Inr (dm\<lparr>dm_next_id := dm_next_id dm + 1,
                           dm_tasks := AList.update node_id (started_task (w_nodes w) runtime node_id now_ms (dm_next_id dm)) (dm_tasks dm)\<rparr>))))"

section \<open>Retries\<close>

definition RetryLocked :: "'w drain_config \<Rightarrow> InternalTask \<Rightarrow> u64 \<Rightarrow> drain_error \<Rightarrow> InternalTask" where
  "RetryLocked cfg task now_ms e =
     (let view = (it_view task)\<lparr>dt_retry_count := dt_retry_count (it_view task) + 1, dt_updated_at_ms := now_ms,
                    dt_last_error := Some e\<rparr>
      in if dt_retry_count view \<ge> dc_max_retries cfg then task\<lparr>it_view := view\<lparr>dt_state := kDrainBlocked\<rparr>\<rparr>
         else let shift = min (dt_retry_count view - 1) 10
              in task\<lparr>it_view := view\<lparr>dt_state := kDrainRetryWait,
                   dt_next_retry_ms := now_ms + dc_retry_base_ms cfg * push_bit (unat shift) 1\<rparr>\<rparr>)"

definition block :: "InternalTask \<Rightarrow> u64 \<Rightarrow> drain_error \<Rightarrow> InternalTask" where
  "block task now_ms e = task\<lparr>it_view := (it_view task)\<lparr>dt_state := kDrainBlocked, dt_last_error := Some e, dt_updated_at_ms := now_ms\<rparr>\<rparr>"

section \<open>Closing a drain\<close>

definition retire_verified ::
  "'w drain_config \<Rightarrow> InternalTask \<Rightarrow> u64 \<Rightarrow> 'w world \<Rightarrow> InternalTask \<times> 'w world" where
  "retire_verified cfg task now_ms w =
     (case FinalizeRemoveNode (w_nodes w) (dt_source_node_id (it_view task)) now_ms False of
        Inl e \<Rightarrow> (RetryLocked cfg task now_ms (RetirementFailed e), w)
      | Inr m1 \<Rightarrow> (task\<lparr>it_view := (it_view task)\<lparr>dt_state := kDrainCompleted, dt_updated_at_ms := now_ms,
                    dt_remaining_objects := 0, dt_remaining_bytes := 0, dt_last_error := None\<rparr>\<rparr>, w\<lparr>w_nodes := m1\<rparr>))"

text \<open>The stop of the node after its drain, for nodes that have a process to stop; the message of the
  stop operation tells whether a command was configured.\<close>

definition needs_stop :: "NodeRecord \<Rightarrow> bool" where
  "needs_stop runtime \<longleftrightarrow> hp_execution_mode (n_profile runtime) \<noteq> kSimulated \<and> \<not> empty_virtual_optical runtime \<and>
     \<not> (hp_kind (n_profile runtime) = kStorage \<and> hp_execution_mode (n_profile runtime) = kVirtual)"

definition stop_and_retire ::
  "'w drain_config \<Rightarrow> InternalTask \<Rightarrow> NodeRecord \<Rightarrow> u64 \<Rightarrow> 'w world \<Rightarrow> InternalTask \<times> 'w world" where
  "stop_and_retire cfg task runtime now_ms w =
     (let node_id = dt_source_node_id (it_view task);
          (stop_error, message, w1) =
            (if needs_stop runtime
             then case StopNode (dc_actuator cfg) (dc_clock cfg) (w_cluster w) (w_nodes w) node_id False
                         ''automatic stop after verified drain'' of
                    ((e, op), cl, m) \<Rightarrow> (e, case op of None \<Rightarrow> [] | Some x \<Rightarrow> os_message x, w\<lparr>w_cluster := cl, w_nodes := m\<rparr>)
             else (None, [], w))
      in case stop_error of
           Some e \<Rightarrow> (RetryLocked cfg task now_ms (StopFailed e), w1)
         | None \<Rightarrow>
             if hp_kind (n_profile runtime) = kOpticalLibrary \<and> hp_execution_mode (n_profile runtime) = kPhysical
             then if sublist ''No command template configured'' message
                  then (RetryLocked cfg task now_ms StopUnconfirmed, w1)
                  else retire_verified cfg task now_ms
                         (w1\<lparr>w_nodes := snd (ignoring (w_nodes w1) (ReportPowerActuation (w_nodes w1) node_id kOff now_ms True
                            ''configured stop actuator completed after optical handoff''))\<rparr>)
             else retire_verified cfg task now_ms w1)"

definition report_and_retire ::
  "'w drain_config \<Rightarrow> InternalTask \<Rightarrow> NodeRecord \<Rightarrow> u64 \<Rightarrow> 'w world \<Rightarrow> InternalTask \<times> 'w world" where
  "report_and_retire cfg task runtime now_ms w =
     (if hp_kind (n_profile runtime) = kMetadata \<and> n_resident_data_bytes runtime \<noteq> 0
      then (block task now_ms MetadataReferenced, w)
      else if hp_kind (n_profile runtime) = kOpticalLibrary \<and>
              (\<not> ol_observed (n_optical_library runtime) \<or>
               (ol_local_disc_count (n_optical_library runtime) \<noteq> 0 \<and> \<not> empty_virtual_optical runtime) \<or>
               n_resident_data_bytes runtime \<noteq> 0)
      then (block task now_ms (if \<not> ol_observed (n_optical_library runtime) then OpticalUnobserved
              else if ol_local_disc_count (n_optical_library runtime) \<noteq> 0 then OpticalOccupied else OpticalReferenced), w)
      else case ReportDrainProgress (w_nodes w) (dt_source_node_id (it_view task)) now_ms 0 0 0 of
             Inl e \<Rightarrow> (RetryLocked cfg task now_ms (FinalReportFailed e), w)
           | Inr m1 \<Rightarrow> stop_and_retire cfg task runtime now_ms (w\<lparr>w_nodes := m1\<rparr>))"

text \<open>The last verification that the source is empty: over the objects of a physical node, over the model
  of a logical one.\<close>

definition verify_source ::
  "'w drain_config \<Rightarrow> InternalTask \<Rightarrow> NodeRecord \<Rightarrow> 'w world \<Rightarrow> (drain_error + unit) \<times> 'w world" where
  "verify_source cfg task runtime w =
     (if hp_kind (n_profile runtime) = kStorage \<and> hp_execution_mode (n_profile runtime) = kPhysical
      then (case call_backend (bk_VerifySourceEmpty (dc_backend cfg) (dt_source_address (it_view task))) w of
              (Inl e, w1) \<Rightarrow> (Inl (SourceNotEmpty e), w1) | (Inr u, w1) \<Rightarrow> (Inr (), w1))
      else if hp_kind (n_profile runtime) = kStorage \<and> hp_execution_mode (n_profile runtime) = kVirtual
      then (case dc_logical_source_empty cfg of
              None \<Rightarrow> (Inl (LogicalSourceNotEmpty []), w)
            | Some verifier \<Rightarrow>
                (case call_backend (verifier (dt_source_node_id (it_view task))) w of
                   (Inl e, w1) \<Rightarrow> (Inl (LogicalSourceNotEmpty e), w1) | (Inr u, w1) \<Rightarrow> (Inr (), w1)))
      else (Inr (), w))"

definition CompleteLocked :: "'w drain_config \<Rightarrow> InternalTask \<Rightarrow> u64 \<Rightarrow> 'w world \<Rightarrow> InternalTask \<times> 'w world" where
  "CompleteLocked cfg task now_ms w =
     (case GetNode (w_nodes w) (dt_source_node_id (it_view task)) of
        None \<Rightarrow> (RetryLocked cfg task now_ms SourceDisappeared, w)
      | Some runtime \<Rightarrow>
          (case verify_source cfg task runtime w of
             (Inl e, w1) \<Rightarrow> (RetryLocked cfg task now_ms e, w1)
           | (Inr u, w1) \<Rightarrow>
               (case call_backend (bk_VerifyCmsNodeReferencesZero (dc_backend cfg) (dt_source_node_id (it_view task))) w1 of
                  (Inl e, w2) \<Rightarrow> (RetryLocked cfg task now_ms (CmsReferences e), w2)
                | (Inr u, w2) \<Rightarrow> report_and_retire cfg task runtime now_ms w2)))"

section \<open>Enumeration\<close>

text \<open>\<open>std::from_chars\<close> of a whole range: digits only, and a value of the given width.\<close>

definition from_chars :: "nat \<Rightarrow> string \<Rightarrow> nat option" where
  "from_chars bits text =
     (if text = [] \<or> \<not> list_all is_digit text \<or> dec_val text \<ge> 2 ^ bits then None else Some (dec_val text))"

definition ParseStableObjectId :: "string \<Rightarrow> (u64 \<times> u32) option" where
  "ParseStableObjectId object_id =
     (if take 4 object_id \<noteq> ''obj-'' then None
      else let rest = drop 4 object_id; inode_text = takeWhile (\<lambda>c. c \<noteq> CHR ''-'') rest;
               index_text = drop (length inode_text + 1) rest
           in if inode_text = rest \<or> index_text = [] then None
              else case (from_chars 64 inode_text, from_chars 32 index_text) of
                     (Some inode, Some index) \<Rightarrow> if inode = 0 then None else Some (of_nat inode, of_nat index)
                   | other \<Rightarrow> None)"

text \<open>The loop over the listed objects: ids are parsed into the objects, and an inode on two disks stops
  it.  \<open>inode_disks\<close> is the map from inode to disk.\<close>

fun parse_objects ::
  "MigrationObject list \<Rightarrow> (u64 \<times> string) list \<Rightarrow> drain_error + MigrationObject list" where
  "parse_objects [] inode_disks = Inr []"
| "parse_objects (object # objects) inode_disks =
     (case ParseStableObjectId (mo_object_id object) of
        None \<Rightarrow> Inl (UnmanagedObject (mo_object_id object))
      | Some (inode, index) \<Rightarrow>
          (case map_of inode_disks inode of
             Some disk \<Rightarrow>
               if disk \<noteq> mo_disk_id object then Inl InodeSpread
               else (case parse_objects objects inode_disks of
                       Inl e \<Rightarrow> Inl e
                     | Inr parsed \<Rightarrow> Inr (object\<lparr>mo_inode_id := inode, mo_object_index := index\<rparr> # parsed))
           | None \<Rightarrow>
               (case parse_objects objects ((inode, mo_disk_id object) # inode_disks) of
                  Inl e \<Rightarrow> Inl e
                | Inr parsed \<Rightarrow> Inr (object\<lparr>mo_inode_id := inode, mo_object_index := index\<rparr> # parsed))))"

text \<open>One work item per inode and disk, in the order of the ordered map; objects in the order of their
  index (objects of equal index in any order: the sort is not stable in the code).\<close>

definition group_keys :: "MigrationObject list \<Rightarrow> (u64 \<times> string) list" where
  "group_keys objects = sort_key fst (remdups (map (\<lambda>o1. (mo_inode_id o1, mo_disk_id o1)) objects))"

definition no_target :: MigrationTarget where
  "no_target = \<lparr>mt_node_id = [], mt_address = [], mt_disk_id = []\<rparr>"

definition make_work :: "MigrationObject list \<Rightarrow> WorkItem list" where
  "make_work objects = map (\<lambda>(inode, disk).
     \<lparr>wi_inode_id = inode, wi_source_disk_id = disk, wi_target = no_target,
      wi_objects = sort_key mo_object_index (filter (\<lambda>o1. mo_inode_id o1 = inode \<and> mo_disk_id o1 = disk) objects),
      wi_target_selected = False, wi_metadata_committed = False, wi_cleanup_index = 0\<rparr>) (group_keys objects)"

definition object_bytes :: "MigrationObject list \<Rightarrow> u64" where
  "object_bytes objects = foldl (\<lambda>total object. total + mo_size_bytes object) 0 objects"

definition enumerated_task :: "InternalTask \<Rightarrow> MigrationObject list \<Rightarrow> u64 \<Rightarrow> InternalTask" where
  "enumerated_task task objects now_ms =
     task\<lparr>it_work := make_work objects, it_enumerated := True,
          it_view := (it_view task)\<lparr>dt_state := kDrainRunning, dt_total_objects := of_nat (length objects),
            dt_remaining_objects := of_nat (length objects), dt_total_bytes := object_bytes objects,
            dt_remaining_bytes := object_bytes objects, dt_updated_at_ms := now_ms\<rparr>\<rparr>"

definition drain_progress :: "string \<Rightarrow> u64 \<Rightarrow> u64 \<Rightarrow> u64 \<Rightarrow> 'w world \<Rightarrow> 'w world" where
  "drain_progress node_id now_ms objects nbytes w =
     w\<lparr>w_nodes := snd (ignoring (w_nodes w) (ReportDrainProgress (w_nodes w) node_id now_ms objects nbytes 0))\<rparr>"

definition EnumerateLocked :: "'w drain_config \<Rightarrow> InternalTask \<Rightarrow> u64 \<Rightarrow> 'w world \<Rightarrow> InternalTask \<times> 'w world" where
  "EnumerateLocked cfg task now_ms w =
     (let address = dt_source_address (it_view task); node_id = dt_source_node_id (it_view task);
          (fence, w1) = (if prefix model_prefix address then (Inr (), w)
                         else call_backend (bk_BeginSourceDrain (dc_backend cfg) node_id address) w)
      in case fence of
           Inl e \<Rightarrow> (RetryLocked cfg task now_ms (FenceFailed e), w1)
         | Inr u \<Rightarrow>
             (case call_backend (bk_ListObjects (dc_backend cfg) address) w1 of
                (Inl e, w2) \<Rightarrow> (RetryLocked cfg task now_ms (EnumerationFailed e), w2)
              | (Inr listed, w2) \<Rightarrow>
                  (case parse_objects listed [] of
                     Inl e \<Rightarrow> (block task now_ms e, w2)
                   | Inr objects \<Rightarrow>
                       let task1 = enumerated_task task objects now_ms;
                           w3 = w2\<lparr>w_nodes := snd (ignoring (w_nodes w2) (SetResidentDataBytes (w_nodes w2) node_id (object_bytes objects)))\<rparr>;
                           w4 = drain_progress node_id now_ms (of_nat (length objects)) (object_bytes objects) w3
                       in if it_work task1 = [] then CompleteLocked cfg task1 now_ms w4 else (task1, w4))))"

section \<open>Choice of a target\<close>

definition target_candidate :: "string \<Rightarrow> NodeState \<Rightarrow> bool" where
  "target_candidate source_node_id node \<longleftrightarrow> \<not> (ns_node_id node = source_node_id \<or> ns_address node = [] \<or>
     (ns_node_type node \<noteq> NODE_REAL \<and> ns_node_type node \<noteq> NODE_VIRTUAL_POOL) \<or>
     ns_health_state node \<noteq> NODE_HEALTH_HEALTHY \<or> ns_admin_state node \<noteq> NODE_ADMIN_ENABLED)"

definition target_runtime_ok :: "bool \<Rightarrow> NodeRecord \<Rightarrow> bool" where
  "target_runtime_ok model_source runtime \<longleftrightarrow>
     hp_execution_mode (n_profile runtime) = (if model_source then kVirtual else kPhysical) \<and>
     n_lifecycle runtime = kWorking \<and> n_health runtime = kHealthy \<and> hp_participates_in_placement (n_profile runtime) \<and>
     n_administrative_state runtime = kEnabled \<and> n_service_mode runtime = kReadWrite"

definition better_disk :: "u64 \<Rightarrow> NodeState \<Rightarrow> (u64 \<times> MigrationTarget option) \<Rightarrow> string \<times> DeviceInventory \<Rightarrow> u64 \<times> MigrationTarget option" where
  "better_disk required node = (\<lambda>(best_free, target) (key, disk).
     if \<not> di_is_healthy disk \<or> di_free_bytes disk < required \<or> di_free_bytes disk \<le> best_free then (best_free, target)
     else (di_free_bytes disk, Some \<lparr>mt_node_id = ns_node_id node, mt_address = ns_address node, mt_disk_id = di_disk_id disk\<rparr>))"

text \<open>The loop over the nodes; \<open>wake\<close> tells that a sleeping candidate was asked to wake.\<close>

fun select_loop ::
  "float_env \<Rightarrow> string \<Rightarrow> bool \<Rightarrow> u64 \<Rightarrow> u64 \<Rightarrow> NodeState list \<Rightarrow> (u64 \<times> MigrationTarget option) \<times> bool \<times> NodePowerManager \<Rightarrow>
   (u64 \<times> MigrationTarget option) \<times> bool \<times> NodePowerManager" where
  "select_loop env source model_source required now_ms [] acc = acc"
| "select_loop env source model_source required now_ms (node # nodes) (best, wake, m) =
     select_loop env source model_source required now_ms nodes
       (if \<not> target_candidate source node then (best, wake, m)
        else case GetNode m (ns_node_id node) of
               None \<Rightarrow> (best, wake, m)
             | Some runtime \<Rightarrow>
                 if \<not> target_runtime_ok model_source runtime then (best, wake, m)
                 else if n_power_level runtime < kMedium \<or> n_actuated_power_level runtime < kMedium
                 then (case ReportAccessEvent env m (ns_node_id node)
                              \<lparr>ev_event_time_us = now_ms * 1000, ev_is_read = False, ev_is_write = True, ev_bytes = required,
                               ev_queue_depth = 0, ev_access_path = kDefault\<rparr> of
                         Inl e \<Rightarrow> (best, wake, m)
                       | Inr m1 \<Rightarrow> (best, True, m1))
                 else (foldl (better_disk required node) best (ns_disks node), wake, m))"

definition SelectTargetLocked ::
  "'w drain_config \<Rightarrow> InternalTask \<Rightarrow> WorkItem \<Rightarrow> u64 \<Rightarrow> 'w world \<Rightarrow> (drain_error + MigrationTarget) \<times> 'w world" where
  "SelectTargetLocked cfg task work now_ms w =
     (case select_loop (dc_env cfg) (dt_source_node_id (it_view task))
             (prefix model_prefix (dt_source_address (it_view task))) (object_bytes (wi_objects work)) now_ms
             (snd (Cluster_Snapshot (w_nodes w) 0)) ((0, None), False, w_nodes w) of
        ((best_free, target), wake, m1) \<Rightarrow>
          (case target of
             Some t \<Rightarrow> (Inr t, w\<lparr>w_nodes := m1\<rparr>)
           | None \<Rightarrow> (Inl (if wake then TargetWakeRequested else NoTarget), w\<lparr>w_nodes := m1\<rparr>)))"

section \<open>Processing one work item\<close>

text \<open>A stage of the work on one file returns the error that stops it, the work item with the progress made,
  and the world.\<close>

type_synonym 'w stage = "WorkItem \<Rightarrow> 'w world \<Rightarrow> drain_error option \<times> WorkItem \<times> 'w world"

definition and_then :: "'w stage \<Rightarrow> 'w stage \<Rightarrow> 'w stage" where
  "and_then f g work w = (case f work w of (None, work1, w1) \<Rightarrow> g work1 w1 | stopped \<Rightarrow> stopped)"

definition owner_stage :: "'w drain_config \<Rightarrow> InternalTask \<Rightarrow> 'w stage" where
  "owner_stage cfg task work w =
     (if wi_metadata_committed work then (None, work, w)
      else case call_backend (bk_SourceStillOwnsFile (dc_backend cfg) (dt_source_node_id (it_view task))
                                (wi_source_disk_id work) (wi_inode_id work)) w of
             (Inl e, w1) \<Rightarrow> (Some (OwnerCheckFailed e), work, w1)
           | (Inr owns, w1) \<Rightarrow> (None, if owns then work else work\<lparr>wi_metadata_committed := True\<rparr>, w1))"

definition target_stage :: "'w drain_config \<Rightarrow> InternalTask \<Rightarrow> u64 \<Rightarrow> 'w stage" where
  "target_stage cfg task now_ms work w =
     (if wi_metadata_committed work \<or> wi_target_selected work then (None, work, w)
      else case SelectTargetLocked cfg task work now_ms w of
             (Inl e, w1) \<Rightarrow> (Some e, work, w1)
           | (Inr t, w1) \<Rightarrow> (None, work\<lparr>wi_target := t, wi_target_selected := True\<rparr>, w1))"

fun copy_objects ::
  "'w drain_config \<Rightarrow> string \<Rightarrow> MigrationTarget \<Rightarrow> MigrationObject list \<Rightarrow> 'w world \<Rightarrow> drain_error option \<times> 'w world" where
  "copy_objects cfg address t [] w = (None, w)"
| "copy_objects cfg address t (object # objects) w =
     (case call_backend (bk_CopyAndVerify (dc_backend cfg) address object t) w of
        (Inl e, w1) \<Rightarrow> (Some (CopyFailed (mo_object_id object) e), w1)
      | (Inr u, w1) \<Rightarrow> copy_objects cfg address t objects w1)"

definition commit_stage :: "'w drain_config \<Rightarrow> InternalTask \<Rightarrow> 'w stage" where
  "commit_stage cfg task work w =
     (if wi_metadata_committed work then (None, work, w)
      else let view = it_view task
           in case copy_objects cfg (dt_source_address view) (wi_target work) (wi_objects work) w of
                (Some e, w1) \<Rightarrow> (Some e, work, w1)
              | (None, w1) \<Rightarrow>
                  (case call_backend (bk_CommitFileLocation (dc_backend cfg) (dt_migration_id view) (wi_inode_id work)
                          (dt_source_node_id view) (dt_source_address view) (wi_source_disk_id work) (wi_target work)) w1 of
                     (Inl e, w2) \<Rightarrow> (Some (CommitFailed e), work, w2)
                   | (Inr u, w2) \<Rightarrow> (None, work\<lparr>wi_metadata_committed := True\<rparr>, w2)))"

text \<open>The loop over the objects from the cleanup index on.\<close>

fun delete_objects ::
  "'w drain_config \<Rightarrow> string \<Rightarrow> MigrationObject list \<Rightarrow> WorkItem \<Rightarrow> 'w world \<Rightarrow> drain_error option \<times> WorkItem \<times> 'w world" where
  "delete_objects cfg address [] work w = (None, work, w)"
| "delete_objects cfg address (object # objects) work w =
     (case call_backend (bk_DeleteSourceObject (dc_backend cfg) address object) w of
        (Inl e, w1) \<Rightarrow> (Some (DeleteFailed (mo_object_id object) e), work, w1)
      | (Inr u, w1) \<Rightarrow> delete_objects cfg address objects (work\<lparr>wi_cleanup_index := wi_cleanup_index work + 1\<rparr>) w1)"

definition delete_stage :: "'w drain_config \<Rightarrow> InternalTask \<Rightarrow> 'w stage" where
  "delete_stage cfg task work w =
     delete_objects cfg (dt_source_address (it_view task)) (drop (wi_cleanup_index work) (wi_objects work)) work w"

definition cleanup_stage :: "'w drain_config \<Rightarrow> InternalTask \<Rightarrow> 'w stage" where
  "cleanup_stage cfg task work w =
     (case call_backend (bk_CleanupSourceFile (dc_backend cfg) (dt_source_address (it_view task)) (wi_inode_id work)
             (wi_source_disk_id work)) w of
        (Inl e, w1) \<Rightarrow> (Some (FileCleanupFailed e), work, w1)
      | (Inr u, w1) \<Rightarrow> (None, work, w1))"

definition move_file :: "'w drain_config \<Rightarrow> InternalTask \<Rightarrow> u64 \<Rightarrow> 'w stage" where
  "move_file cfg task now_ms =
     and_then (owner_stage cfg task) (and_then (target_stage cfg task now_ms) (and_then (commit_stage cfg task)
       (and_then (delete_stage cfg task) (cleanup_stage cfg task))))"

definition file_done :: "InternalTask \<Rightarrow> WorkItem \<Rightarrow> u64 \<Rightarrow> InternalTask" where
  "file_done task work now_ms =
     (let view = it_view task; n = of_nat (length (wi_objects work)); nbytes = object_bytes (wi_objects work)
      in task\<lparr>it_view := view\<lparr>dt_migrated_objects := dt_migrated_objects view + n,
                dt_migrated_bytes := dt_migrated_bytes view + nbytes,
                dt_remaining_objects := dt_remaining_objects view - min (dt_remaining_objects view) n,
                dt_remaining_bytes := dt_remaining_bytes view - min (dt_remaining_bytes view) nbytes,
                dt_state := kDrainRunning, dt_last_error := None, dt_updated_at_ms := now_ms\<rparr>,
              it_next_work := it_next_work task + 1\<rparr>)"

definition process_files :: "'w drain_config \<Rightarrow> InternalTask \<Rightarrow> u64 \<Rightarrow> 'w world \<Rightarrow> InternalTask \<times> 'w world" where
  "process_files cfg task now_ms w =
     (if it_next_work task \<ge> length (it_work task) then CompleteLocked cfg task now_ms w
      else case move_file cfg task now_ms (it_work task ! it_next_work task) w of
             (e, work, w1) \<Rightarrow>
               let task1 = task\<lparr>it_work := (it_work task)[it_next_work task := work]\<rparr>
               in (case e of
                     Some reason \<Rightarrow> (RetryLocked cfg task1 now_ms reason, w1)
                   | None \<Rightarrow>
                       let task2 = file_done task1 work now_ms
                       in if it_next_work task2 \<ge> length (it_work task2) then CompleteLocked cfg task2 now_ms w1
                          else (task2, drain_progress (dt_source_node_id (it_view task2)) now_ms
                                  (dt_remaining_objects (it_view task2)) (dt_remaining_bytes (it_view task2)) w1)))"

text \<open>The hook of an optical library runs first; without success the task goes on in a later tick.\<close>

definition run_advance ::
  "'w drain_config \<Rightarrow> (DrainMigrationTask \<Rightarrow> u64 \<Rightarrow> 'w world \<Rightarrow> (bool \<times> string) \<times> DrainMigrationTask \<times> 'w world) option \<Rightarrow>
   InternalTask \<Rightarrow> u64 \<Rightarrow> 'w world \<Rightarrow> bool \<times> InternalTask \<times> 'w world" where
  "run_advance cfg hook task now_ms w =
     (case hook of
        None \<Rightarrow> (False, task\<lparr>it_view := (it_view task)\<lparr>dt_updated_at_ms := now_ms, dt_state := kDrainRunning, dt_last_error := None\<rparr>\<rparr>, w)
      | Some step \<Rightarrow>
          (case step (it_view task) now_ms w of
             ((ok, e), view, w1) \<Rightarrow>
               if ok then (True, task\<lparr>it_view := view\<rparr>, w1)
               else let task1 = task\<lparr>it_view := view\<lparr>dt_updated_at_ms := now_ms\<rparr>\<rparr>
                    in if e \<noteq> [] then (False, RetryLocked cfg task1 now_ms (HookFailed e), w1)
                       else (False, task1\<lparr>it_view := (it_view task1)\<lparr>dt_state := kDrainRunning, dt_last_error := None\<rparr>\<rparr>, w1)))"

definition optical_in_mode :: "ExecutionMode \<Rightarrow> InternalTask \<Rightarrow> 'w world \<Rightarrow> bool" where
  "optical_in_mode mode task w \<longleftrightarrow>
     (case GetNode (w_nodes w) (dt_source_node_id (it_view task)) of
        None \<Rightarrow> False
      | Some runtime \<Rightarrow> hp_kind (n_profile runtime) = kOpticalLibrary \<and> hp_execution_mode (n_profile runtime) = mode)"

definition ProcessWorkLocked :: "'w drain_config \<Rightarrow> InternalTask \<Rightarrow> u64 \<Rightarrow> 'w world \<Rightarrow> InternalTask \<times> 'w world" where
  "ProcessWorkLocked cfg task now_ms w =
     (case (if optical_in_mode kPhysical task w then run_advance cfg (dc_physical_optical_advance cfg) task now_ms w
            else (True, task, w)) of
        (False, task1, w1) \<Rightarrow> (task1, w1)
      | (True, task1, w1) \<Rightarrow>
          (case (if optical_in_mode kVirtual task1 w1 \<and> dc_optical_drain_advance cfg \<noteq> None
                 then run_advance cfg (dc_optical_drain_advance cfg) task1 now_ms w1 else (True, task1, w1)) of
             (False, task2, w2) \<Rightarrow> (task2, w2)
           | (True, task2, w2) \<Rightarrow> process_files cfg task2 now_ms w2))"

section \<open>Ticks and queries\<close>

definition task_idle :: "u64 \<Rightarrow> InternalTask \<Rightarrow> bool" where
  "task_idle now_ms task \<longleftrightarrow> dt_state (it_view task) = kDrainCompleted \<or> dt_state (it_view task) = kDrainBlocked \<or>
     (dt_state (it_view task) = kDrainRetryWait \<and> now_ms < dt_next_retry_ms (it_view task))"

definition tick_task :: "'w drain_config \<Rightarrow> u64 \<Rightarrow> InternalTask \<Rightarrow> 'w world \<Rightarrow> InternalTask \<times> 'w world" where
  "tick_task cfg now_ms task w =
     (if task_idle now_ms task then (task, w)
      else case (if \<not> it_enumerated task then EnumerateLocked cfg task now_ms w else ProcessWorkLocked cfg task now_ms w) of
             (task1, w1) \<Rightarrow> (task1\<lparr>it_published := it_view task1\<rparr>, w1))"

fun tick_tasks ::
  "'w drain_config \<Rightarrow> u64 \<Rightarrow> (string \<times> InternalTask) list \<Rightarrow> 'w world \<Rightarrow> (string \<times> InternalTask) list \<times> 'w world" where
  "tick_tasks cfg now_ms [] w = ([], w)"
| "tick_tasks cfg now_ms ((key, task) # tasks) w =
     (case tick_task cfg now_ms task w of
        (task1, w1) \<Rightarrow> (case tick_tasks cfg now_ms tasks w1 of (tasks1, w2) \<Rightarrow> ((key, task1) # tasks1, w2)))"

definition Drain_Tick ::
  "'w drain_config \<Rightarrow> u64 \<Rightarrow> DrainMigrationCoordinator \<Rightarrow> 'w world \<Rightarrow> DrainMigrationCoordinator \<times> 'w world" where
  "Drain_Tick cfg now_ms dm w =
     (case tick_tasks cfg now_ms (dm_tasks dm) w of (tasks, w1) \<Rightarrow> (dm\<lparr>dm_tasks := tasks\<rparr>, w1))"

definition GetTask :: "DrainMigrationCoordinator \<Rightarrow> string \<Rightarrow> DrainMigrationTask option" where
  "GetTask dm node_id = map_option it_published (map_of (dm_tasks dm) node_id)"

definition ListTasks :: "DrainMigrationCoordinator \<Rightarrow> DrainMigrationTask list" where
  "ListTasks dm = sort_key dt_created_at_ms (map (\<lambda>(key, task). it_published task) (dm_tasks dm))"

end
