(* ===== verification/Drain_Safety.thy ===== *)
theory Drain_Safety
  imports Drain_Migration
begin

text \<open>
  What the migration coordinator guarantees, for every backend: a source object is deleted only after the
  metadata server stopped pointing to the source, and then only after the object itself was copied and
  verified on the node that the metadata server points to; a drain is completed only when the node is
  retired, which needs it to be empty.  The first is a property of the sequence of calls, so the backend
  is observed through a log of the calls that succeeded.
\<close>

section \<open>The log of a drain\<close>

datatype drain_event = Copied MigrationObject MigrationTarget | Committed u64 MigrationTarget | NotOwned u64 | Deleted MigrationObject

text \<open>Newest event first.  The deletion of an object is justified by an earlier answer that the source does
  not own the file, or by a commit of the file to a target on which the object had been copied before.\<close>

definition justified :: "MigrationObject \<Rightarrow> drain_event list \<Rightarrow> bool" where
  "justified object trace \<longleftrightarrow> NotOwned (mo_inode_id object) \<in> set trace \<or>
     (\<exists>t newer older. trace = newer @ Committed (mo_inode_id object) t # older \<and> Copied object t \<in> set older)"

definition safe_log :: "drain_event list \<Rightarrow> bool" where
  "safe_log trace \<longleftrightarrow> (\<forall>newer object older. trace = newer @ Deleted object # older \<longrightarrow> justified object older)"

lemma justified_mono: "justified object trace \<Longrightarrow> justified object (newer @ trace)"
  unfolding justified_def by (metis append.assoc in_set_conv_decomp set_append UnI2)

lemma safe_log_Nil [simp]: "safe_log []"
  by (simp add: safe_log_def)

lemma safe_log_Cons: "safe_log (e # trace) \<longleftrightarrow> (\<forall>object. e = Deleted object \<longrightarrow> justified object trace) \<and> safe_log trace"
  unfolding safe_log_def by (auto simp: Cons_eq_append_conv)

definition extends :: "drain_event list \<Rightarrow> drain_event list \<Rightarrow> bool" where
  "extends trace trace' \<longleftrightarrow> (\<exists>newer. trace' = newer @ trace)"

lemma extends_refl [simp]: "extends trace trace" by (simp add: extends_def)
lemma extends_Cons [simp]: "extends trace (e # trace)" by (simp add: extends_def)
lemma extends_trans: "extends a b \<Longrightarrow> extends b c \<Longrightarrow> extends a c" by (auto simp: extends_def)
lemma extends_justified: "extends a b \<Longrightarrow> justified x a \<Longrightarrow> justified x b" by (auto simp: extends_def justified_mono)
lemma extends_set: "extends a b \<Longrightarrow> set a \<subseteq> set b" by (auto simp: extends_def)

definition work_ok :: "drain_event list \<Rightarrow> WorkItem \<Rightarrow> bool" where
  "work_ok trace work \<longleftrightarrow> (\<forall>x \<in> set (wi_objects work). mo_inode_id x = wi_inode_id work) \<and>
     (wi_metadata_committed work \<longrightarrow> (\<forall>x \<in> set (wi_objects work). justified x trace))"

definition task_ok :: "drain_event list \<Rightarrow> InternalTask \<Rightarrow> bool" where
  "task_ok trace task \<longleftrightarrow> (\<forall>work \<in> set (it_work task). work_ok trace work)"

lemma work_ok_mono: "work_ok a work \<Longrightarrow> extends a b \<Longrightarrow> work_ok b work"
  by (auto simp: work_ok_def intro: extends_justified)

lemma task_ok_mono: "task_ok a task \<Longrightarrow> extends a b \<Longrightarrow> task_ok b task"
  by (auto simp: task_ok_def intro: work_ok_mono)

section \<open>Observed backends\<close>

text \<open>What it means that \<open>log\<close> records the calls of a configuration's backend: a successful copy, commit,
  deletion or negative answer of the ownership check adds its event, everything else adds none.\<close>

locale drain_log =
  fixes cfg :: "'w drain_config" and trace :: "'w \<Rightarrow> drain_event list"
  assumes log_begin: "bk_BeginSourceDrain (dc_backend cfg) n a x = (r, y) \<Longrightarrow> trace y = trace x"
    and log_file: "bk_CleanupSourceFile (dc_backend cfg) a i d x = (r, y) \<Longrightarrow> trace y = trace x"
    and log_owns: "bk_SourceStillOwnsFile (dc_backend cfg) n d i x = (b, y) \<Longrightarrow>
      trace y = (if b = Inr False then NotOwned i # trace x else trace x)"
    and log_list: "bk_ListObjects (dc_backend cfg) a x = (l, y) \<Longrightarrow> trace y = trace x"
    and log_copy: "bk_CopyAndVerify (dc_backend cfg) a object t x = (r, y) \<Longrightarrow>
      trace y = (if r = Inr () then Copied object t # trace x else trace x)"
    and log_commit: "bk_CommitFileLocation (dc_backend cfg) g i n a d t x = (r, y) \<Longrightarrow>
      trace y = (if r = Inr () then Committed i t # trace x else trace x)"
    and log_delete: "bk_DeleteSourceObject (dc_backend cfg) a object x = (r, y) \<Longrightarrow>
      trace y = (if r = Inr () then Deleted object # trace x else trace x)"
    and log_empty: "bk_VerifySourceEmpty (dc_backend cfg) a x = (r, y) \<Longrightarrow> trace y = trace x"
    and log_cms: "bk_VerifyCmsNodeReferencesZero (dc_backend cfg) n x = (r, y) \<Longrightarrow> trace y = trace x"
    and log_logical: "dc_logical_source_empty cfg = Some f \<Longrightarrow> f n x = (r, y) \<Longrightarrow> trace y = trace x"
    and log_begin_hook: "h \<in> {dc_logical_empty_drain_begin cfg, dc_optical_drain_begin cfg, dc_physical_optical_begin cfg} \<Longrightarrow>
      h = Some fb \<Longrightarrow> fb n now w = (r, w') \<Longrightarrow> trace (w_outside w') = trace (w_outside w)"
    and log_advance_hook: "k \<in> {dc_optical_drain_advance cfg, dc_physical_optical_advance cfg} \<Longrightarrow>
      k = Some fa \<Longrightarrow> fa v now w = (q, v', w') \<Longrightarrow> trace (w_outside w') = trace (w_outside w)"
begin

abbreviation L :: "'w world \<Rightarrow> drain_event list" where
  "L w \<equiv> trace (w_outside w)"

definition stage_ok :: "bool \<Rightarrow> 'w stage \<Rightarrow> bool" where
  "stage_ok committed f \<longleftrightarrow> (\<forall>work w e work' w'. f work w = (e, work', w') \<longrightarrow> work_ok (L w) work \<longrightarrow> safe_log (L w) \<longrightarrow>
     (committed \<longrightarrow> wi_metadata_committed work) \<longrightarrow>
     work_ok (L w') work' \<and> safe_log (L w') \<and> extends (L w) (L w') \<and>
     (wi_metadata_committed work \<longrightarrow> wi_metadata_committed work'))"

lemma call_backendD: "call_backend f w = (r, w') \<Longrightarrow> \<exists>x. f (w_outside w) = (r, x) \<and> w' = w\<lparr>w_outside := x\<rparr>"
  by (auto simp: call_backend_def split: prod.splits)

lemma owner_stage_ok: "stage_ok False (owner_stage cfg task)"
proof -
  have "justified x (NotOwned i # l)" if "mo_inode_id x = i" for x i l using that by (simp add: justified_def)
  then show ?thesis
    unfolding stage_ok_def owner_stage_def
    by (auto split: if_splits prod.splits sum.splits dest!: call_backendD log_owns
        simp: safe_log_Cons work_ok_def intro: extends_justified[OF extends_Cons])
qed

lemma target_stage_ok: "stage_ok False (target_stage cfg task t)"
proof -
  have "L w' = L w" if "SelectTargetLocked cfg task work t w = (r, w')" for work w r w'
    using that by (auto simp: SelectTargetLocked_def split: prod.splits option.splits)
  then show ?thesis
    unfolding stage_ok_def target_stage_def by (auto split: if_splits prod.splits sum.splits simp: work_ok_def)
qed

lemma copy_objects_log:
  "copy_objects cfg a t objects w = (e, w') \<Longrightarrow> safe_log (L w) \<Longrightarrow>
   safe_log (L w') \<and> extends (L w) (L w') \<and> (e = None \<longrightarrow> (\<forall>x \<in> set objects. Copied x t \<in> set (L w')))"
proof (induction objects arbitrary: w)
  case (Cons x objects)
  obtain r w1 where c: "call_backend (bk_CopyAndVerify (dc_backend cfg) a x t) w = (r, w1)" by force
  have l: "L w1 = (if r = Inr () then Copied x t # L w else L w)" using call_backendD[OF c] log_copy by fastforce
  show ?case
  proof (cases r)
    case (Inl m)
    then show ?thesis using Cons.prems c l by auto
  next
    case (Inr u)
    then have "copy_objects cfg a t objects w1 = (e, w')" "safe_log (L w1)" "extends (L w) (L w1)" "Copied x t \<in> set (L w1)"
      using Cons.prems c l by (simp_all add: safe_log_Cons)
    with Cons.IH[of w1] show ?thesis using extends_trans extends_set by fastforce
  qed
qed simp

lemma commit_stage_ok: "stage_ok False (commit_stage cfg task)"
  "commit_stage cfg task work w = (None, work', w') \<Longrightarrow> wi_metadata_committed work'"
proof -
  show "stage_ok False (commit_stage cfg task)"
    unfolding stage_ok_def
  proof (intro allI impI)
    fix work w e work' w'
    assume run: "commit_stage cfg task work w = (e, work', w')" and ok: "work_ok (L w) work" and safe: "safe_log (L w)"
    show "work_ok (L w') work' \<and> safe_log (L w') \<and> extends (L w) (L w') \<and> (wi_metadata_committed work \<longrightarrow> wi_metadata_committed work')"
    proof (cases "wi_metadata_committed work")
      case False
      obtain ce w1 where c: "copy_objects cfg (dt_source_address (it_view task)) (wi_target work) (wi_objects work) w = (ce, w1)" by force
      note cl = copy_objects_log[OF c safe]
      show ?thesis
      proof (cases ce)
        case (Some x)
        then show ?thesis using run False c cl work_ok_mono[OF ok] by (auto simp: commit_stage_def)
      next
        case None
        obtain r w2 where r: "call_backend (bk_CommitFileLocation (dc_backend cfg) (dt_migration_id (it_view task)) (wi_inode_id work)
            (dt_source_node_id (it_view task)) (dt_source_address (it_view task)) (wi_source_disk_id work) (wi_target work)) w1 = (r, w2)"
          by force
        have l: "L w2 = (if r = Inr () then Committed (wi_inode_id work) (wi_target work) # L w1 else L w1)"
          using call_backendD[OF r] log_commit by fastforce
        have "justified x (Committed (wi_inode_id work) (wi_target work) # L w1)" if "x \<in> set (wi_objects work)" for x
          using that cl None ok unfolding justified_def work_ok_def by (metis append_Nil)
        then show ?thesis
          using run False c None r l cl ok work_ok_mono[OF ok] extends_trans[OF _ extends_Cons]
          by (cases r) (auto simp: commit_stage_def safe_log_Cons work_ok_def)
      qed
    qed (use run ok safe in \<open>simp add: commit_stage_def\<close>)
  qed
  show "commit_stage cfg task work w = (None, work', w') \<Longrightarrow> wi_metadata_committed work'"
    by (auto simp: commit_stage_def Let_def split: if_splits prod.splits sum.splits option.splits)
qed

lemma delete_objects_log:
  "delete_objects cfg a objects work w = (e, work', w') \<Longrightarrow> safe_log (L w) \<Longrightarrow> \<forall>x \<in> set objects. justified x (L w) \<Longrightarrow>
   safe_log (L w') \<and> extends (L w) (L w') \<and> (\<exists>i. work' = work\<lparr>wi_cleanup_index := i\<rparr>)"
proof (induction objects arbitrary: work w)
  case Nil
  then show ?case by (auto intro: exI[of _ "wi_cleanup_index work"])
next
  case (Cons x objects)
  obtain r w1 where c: "call_backend (bk_DeleteSourceObject (dc_backend cfg) a x) w = (r, w1)" by force
  have l: "L w1 = (if r = Inr () then Deleted x # L w else L w)" using call_backendD[OF c] log_delete by fastforce
  show ?case
  proof (cases r)
    case (Inl m)
    then show ?thesis using Cons.prems c l by (auto intro: exI[of _ "wi_cleanup_index work"])
  next
    case (Inr u)
    then have run: "delete_objects cfg a objects (work\<lparr>wi_cleanup_index := wi_cleanup_index work + 1\<rparr>) w1 = (e, work', w')"
      and "safe_log (L w1)" and ext: "extends (L w) (L w1)" using Cons.prems c l by (simp_all add: safe_log_Cons)
    moreover have "\<forall>x \<in> set objects. justified x (L w1)" using Cons.prems(3) ext by (auto intro: extends_justified)
    ultimately show ?thesis using Cons.IH[OF run] extends_trans by fastforce
  qed
qed

lemma delete_stage_ok: "stage_ok True (delete_stage cfg task)"
  unfolding stage_ok_def delete_stage_def
proof (intro allI impI)
  fix work w e work' w'
  assume run: "delete_objects cfg (dt_source_address (it_view task)) (drop (wi_cleanup_index work) (wi_objects work)) work w = (e, work', w')"
    and ok: "work_ok (L w) work" "safe_log (L w)" "True \<longrightarrow> wi_metadata_committed work"
  have "\<forall>x \<in> set (drop (wi_cleanup_index work) (wi_objects work)). justified x (L w)"
    using ok(1,3) by (auto simp: work_ok_def dest: in_set_dropD)
  from delete_objects_log[OF run ok(2) this]
  show "work_ok (L w') work' \<and> safe_log (L w') \<and> extends (L w) (L w') \<and> (wi_metadata_committed work \<longrightarrow> wi_metadata_committed work')"
    using ok(1) by (auto simp: work_ok_def intro: extends_justified)
qed

lemma cleanup_stage_ok: "stage_ok False (cleanup_stage cfg task)"
  unfolding stage_ok_def cleanup_stage_def
  by (auto split: prod.splits sum.splits dest!: call_backendD log_file)

lemma and_then_ok:
  assumes "stage_ok c f" "stage_ok c' g"
    and "\<And>work w work' w'. f work w = (None, work', w') \<Longrightarrow> (c \<longrightarrow> wi_metadata_committed work) \<Longrightarrow> c' \<Longrightarrow> wi_metadata_committed work'"
  shows "stage_ok c (and_then f g)"
  unfolding stage_ok_def
proof (intro allI impI)
  fix work w e work' w'
  assume run: "and_then f g work w = (e, work', w')" and ok: "work_ok (L w) work" "safe_log (L w)" "c \<longrightarrow> wi_metadata_committed work"
  obtain e1 work1 w1 where f: "f work w = (e1, work1, w1)" by (metis prod_cases3)
  have 1: "work_ok (L w1) work1 \<and> safe_log (L w1) \<and> extends (L w) (L w1) \<and> (wi_metadata_committed work \<longrightarrow> wi_metadata_committed work1)"
    using assms(1) f ok unfolding stage_ok_def by blast
  show "work_ok (L w') work' \<and> safe_log (L w') \<and> extends (L w) (L w') \<and> (wi_metadata_committed work \<longrightarrow> wi_metadata_committed work')"
  proof (cases e1)
    case None
    then have g: "g work1 w1 = (e, work', w')" using run f by (simp add: and_then_def)
    have "c' \<longrightarrow> wi_metadata_committed work1" using assms(3) f None ok(3) by blast
    then have "work_ok (L w') work' \<and> safe_log (L w') \<and> extends (L w1) (L w') \<and> (wi_metadata_committed work1 \<longrightarrow> wi_metadata_committed work')"
      using assms(2) g 1 unfolding stage_ok_def by blast
    then show ?thesis using 1 extends_trans by blast
  qed (use run f 1 in \<open>simp add: and_then_def\<close>)
qed

lemma move_file_ok: "stage_ok False (move_file cfg task t)"
proof -
  have "stage_ok True (and_then (delete_stage cfg task) (cleanup_stage cfg task))"
    by (rule and_then_ok[OF delete_stage_ok cleanup_stage_ok]) simp
  then have "stage_ok False (and_then (commit_stage cfg task) (and_then (delete_stage cfg task) (cleanup_stage cfg task)))"
    by (rule and_then_ok[OF commit_stage_ok(1)]) (rule commit_stage_ok(2))
  then have "stage_ok False (and_then (target_stage cfg task t) (and_then (commit_stage cfg task)
      (and_then (delete_stage cfg task) (cleanup_stage cfg task))))"
    by (rule and_then_ok[OF target_stage_ok]) simp
  then show ?thesis unfolding move_file_def by (rule and_then_ok[OF owner_stage_ok]) simp
qed

lemma RetryLocked_work [simp]: "it_work (RetryLocked cfg' task t e) = it_work task" "it_work (block task t e) = it_work task"
  by (simp_all add: RetryLocked_def block_def Let_def)

lemma retire_verified_log: "retire_verified cfg task t w = (task', w') \<Longrightarrow> L w' = L w \<and> it_work task' = it_work task"
  by (auto simp: retire_verified_def split: sum.splits)

lemma stop_and_retire_log: "stop_and_retire cfg task n t w = (task', w') \<Longrightarrow> L w' = L w \<and> it_work task' = it_work task"
  by (auto simp: stop_and_retire_def Let_def split: prod.splits if_splits option.splits dest!: retire_verified_log)

lemma verify_source_log: "verify_source cfg task n w = (r, w') \<Longrightarrow> L w' = L w"
  by (auto simp: verify_source_def split: if_splits prod.splits sum.splits option.splits
      dest!: call_backendD log_empty log_logical)

lemma CompleteLocked_log: "CompleteLocked cfg task t w = (task', w') \<Longrightarrow> L w' = L w \<and> it_work task' = it_work task"
  by (auto simp: CompleteLocked_def report_and_retire_def split: option.splits prod.splits sum.splits if_splits
      dest!: verify_source_log stop_and_retire_log call_backendD log_cms)

lemma make_work_ok: "task_ok l (enumerated_task task objects t)"
  by (auto simp: task_ok_def work_ok_def enumerated_task_def make_work_def)

lemma EnumerateLocked_ok:
  assumes "EnumerateLocked cfg task t w = (task', w')" "task_ok (L w) task"
  shows "L w' = L w \<and> task_ok (L w) task'"
proof -
  define address where "address = dt_source_address (it_view task)"
  define node_id where "node_id = dt_source_node_id (it_view task)"
  obtain fence w1 where f: "(if prefix model_prefix address then (Inr (), w)
      else call_backend (bk_BeginSourceDrain (dc_backend cfg) node_id address) w) = (fence, w1)" by force
  have l1: "L w1 = L w" using f by (auto split: if_splits dest!: call_backendD log_begin)
  obtain listed w2 where ls: "call_backend (bk_ListObjects (dc_backend cfg) address) w1 = (listed, w2)" by force
  have l2: "L w2 = L w" using call_backendD[OF ls] log_list l1 by fastforce
  have retry: "task_ok l (RetryLocked cfg task t e) = task_ok l task" "task_ok l (block task t e) = task_ok l task" for l e
    by (simp_all add: task_ok_def)
  have keep: "task_ok l a \<Longrightarrow> it_work b = it_work a \<Longrightarrow> task_ok l b" for l a b by (simp add: task_ok_def)
  have prog: "L (drain_progress node_id t x y (w2\<lparr>w_nodes := m\<rparr>)) = L w2" for x y m by (simp add: drain_progress_def)
  show ?thesis
  proof (cases "\<exists>objects. fence = Inr () \<and> listed = Inr objects \<and> (\<exists>parsed. parse_objects objects [] = Inr parsed)")
    case False
    then have "(task', w') \<in> {(RetryLocked cfg task t e, w1) | e. True} \<union> {(RetryLocked cfg task t e, w2) | e. True} \<union>
        {(block task t e, w2) | e. True}"
      using assms(1) unfolding EnumerateLocked_def Let_def address_def[symmetric] node_id_def[symmetric] f
      by (auto simp: ls split: sum.splits)
    then show ?thesis using assms(2) l1 l2 retry by auto
  next
    case True
    then obtain objects parsed where p: "fence = Inr ()" "listed = Inr objects" "parse_objects objects [] = Inr parsed" by auto
    define w4 where "w4 = drain_progress node_id t (of_nat (length parsed)) (object_bytes parsed)
      (w2\<lparr>w_nodes := snd (ignoring (w_nodes w2) (SetResidentDataBytes (w_nodes w2) node_id (object_bytes parsed)))\<rparr>)"
    have "(if it_work (enumerated_task task parsed t) = [] then CompleteLocked cfg (enumerated_task task parsed t) t w4
        else (enumerated_task task parsed t, w4)) = (task', w')"
      using assms(1) unfolding EnumerateLocked_def Let_def address_def[symmetric] node_id_def[symmetric] f
      by (auto simp: p ls w4_def split: if_splits)
    then have "L w' = L w4 \<and> it_work task' = it_work (enumerated_task task parsed t)"
      by (auto split: if_splits dest: CompleteLocked_log)
    then show ?thesis using l2 prog make_work_ok[of "L w" task parsed t] keep unfolding w4_def by metis
  qed
qed

lemma process_files_ok:
  assumes "process_files cfg task t w = (task', w')" "task_ok (L w) task" "safe_log (L w)"
  shows "task_ok (L w') task' \<and> safe_log (L w') \<and> extends (L w) (L w')"
proof (cases "it_next_work task \<ge> length (it_work task)")
  case True
  then have "L w' = L w \<and> it_work task' = it_work task" using assms(1) by (auto simp: process_files_def dest: CompleteLocked_log)
  then show ?thesis using assms by (simp add: task_ok_def)
next
  case False
  obtain e work w1 where mf: "move_file cfg task t (it_work task ! it_next_work task) w = (e, work, w1)" by (metis prod_cases3)
  have "work_ok (L w) (it_work task ! it_next_work task)" using assms(2) False by (simp add: task_ok_def)
  then have ok: "work_ok (L w1) work" "safe_log (L w1)" "extends (L w) (L w1)"
    using move_file_ok[of task t] mf assms(3) unfolding stage_ok_def by blast+
  let ?task1 = "task\<lparr>it_work := (it_work task)[it_next_work task := work]\<rparr>"
  have t1: "task_ok (L w1) ?task1"
    using task_ok_mono[OF assms(2) ok(3)] ok(1) by (auto simp: task_ok_def dest!: set_update_subset_insert[THEN subsetD])
  have fdone: "it_work (file_done ?task1 work t) = it_work ?task1" by (simp add: file_done_def Let_def)
  have prog: "L (drain_progress n t x y w1) = L w1" for n x y by (simp add: drain_progress_def)
  have "L w' = L w1 \<and> it_work task' = it_work ?task1"
    using assms(1) False mf fdone prog
    by (auto simp: process_files_def Let_def split: option.splits if_splits dest!: CompleteLocked_log)
  then show ?thesis using t1 ok(2,3) by (simp add: task_ok_def)
qed

lemma run_advance_log:
  assumes "run_advance cfg hook task t w = (go, task', w')" "hook \<in> {dc_optical_drain_advance cfg, dc_physical_optical_advance cfg}"
  shows "L w' = L w \<and> it_work task' = it_work task"
  using assms(1) log_advance_hook[OF assms(2)]
  by (auto simp: run_advance_def Let_def split: option.splits prod.splits if_splits)

lemma ProcessWorkLocked_ok:
  assumes "ProcessWorkLocked cfg task t w = (task', w')" "task_ok (L w) task" "safe_log (L w)"
  shows "task_ok (L w') task' \<and> safe_log (L w') \<and> extends (L w) (L w')"
proof -
  obtain g1 task1 w1 where 1: "(if optical_in_mode kPhysical task w then run_advance cfg (dc_physical_optical_advance cfg) task t w
      else (True, task, w)) = (g1, task1, w1)" by (metis prod_cases3)
  have s1: "L w1 = L w \<and> it_work task1 = it_work task" using 1 by (auto split: if_splits dest: run_advance_log)
  obtain g2 task2 w2 where 2: "(if optical_in_mode kVirtual task1 w1 \<and> dc_optical_drain_advance cfg \<noteq> None
      then run_advance cfg (dc_optical_drain_advance cfg) task1 t w1 else (True, task1, w1)) = (g2, task2, w2)" by (metis prod_cases3)
  have s2: "L w2 = L w1 \<and> it_work task2 = it_work task1" using 2 by (auto split: if_splits dest: run_advance_log)
  have ok: "task_ok (L w1) task1" "task_ok (L w2) task2" "safe_log (L w2)" using s1 s2 assms(2,3) by (simp_all add: task_ok_def)
  have "ProcessWorkLocked cfg task t w = (if \<not> g1 then (task1, w1) else if \<not> g2 then (task2, w2) else process_files cfg task2 t w2)"
    unfolding ProcessWorkLocked_def 1
    by (cases g1; cases g2) (simp_all only: 2 prod.case bool.case if_True if_False not_True_eq_False not_False_eq_True)
  then show ?thesis
    using assms(1) process_files_ok[of task2 t w2 task' w'] ok s1 s2 assms(3) by (auto split: if_splits)
qed

lemma tick_task_ok:
  assumes "tick_task cfg t task w = (task', w')" "task_ok (L w) task" "safe_log (L w)"
  shows "task_ok (L w') task' \<and> safe_log (L w') \<and> extends (L w) (L w')"
proof (cases "task_idle t task")
  case False
  obtain task1 w1 where r: "(if \<not> it_enumerated task then EnumerateLocked cfg task t w else ProcessWorkLocked cfg task t w) = (task1, w1)"
    by force
  have "task_ok (L w1) task1 \<and> safe_log (L w1) \<and> extends (L w) (L w1)"
    using r assms(2,3) EnumerateLocked_ok[of task t w task1 w1] ProcessWorkLocked_ok[of task t w task1 w1] by (auto split: if_splits)
  moreover have "w' = w1" "it_work task' = it_work task1" using assms(1) False r by (auto simp: tick_task_def)
  ultimately show ?thesis by (simp add: task_ok_def)
qed (use assms in \<open>simp add: tick_task_def\<close>)

lemma tick_tasks_ok:
  "tick_tasks cfg t tasks w = (tasks', w') \<Longrightarrow> \<forall>(k, task) \<in> set tasks. task_ok (L w) task \<Longrightarrow> safe_log (L w) \<Longrightarrow>
   (\<forall>(k, task) \<in> set tasks'. task_ok (L w') task) \<and> safe_log (L w') \<and> extends (L w) (L w')"
proof (induction tasks arbitrary: w w' tasks')
  case (Cons p tasks)
  obtain k task where p: "p = (k, task)" by force
  obtain task1 w1 where 1: "tick_task cfg t task w = (task1, w1)" by force
  obtain tasks1 w2 where 2: "tick_tasks cfg t tasks w1 = (tasks1, w2)" by force
  have ok: "task_ok (L w1) task1" "safe_log (L w1)" "extends (L w) (L w1)"
    using tick_task_ok[OF 1] Cons.prems by (auto simp: p)
  have "\<forall>(k, task) \<in> set tasks. task_ok (L w1) task" using Cons.prems(2) ok(3) by (auto intro: task_ok_mono)
  from Cons.IH[OF 2 this ok(2)] show ?case
    using Cons.prems(1) ok(1) 1 2 extends_trans[OF ok(3)] by (auto simp: p intro: task_ok_mono)
qed simp

end

section \<open>Sequences of calls\<close>

text \<open>The coordinator between other activity: drains are begun and started, tasks are ticked, and everything
  outside the coordinator may change at any time, except that nobody else writes the log.\<close>

inductive drain_step ::
  "'w drain_config \<Rightarrow> ('w \<Rightarrow> drain_event list) \<Rightarrow> DrainMigrationCoordinator \<times> 'w world \<Rightarrow>
   DrainMigrationCoordinator \<times> 'w world \<Rightarrow> bool" for cfg trace where
  drain_begin: "BeginManagedDrain cfg node_id t w = (r, w') \<Longrightarrow> drain_step cfg trace (dm, w) (dm, w')"
| drain_start: "Start cfg node_id t w dm = Inr dm' \<Longrightarrow> drain_step cfg trace (dm, w) (dm', w)"
| drain_tick: "Drain_Tick cfg t dm w = (dm', w') \<Longrightarrow> drain_step cfg trace (dm, w) (dm', w')"
| drain_outside: "trace (w_outside w') = trace (w_outside w) \<Longrightarrow> drain_step cfg trace (dm, w) (dm, w')"

context drain_log
begin

lemma BeginManagedDrain_log: "BeginManagedDrain cfg node_id t w = (r, w') \<Longrightarrow> L w' = L w"
proof -
  have hook: "L w' = L w" if "run_begin miss h node_id t w = (r, w')"
    "h \<in> {dc_logical_empty_drain_begin cfg, dc_optical_drain_begin cfg, dc_physical_optical_begin cfg}" for miss h
    using that log_begin_hook[OF that(2)] by (auto simp: run_begin_def split: option.splits prod.splits sum.splits)
  have remove: "L w' = L w1" if "begin_remove node_id t w1 = (r, w')" for w1
    using that by (auto simp: begin_remove_def split: sum.splits)
  show "BeginManagedDrain cfg node_id t w = (r, w') \<Longrightarrow> L w' = L w"
    by (auto simp: BeginManagedDrain_def Let_def split: sum.splits option.splits if_splits prod.splits
        dest: hook remove dest!: call_backendD log_begin)
qed

lemma started_task_ok: "task_ok l (started_task m n k t i)"
  by (simp add: started_task_def task_ok_def Let_def)

lemma Start_ok:
  assumes "Start cfg node_id t w dm = Inr dm'" "\<forall>(k, task) \<in> set (dm_tasks dm). task_ok l task"
  shows "\<forall>(k, task) \<in> set (dm_tasks dm'). task_ok l task"
proof -
  have upd: "set (AList.update k v xs) \<subseteq> insert (k, v) (set xs)" for k :: string and v :: InternalTask and xs
    by (induction xs) auto
  from assms(1) have "dm' = dm \<or> (\<exists>n i. dm_tasks dm' = AList.update node_id (started_task (w_nodes w) n node_id t i) (dm_tasks dm))"
    unfolding Start_def by (auto split: sum.splits option.splits if_splits prod.splits) blast+
  then show ?thesis using assms(2) upd started_task_ok by fastforce
qed

definition drain_ok :: "DrainMigrationCoordinator \<times> 'w world \<Rightarrow> bool" where
  "drain_ok = (\<lambda>(dm, w). safe_log (L w) \<and> (\<forall>(k, task) \<in> set (dm_tasks dm). task_ok (L w) task))"

lemma drain_step_ok: "drain_step cfg trace s s' \<Longrightarrow> drain_ok s \<Longrightarrow> drain_ok s'"
proof (induction rule: drain_step.induct)
  case (drain_begin node_id t w r w' dm)
  then show ?case using BeginManagedDrain_log[OF drain_begin.hyps] by (simp add: drain_ok_def)
next
  case (drain_start node_id t w dm dm')
  then show ?case using Start_ok[OF drain_start.hyps] by (simp add: drain_ok_def)
next
  case (drain_tick t dm w dm' w')
  obtain tasks where tasks: "tick_tasks cfg t (dm_tasks dm) w = (tasks, w')" "dm_tasks dm' = tasks"
    using drain_tick.hyps by (auto simp: Drain_Tick_def split: prod.splits)
  show ?case using tick_tasks_ok[OF tasks(1)] drain_tick.prems tasks(2) by (simp add: drain_ok_def)
next
  case (drain_outside w' w dm)
  then show ?case by (simp add: drain_ok_def)
qed

lemma drain_steps_ok: "(drain_step cfg trace)\<^sup>*\<^sup>* s s' \<Longrightarrow> drain_ok s \<Longrightarrow> drain_ok s'"
  by (induction rule: rtranclp_induct) (auto intro: drain_step_ok)

end

section \<open>Every backend can be observed\<close>

definition observed :: "('w, 'a) backend_call \<Rightarrow> ('a \<Rightarrow> drain_event list) \<Rightarrow> ('w \<times> drain_event list, 'a) backend_call" where
  "observed f events = (\<lambda>(x, l). case f x of (r, y) \<Rightarrow> (r, y, (case r of Inl e \<Rightarrow> [] | Inr v \<Rightarrow> events v) @ l))"

definition logged_backend :: "'w ObjectMigrationBackend \<Rightarrow> ('w \<times> drain_event list) ObjectMigrationBackend" where
  "logged_backend b =
     \<lparr>bk_BeginSourceDrain = (\<lambda>n a. observed (bk_BeginSourceDrain b n a) (\<lambda>_. [])),
      bk_CleanupSourceFile = (\<lambda>a i d. observed (bk_CleanupSourceFile b a i d) (\<lambda>_. [])),
      bk_SourceStillOwnsFile = (\<lambda>n d i. observed (bk_SourceStillOwnsFile b n d i) (\<lambda>owns. if owns then [] else [NotOwned i])),
      bk_ListObjects = (\<lambda>a. observed (bk_ListObjects b a) (\<lambda>_. [])),
      bk_CopyAndVerify = (\<lambda>a x t. observed (bk_CopyAndVerify b a x t) (\<lambda>_. [Copied x t])),
      bk_CommitFileLocation = (\<lambda>g i n a d t. observed (bk_CommitFileLocation b g i n a d t) (\<lambda>_. [Committed i t])),
      bk_DeleteSourceObject = (\<lambda>a x. observed (bk_DeleteSourceObject b a x) (\<lambda>_. [Deleted x])),
      bk_VerifySourceEmpty = (\<lambda>a. observed (bk_VerifySourceEmpty b a) (\<lambda>_. [])),
      bk_VerifyCmsNodeReferencesZero = (\<lambda>n. observed (bk_VerifyCmsNodeReferencesZero b n) (\<lambda>_. []))\<rparr>"

definition hide_log :: "('w \<times> drain_event list) world \<Rightarrow> 'w world" where
  "hide_log w = \<lparr>w_outside = fst (w_outside w), w_nodes = w_nodes w, w_cluster = w_cluster w\<rparr>"

definition with_log :: "drain_event list \<Rightarrow> 'w world \<Rightarrow> ('w \<times> drain_event list) world" where
  "with_log l w = \<lparr>w_outside = (w_outside w, l), w_nodes = w_nodes w, w_cluster = w_cluster w\<rparr>"

definition logged_begin ::
  "(string \<Rightarrow> u64 \<Rightarrow> 'w world \<Rightarrow> (string + unit) \<times> 'w world) \<Rightarrow>
   string \<Rightarrow> u64 \<Rightarrow> ('w \<times> drain_event list) world \<Rightarrow> (string + unit) \<times> ('w \<times> drain_event list) world" where
  "logged_begin f n t w = (case f n t (hide_log w) of (r, w1) \<Rightarrow> (r, with_log (snd (w_outside w)) w1))"

definition logged_advance ::
  "(DrainMigrationTask \<Rightarrow> u64 \<Rightarrow> 'w world \<Rightarrow> (bool \<times> string) \<times> DrainMigrationTask \<times> 'w world) \<Rightarrow>
   DrainMigrationTask \<Rightarrow> u64 \<Rightarrow> ('w \<times> drain_event list) world \<Rightarrow>
   (bool \<times> string) \<times> DrainMigrationTask \<times> ('w \<times> drain_event list) world" where
  "logged_advance f v t w = (case f v t (hide_log w) of (r, v1, w1) \<Rightarrow> (r, v1, with_log (snd (w_outside w)) w1))"

definition logged_config :: "'w drain_config \<Rightarrow> ('w \<times> drain_event list) drain_config" where
  "logged_config cfg =
     \<lparr>dc_env = dc_env cfg, dc_backend = logged_backend (dc_backend cfg), dc_actuator = dc_actuator cfg, dc_clock = dc_clock cfg,
      dc_logical_source_empty = map_option (\<lambda>f n. observed (f n) (\<lambda>_. [])) (dc_logical_source_empty cfg),
      dc_logical_empty_drain_begin = map_option logged_begin (dc_logical_empty_drain_begin cfg),
      dc_optical_drain_begin = map_option logged_begin (dc_optical_drain_begin cfg),
      dc_optical_drain_advance = map_option logged_advance (dc_optical_drain_advance cfg),
      dc_physical_optical_begin = map_option logged_begin (dc_physical_optical_begin cfg),
      dc_physical_optical_advance = map_option logged_advance (dc_physical_optical_advance cfg),
      dc_retry_base_ms = dc_retry_base_ms cfg, dc_max_retries = dc_max_retries cfg\<rparr>"

lemma observed_log: "observed f events x = (r, y) \<Longrightarrow> snd y = (case r of Inl e \<Rightarrow> [] | Inr v \<Rightarrow> events v) @ snd x"
  by (auto simp: observed_def split: prod.splits)

lemma logged_hooks:
  "logged_begin f n t w = (r, w') \<Longrightarrow> snd (w_outside w') = snd (w_outside w)"
  "logged_advance g v t w = (q, v', w') \<Longrightarrow> snd (w_outside w') = snd (w_outside w)"
  by (auto simp: logged_begin_def logged_advance_def with_log_def split: prod.splits)

interpretation logged: drain_log "logged_config cfg" snd for cfg :: "'w drain_config"
proof unfold_locales
  fix h :: "(string \<Rightarrow> u64 \<Rightarrow> ('w \<times> drain_event list) world \<Rightarrow> (string + unit) \<times> ('w \<times> drain_event list) world) option"
    and fb n now w r w'
  assume "h \<in> {dc_logical_empty_drain_begin (logged_config cfg), dc_optical_drain_begin (logged_config cfg),
      dc_physical_optical_begin (logged_config cfg)}" "h = Some fb" "fb n now w = (r, w')"
  then show "snd (w_outside w') = snd (w_outside w)" by (auto simp: logged_config_def eq_commute[of "Some _"] dest: logged_hooks(1))
next
  fix k :: "(DrainMigrationTask \<Rightarrow> u64 \<Rightarrow> ('w \<times> drain_event list) world \<Rightarrow>
      (bool \<times> string) \<times> DrainMigrationTask \<times> ('w \<times> drain_event list) world) option" and fa v now w q v' w'
  assume "k \<in> {dc_optical_drain_advance (logged_config cfg), dc_physical_optical_advance (logged_config cfg)}"
    "k = Some fa" "fa v now w = (q, v', w')"
  then show "snd (w_outside w') = snd (w_outside w)" by (auto simp: logged_config_def eq_commute[of "Some _"] dest: logged_hooks(2))
qed (auto simp: logged_config_def logged_backend_def dest!: observed_log split: sum.splits if_splits)



definition sample_object :: MigrationObject where
  "sample_object = \<lparr>mo_disk_id = ''d'', mo_object_id = ''obj-7-0'', mo_inode_id = 7, mo_object_index = 0, mo_size_bytes = 5\<rparr>"

text \<open>A backend with one object that belongs to no file any more.\<close>

definition sample_backend :: "unit ObjectMigrationBackend" where
  "sample_backend = \<lparr>bk_BeginSourceDrain = (\<lambda>_ _ w. (Inr (), w)), bk_CleanupSourceFile = (\<lambda>_ _ _ w. (Inr (), w)),
     bk_SourceStillOwnsFile = (\<lambda>_ _ _ w. (Inr False, w)), bk_ListObjects = (\<lambda>_ w. (Inr [sample_object], w)),
     bk_CopyAndVerify = (\<lambda>_ _ _ w. (Inr (), w)), bk_CommitFileLocation = (\<lambda>_ _ _ _ _ _ w. (Inr (), w)),
     bk_DeleteSourceObject = (\<lambda>_ _ w. (Inr (), w)), bk_VerifySourceEmpty = (\<lambda>_ w. (Inr (), w)),
     bk_VerifyCmsNodeReferencesZero = (\<lambda>_ w. (Inr (), w))\<rparr>"

definition sample_drain :: "unit drain_config" where
  "sample_drain = \<lparr>dc_env = sample_env, dc_backend = sample_backend, dc_actuator = None, dc_clock = (\<lambda>_. 7),
     dc_logical_source_empty = None, dc_logical_empty_drain_begin = None, dc_optical_drain_begin = None,
     dc_optical_drain_advance = None, dc_physical_optical_begin = None, dc_physical_optical_advance = None,
     dc_retry_base_ms = 1, dc_max_retries = 8\<rparr>"

definition sample_world :: "NodePowerManager \<Rightarrow> drain_event list \<Rightarrow> (unit \<times> drain_event list) world" where
  "sample_world m l = \<lparr>w_outside = ((), l), w_nodes = m, w_cluster = sample_cluster\<rparr>"

definition sample_source :: NodePowerManager where
  "sample_source = sample_m1\<lparr>pm_nodes := [(''n1'', sample_node\<lparr>n_identity := (n_identity sample_node)\<lparr>ni_service_address := ''a:1''\<rparr>\<rparr>)]\<rparr>"

lemma sample_mode: "hp_kind (n_profile sample_node) = kStorage" "hp_execution_mode (n_profile sample_node) = kPhysical"
  by (simp_all add: sample_node_profile DefaultStorageNodeProfile_def default_profile_def)

lemma sample_start:
  "\<exists>task. Start (logged_config sample_drain) ''n1'' 5 (sample_world sample_source []) new_coordinator =
     Inr \<lparr>dm_next_id = 2, dm_tasks = [(''n1'', task)]\<rparr> \<and> \<not> it_enumerated task \<and> dt_state (it_view task) = kDrainPending \<and>
     it_next_work task = 0 \<and> dt_source_address (it_view task) = ''a:1'' \<and> dt_source_node_id (it_view task) = ''n1''"
proof -
  let ?w = "sample_world sample_source []"
  obtain n where n: "GetNode (w_nodes ?w) ''n1'' = Some n" "hp_kind (n_profile n) = kStorage" "hp_execution_mode (n_profile n) = kPhysical"
    "ni_service_address (n_identity n) = ''a:1''"
    by (simp add: sample_world_def sample_source_def GetNode_def sample_mode)
  obtain st where st: "Cluster_GetNode (w_nodes ?w) ''n1'' = Some st" "ns_address st = ''a:1''"
    using n by (simp add: Cluster_GetNode_def BuildNodeState_def)
  have "CanStart (logged_config sample_drain) ?w ''n1'' = Inr ()" using n st by (simp add: CanStart_def)
  then have "Start (logged_config sample_drain) ''n1'' 5 ?w new_coordinator =
      Inr \<lparr>dm_next_id = 2, dm_tasks = [(''n1'', started_task (w_nodes ?w) n ''n1'' 5 1)]\<rparr>"
    using n(1) by (simp add: Start_def new_coordinator_def)
  moreover have "\<not> it_enumerated task \<and> dt_state (it_view task) = kDrainPending \<and> it_next_work task = 0 \<and>
      dt_source_address (it_view task) = ''a:1'' \<and> dt_source_node_id (it_view task) = ''n1''"
    if "task = started_task (w_nodes ?w) n ''n1'' 5 1" for task
    using n(2,3) st by (simp add: that started_task_def Let_def)
  ultimately show ?thesis by blast
qed

lemma sample_id: "ParseStableObjectId ''obj-7-0'' = Some (7, 0)"
proof -
  have "digit_val CHR ''7'' = 7" "digit_val CHR ''0'' = 0" "is_digit CHR ''7''" "is_digit CHR ''0''" by code_simp+
  then show ?thesis by (simp add: ParseStableObjectId_def from_chars_def dec_val_def)
qed

lemma sample_tick1:
  assumes "\<not> it_enumerated task" "dt_state (it_view task) = kDrainPending" "it_next_work task = 0"
    "dt_source_address (it_view task) = ''a:1''"
  shows "\<exists>task1 w1. Drain_Tick (logged_config sample_drain) 6 \<lparr>dm_next_id = 2, dm_tasks = [(''n1'', task)]\<rparr> (sample_world m []) =
     (\<lparr>dm_next_id = 2, dm_tasks = [(''n1'', task1)]\<rparr>, w1) \<and> snd (w_outside w1) = [] \<and> it_work task1 = make_work [sample_object] \<and>
     it_enumerated task1 \<and> dt_state (it_view task1) = kDrainRunning \<and> it_next_work task1 = 0"
  using assms
  by (simp add: Drain_Tick_def tick_task_def task_idle_def EnumerateLocked_def logged_config_def logged_backend_def sample_drain_def
      sample_backend_def observed_def call_backend_def sample_world_def model_prefix_def Let_def sample_id
      sample_object_def make_work_def group_keys_def enumerated_task_def drain_progress_def)


lemma sample_tick2:
  assumes "it_enumerated task" "dt_state (it_view task) = kDrainRunning" "it_next_work task = 0"
    "it_work task = make_work [sample_object]"
  shows "\<exists>dm w1. Drain_Tick (logged_config sample_drain) 6 \<lparr>dm_next_id = 2, dm_tasks = [(''n1'', task)]\<rparr>
      (sample_world (sample_m1\<lparr>pm_nodes := []\<rparr>) []) = (dm, w1) \<and> snd (w_outside w1) = [Deleted sample_object, NotOwned 7]"
  using assms
  by (simp add: Drain_Tick_def tick_task_def task_idle_def ProcessWorkLocked_def optical_in_mode_def GetNode_def process_files_def
      logged_config_def logged_backend_def sample_drain_def make_work_def group_keys_def move_file_def and_then_def owner_stage_def
      target_stage_def commit_stage_def delete_stage_def cleanup_stage_def
      sample_backend_def observed_def call_backend_def sample_world_def Let_def sample_object_def file_done_def CompleteLocked_def)

lemma sample_drained:
  "\<exists>dm w. (drain_step (logged_config sample_drain) snd)\<^sup>*\<^sup>* (new_coordinator, sample_world sample_source []) (dm, w) \<and>
     snd (w_outside w) = [Deleted sample_object, NotOwned 7]"
proof -
  let ?R = "drain_step (logged_config sample_drain) snd"
  let ?dm = "\<lambda>task. \<lparr>dm_next_id = 2, dm_tasks = [(''n1'', task)]\<rparr>" and ?w = "sample_world (sample_m1\<lparr>pm_nodes := []\<rparr>) []"
  obtain task where task: "Start (logged_config sample_drain) ''n1'' 5 (sample_world sample_source []) new_coordinator = Inr (?dm task)"
    "\<not> it_enumerated task" "dt_state (it_view task) = kDrainPending" "it_next_work task = 0" "dt_source_address (it_view task) = ''a:1''"
    using sample_start by blast
  obtain task1 w1 where t1: "Drain_Tick (logged_config sample_drain) 6 (?dm task) (sample_world sample_source []) = (?dm task1, w1)"
    "snd (w_outside w1) = []" "it_work task1 = make_work [sample_object]" "it_enumerated task1"
    "dt_state (it_view task1) = kDrainRunning" "it_next_work task1 = 0"
    using sample_tick1[OF task(2-5)] by blast
  obtain dm w2 where t2: "Drain_Tick (logged_config sample_drain) 6 (?dm task1) ?w = (dm, w2)"
    "snd (w_outside w2) = [Deleted sample_object, NotOwned 7]"
    using sample_tick2[OF t1(4,5,6,3)] by blast
  have "snd (w_outside ?w) = snd (w_outside w1)" using t1(2) by (simp add: sample_world_def)
  then have "?R\<^sup>*\<^sup>* (new_coordinator, sample_world sample_source []) (dm, w2)"
    using drain_start[OF task(1)] drain_tick[OF t1(1)] drain_outside drain_tick[OF t2(1)]
    by (meson rtranclp.rtrancl_into_rtrancl rtranclp.rtrancl_refl)
  with t2(2) show ?thesis by blast
qed


section \<open>A completed drain\<close>

definition drain_finished :: "InternalTask \<Rightarrow> InternalTask \<times> 'w world \<Rightarrow> bool" where
  "drain_finished task = (\<lambda>(task', w'). dt_state (it_view task') = kDrainCompleted \<longrightarrow>
     dt_remaining_objects (it_view task') = 0 \<and> dt_remaining_bytes (it_view task') = 0 \<and> it_work task' = it_work task \<and>
     it_next_work task' = it_next_work task \<and> it_enumerated task' = it_enumerated task \<and>
     (\<exists>n. map_of (pm_nodes (w_nodes w')) (dt_source_node_id (it_view task')) = Some n \<and> n_lifecycle n = kRetired \<and>
        n_administrative_state n = kDisabled \<and> n_actuated_power_level n = kOff))"

lemma retry_not_completed [simp]: "dt_state (it_view (RetryLocked cfg task t e)) \<noteq> kDrainCompleted"
  by (simp add: RetryLocked_def Let_def)

lemma block_not_completed [simp]: "dt_state (it_view (block task t e)) \<noteq> kDrainCompleted"
  by (simp add: block_def)

lemma retired_node:
  assumes "FinalizeRemoveNode m k t force = Inr m'"
  shows "\<exists>n. map_of (pm_nodes m') k = Some n \<and> n_lifecycle n = kRetired \<and> n_administrative_state n = kDisabled \<and>
    n_actuated_power_level n = kOff"
proof -
  obtain n where n: "map_of (pm_nodes m) k = Some n"
    using assms by (auto simp: FinalizeRemoveNode_def with_node_def split: option.splits)
  show ?thesis using assms unfolding FinalizeRemoveNode_def Let_def
    by (rule with_node_found[OF _ n]) (auto simp: if_Inl_iff SetPowerLevelLocked_level(2))
qed

lemma finished_retire: "drain_finished task (retire_verified cfg task t w)"
  by (auto simp: drain_finished_def retire_verified_def split: sum.splits dest: retired_node)

lemma finished_not_yet [simp]: "drain_finished task (RetryLocked cfg task1 t e, w)" "drain_finished task (block task1 t e, w)"
  by (simp_all add: drain_finished_def)

lemma finished_stop: "drain_finished task (stop_and_retire cfg task n t w)"
  unfolding stop_and_retire_def Let_def by (auto intro: finished_retire split: prod.splits option.splits)

lemma finished_report: "drain_finished task (report_and_retire cfg task n t w)"
  unfolding report_and_retire_def by (simp add: finished_stop split: sum.split)

lemma finished_complete: "drain_finished task (CompleteLocked cfg task t w)"
  unfolding CompleteLocked_def by (simp add: finished_report split: option.split sum.split prod.split)

lemma finished_enumerate:
  assumes "EnumerateLocked cfg task t w = (task', w')" "dt_state (it_view task') = kDrainCompleted"
  shows "it_enumerated task' \<and> length (it_work task') \<le> it_next_work task' \<and> drain_finished task' (task', w')"
proof -
  have c: "it_enumerated task' \<and> it_work task' = [] \<and> drain_finished task' (task', w')"
    if "it_work x = []" "it_enumerated x" "CompleteLocked cfg x t w1 = (task', w')" for x w1
    using finished_complete[of x cfg t w1] that assms(2) by (simp add: drain_finished_def)
  have running: "dt_state (it_view (enumerated_task task objects t)) = kDrainRunning" "it_enumerated (enumerated_task task objects t)" for objects
    by (simp_all add: enumerated_task_def)
  show ?thesis using assms c running unfolding EnumerateLocked_def Let_def
    by (auto split: prod.splits sum.splits if_splits)
qed

lemma finished_process:
  assumes "process_files cfg task t w = (task', w')" "dt_state (it_view task') = kDrainCompleted"
  shows "length (it_work task') \<le> it_next_work task' \<and> it_enumerated task' = it_enumerated task \<and> drain_finished task' (task', w')"
proof -
  have c: "length (it_work task') \<le> it_next_work task' \<and> it_enumerated task' = it_enumerated x \<and> drain_finished task' (task', w')"
    if "length (it_work x) \<le> it_next_work x" "CompleteLocked cfg x t w1 = (task', w')" for x w1
    using finished_complete[of x cfg t w1] that assms(2) by (simp add: drain_finished_def)
  have running: "dt_state (it_view (file_done x work t)) = kDrainRunning" "it_enumerated (file_done x work t) = it_enumerated x" for x work
    by (simp_all add: file_done_def Let_def)
  show ?thesis using assms c running unfolding process_files_def Let_def
    by (auto split: prod.splits option.splits if_splits)
qed

lemma run_advance_stops:
  "run_advance cfg hook task t w = (False, task', w') \<Longrightarrow> dt_state (it_view task') \<noteq> kDrainCompleted"
  by (auto simp: run_advance_def Let_def split: option.splits prod.splits if_splits)

lemma run_advance_enumerated: "run_advance cfg hook task t w = (ok, task', w') \<Longrightarrow> it_enumerated task' = it_enumerated task"
  by (auto simp: run_advance_def Let_def RetryLocked_def split: option.splits prod.splits if_splits)


text \<open>The drain of a simulated node, which has nothing to copy and no process to stop.\<close>

definition sample_draining :: NodePowerManager where
  "sample_draining = sample_m1\<lparr>pm_nodes := [(''n1'', sample_node\<lparr>n_lifecycle := kDraining,
     n_profile := (n_profile sample_node)\<lparr>hp_execution_mode := kSimulated\<rparr>\<rparr>)]\<rparr>"

definition sample_task :: InternalTask where
  "sample_task = \<lparr>it_view = empty_task\<lparr>dt_source_node_id := ''n1'', dt_state := kDrainRunning\<rparr>, it_published = empty_task,
     it_work = [], it_next_work = 0, it_enumerated = True\<rparr>"

definition sample_drain_world :: "unit world" where
  "sample_drain_world = \<lparr>w_outside = (), w_nodes = sample_draining, w_cluster = sample_cluster\<rparr>"

lemma sample_retired:
  assumes "map_of (pm_nodes m) ''n1'' = Some n" "n_lifecycle n = kExiting" "n_resident_data_bytes n = 0"
    "hp_execution_mode (n_profile n) = kSimulated" "hp_kind (n_profile n) = kStorage"
  shows "\<exists>m'. FinalizeRemoveNode m ''n1'' t False = Inr m'"
  using assms by (simp add: FinalizeRemoveNode_def with_node_def)

lemma sample_progress:
  "\<exists>m n. ReportDrainProgress sample_draining ''n1'' 2000 0 0 0 = Inr m \<and> map_of (pm_nodes m) ''n1'' = Some n \<and>
     n_lifecycle n = kExiting \<and> n_resident_data_bytes n = 0 \<and> hp_execution_mode (n_profile n) = kSimulated \<and>
     hp_kind (n_profile n) = kStorage"
  by (simp add: ReportDrainProgress_def with_node_def sample_draining_def sample_mode Let_def sample_node_def registered_node_def
      default_node_def update_conv DefaultStorageNodeProfile_def)

lemma sample_completed:
  "\<exists>task' w'. tick_task sample_drain 2000 sample_task sample_drain_world = (task', w') \<and> dt_state (it_view task') = kDrainCompleted"
proof -
  obtain m n where p: "ReportDrainProgress sample_draining ''n1'' 2000 0 0 0 = Inr m" "map_of (pm_nodes m) ''n1'' = Some n"
     "n_lifecycle n = kExiting" "n_resident_data_bytes n = 0" "hp_execution_mode (n_profile n) = kSimulated"
     "hp_kind (n_profile n) = kStorage"
    using sample_progress by blast
  obtain m' where "FinalizeRemoveNode m ''n1'' 2000 False = Inr m'" using sample_retired[OF p(2-6)] by blast
  moreover obtain r where "GetNode sample_draining ''n1'' = Some r" "hp_execution_mode (n_profile r) = kSimulated"
      "hp_kind (n_profile r) = kStorage"
    by (simp add: GetNode_def sample_draining_def sample_mode)
  ultimately show ?thesis using p(1)
    by (simp add: tick_task_def task_idle_def sample_task_def ProcessWorkLocked_def optical_in_mode_def process_files_def
        CompleteLocked_def verify_source_def sample_drain_world_def call_backend_def sample_drain_def sample_backend_def
        report_and_retire_def stop_and_retire_def needs_stop_def retire_verified_def)
qed


end
