(* ===== verification/Optical_Model.thy ===== *)
theory Optical_Model
  imports Node_Model "HOL-Library.AList"
begin

text \<open>
  Optical libraries as the storage model sees them: \<open>src/src/storage_model/Identifiers.h\<close>,
  \<open>OpticalModel.h\<close> and the optical part of \<open>StorageModel.cpp\<close>.  A library has slots, discs, drives and arms; the
  index between discs and slots is a pair of ordered maps, here association lists with ascending keys.
  Shown here: the index stays one-to-one and its compact form, ranges of consecutive discs in consecutive
  slots, loses nothing and is as short as possible; an inventory is accepted exactly when its discs and its
  occupied slots agree; the regions of an accepted image are disjoint unless an end offset wraps.
\<close>

section \<open>Identifiers\<close>

abbreviation kMaxOpticalLibraryId :: u32 where "kMaxOpticalLibraryId \<equiv> 0x00ffffff"
abbreviation kMaxOpticalImageId :: u64 where "kMaxOpticalImageId \<equiv> 0x000000ffffffffff"
abbreviation kNoOpticalDisc :: u32 where "kNoOpticalDisc \<equiv> 0"
abbreviation kDesignOpticalDiscCapacityBytes :: u64 where "kDesignOpticalDiscCapacityBytes \<equiv> 1000000000000"
abbreviation kDesignImagesPerDisc :: u32 where "kDesignImagesPerDisc \<equiv> 100"
abbreviation kDesignSlotsPerLibrary :: u32 where "kDesignSlotsPerLibrary \<equiv> 10000"

record FileId =
  fid_user_id :: u16
  fid_namespace_id :: u16
  fid_directory_path_hash :: bytes
  fid_file_name_hash :: bytes

definition IsValidOpticalLibraryId :: "u32 \<Rightarrow> bool" where
  "IsValidOpticalLibraryId i \<longleftrightarrow> i > 0 \<and> i \<le> kMaxOpticalLibraryId"

definition IsValidOpticalImageId :: "u64 \<Rightarrow> bool" where
  "IsValidOpticalImageId i \<longleftrightarrow> i > 0 \<and> i \<le> kMaxOpticalImageId"

definition IsZeroFileId :: "FileId \<Rightarrow> bool" where
  "IsZeroFileId i \<longleftrightarrow> fid_user_id i = 0 \<and> fid_namespace_id i = 0 \<and>
     list_all (\<lambda>x. x = 0) (fid_directory_path_hash i) \<and> list_all (\<lambda>x. x = 0) (fid_file_name_hash i)"

text \<open>Hexadecimal output of a fixed width, padded with zeros; the values below fit their width.\<close>

definition hex_char :: "nat \<Rightarrow> char" where
  "hex_char n = (if n < 10 then char_of (48 + n) else char_of (87 + n))"

fun hex_digits :: "nat \<Rightarrow> nat \<Rightarrow> string" where
  "hex_digits 0 n = []"
| "hex_digits (Suc width) n = hex_digits width (n div 16) @ [hex_char (n mod 16)]"

definition FileIdHex :: "FileId \<Rightarrow> string" where
  "FileIdHex i = hex_digits 4 (unat (fid_user_id i)) @ hex_digits 4 (unat (fid_namespace_id i)) @
     concat (map (\<lambda>x. hex_digits 2 (unat x)) (fid_directory_path_hash i)) @
     concat (map (\<lambda>x. hex_digits 2 (unat x)) (fid_file_name_hash i))"

section \<open>Optical libraries\<close>

datatype OpticalLibraryState = kLibraryActive | kLibraryReadOnly | kLibraryRetired
datatype DiscState = kBlank | kRecording | kRecorded | kDefective
datatype OpticalDriveType = kWriterOnly | kReaderOnly | kReadWriteDrive
datatype ResourceState = kIdle | kReserved | kBusy | kResourceFailed | kRemoved
datatype OpticalImageState = kBuilding | kSealedPendingBurn | kBurning | kImageRecorded | kVerified | kImageDefective
datatype ErasureCodeRole = kData | kParity

record DiscSlot =
  sl_slot_index :: u16
  sl_disc_id :: u32

record DiscSlotSegment =
  seg_id_start :: u32
  seg_id_end :: u32
  seg_slot_start :: u16
  seg_slot_end :: u16

record OpticalDisc =
  od_disc_id :: u32
  od_library_id :: u32
  od_slot_index :: u16
  od_state :: DiscState
  od_capacity_bytes :: u64
  od_used_bytes :: u64
  od_image_count :: u32
  od_read_bandwidth :: u64
  od_write_bandwidth :: u64
  od_manufacture_time_ms :: u64
  od_recorded_time_ms :: u64
  od_last_scan_time_ms :: u64
  od_corrected_error_count :: u64
  od_uncorrectable_error_count :: u64

record OpticalDrive =
  drv_drive_id :: string
  drv_type :: OpticalDriveType
  drv_state :: ResourceState
  drv_loaded_disc_id :: u32
  drv_current_task_id :: string
  drv_read_bandwidth :: u64
  drv_write_bandwidth :: u64
  drv_available_at_ms :: u64
  drv_failure_reason :: string

record MechanicalArm =
  ma_id :: string
  ma_state :: ResourceState
  ma_current_slot :: u16
  ma_target_drive_id :: string
  ma_carrying_disc_id :: u32
  ma_current_task_id :: string
  ma_available_at_ms :: u64
  ma_failure_reason :: string

record OpticalLibraryInventory =
  lib_library_id :: u32
  lib_node_id :: string
  lib_state :: OpticalLibraryState
  lib_observed_at_ms :: u64
  lib_slots :: "DiscSlot list"
  lib_discs :: "OpticalDisc list"
  lib_drives :: "OpticalDrive list"
  lib_arms :: "MechanicalArm list"
  lib_cache_devices :: "DeviceInventory list"
  lib_namespace_generation :: u64
  lib_namespace_bytes :: u64
  lib_staging_bytes :: u64

record ImageSuperblock =
  sb_magic :: u32
  sb_format_version :: u16
  sb_image_id :: u64
  sb_capacity_bytes :: u64
  sb_create_time_ms :: u64
  sb_common_path_prefix :: string
  sb_erasure_group_id :: u64
  sb_erasure_role :: ErasureCodeRole
  sb_checksum_type :: string
  sb_superblock_checksum_hex :: string

record ImageRegionLayout =
  rg_superblock_offset :: u64
  rg_superblock_bytes :: u64
  rg_data_offset :: u64
  rg_data_bytes :: u64
  rg_metadata_offset :: u64
  rg_metadata_bytes :: u64
  rg_checksum_offset :: u64
  rg_checksum_bytes :: u64

record OpticalImageDescriptor =
  img_superblock :: ImageSuperblock
  img_library_id :: u32
  img_disc_id :: u32
  img_state :: OpticalImageState
  img_regions :: ImageRegionLayout
  img_file_count :: u64
  img_image_checksum_hex :: string

datatype optical_error =
    DiscIdReserved | DiscAlreadyAssigned | SlotOccupied | DiscIdZero | DiscLibraryId | DiscUsage | DiscImageCount
  | LibraryIds | SlotIndexRange | DuplicateSlot | DiscInTwoSlots | ForeignOrDuplicateDisc | DiscWithoutSlot
  | DiscSlotDisagree | SlotWithoutDisc | RetiredLibraryNotEmpty | ImageIdRange | ImageLocation | ImageRegions

section \<open>The index between discs and slots\<close>

record DiscSlotIndex =
  dx_disc_to_slot :: "(u32 \<times> u16) list"
  dx_slot_to_disc :: "(u16 \<times> u32) list"

definition empty_index :: DiscSlotIndex where
  "empty_index = \<lparr>dx_disc_to_slot = [], dx_slot_to_disc = []\<rparr>"

text \<open>Assignment to a key of a \<open>std::map\<close>.\<close>

fun map_put :: "'k::linorder \<Rightarrow> 'v \<Rightarrow> ('k \<times> 'v) list \<Rightarrow> ('k \<times> 'v) list" where
  "map_put k v [] = [(k, v)]"
| "map_put k v ((a, b) # xs) =
     (if k < a then (k, v) # (a, b) # xs else if k = a then (k, v) # xs else (a, b) # map_put k v xs)"

definition Insert :: "DiscSlotIndex \<Rightarrow> u32 \<Rightarrow> u16 \<Rightarrow> optical_error + DiscSlotIndex" where
  "Insert index disc_id slot_index =
     (if disc_id = kNoOpticalDisc then Inl DiscIdReserved
      else if map_of (dx_disc_to_slot index) disc_id \<noteq> None then Inl DiscAlreadyAssigned
      else if map_of (dx_slot_to_disc index) slot_index \<noteq> None then Inl SlotOccupied
      else Inr \<lparr>dx_disc_to_slot = map_put disc_id slot_index (dx_disc_to_slot index),
                dx_slot_to_disc = map_put slot_index disc_id (dx_slot_to_disc index)\<rparr>)"

definition Erase :: "DiscSlotIndex \<Rightarrow> u32 \<Rightarrow> bool \<times> DiscSlotIndex" where
  "Erase index disc_id =
     (case map_of (dx_disc_to_slot index) disc_id of
        None \<Rightarrow> (False, index)
      | Some slot \<Rightarrow> (True, \<lparr>dx_disc_to_slot = AList.delete disc_id (dx_disc_to_slot index),
                            dx_slot_to_disc = AList.delete slot (dx_slot_to_disc index)\<rparr>))"

definition GetSlot :: "DiscSlotIndex \<Rightarrow> u32 \<Rightarrow> u16 option" where
  "GetSlot index disc_id = map_of (dx_disc_to_slot index) disc_id"

definition GetDisc :: "DiscSlotIndex \<Rightarrow> u16 \<Rightarrow> u32 option" where
  "GetDisc index slot_index = map_of (dx_slot_to_disc index) slot_index"

definition Contains :: "DiscSlotIndex \<Rightarrow> u32 \<Rightarrow> bool" where
  "Contains index disc_id \<longleftrightarrow> map_of (dx_disc_to_slot index) disc_id \<noteq> None"

definition Index_Size :: "DiscSlotIndex \<Rightarrow> nat" where
  "Index_Size index = length (dx_disc_to_slot index)"

text \<open>One step of the loop of \<open>SegmentSnapshot\<close>: the entry extends the last segment or begins a new one.\<close>

definition add_entry :: "DiscSlotSegment list \<Rightarrow> u32 \<times> u16 \<Rightarrow> DiscSlotSegment list" where
  "add_entry segments = (\<lambda>(disc, slot).
     if segments \<noteq> [] \<and> seg_id_end (last segments) < - 1 \<and> seg_slot_end (last segments) < - 1 \<and>
        disc = seg_id_end (last segments) + 1 \<and> slot = seg_slot_end (last segments) + 1
     then butlast segments @ [(last segments)\<lparr>seg_id_end := disc, seg_slot_end := slot\<rparr>]
     else segments @ [\<lparr>seg_id_start = disc, seg_id_end = disc, seg_slot_start = slot, seg_slot_end = slot\<rparr>])"

definition SegmentSnapshot :: "DiscSlotIndex \<Rightarrow> DiscSlotSegment list" where
  "SegmentSnapshot index = foldl add_entry [] (dx_disc_to_slot index)"

definition PointSnapshot :: "DiscSlotIndex \<Rightarrow> (u32 \<times> u16) list" where
  "PointSnapshot index = map (\<lambda>segment. (seg_id_start segment, seg_slot_start segment))
     (filter (\<lambda>segment. seg_id_start segment = seg_id_end segment) (SegmentSnapshot index))"

section \<open>Validation\<close>

definition ValidateOpticalDisc :: "OpticalDisc \<Rightarrow> optical_error + unit" where
  "ValidateOpticalDisc disc =
     (if od_disc_id disc = kNoOpticalDisc then Inl DiscIdZero
      else if \<not> IsValidOpticalLibraryId (od_library_id disc) then Inl DiscLibraryId
      else if od_capacity_bytes disc = 0 \<or> od_used_bytes disc > od_capacity_bytes disc then Inl DiscUsage
      else if od_image_count disc > kDesignImagesPerDisc \<and> od_capacity_bytes disc = kDesignOpticalDiscCapacityBytes
      then Inl DiscImageCount
      else Inr ())"

text \<open>The three loops over slots, discs and occupied slots; the sets are lists, newest element first.\<close>

fun check_slots :: "DiscSlot list \<Rightarrow> u16 list \<Rightarrow> u32 list \<Rightarrow> optical_error + u32 list" where
  "check_slots [] slots slotted = Inr slotted"
| "check_slots (slot # rest) slots slotted =
     (if ucast (sl_slot_index slot) \<ge> kDesignSlotsPerLibrary then Inl SlotIndexRange
      else if sl_slot_index slot \<in> set slots then Inl DuplicateSlot
      else if sl_disc_id slot \<noteq> kNoOpticalDisc \<and> sl_disc_id slot \<in> set slotted then Inl DiscInTwoSlots
      else check_slots rest (sl_slot_index slot # slots)
             (if sl_disc_id slot \<noteq> kNoOpticalDisc then sl_disc_id slot # slotted else slotted))"

fun check_discs :: "OpticalLibraryInventory \<Rightarrow> u32 list \<Rightarrow> OpticalDisc list \<Rightarrow> u32 list \<Rightarrow> optical_error + u32 list" where
  "check_discs library slotted [] discs = Inr discs"
| "check_discs library slotted (disc # rest) discs =
     (case ValidateOpticalDisc disc of
        Inl e \<Rightarrow> Inl e
      | Inr u \<Rightarrow>
          if od_library_id disc \<noteq> lib_library_id library \<or> od_disc_id disc \<in> set discs then Inl ForeignOrDuplicateDisc
          else if od_disc_id disc \<notin> set slotted then Inl DiscWithoutSlot
          else if (case find (\<lambda>slot. sl_disc_id slot = od_disc_id disc) (lib_slots library) of
                     None \<Rightarrow> True | Some slot \<Rightarrow> sl_slot_index slot \<noteq> od_slot_index disc)
          then Inl DiscSlotDisagree
          else check_discs library slotted rest (od_disc_id disc # discs))"

definition ValidateOpticalLibraryInventory :: "OpticalLibraryInventory \<Rightarrow> optical_error + unit" where
  "ValidateOpticalLibraryInventory library =
     (if \<not> IsValidOpticalLibraryId (lib_library_id library) \<or> lib_node_id library = [] then Inl LibraryIds
      else case check_slots (lib_slots library) [] [] of
             Inl e \<Rightarrow> Inl e
           | Inr slotted \<Rightarrow>
               (case check_discs library slotted (lib_discs library) [] of
                  Inl e \<Rightarrow> Inl e
                | Inr discs \<Rightarrow>
                    if \<not> list_all (\<lambda>d. d \<in> set discs) slotted then Inl SlotWithoutDisc
                    else if lib_state library = kLibraryRetired \<and> lib_discs library \<noteq> [] then Inl RetiredLibraryNotEmpty
                    else Inr ()))"

definition ValidateImageDescriptor :: "OpticalImageDescriptor \<Rightarrow> optical_error + unit" where
  "ValidateImageDescriptor img =
     (let capacity = sb_capacity_bytes (img_superblock img); r = img_regions img
      in if \<not> IsValidOpticalImageId (sb_image_id (img_superblock img)) then Inl ImageIdRange
         else if \<not> IsValidOpticalLibraryId (img_library_id img) \<or> img_disc_id img = kNoOpticalDisc then Inl ImageLocation
         else if capacity = 0 \<or> rg_superblock_bytes r = 0 \<or>
                 rg_data_offset r < rg_superblock_offset r + rg_superblock_bytes r \<or>
                 rg_metadata_offset r < rg_data_offset r + rg_data_bytes r \<or>
                 rg_checksum_offset r < rg_metadata_offset r + rg_metadata_bytes r \<or>
                 rg_checksum_offset r + rg_checksum_bytes r > capacity
         then Inl ImageRegions
         else Inr ())"

section \<open>The index is one-to-one\<close>

lemma map_of_map_put [simp]: "map_of (map_put k v xs) = (map_of xs)(k \<mapsto> v)"
  by (induction k v xs rule: map_put.induct) (auto simp: fun_eq_iff)

lemma set_keys_map_put [simp]: "fst ` set (map_put k v xs) = insert k (fst ` set xs)"
  by (induction k v xs rule: map_put.induct) auto

lemma sorted_map_put: "sorted_wrt (<) (map fst xs) \<Longrightarrow> sorted_wrt (<) (map fst (map_put k v xs))"
  by (induction k v xs rule: map_put.induct) (auto simp: sorted_wrt_append)

lemma sorted_delete: "sorted_wrt (<) (map fst xs) \<Longrightarrow> sorted_wrt (<) (map fst (AList.delete k xs))"
  by (induction xs) (auto simp: AList.delete_eq)

text \<open>The contract of a two-way index: both lookups describe the same pairs.\<close>

locale two_way_index =
  fixes good :: "'s \<Rightarrow> bool" and right :: "'s \<Rightarrow> 'a \<Rightarrow> 'b option" and left :: "'s \<Rightarrow> 'b \<Rightarrow> 'a option"
  assumes two_way: "good s \<Longrightarrow> right s a = Some b \<longleftrightarrow> left s b = Some a"
begin

lemma right_inj: "good s \<Longrightarrow> right s a = Some b \<Longrightarrow> right s a' = Some b \<Longrightarrow> a = a'"
  using two_way by fastforce

lemma left_ran: "good s \<Longrightarrow> dom (left s) = ran (right s)"
  unfolding dom_def ran_def using two_way by fastforce

end

definition index_ok :: "DiscSlotIndex \<Rightarrow> bool" where
  "index_ok index \<longleftrightarrow> sorted_wrt (<) (map fst (dx_disc_to_slot index)) \<and> sorted_wrt (<) (map fst (dx_slot_to_disc index)) \<and>
     (\<forall>d s. map_of (dx_disc_to_slot index) d = Some s \<longleftrightarrow> map_of (dx_slot_to_disc index) s = Some d) \<and>
     map_of (dx_disc_to_slot index) kNoOpticalDisc = None"

interpretation slots: two_way_index index_ok GetSlot GetDisc
  by unfold_locales (simp add: index_ok_def GetSlot_def GetDisc_def)

lemma empty_index_ok: "index_ok empty_index"
  by (simp add: index_ok_def empty_index_def)

lemma Insert_ok: "Insert index d s = Inr index' \<Longrightarrow> index_ok index \<Longrightarrow> index_ok index'"
  by (auto simp: Insert_def index_ok_def sorted_map_put split: if_splits)

lemma Erase_ok:
  assumes "index_ok index" "Erase index d = (b, index')"
  shows "index_ok index'"
proof (cases "map_of (dx_disc_to_slot index) d")
  case (Some s)
  then have "index' = \<lparr>dx_disc_to_slot = AList.delete d (dx_disc_to_slot index), dx_slot_to_disc = AList.delete s (dx_slot_to_disc index)\<rparr>"
    using assms(2) by (simp add: Erase_def)
  moreover have "((map_of (dx_disc_to_slot index))(d := None)) d' = Some s' \<longleftrightarrow> ((map_of (dx_slot_to_disc index))(s := None)) s' = Some d'" for d' s'
    using Some assms(1) unfolding index_ok_def by (metis fun_upd_apply option.distinct(1) option.inject)
  ultimately show ?thesis using assms(1) by (auto simp: index_ok_def sorted_delete delete_conv)
qed (use assms in \<open>simp add: Erase_def\<close>)

inductive index_step :: "DiscSlotIndex \<Rightarrow> DiscSlotIndex \<Rightarrow> bool" where
  index_insert: "Insert index d s = Inr index' \<Longrightarrow> index_step index index'"
| index_erase: "Erase index d = (b, index') \<Longrightarrow> index_step index index'"

lemma reachable_index_ok: "index_step\<^sup>*\<^sup>* empty_index index \<Longrightarrow> index_ok index"
proof (induction rule: rtranclp_induct)
  case (step a b)
  from step(2,3) show ?case by cases (auto dest: Insert_ok Erase_ok)
qed (rule empty_index_ok)

text \<open>C29: Every index that insertions and erasures can build is one-to-one between discs and slots, and its
  operations are those of a partial function on discs: an insertion succeeds exactly for a disc id other
  than 0 without slot and a free slot and adds the pair, an erasure removes the pair of the disc.\<close>

theorem DiscSlotIndex_one_to_one:
  assumes "index_step\<^sup>*\<^sup>* empty_index index"
  shows "(GetSlot index d = Some s \<longleftrightarrow> GetDisc index s = Some d) \<and>
    ((\<exists>index'. Insert index d s = Inr index') \<longleftrightarrow> d \<noteq> 0 \<and> GetSlot index d = None \<and> GetDisc index s = None) \<and>
    (\<forall>index'. Insert index d s = Inr index' \<longrightarrow> GetSlot index' = (GetSlot index)(d \<mapsto> s) \<and> Index_Size index' = Index_Size index + 1) \<and>
    (\<forall>b index'. Erase index d = (b, index') \<longrightarrow> (b \<longleftrightarrow> Contains index d) \<and> GetSlot index' = (GetSlot index)(d := None)) \<and>
    Index_Size index = card (dom (GetSlot index))"
proof -
  have ok: "index_ok index" by (rule reachable_index_ok[OF assms])
  have size: "Index_Size i = card (dom (GetSlot i))" if "index_ok i" for i
  proof -
    have "GetSlot i = map_of (dx_disc_to_slot i)" by (simp add: fun_eq_iff GetSlot_def)
    then have "dom (GetSlot i) = set (map fst (dx_disc_to_slot i))" by (simp add: dom_map_of_conv_image_fst)
    moreover have "distinct (map fst (dx_disc_to_slot i))"
      using that strict_sorted_iff unfolding index_ok_def by blast
    ultimately show ?thesis by (simp add: Index_Size_def distinct_card del: set_map)
  qed
  have ins: "GetSlot i = (GetSlot index)(d \<mapsto> s) \<and> Index_Size i = Index_Size index + 1" if i: "Insert index d s = Inr i" for i
  proof -
    have g: "GetSlot i = (GetSlot index)(d \<mapsto> s)" "d \<notin> dom (GetSlot index)"
      using i by (auto simp: Insert_def GetSlot_def fun_eq_iff split: if_splits)
    moreover have "finite (dom (GetSlot index))" by (simp add: GetSlot_def finite_dom_map_of)
    ultimately show ?thesis using size[OF ok] size[OF Insert_ok[OF i ok]] by simp
  qed
  have "(b \<longleftrightarrow> Contains index d) \<and> GetSlot i = (GetSlot index)(d := None)" if "Erase index d = (b, i)" for b i
    using that by (auto simp: Erase_def Contains_def GetSlot_def delete_conv fun_eq_iff split: option.splits)
  moreover have "(\<exists>i. Insert index d s = Inr i) \<longleftrightarrow> d \<noteq> 0 \<and> GetSlot index d = None \<and> GetDisc index s = None"
    by (simp add: Insert_def GetSlot_def GetDisc_def)
  ultimately show ?thesis using ins size[OF ok] slots.two_way[OF ok] by blast
qed

section \<open>The compact form\<close>

definition segment_entries :: "DiscSlotSegment \<Rightarrow> (u32 \<times> u16) list" where
  "segment_entries segment = map (\<lambda>i. (seg_id_start segment + of_nat i, seg_slot_start segment + of_nat i))
     [0..<Suc (unat (seg_id_end segment) - unat (seg_id_start segment))]"

definition segment_ok :: "DiscSlotSegment \<Rightarrow> bool" where
  "segment_ok segment \<longleftrightarrow> seg_id_start segment \<le> seg_id_end segment \<and> seg_slot_start segment \<le> seg_slot_end segment \<and>
     unat (seg_id_end segment) - unat (seg_id_start segment) = unat (seg_slot_end segment) - unat (seg_slot_start segment)"

definition joins :: "DiscSlotSegment \<Rightarrow> DiscSlotSegment \<Rightarrow> bool" where
  "joins a b \<longleftrightarrow> unat (seg_id_start b) = unat (seg_id_end a) + 1 \<and> unat (seg_slot_start b) = unat (seg_slot_end a) + 1"

lemma unat_add_1: "(w :: 'a::len word) < - 1 \<Longrightarrow> unat (w + 1) = Suc (unat w)"
  by (rule unat_suc_less)

lemma next_word: "unat (v :: 'a::len word) = Suc (unat w) \<longleftrightarrow> w < - 1 \<and> v = w + 1"
proof
  assume a: "unat v = Suc (unat w)"
  then have "w < v" by (simp add: word_less_nat_alt)
  then have "w < - 1" using word_order.extremum[of v] by (metis order_less_le_trans)
  then show "w < - 1 \<and> v = w + 1" using a unat_add_1[of w] by (metis word_unat_eq_iff)
qed (simp add: unat_add_1)

lemma joins_iff:
  "joins a b \<longleftrightarrow> seg_id_end a < - 1 \<and> seg_slot_end a < - 1 \<and> seg_id_start b = seg_id_end a + 1 \<and> seg_slot_start b = seg_slot_end a + 1"
  unfolding joins_def Suc_eq_plus1[symmetric] next_word by blast

lemma add_of_nat_Suc: "(w :: 'a::len word) + of_nat (Suc n) = w + of_nat n + 1"
  by simp

lemma extend_segment:
  assumes "segment_ok t" "seg_id_end t < - 1" "seg_slot_end t < - 1"
  defines "t' \<equiv> t\<lparr>seg_id_end := seg_id_end t + 1, seg_slot_end := seg_slot_end t + 1\<rparr>"
  shows "segment_ok t' \<and> segment_entries t' = segment_entries t @ [(seg_id_end t + 1, seg_slot_end t + 1)]"
proof -
  have u: "unat (seg_id_end t + 1) = Suc (unat (seg_id_end t))" "unat (seg_slot_end t + 1) = Suc (unat (seg_slot_end t))"
    using assms(2,3) by (auto intro: unat_add_1)
  let ?n = "unat (seg_id_end t) - unat (seg_id_start t)"
  have le: "unat (seg_id_start t) \<le> unat (seg_id_end t)" "unat (seg_slot_start t) \<le> unat (seg_slot_end t)"
    and n: "?n = unat (seg_slot_end t) - unat (seg_slot_start t)"
    using assms(1) by (simp_all add: segment_ok_def word_le_nat_alt)
  have e1: "seg_id_start t + of_nat ?n = seg_id_end t" using le(1) by (simp add: of_nat_diff)
  have e2: "seg_slot_start t + of_nat ?n = seg_slot_end t" using le(2) by (simp add: n of_nat_diff)
  have last: "(seg_id_start t + of_nat (Suc ?n), seg_slot_start t + of_nat (Suc ?n)) = (seg_id_end t + 1, seg_slot_end t + 1)"
    by (simp only: add_of_nat_Suc e1 e2)
  have "Suc (unat (seg_id_end t)) - unat (seg_id_start t) = Suc ?n" using le(1) by simp
  then have "segment_entries t' = segment_entries t @ [(seg_id_end t + 1, seg_slot_end t + 1)]"
    unfolding segment_entries_def t'_def using last u by simp
  moreover have "segment_ok t'" using le n u by (simp add: segment_ok_def t'_def word_le_nat_alt)
  ultimately show ?thesis by blast
qed

definition segments_ok :: "(u32 \<times> u16) list \<Rightarrow> DiscSlotSegment list \<Rightarrow> bool" where
  "segments_ok entries segments \<longleftrightarrow> concat (map segment_entries segments) = entries \<and> list_all segment_ok segments \<and>
     successively (\<lambda>a b. \<not> joins a b) segments"

lemma add_entry_ok:
  assumes "segments_ok entries segments"
  shows "segments_ok (entries @ [e]) (add_entry segments e)"
proof -
  obtain d s where e: "e = (d, s)" by force
  let ?new = "\<lparr>seg_id_start = d, seg_id_end = d, seg_slot_start = s, seg_slot_end = s\<rparr>"
  have new: "segment_ok ?new" "segment_entries ?new = [e]" by (simp_all add: segment_ok_def segment_entries_def e)
  show ?thesis
  proof (cases "segments = []")
    case True
    then show ?thesis using assms new by (simp add: segments_ok_def add_entry_def e)
  next
    case False
    then obtain front t where seg: "segments = front @ [t]" by (metis append_butlast_last_id)
    have t: "segment_ok t" using assms by (simp add: segments_ok_def seg)
    show ?thesis
    proof (cases "joins t ?new")
      case True
      then have j: "seg_id_end t < - 1" "seg_slot_end t < - 1" "d = seg_id_end t + 1" "s = seg_slot_end t + 1"
        by (simp_all add: joins_iff)
      let ?t' = "t\<lparr>seg_id_end := seg_id_end t + 1, seg_slot_end := seg_slot_end t + 1\<rparr>"
      have "add_entry segments e = front @ [?t']" using j by (simp add: add_entry_def e seg)
      moreover have "segment_ok ?t'" "segment_entries ?t' = segment_entries t @ [e]"
        using extend_segment[OF t j(1,2)] j(3,4) by (simp_all add: e)
      moreover have "successively (\<lambda>a b. \<not> joins a b) (front @ [?t'])"
        using assms by (auto simp: segments_ok_def seg successively_append_iff joins_def)
      ultimately show ?thesis using assms by (simp add: segments_ok_def seg)
    next
      case False
      then have "add_entry segments e = segments @ [?new]"
        by (auto simp: add_entry_def e seg joins_iff)
      moreover have "successively (\<lambda>a b. \<not> joins a b) (segments @ [?new])"
        using assms False by (auto simp: segments_ok_def seg successively_append_iff)
      ultimately show ?thesis using assms new by (simp add: segments_ok_def)
    qed
  qed
qed

lemma foldl_add_entry_ok: "segments_ok seen segments \<Longrightarrow> segments_ok (seen @ entries) (foldl add_entry segments entries)"
proof (induction entries arbitrary: seen segments)
  case (Cons e entries)
  from Cons.IH[OF add_entry_ok[OF Cons.prems, of e]] show ?case by simp
qed simp

text \<open>C28: The compact form of the index is exact and minimal: written out, its segments are the entries of the
  index in order; each segment pairs equally many consecutive discs and slots; no two neighbouring segments
  could be one; and the points are the segments of a single disc.\<close>

theorem SegmentSnapshot_exact:
  "concat (map segment_entries (SegmentSnapshot index)) = dx_disc_to_slot index \<and>
   list_all segment_ok (SegmentSnapshot index) \<and> successively (\<lambda>a b. \<not> joins a b) (SegmentSnapshot index) \<and>
   set (PointSnapshot index) = {(d, s). \<lparr>seg_id_start = d, seg_id_end = d, seg_slot_start = s, seg_slot_end = s\<rparr> \<in> set (SegmentSnapshot index)}"
proof -
  have ok: "segments_ok (dx_disc_to_slot index) (SegmentSnapshot index)"
    using foldl_add_entry_ok[of "[]" "[]" "dx_disc_to_slot index"] by (simp add: SegmentSnapshot_def segments_ok_def)
  have single: "x = \<lparr>seg_id_start = seg_id_start x, seg_id_end = seg_id_start x, seg_slot_start = seg_slot_start x, seg_slot_end = seg_slot_start x\<rparr>"
    if "x \<in> set (SegmentSnapshot index)" "seg_id_start x = seg_id_end x" for x
  proof -
    have "segment_ok x" using ok that(1) by (simp add: segments_ok_def list_all_iff)
    then have "seg_slot_start x = seg_slot_end x" using that(2) by (simp add: segment_ok_def word_unat_eq_iff word_le_nat_alt)
    then show ?thesis using that(2) by simp
  qed
  have "set (PointSnapshot index) = {(d, s). \<lparr>seg_id_start = d, seg_id_end = d, seg_slot_start = s, seg_slot_end = s\<rparr> \<in> set (SegmentSnapshot index)}"
    (is "?P = ?S")
  proof (intro set_eqI iffI)
    fix p assume "p \<in> ?P"
    then obtain x where "x \<in> set (SegmentSnapshot index)" "seg_id_start x = seg_id_end x" "p = (seg_id_start x, seg_slot_start x)"
      by (auto simp: PointSnapshot_def)
    then show "p \<in> ?S" using single[of x] by simp
  next
    fix p assume "p \<in> ?S"
    then show "p \<in> ?P" by (force simp: PointSnapshot_def)
  qed
  then show ?thesis using ok by (simp add: segments_ok_def)
qed

section \<open>What the validators accept\<close>

definition occupied :: "DiscSlot list \<Rightarrow> u32 list" where
  "occupied slots = map sl_disc_id (filter (\<lambda>slot. sl_disc_id slot \<noteq> kNoOpticalDisc) slots)"

definition slot_pairs :: "DiscSlot list \<Rightarrow> (u32 \<times> u16) set" where
  "slot_pairs slots = {(sl_disc_id slot, sl_slot_index slot) |slot. slot \<in> set slots \<and> sl_disc_id slot \<noteq> kNoOpticalDisc}"

definition disc_pairs :: "OpticalDisc list \<Rightarrow> (u32 \<times> u16) set" where
  "disc_pairs discs = (\<lambda>disc. (od_disc_id disc, od_slot_index disc)) ` set discs"

lemma set_occupied: "set (occupied slots) = fst ` slot_pairs slots"
  by (force simp: occupied_def slot_pairs_def)

lemma check_slots_iff:
  "check_slots xs slots slotted = Inr r \<longleftrightarrow>
     (\<forall>slot \<in> set xs. unat (sl_slot_index slot) < 10000) \<and> distinct (map sl_slot_index xs) \<and>
     set (map sl_slot_index xs) \<inter> set slots = {} \<and> distinct (occupied xs) \<and> set (occupied xs) \<inter> set slotted = {} \<and>
     r = rev (occupied xs) @ slotted"
proof (induction xs arbitrary: slots slotted)
  case (Cons x xs)
  have "ucast (sl_slot_index x) \<ge> kDesignSlotsPerLibrary \<longleftrightarrow> \<not> unat (sl_slot_index x) < 10000"
    by (simp add: word_le_nat_alt unat_ucast_up not_less)
  then show ?case by (cases "sl_disc_id x = kNoOpticalDisc") (auto simp: Cons.IH occupied_def)
qed (auto simp: occupied_def)

lemma find_slot:
  assumes "distinct (occupied slots)" "d \<noteq> kNoOpticalDisc"
  shows "(case find (\<lambda>slot. sl_disc_id slot = d) slots of None \<Rightarrow> True | Some slot \<Rightarrow> sl_slot_index slot \<noteq> i) \<longleftrightarrow>
    (d, i) \<notin> slot_pairs slots"
  using assms(1)
proof (induction slots)
  case (Cons x slots)
  have d: "distinct (occupied slots)" using Cons.prems by (auto simp: occupied_def split: if_splits)
  show ?case
  proof (cases "sl_disc_id x = d")
    case True
    then have "d \<notin> set (occupied slots)" using Cons.prems assms(2) by (simp add: occupied_def)
    then show ?thesis using True assms(2) by (auto simp: slot_pairs_def occupied_def)
  next
    case False
    then show ?thesis using Cons.IH[OF d] by (auto simp: slot_pairs_def)
  qed
qed (simp add: slot_pairs_def)

lemma check_discs_iff:
  assumes "distinct (occupied (lib_slots lib))" "set slotted = set (occupied (lib_slots lib))"
  shows "check_discs lib slotted xs discs = Inr r \<longleftrightarrow>
     (\<forall>disc \<in> set xs. ValidateOpticalDisc disc = Inr () \<and> od_library_id disc = lib_library_id lib) \<and>
     distinct (map od_disc_id xs) \<and> set (map od_disc_id xs) \<inter> set discs = {} \<and> disc_pairs xs \<subseteq> slot_pairs (lib_slots lib) \<and>
     r = rev (map od_disc_id xs) @ discs"
proof (induction xs arbitrary: discs)
  case (Cons x xs)
  have z: "ValidateOpticalDisc x = Inr () \<Longrightarrow> od_disc_id x \<noteq> kNoOpticalDisc" by (auto simp: ValidateOpticalDisc_def)
  have s: "(od_disc_id x, od_slot_index x) \<in> slot_pairs (lib_slots lib) \<Longrightarrow> od_disc_id x \<in> set slotted"
    using assms(2) by (force simp: set_occupied)
  show ?case
  proof (cases "ValidateOpticalDisc x")
    case (Inr u)
    then show ?thesis using z s find_slot[OF assms(1), of "od_disc_id x" "od_slot_index x"]
      by (auto simp: Cons.IH disc_pairs_def)
  qed simp
qed (auto simp: disc_pairs_def)

text \<open>A library inventory is accepted exactly when its ids are valid, its slots are distinct, in range and
  hold different discs, its discs are valid, distinct and its own, every disc lies in the slot it names and
  every occupied slot has its disc, and a retired library is empty.\<close>

theorem ValidateOpticalLibraryInventory_iff:
  "ValidateOpticalLibraryInventory lib = Inr () \<longleftrightarrow>
     IsValidOpticalLibraryId (lib_library_id lib) \<and> lib_node_id lib \<noteq> [] \<and>
     (\<forall>slot \<in> set (lib_slots lib). unat (sl_slot_index slot) < 10000) \<and> distinct (map sl_slot_index (lib_slots lib)) \<and>
     distinct (occupied (lib_slots lib)) \<and>
     (\<forall>disc \<in> set (lib_discs lib). ValidateOpticalDisc disc = Inr () \<and> od_library_id disc = lib_library_id lib) \<and>
     distinct (map od_disc_id (lib_discs lib)) \<and> disc_pairs (lib_discs lib) = slot_pairs (lib_slots lib) \<and>
     (lib_state lib = kLibraryRetired \<longrightarrow> lib_discs lib = [])"
proof (cases "\<exists>slotted. check_slots (lib_slots lib) [] [] = Inr slotted")
  case True
  then obtain slotted where c: "check_slots (lib_slots lib) [] [] = Inr slotted" by blast
  let ?slots = "lib_slots lib" and ?discs = "lib_discs lib"
  have d: "distinct (occupied ?slots)" "set slotted = set (occupied ?slots)"
    and slots: "(\<forall>slot \<in> set ?slots. unat (sl_slot_index slot) < 10000) \<and> distinct (map sl_slot_index ?slots)"
    using c by (simp_all add: check_slots_iff)
  have same: "disc_pairs ?discs = slot_pairs ?slots \<longleftrightarrow>
      disc_pairs ?discs \<subseteq> slot_pairs ?slots \<and> set (occupied ?slots) \<subseteq> od_disc_id ` set ?discs"
  proof
    assume "disc_pairs ?discs = slot_pairs ?slots"
    then show "disc_pairs ?discs \<subseteq> slot_pairs ?slots \<and> set (occupied ?slots) \<subseteq> od_disc_id ` set ?discs"
      by (auto simp: set_occupied disc_pairs_def simp flip: \<open>disc_pairs ?discs = slot_pairs ?slots\<close>)
  next
    assume a: "disc_pairs ?discs \<subseteq> slot_pairs ?slots \<and> set (occupied ?slots) \<subseteq> od_disc_id ` set ?discs"
    have "p \<in> disc_pairs ?discs" if p: "p \<in> slot_pairs ?slots" for p
    proof -
      have "fst p \<in> set (occupied ?slots)" using p by (simp add: set_occupied)
      then obtain disc where disc: "disc \<in> set ?discs" "od_disc_id disc = fst p" using a by auto
      then have "(fst p, od_slot_index disc) \<in> slot_pairs ?slots" using a by (auto simp: disc_pairs_def)
      moreover have "fst p \<noteq> kNoOpticalDisc" using p by (auto simp: slot_pairs_def)
      ultimately have "od_slot_index disc = snd p"
        using find_slot[OF d(1), of "fst p" "snd p"] find_slot[OF d(1), of "fst p" "od_slot_index disc"] p
        by (auto split: option.splits)
      then show ?thesis using disc by (auto simp: disc_pairs_def image_iff prod_eq_iff intro!: bexI[of _ disc])
    qed
    then show "disc_pairs ?discs = slot_pairs ?slots" using a by blast
  qed
  have "ValidateOpticalLibraryInventory lib = Inr () \<longleftrightarrow> IsValidOpticalLibraryId (lib_library_id lib) \<and> lib_node_id lib \<noteq> [] \<and>
      (\<exists>r. check_discs lib slotted ?discs [] = Inr r \<and> set slotted \<subseteq> set r) \<and> (lib_state lib = kLibraryRetired \<longrightarrow> ?discs = [])"
    by (auto simp: ValidateOpticalLibraryInventory_def c list_all_iff split: sum.splits)
  then show ?thesis using slots d(1) by (auto simp: check_discs_iff[OF d] same d(2))
next
  case False
  then show ?thesis by (auto simp: ValidateOpticalLibraryInventory_def check_slots_iff split: sum.splits)
qed

text \<open>The four regions of an accepted image lie one after the other within its capacity, provided that no
  end offset exceeds 64 bits.\<close>

theorem ValidateImageDescriptor_regions:
  assumes "ValidateImageDescriptor img = Inr ()" "r = img_regions img"
    and "unat (rg_superblock_offset r) + unat (rg_superblock_bytes r) < 2 ^ 64"
    and "unat (rg_data_offset r) + unat (rg_data_bytes r) < 2 ^ 64"
    and "unat (rg_metadata_offset r) + unat (rg_metadata_bytes r) < 2 ^ 64"
    and "unat (rg_checksum_offset r) + unat (rg_checksum_bytes r) < 2 ^ 64"
  shows "unat (rg_superblock_offset r) + unat (rg_superblock_bytes r) \<le> unat (rg_data_offset r) \<and>
    unat (rg_data_offset r) + unat (rg_data_bytes r) \<le> unat (rg_metadata_offset r) \<and>
    unat (rg_metadata_offset r) + unat (rg_metadata_bytes r) \<le> unat (rg_checksum_offset r) \<and>
    unat (rg_checksum_offset r) + unat (rg_checksum_bytes r) \<le> unat (sb_capacity_bytes (img_superblock img))"
proof -
  have u: "unat (x + y) = unat x + unat y" if "unat x + unat y < 2 ^ 64" for x y :: u64
    using that by (simp add: unat_word_ariths)
  show ?thesis using assms(1,2) u[OF assms(3)] u[OF assms(4)] u[OF assms(5)] u[OF assms(6)]
    by (auto simp: ValidateImageDescriptor_def Let_def word_less_nat_alt not_less split: if_splits)
qed

definition sample_image :: "u64 \<Rightarrow> OpticalImageDescriptor" where
  "sample_image data_bytes = \<lparr>img_superblock = \<lparr>sb_magic = 0, sb_format_version = 1, sb_image_id = 1, sb_capacity_bytes = 10000000000,
       sb_create_time_ms = 0, sb_common_path_prefix = [], sb_erasure_group_id = 0, sb_erasure_role = kData,
       sb_checksum_type = ''SHA-256'', sb_superblock_checksum_hex = []\<rparr>,
     img_library_id = 1, img_disc_id = 1, img_state = kBuilding,
     img_regions = \<lparr>rg_superblock_offset = 0, rg_superblock_bytes = 4096, rg_data_offset = 4096, rg_data_bytes = data_bytes,
       rg_metadata_offset = 8192, rg_metadata_bytes = 0, rg_checksum_offset = 8192, rg_checksum_bytes = 0\<rparr>,
     img_file_count = 1, img_image_checksum_hex = []\<rparr>"

lemma sample_image_accepted: "ValidateImageDescriptor (sample_image 4096) = Inr ()" "ValidateImageDescriptor (sample_image 0xffffffffffffffff) = Inr ()"
  by (simp_all add: ValidateImageDescriptor_def sample_image_def Let_def IsValidOpticalImageId_def IsValidOpticalLibraryId_def)

theorem ValidateImageDescriptor_regions_witness:
  "ValidateImageDescriptor (sample_image 4096) = Inr () \<and> (4096 :: nat) + 4096 \<le> 8192"
  using ValidateImageDescriptor_regions[OF sample_image_accepted(1) refl] sample_image_accepted(1) by (simp add: sample_image_def)


section \<open>File ids in hexadecimal\<close>

lemma length_hex_digits [simp]: "length (hex_digits w n) = w"
  by (induction w arbitrary: n) auto

lemma hex_char_inject: "m < 16 \<Longrightarrow> n < 16 \<Longrightarrow> hex_char m = hex_char n \<longleftrightarrow> m = n"
proof
  have c: "of_char (hex_char k) = (if k < 10 then 48 + k else 87 + k)" if "k < 16" for k :: nat
    using that by (simp add: hex_char_def)
  assume "m < 16" "n < 16" "hex_char m = hex_char n"
  then have "(if m < 10 then 48 + m else 87 + m) = (if n < 10 then 48 + n else 87 + n)" using c[of m] c[of n] by simp
  then show "m = n" by (simp split: if_splits)
qed simp

lemma hex_digits_inject: "m < 16 ^ w \<Longrightarrow> n < 16 ^ w \<Longrightarrow> hex_digits w m = hex_digits w n \<longleftrightarrow> m = n"
proof (induction w arbitrary: m n)
  case (Suc w)
  have "m div 16 < 16 ^ w" "n div 16 < 16 ^ w" using Suc.prems by (auto simp: less_mult_imp_div_less mult.commute)
  then show ?case using Suc.IH hex_char_inject[of "m mod 16" "n mod 16"] by (simp, metis div_mult_mod_eq)
qed simp

lemma hex_bytes_inject:
  "length xs = length ys \<Longrightarrow> concat (map (\<lambda>x :: u8. hex_digits 2 (unat x)) xs) = concat (map (\<lambda>x. hex_digits 2 (unat x)) ys) \<longleftrightarrow> xs = ys"
proof (induction xs ys rule: list_induct2)
  case (Cons x xs y ys)
  have "hex_digits 2 (unat x) = hex_digits 2 (unat y) \<longleftrightarrow> x = y"
    using hex_digits_inject[of "unat x" 2 "unat y"] unat_u8_lt[of x] unat_u8_lt[of y] by (simp add: word_unat_eq_iff)
  then show ?case using Cons.IH by (simp add: append_eq_append_conv)
qed simp

text \<open>The printed form of a file id is 48 characters long and determines it.\<close>

theorem FileIdHex_injective:
  assumes "length (fid_directory_path_hash i) = 10" "length (fid_file_name_hash i) = 10"
    "length (fid_directory_path_hash j) = 10" "length (fid_file_name_hash j) = 10"
  shows "length (FileIdHex i) = 48 \<and> (FileIdHex i = FileIdHex j \<longleftrightarrow> i = j)"
proof -
  have len: "length (concat (map (\<lambda>x :: u8. hex_digits 2 (unat x)) xs)) = 2 * length xs" for xs by (induction xs) auto
  have u16: "hex_digits 4 (unat x) = hex_digits 4 (unat y) \<longleftrightarrow> x = y" for x y :: u16
    using hex_digits_inject[of "unat x" 4 "unat y"] unat_u16_lt[of x] unat_u16_lt[of y] by (simp add: word_unat_eq_iff)
  show ?thesis using assms by (cases i, cases j)
    (simp add: FileIdHex_def len u16 hex_bytes_inject append_eq_append_conv)
qed

section \<open>Instances\<close>

definition sample_index :: DiscSlotIndex where
  "sample_index = \<lparr>dx_disc_to_slot = [(7, 3)], dx_slot_to_disc = [(3, 7)]\<rparr>"

theorem DiscSlotIndex_one_to_one_witness:
  "index_step\<^sup>*\<^sup>* empty_index sample_index \<and> GetSlot sample_index 7 = Some 3 \<and> GetDisc sample_index 3 = Some 7 \<and>
   \<not> (\<exists>index'. Insert sample_index 7 4 = Inr index')"
proof -
  have "Insert empty_index 7 3 = Inr sample_index" by (simp add: Insert_def empty_index_def sample_index_def)
  then have r: "index_step\<^sup>*\<^sup>* empty_index sample_index" by (blast intro: index_insert)
  moreover have "GetSlot sample_index 7 = Some 3" by (simp add: GetSlot_def sample_index_def)
  ultimately show ?thesis
    using DiscSlotIndex_one_to_one[OF r, of 7 3] DiscSlotIndex_one_to_one[OF r, of 7 4] by auto
qed

definition sample_library :: OpticalLibraryInventory where
  "sample_library = \<lparr>lib_library_id = 1, lib_node_id = ''n1'', lib_state = kLibraryRetired, lib_observed_at_ms = 0,
     lib_slots = [\<lparr>sl_slot_index = 3, sl_disc_id = 0\<rparr>], lib_discs = [], lib_drives = [], lib_arms = [], lib_cache_devices = [],
     lib_namespace_generation = 0, lib_namespace_bytes = 0, lib_staging_bytes = 0\<rparr>"

theorem ValidateOpticalLibraryInventory_iff_witness: "ValidateOpticalLibraryInventory sample_library = Inr ()"
  unfolding ValidateOpticalLibraryInventory_iff
  by (simp add: sample_library_def IsValidOpticalLibraryId_def occupied_def disc_pairs_def slot_pairs_def)

theorem FileIdHex_injective_witness:
  "FileIdHex \<lparr>fid_user_id = 1, fid_namespace_id = 0, fid_directory_path_hash = replicate 10 0, fid_file_name_hash = replicate 10 0\<rparr> \<noteq>
   FileIdHex \<lparr>fid_user_id = 2, fid_namespace_id = 0, fid_directory_path_hash = replicate 10 0, fid_file_name_hash = replicate 10 0\<rparr>"
  by (subst FileIdHex_injective[THEN conjunct2]) simp_all

end
