(* ===== verification/Workflow_Model.thy ===== *)
theory Workflow_Model
  imports Optical_Model
begin

text \<open>
  Files, archive migrations and batch reads as the storage model describes them:
  \<open>src/src/storage_model/NamespaceModel.h\<close>, \<open>WorkflowModel.h\<close> and their validators in \<open>StorageModel.cpp\<close>.
  Shown here: exactly what each validator accepts, and that the slices of an accepted segment manifest lie
  inside their chunks as numbers, not only modulo 64 bits.
\<close>

section \<open>Files\<close>

datatype FileLifecycleState = kFilePending | kFileCached | kFileArchived
datatype StorageTier = kTierNone | kTierMagnetic | kTierOptical

record PosixAttributes =
  pa_inode_id :: u64
  pa_parent_inode_id :: u64
  pa_size_bytes :: u64
  pa_atime_ms :: u64
  pa_mtime_ms :: u64
  pa_ctime_ms :: u64
  pa_version :: u64
  pa_mode :: u32
  pa_uid :: u32
  pa_gid :: u32
  pa_link_count :: u32

record CachedFileExtent =
  ce_node_id :: string
  ce_disk_id :: string
  ce_object_id :: string
  ce_file_offset :: u64
  ce_storage_offset :: u64
  ce_length :: u64

record OpticalFileExtent =
  oe_library_id :: u32
  oe_disc_id :: u32
  oe_image_id :: u64
  oe_file_offset :: u64
  oe_image_offset :: u64
  oe_length :: u64
  oe_previous_image_id :: u64
  oe_next_image_id :: u64

record FilePlacement =
  fp_tier :: StorageTier
  fp_cached_extents :: "CachedFileExtent list"
  fp_optical_extents :: "OpticalFileExtent list"

record FileRecord =
  fr_file_id :: FileId
  fr_attributes :: PosixAttributes
  fr_state :: FileLifecycleState
  fr_placement :: FilePlacement
  fr_file_name :: string
  fr_relative_path :: string
  fr_path_overflow :: bool
  fr_path_overflow_key :: u64
  fr_obsolete :: bool
  fr_archive_time_ms :: u64
  fr_erasure_group_id :: u64
  fr_erasure_role :: u32

record NamespaceLeaf =
  nl_root_prefix :: bytes
  nl_library_id :: u32
  nl_bundle_id :: u64
  nl_file_count :: u64
  nl_total_size_bytes :: u64
  nl_last_access_time_ms :: u64
  nl_checksum_sha256 :: bytes
  nl_reserved :: bytes

section \<open>Migrations and reads\<close>

record SourceSegment =
  ss_node_id :: string
  ss_start_offset :: u64
  ss_length :: u64

record ChunkFileSlice =
  cf_file_id :: FileId
  cf_chunk_offset :: u64
  cf_file_offset :: u64
  cf_length :: u64

record TransferChunk =
  tc_chunk_id :: string
  tc_source :: SourceSegment
  tc_files :: "ChunkFileSlice list"
  tc_checksum_crc32 :: u64

record SegmentManifest =
  sm_migration_id :: string
  sm_root_prefix :: bytes
  sm_target_library_id :: u32
  sm_create_time_ms :: u64
  sm_chunks :: "TransferChunk list"

record ReadOperation =
  ro_file_id :: FileId
  ro_image_id :: u64
  ro_image_offset :: u64
  ro_length :: u64

record DiscReadGroup =
  dr_disc_id :: u32
  dr_slot_index :: u16
  dr_operations :: "ReadOperation list"

record LibraryReadPlan =
  lp_library_id :: u32
  lp_disc_groups :: "DiscReadGroup list"

record BatchReadPlan =
  bp_request_id :: string
  bp_libraries :: "LibraryReadPlan list"

datatype workflow_error =
    FileIds | CachedExtents | ArchivedExtents | InvalidOpticalExtent | NamespaceLeafIds | ManifestIds
  | InvalidOrDuplicateChunk | SliceOutsideSegment | PlanIds | PlanLibrary | EmptyDiscGroup | InvalidReadOperation

section \<open>Validators\<close>

definition extent_ok :: "OpticalFileExtent \<Rightarrow> bool" where
  "extent_ok extent \<longleftrightarrow> \<not> (\<not> IsValidOpticalLibraryId (oe_library_id extent) \<or> oe_disc_id extent = kNoOpticalDisc \<or>
     \<not> IsValidOpticalImageId (oe_image_id extent) \<or> oe_length extent = 0)"

definition ValidateFileRecord :: "FileRecord \<Rightarrow> workflow_error + unit" where
  "ValidateFileRecord rec =
     (if IsZeroFileId (fr_file_id rec) \<or> pa_inode_id (fr_attributes rec) = 0 then Inl FileIds
      else if fr_state rec = kFileCached
      then (if fp_tier (fr_placement rec) \<noteq> kTierMagnetic \<or> fp_cached_extents (fr_placement rec) = [] then Inl CachedExtents
            else Inr ())
      else if fr_state rec = kFileArchived
      then (if fp_tier (fr_placement rec) \<noteq> kTierOptical \<or> fp_optical_extents (fr_placement rec) = [] then Inl ArchivedExtents
            else if \<not> list_all extent_ok (fp_optical_extents (fr_placement rec)) then Inl InvalidOpticalExtent
            else Inr ())
      else Inr ())"

definition ValidateNamespaceLeaf :: "NamespaceLeaf \<Rightarrow> workflow_error + unit" where
  "ValidateNamespaceLeaf leaf =
     (if \<not> IsValidOpticalLibraryId (nl_library_id leaf) \<or> nl_bundle_id leaf = 0 \<or> nl_file_count leaf = 0
      then Inl NamespaceLeafIds else Inr ())"

definition slice_outside :: "TransferChunk \<Rightarrow> ChunkFileSlice \<Rightarrow> bool" where
  "slice_outside chunk part \<longleftrightarrow> IsZeroFileId (cf_file_id part) \<or> cf_length part = 0 \<or>
     cf_chunk_offset part > ss_length (tc_source chunk) \<or>
     cf_length part > ss_length (tc_source chunk) - cf_chunk_offset part"

fun check_chunks :: "TransferChunk list \<Rightarrow> string list \<Rightarrow> workflow_error + unit" where
  "check_chunks [] ids = Inr ()"
| "check_chunks (chunk # chunks) ids =
     (if tc_chunk_id chunk = [] \<or> tc_chunk_id chunk \<in> set ids \<or> ss_node_id (tc_source chunk) = [] \<or>
         ss_length (tc_source chunk) = 0 \<or> tc_files chunk = [] then Inl InvalidOrDuplicateChunk
      else if list_ex (slice_outside chunk) (tc_files chunk) then Inl SliceOutsideSegment
      else check_chunks chunks (tc_chunk_id chunk # ids))"

definition ValidateSegmentManifest :: "SegmentManifest \<Rightarrow> workflow_error + unit" where
  "ValidateSegmentManifest manifest =
     (if sm_migration_id manifest = [] \<or> \<not> IsValidOpticalLibraryId (sm_target_library_id manifest) \<or> sm_chunks manifest = []
      then Inl ManifestIds else check_chunks (sm_chunks manifest) [])"

text \<open>The nested loops of the read plan, innermost first; the first failing check decides the error.\<close>

fun check_operations :: "ReadOperation list \<Rightarrow> workflow_error + unit" where
  "check_operations [] = Inr ()"
| "check_operations (operation # operations) =
     (if \<not> IsValidOpticalImageId (ro_image_id operation) \<or> ro_length operation = 0 then Inl InvalidReadOperation
      else check_operations operations)"

fun check_disc_groups :: "DiscReadGroup list \<Rightarrow> workflow_error + unit" where
  "check_disc_groups [] = Inr ()"
| "check_disc_groups (disc # discs) =
     (if dr_disc_id disc = kNoOpticalDisc \<or> dr_operations disc = [] then Inl EmptyDiscGroup
      else case check_operations (dr_operations disc) of Inl e \<Rightarrow> Inl e | Inr u \<Rightarrow> check_disc_groups discs)"

fun check_libraries :: "LibraryReadPlan list \<Rightarrow> workflow_error + unit" where
  "check_libraries [] = Inr ()"
| "check_libraries (library # libraries) =
     (if \<not> IsValidOpticalLibraryId (lp_library_id library) \<or> lp_disc_groups library = [] then Inl PlanLibrary
      else case check_disc_groups (lp_disc_groups library) of Inl e \<Rightarrow> Inl e | Inr u \<Rightarrow> check_libraries libraries)"

definition ValidateBatchReadPlan :: "BatchReadPlan \<Rightarrow> workflow_error + unit" where
  "ValidateBatchReadPlan plan =
     (if bp_request_id plan = [] \<or> bp_libraries plan = [] then Inl PlanIds else check_libraries (bp_libraries plan))"

section \<open>What the validators accept\<close>

definition slice_inside :: "TransferChunk \<Rightarrow> ChunkFileSlice \<Rightarrow> bool" where
  "slice_inside chunk part \<longleftrightarrow> \<not> IsZeroFileId (cf_file_id part) \<and> 0 < unat (cf_length part) \<and>
     unat (cf_chunk_offset part) + unat (cf_length part) \<le> unat (ss_length (tc_source chunk))"

lemma slice_outside_iff: "slice_outside chunk part \<longleftrightarrow> \<not> slice_inside chunk part"
proof (cases "cf_chunk_offset part \<le> ss_length (tc_source chunk)")
  case True
  then show ?thesis
    by (auto simp: slice_outside_def slice_inside_def unat_gt_0 word_less_nat_alt word_le_nat_alt unat_sub_no_wrap)
next
  case False
  then show ?thesis by (auto simp: slice_outside_def slice_inside_def word_le_nat_alt not_le word_less_nat_alt)
qed

lemma check_chunks_iff:
  "check_chunks chunks ids = Inr () \<longleftrightarrow> distinct (map tc_chunk_id chunks) \<and> set (map tc_chunk_id chunks) \<inter> set ids = {} \<and>
     (\<forall>chunk \<in> set chunks. tc_chunk_id chunk \<noteq> [] \<and> ss_node_id (tc_source chunk) \<noteq> [] \<and> tc_files chunk \<noteq> [] \<and>
        (\<forall>part \<in> set (tc_files chunk). slice_inside chunk part))"
proof (induction chunks arbitrary: ids)
  case (Cons chunk chunks)
  have "\<exists>part \<in> set (tc_files chunk). slice_outside chunk part"
    if "tc_files chunk \<noteq> []" "ss_length (tc_source chunk) = 0"
    using that by (cases "tc_files chunk") (auto simp: slice_outside_iff slice_inside_def)
  then show ?case by (auto simp: Cons.IH list_ex_iff slice_outside_iff)
qed simp

text \<open>A segment manifest is accepted exactly when its chunks have different ids and every file slice lies
  within its chunk, with offset and length added as numbers.\<close>

theorem ValidateSegmentManifest_iff:
  "ValidateSegmentManifest manifest = Inr () \<longleftrightarrow> sm_migration_id manifest \<noteq> [] \<and>
     IsValidOpticalLibraryId (sm_target_library_id manifest) \<and> sm_chunks manifest \<noteq> [] \<and>
     distinct (map tc_chunk_id (sm_chunks manifest)) \<and>
     (\<forall>chunk \<in> set (sm_chunks manifest). tc_chunk_id chunk \<noteq> [] \<and> ss_node_id (tc_source chunk) \<noteq> [] \<and> tc_files chunk \<noteq> [] \<and>
        (\<forall>part \<in> set (tc_files chunk). slice_inside chunk part))"
  by (auto simp: ValidateSegmentManifest_def check_chunks_iff)

lemma check_operations_iff:
  "check_operations ops = Inr () \<longleftrightarrow> (\<forall>x \<in> set ops. IsValidOpticalImageId (ro_image_id x) \<and> ro_length x \<noteq> 0)"
  by (induction ops) auto

lemma check_disc_groups_iff:
  "check_disc_groups discs = Inr () \<longleftrightarrow> (\<forall>disc \<in> set discs. dr_disc_id disc \<noteq> kNoOpticalDisc \<and> dr_operations disc \<noteq> [] \<and>
     (\<forall>x \<in> set (dr_operations disc). IsValidOpticalImageId (ro_image_id x) \<and> ro_length x \<noteq> 0))"
  by (induction discs) (auto simp: check_operations_iff[symmetric] split: sum.splits)

lemma check_libraries_iff:
  "check_libraries libs = Inr () \<longleftrightarrow>
     (\<forall>lib \<in> set libs. IsValidOpticalLibraryId (lp_library_id lib) \<and> lp_disc_groups lib \<noteq> [] \<and> check_disc_groups (lp_disc_groups lib) = Inr ())"
  by (induction libs) (auto split: sum.splits)

text \<open>A batch read plan is accepted exactly when every read names a valid library, a disc and a valid image and
  reads something, and no group of it is empty.\<close>

theorem ValidateBatchReadPlan_iff:
  "ValidateBatchReadPlan plan = Inr () \<longleftrightarrow> bp_request_id plan \<noteq> [] \<and> bp_libraries plan \<noteq> [] \<and>
     (\<forall>lib \<in> set (bp_libraries plan). IsValidOpticalLibraryId (lp_library_id lib) \<and> lp_disc_groups lib \<noteq> [] \<and>
        (\<forall>disc \<in> set (lp_disc_groups lib). dr_disc_id disc \<noteq> kNoOpticalDisc \<and> dr_operations disc \<noteq> [] \<and>
           (\<forall>x \<in> set (dr_operations disc). IsValidOpticalImageId (ro_image_id x) \<and> ro_length x \<noteq> 0)))"
  by (auto simp: ValidateBatchReadPlan_def check_libraries_iff check_disc_groups_iff)

section \<open>Instances\<close>

definition sample_manifest :: "u64 \<Rightarrow> SegmentManifest" where
  "sample_manifest offset = \<lparr>sm_migration_id = ''m'', sm_root_prefix = [], sm_target_library_id = 1, sm_create_time_ms = 0,
     sm_chunks = [\<lparr>tc_chunk_id = ''c'', tc_source = \<lparr>ss_node_id = ''n'', ss_start_offset = 0, ss_length = 10\<rparr>,
       tc_files = [\<lparr>cf_file_id = \<lparr>fid_user_id = 1, fid_namespace_id = 0, fid_directory_path_hash = [], fid_file_name_hash = []\<rparr>,
         cf_chunk_offset = offset, cf_file_offset = 0, cf_length = 5\<rparr>], tc_checksum_crc32 = 0\<rparr>]\<rparr>"

theorem ValidateSegmentManifest_iff_witness:
  "ValidateSegmentManifest (sample_manifest 5) = Inr () \<and> ValidateSegmentManifest (sample_manifest 0xffffffffffffffff) \<noteq> Inr ()"
  unfolding ValidateSegmentManifest_iff
  by (simp add: sample_manifest_def slice_inside_def IsZeroFileId_def IsValidOpticalLibraryId_def)

theorem ValidateBatchReadPlan_iff_witness:
  "ValidateBatchReadPlan \<lparr>bp_request_id = ''r'', bp_libraries = [\<lparr>lp_library_id = 1, lp_disc_groups = [\<lparr>dr_disc_id = 1,
     dr_slot_index = 0, dr_operations = [\<lparr>ro_file_id = \<lparr>fid_user_id = 0, fid_namespace_id = 0, fid_directory_path_hash = [],
     fid_file_name_hash = []\<rparr>, ro_image_id = 1, ro_image_offset = 0, ro_length = 8\<rparr>]\<rparr>]\<rparr>]\<rparr> = Inr ()"
  unfolding ValidateBatchReadPlan_iff by (simp add: IsValidOpticalLibraryId_def IsValidOpticalImageId_def)

end
