(* ===== verification/Node_Cache.thy ===== *)
theory Node_Cache
  imports ZB_Prelude "HOL-Library.Sublist"
begin

text \<open>
  The metadata server's view of the data nodes and the choice of nodes for new objects:
  \<open>NodeInfo\<close> of \<open>src/src/mds/config/MdsConfig.h\<close> and \<open>src/src/mds/allocator/NodeStateCache.{h,cpp}\<close>.
  A node of a pooled type stands for several virtual nodes, named by the node id, \<open>-v\<close> and an index.
  Nodes are picked by weighted round robin.  Shown here: what is picked comes from nodes that admit writes
  and from disks that can take them, as many as asked for as soon as one node does; and which node a virtual
  node id resolves to.
\<close>

section \<open>Nodes\<close>

datatype MdsNodeType = kRealNode | kVirtualNode | kOpticalNode

record DiskInfo =
  dk_disk_id :: string
  dk_capacity_bytes :: u64
  dk_free_bytes :: u64
  dk_is_healthy :: bool

record NodeInfo =
  nf_node_id :: string
  nf_address :: string
  nf_group_id :: string
  nf_type :: MdsNodeType
  nf_weight :: u32
  nf_virtual_node_count :: u32
  nf_next_virtual_index :: u64
  nf_allocatable :: bool
  nf_is_primary :: bool
  nf_sync_ready :: bool
  nf_epoch :: u64
  nf_secondary_node_id :: string
  nf_secondary_address :: string
  nf_disks :: "DiskInfo list"
  nf_next_disk_index :: nat

record NodeSelection =
  se_node_id :: string
  se_address :: string
  se_disk_id :: string
  se_group_id :: string
  se_epoch :: u64
  se_secondary_node_id :: string
  se_secondary_address :: string
  se_sync_ready :: bool
  se_type :: MdsNodeType

definition empty_selection :: NodeSelection where
  "empty_selection = \<lparr>se_node_id = [], se_address = [], se_disk_id = [], se_group_id = [], se_epoch = 1,
     se_secondary_node_id = [], se_secondary_address = [], se_sync_ready = False, se_type = kRealNode\<rparr>"

record NodeStateCache =
  nc_nodes :: "NodeInfo list"
  nc_next_node_index :: nat
  nc_repeat_remaining :: u32

definition new_cache :: "NodeInfo list \<Rightarrow> NodeStateCache" where
  "new_cache nodes = \<lparr>nc_nodes = nodes, nc_next_node_index = 0, nc_repeat_remaining = 0\<rparr>"

definition Cache_Snapshot :: "NodeStateCache \<Rightarrow> NodeInfo list" where
  "Cache_Snapshot c = nc_nodes c"

definition IsVirtualizedNodeType :: "MdsNodeType \<Rightarrow> bool" where
  "IsVirtualizedNodeType type \<longleftrightarrow> type = kVirtualNode \<or> type = kOpticalNode"

definition BuildVirtualNodeId :: "string \<Rightarrow> u64 \<Rightarrow> string" where
  "BuildVirtualNodeId base_node_id virtual_index = base_node_id @ ''-v'' @ to_string virtual_index"

text \<open>The local variable \<open>writable\<close> of the loops over disks: a disk that reports no capacity counts as
  writable.\<close>

definition disk_writable :: "DiskInfo \<Rightarrow> bool" where
  "disk_writable disk \<longleftrightarrow>
     (let free_known = dk_capacity_bytes disk > 0 \<or> dk_free_bytes disk > 0 in dk_free_bytes disk > 0 \<or> \<not> free_known)"

definition disk_usable :: "DiskInfo \<Rightarrow> bool" where
  "disk_usable disk \<longleftrightarrow> dk_is_healthy disk \<and> disk_writable disk \<and> dk_disk_id disk \<noteq> []"

definition Cache_IsNodeAllocatable :: "NodeInfo \<Rightarrow> MdsNodeType \<Rightarrow> bool \<Rightarrow> bool" where
  "Cache_IsNodeAllocatable node type_filter strict_type_filter =
     (if \<not> nf_allocatable node \<or> \<not> nf_is_primary node then False
      else if \<not> list_ex disk_usable (nf_disks node) then False
      else if strict_type_filter then nf_type node = type_filter
      else nf_type node \<noteq> type_filter)"

section \<open>Lookup\<close>

text \<open>The digits at the end of a text, as a 32-bit number.\<close>

definition Cache_TryParseTrailingUint32 :: "string \<Rightarrow> u32 option" where
  "Cache_TryParseTrailingUint32 text =
     (let digits = rev (takeWhile is_digit (rev text))
      in if digits = [] \<or> dec_val digits \<ge> 2 ^ 64 \<or> dec_val digits \<ge> 2 ^ 32 then None else Some (of_nat (dec_val digits)))"

definition virtual_of :: "string \<Rightarrow> NodeInfo \<Rightarrow> bool" where
  "virtual_of node_id node \<longleftrightarrow>
     (let pre = nf_node_id node @ ''-v'' in length node_id > length pre \<and> prefix pre node_id)"

definition MatchNodeForLocationLocked :: "NodeInfo list \<Rightarrow> string \<Rightarrow> NodeInfo option" where
  "MatchNodeForLocationLocked nodes node_id =
     (case find (\<lambda>node. nf_node_id node = node_id) nodes of
        Some node \<Rightarrow> Some node
      | None \<Rightarrow> find (virtual_of node_id) nodes)"

definition FormatLegacyPaddedDiskId :: "u32 \<Rightarrow> string" where
  "FormatLegacyPaddedDiskId numeric_disk_id =
     (let digits = to_string numeric_disk_id in ''disk-'' @ replicate (2 - length digits) CHR ''0'' @ digits)"

definition Cache_ResolveNodeAddress :: "NodeStateCache \<Rightarrow> string \<Rightarrow> string option" where
  "Cache_ResolveNodeAddress c node_id =
     (if node_id = [] then None
      else case find (\<lambda>node. nf_node_id node = node_id) (nc_nodes c) of
             Some node \<Rightarrow> if nf_address node = [] then None else Some (nf_address node)
           | None \<Rightarrow>
               (case find (virtual_of node_id) (nc_nodes c) of
                  Some node \<Rightarrow> if nf_address node = [] then None else Some (nf_address node)
                | None \<Rightarrow> None))"

definition Cache_ResolveDiskId :: "NodeStateCache \<Rightarrow> string \<Rightarrow> u32 \<Rightarrow> string option" where
  "Cache_ResolveDiskId c node_id numeric_disk_id =
     (if node_id = [] \<or> numeric_disk_id = 0 then None
      else case MatchNodeForLocationLocked (nc_nodes c) node_id of
             None \<Rightarrow> None
           | Some node \<Rightarrow>
               (case find (\<lambda>disk. Cache_TryParseTrailingUint32 (dk_disk_id disk) = Some numeric_disk_id) (nf_disks node) of
                  Some disk \<Rightarrow> Some (dk_disk_id disk)
                | None \<Rightarrow>
                    (case find (\<lambda>disk. dk_disk_id disk = ''disk'' @ to_string numeric_disk_id) (nf_disks node) of
                       Some disk \<Rightarrow> Some (dk_disk_id disk)
                     | None \<Rightarrow> map_option dk_disk_id
                         (find (\<lambda>disk. dk_disk_id disk = FormatLegacyPaddedDiskId numeric_disk_id) (nf_disks node)))))"

definition Cache_IsWriteAdmitted :: "NodeStateCache \<Rightarrow> string \<Rightarrow> bool" where
  "Cache_IsWriteAdmitted c node_id =
     (if node_id = [] then False
      else case MatchNodeForLocationLocked (nc_nodes c) node_id of
             None \<Rightarrow> False
           | Some node \<Rightarrow> Cache_IsNodeAllocatable node (nf_type node) True)"

definition ReplaceNodes :: "NodeInfo list \<Rightarrow> NodeStateCache \<Rightarrow> NodeStateCache" where
  "ReplaceNodes nodes c = c\<lparr>nc_nodes := nodes, nc_next_node_index := 0, nc_repeat_remaining := 0\<rparr>"

section \<open>Selection\<close>

definition PickDiskLocked :: "NodeInfo \<Rightarrow> u64 \<Rightarrow> string \<times> NodeInfo" where
  "PickDiskLocked node virtual_index =
     (if nf_disks node = [] then (''disk-01'', node)
      else let n = length (nf_disks node);
               start = nf_next_disk_index node mod n + unat virtual_index mod n
           in case find (\<lambda>i. disk_usable (nf_disks node ! ((start + i) mod n))) [0..<n] of
                None \<Rightarrow> ([], node)
              | Some i \<Rightarrow> let index = (start + i) mod n
                          in (dk_disk_id (nf_disks node ! index), node\<lparr>nf_next_disk_index := (index + 1) mod n\<rparr>))"

text \<open>The scan for the next node that may be picked; the first argument counts the nodes left to scan.\<close>

fun scan_nodes :: "nat \<Rightarrow> MdsNodeType \<Rightarrow> bool \<Rightarrow> NodeStateCache \<Rightarrow> nat option \<times> NodeStateCache" where
  "scan_nodes 0 type strict c = (None, c)"
| "scan_nodes (Suc k) type strict c =
     (let n = length (nc_nodes c); i = nc_next_node_index c mod n
      in if Cache_IsNodeAllocatable (nc_nodes c ! i) type strict then (Some i, c)
         else scan_nodes k type strict (c\<lparr>nc_next_node_index := (nc_next_node_index c + 1) mod n, nc_repeat_remaining := 0\<rparr>))"

text \<open>The identity of the selected node and the advance of its virtual index.\<close>

definition take_virtual :: "NodeInfo \<Rightarrow> string \<times> u64 \<times> NodeInfo" where
  "take_virtual node =
     (if IsVirtualizedNodeType (nf_type node)
      then let total_virtual_nodes = max 1 (nf_virtual_node_count node);
               virtual_index = nf_next_virtual_index node mod ucast total_virtual_nodes
           in (BuildVirtualNodeId (nf_node_id node) virtual_index, virtual_index,
               node\<lparr>nf_next_virtual_index := (nf_next_virtual_index node + 1) mod ucast total_virtual_nodes\<rparr>)
      else (nf_node_id node, 0, node))"

definition NextSelectionLocked :: "MdsNodeType \<Rightarrow> bool \<Rightarrow> NodeStateCache \<Rightarrow> NodeSelection \<times> NodeStateCache" where
  "NextSelectionLocked type strict c =
     (if nc_nodes c = [] then (empty_selection, c)
      else case scan_nodes (length (nc_nodes c)) type strict c of
             (None, c1) \<Rightarrow> (empty_selection, c1)
           | (Some i, c1) \<Rightarrow>
               let node = nc_nodes c1 ! i;
                   left = (if nc_repeat_remaining c1 = 0 then max 1 (nf_weight node) else nc_repeat_remaining c1);
                   (node_id, virtual_index, node1) = take_virtual node;
                   (disk_id, node2) = PickDiskLocked node1 virtual_index;
                   selection = \<lparr>se_node_id = node_id, se_address = nf_address node, se_disk_id = disk_id,
                     se_group_id = (if nf_group_id node = [] then nf_node_id node else nf_group_id node),
                     se_epoch = nf_epoch node, se_secondary_node_id = nf_secondary_node_id node,
                     se_secondary_address = nf_secondary_address node, se_sync_ready = nf_sync_ready node, se_type = nf_type node\<rparr>
               in (selection, c1\<lparr>nc_nodes := (nc_nodes c1)[i := node2], nc_repeat_remaining := left - 1,
                     nc_next_node_index := (if left - 1 = 0 then (nc_next_node_index c1 + 1) mod length (nc_nodes c1)
                                            else nc_next_node_index c1)\<rparr>))"

definition EstimateLogicalNodeCountLocked :: "MdsNodeType \<Rightarrow> bool \<Rightarrow> NodeStateCache \<Rightarrow> u64" where
  "EstimateLogicalNodeCountLocked type strict c =
     foldl (\<lambda>total node. if \<not> Cache_IsNodeAllocatable node type strict then total
                        else if IsVirtualizedNodeType (nf_type node) then total + ucast (max 1 (nf_virtual_node_count node))
                        else total + 1) 0 (nc_nodes c)"

definition EstimateWeightSumLocked :: "MdsNodeType \<Rightarrow> bool \<Rightarrow> NodeStateCache \<Rightarrow> u64" where
  "EstimateWeightSumLocked type strict c =
     max 1 (foldl (\<lambda>total node. if \<not> Cache_IsNodeAllocatable node type strict then total
                               else total + ucast (max 1 (nf_weight node))) 0 (nc_nodes c))"

text \<open>The first loop collects different nodes for at most the given number of attempts, the second fills up
  with repetitions; a selection without node id stops either.\<close>

fun pick_unique ::
  "nat \<Rightarrow> nat \<Rightarrow> MdsNodeType \<Rightarrow> bool \<Rightarrow> NodeSelection list \<Rightarrow> NodeStateCache \<Rightarrow> NodeSelection list \<times> NodeStateCache" where
  "pick_unique 0 unique_target type strict picked c = (picked, c)"
| "pick_unique (Suc attempts) unique_target type strict picked c =
     (if length picked \<ge> unique_target then (picked, c)
      else case NextSelectionLocked type strict c of
             (selection, c1) \<Rightarrow>
               if se_node_id selection = [] then (picked, c1)
               else if se_node_id selection \<in> set (map se_node_id picked) then pick_unique attempts unique_target type strict picked c1
               else pick_unique attempts unique_target type strict (picked @ [selection]) c1)"

fun pick_fill :: "nat \<Rightarrow> MdsNodeType \<Rightarrow> bool \<Rightarrow> NodeSelection list \<Rightarrow> NodeStateCache \<Rightarrow> NodeSelection list \<times> NodeStateCache" where
  "pick_fill 0 type strict picked c = (picked, c)"
| "pick_fill (Suc missing) type strict picked c =
     (case NextSelectionLocked type strict c of
        (selection, c1) \<Rightarrow>
          if se_node_id selection = [] then (picked, c1)
          else pick_fill missing type strict (picked @ [selection]) c1)"

definition pick_nodes :: "u32 \<Rightarrow> MdsNodeType \<Rightarrow> bool \<Rightarrow> NodeStateCache \<Rightarrow> NodeSelection list \<times> NodeStateCache" where
  "pick_nodes count type strict c =
     (if nc_nodes c = [] \<or> count = 0 then ([], c)
      else let unique_target = min (ucast count) (EstimateLogicalNodeCountLocked type strict c);
               max_attempts = min (max 64 (unique_target * EstimateWeightSumLocked type strict c * 2)) 1000000
           in case pick_unique (unat max_attempts) (unat unique_target) type strict [] c of
                (picked, c1) \<Rightarrow> pick_fill (unat count - length picked) type strict picked c1)"

definition PickNodes :: "u32 \<Rightarrow> NodeStateCache \<Rightarrow> NodeSelection list \<times> NodeStateCache" where
  "PickNodes count c = pick_nodes count kOpticalNode False c"

definition PickNodesByType :: "u32 \<Rightarrow> MdsNodeType \<Rightarrow> NodeStateCache \<Rightarrow> NodeSelection list \<times> NodeStateCache" where
  "PickNodesByType count type c = pick_nodes count type True c"

section \<open>One selection\<close>

lemma mod_cover: "m < n \<Longrightarrow> \<exists>j<n. (a + j) mod n = (m :: nat)"
proof -
  assume m: "m < n"
  have "(a + (m + n - a mod n) mod n) mod n = (a mod n + (m + n - a mod n)) mod n" by presburger
  also have "\<dots> = (m + n) mod n" using m by (simp add: less_imp_le_nat trans_le_add2)
  finally show ?thesis using m by (intro exI[of _ "(m + n - a mod n) mod n"]) simp
qed

text \<open>Selections only move the cursors of a node.\<close>

definition same_node :: "NodeInfo \<Rightarrow> NodeInfo \<Rightarrow> bool" where
  "same_node node node' \<longleftrightarrow> (\<exists>v d. node' = node\<lparr>nf_next_virtual_index := v, nf_next_disk_index := d\<rparr>)"

lemma same_node_refl [simp]: "same_node node node"
  unfolding same_node_def by (intro exI[of _ "nf_next_virtual_index node"] exI[of _ "nf_next_disk_index node"]) simp

lemma same_node_update [simp]: "same_node node (node\<lparr>nf_next_disk_index := x\<rparr>)" "same_node node (node\<lparr>nf_next_virtual_index := v\<rparr>)"
  unfolding same_node_def
  by (intro exI[of _ "nf_next_virtual_index node"] exI[of _ x], simp) (intro exI[of _ v] exI[of _ "nf_next_disk_index node"], simp)

lemma same_node_trans: "same_node a b \<Longrightarrow> same_node b c \<Longrightarrow> same_node a c"
  unfolding same_node_def by (elim exE) (simp, blast)

lemma same_nodeD:
  assumes "same_node a b"
  shows "nf_node_id b = nf_node_id a" "nf_address b = nf_address a" "nf_group_id b = nf_group_id a" "nf_type b = nf_type a"
    "nf_virtual_node_count b = nf_virtual_node_count a" "nf_disks b = nf_disks a"
    "Cache_IsNodeAllocatable b type strict = Cache_IsNodeAllocatable a type strict"
  using assms by (auto simp: same_node_def Cache_IsNodeAllocatable_def)

definition comes_from :: "MdsNodeType \<Rightarrow> bool \<Rightarrow> NodeSelection \<Rightarrow> NodeInfo \<Rightarrow> bool" where
  "comes_from type strict s node \<longleftrightarrow> Cache_IsNodeAllocatable node type strict \<and> se_address s = nf_address node \<and>
     se_type s = nf_type node \<and> se_group_id s = (if nf_group_id node = [] then nf_node_id node else nf_group_id node) \<and>
     (if IsVirtualizedNodeType (nf_type node)
      then \<exists>i. unat i < max 1 (unat (nf_virtual_node_count node)) \<and> se_node_id s = BuildVirtualNodeId (nf_node_id node) i
      else se_node_id s = nf_node_id node) \<and>
     (\<exists>disk \<in> set (nf_disks node). disk_usable disk \<and> se_disk_id s = dk_disk_id disk)"

lemma comes_from_same: "same_node a b \<Longrightarrow> comes_from type strict s b \<longleftrightarrow> comes_from type strict s a"
  unfolding comes_from_def by (simp add: same_nodeD)

lemma scan_nodes_found:
  assumes "scan_nodes k type strict c = (r, c')" "nc_nodes c \<noteq> []"
  shows "nc_nodes c' = nc_nodes c \<and> (case r of
      Some i \<Rightarrow> i < length (nc_nodes c) \<and> Cache_IsNodeAllocatable (nc_nodes c ! i) type strict
    | None \<Rightarrow> \<forall>j<k. \<not> Cache_IsNodeAllocatable (nc_nodes c ! ((nc_next_node_index c + j) mod length (nc_nodes c))) type strict)"
  using assms
proof (induction k arbitrary: c)
  case (Suc k)
  let ?n = "length (nc_nodes c)" and ?i = "nc_next_node_index c mod length (nc_nodes c)"
  show ?case
  proof (cases "Cache_IsNodeAllocatable (nc_nodes c ! ?i) type strict")
    case True
    then show ?thesis using Suc.prems by (auto simp: Let_def)
  next
    case False
    let ?c = "c\<lparr>nc_next_node_index := (nc_next_node_index c + 1) mod ?n, nc_repeat_remaining := 0\<rparr>"
    have "scan_nodes k type strict ?c = (r, c')" using False Suc.prems(1) by (simp add: Let_def)
    from Suc.IH[OF this] Suc.prems(2) have ih: "nc_nodes c' = nc_nodes c \<and> (case r of
        Some i \<Rightarrow> i < ?n \<and> Cache_IsNodeAllocatable (nc_nodes c ! i) type strict
      | None \<Rightarrow> \<forall>j<k. \<not> Cache_IsNodeAllocatable (nc_nodes c ! (((nc_next_node_index c + 1) mod ?n + j) mod ?n)) type strict)"
      by (cases r) simp_all
    define P where "P m \<longleftrightarrow> \<not> Cache_IsNodeAllocatable (nc_nodes c ! m) type strict" for m
    have "\<forall>j<Suc k. P ((nc_next_node_index c + j) mod ?n)" if "\<forall>j<k. P (((nc_next_node_index c + 1) mod ?n + j) mod ?n)"
      using that False by (auto simp: less_Suc_eq_0_disj mod_add_left_eq P_def)
    then show ?thesis using ih by (cases r) (simp_all add: P_def)
  qed
qed simp

lemma PickDiskLocked_usable:
  assumes "list_ex disk_usable (nf_disks node)" "PickDiskLocked node v = (d, node')"
  shows "(\<exists>disk \<in> set (nf_disks node). disk_usable disk \<and> d = dk_disk_id disk) \<and> same_node node node'"
proof -
  let ?n = "length (nf_disks node)"
  let ?start = "nf_next_disk_index node mod ?n + unat v mod ?n"
  let ?P = "\<lambda>i. disk_usable (nf_disks node ! ((?start + i) mod ?n))"
  obtain m where m: "m < ?n" "disk_usable (nf_disks node ! m)" using assms(1) by (auto simp: list_ex_length)
  then obtain j where "j < ?n" "?P j" using mod_cover[OF m(1), of ?start] by auto
  then have "find ?P [0..<?n] \<noteq> None" by (auto simp: find_None_iff)
  then obtain i where i: "find ?P [0..<?n] = Some i" by blast
  then have "?P i" by (auto simp: find_Some_iff)
  have ne: "nf_disks node \<noteq> []" using m(1) by auto
  note \<open>?P i\<close>
  moreover have "d = dk_disk_id (nf_disks node ! ((?start + i) mod ?n))"
      "node' = node\<lparr>nf_next_disk_index := ((?start + i) mod ?n + 1) mod ?n\<rparr>"
    using assms(2) by (simp_all add: PickDiskLocked_def Let_def ne i)
  moreover have "(?start + i) mod ?n < ?n" using ne by (intro mod_less_divisor) simp
  ultimately show ?thesis by (auto intro!: bexI[of _ "nf_disks node ! ((?start + i) mod ?n)"])
qed

lemma take_virtual_node:
  assumes "take_virtual node = (node_id, v, node')"
  shows "same_node node node' \<and> (if IsVirtualizedNodeType (nf_type node)
    then unat v < max 1 (unat (nf_virtual_node_count node)) \<and> node_id = BuildVirtualNodeId (nf_node_id node) v
    else node_id = nf_node_id node)"
proof -
  let ?t = "ucast (max 1 (nf_virtual_node_count node)) :: u64"
  have m: "unat (max 1 w) = max 1 (unat w)" for w :: u32 by (simp add: max_def word_le_nat_alt)
  have t: "unat ?t = max 1 (unat (nf_virtual_node_count node))" by (simp add: unat_ucast_up m)
  have "unat (x mod ?t) < unat ?t" for x by (simp add: unat_mod t)
  then show ?thesis using assms t by (auto simp: take_virtual_def Let_def split: if_splits)
qed

text \<open>A selection without node that admits writes is empty; otherwise it comes from such a node, and the nodes
  only move their cursors.\<close>

lemma NextSelectionLocked_sound:
  assumes "NextSelectionLocked type strict c = (s, c')"
  shows "list_all2 same_node (nc_nodes c) (nc_nodes c') \<and>
    (if list_ex (\<lambda>node. Cache_IsNodeAllocatable node type strict) (nc_nodes c)
     then \<exists>node \<in> set (nc_nodes c). comes_from type strict s node else s = empty_selection)"
proof (cases "nc_nodes c = []")
  case True
  then show ?thesis using assms by (simp add: NextSelectionLocked_def)
next
  case False
  let ?n = "length (nc_nodes c)"
  obtain r c1 where scan: "scan_nodes ?n type strict c = (r, c1)" by force
  note found = scan_nodes_found[OF scan False]
  show ?thesis
  proof (cases r)
    case None
    have "\<not> Cache_IsNodeAllocatable (nc_nodes c ! m) type strict" if "m < ?n" for m
      using mod_cover[OF that, of "nc_next_node_index c"] found None by auto
    then have "\<not> list_ex (\<lambda>node. Cache_IsNodeAllocatable node type strict) (nc_nodes c)" by (auto simp: list_ex_length)
    then show ?thesis using assms False scan None found by (auto simp: NextSelectionLocked_def list_all2_refl)
  next
    case (Some i)
    define node where "node = nc_nodes c1 ! i"
    obtain node_id v node1 where tv: "take_virtual node = (node_id, v, node1)" by (metis prod_cases3)
    obtain d node2 where pd: "PickDiskLocked node1 v = (d, node2)" by force
    have node: "i < ?n" "nc_nodes c1 = nc_nodes c" "node = nc_nodes c ! i" "Cache_IsNodeAllocatable node type strict"
      using found Some by (auto simp: node_def)
    note tv' = take_virtual_node[OF tv]
    have "list_ex disk_usable (nf_disks node1)"
      using node(4) tv' by (auto simp: Cache_IsNodeAllocatable_def same_nodeD split: if_splits)
    note pd' = PickDiskLocked_usable[OF this pd]
    have s: "se_node_id s = node_id" "se_address s = nf_address node" "se_disk_id s = d" "se_type s = nf_type node"
        "se_group_id s = (if nf_group_id node = [] then nf_node_id node else nf_group_id node)"
        "nc_nodes c' = (nc_nodes c)[i := node2]"
      using assms False scan Some tv[unfolded node(3)] pd node(2) by (auto simp: NextSelectionLocked_def Let_def node(3))
    have same: "same_node node node2" using tv' pd' same_node_trans by blast
    have "comes_from type strict s node"
      unfolding comes_from_def using node(4) tv' pd' s by (auto simp: same_nodeD)
    moreover have "node \<in> set (nc_nodes c)" using node by simp
    moreover have "list_all2 same_node (nc_nodes c) (nc_nodes c')"
      using same node by (auto simp: s(6) list_all2_conv_all_nth nth_list_update)
    moreover have "list_ex (\<lambda>node. Cache_IsNodeAllocatable node type strict) (nc_nodes c)"
      using node by (auto simp: list_ex_iff)
    ultimately show ?thesis by auto
  qed
qed

section \<open>Picking several nodes\<close>

lemma same_nodes_refl: "list_all2 same_node nodes nodes"
  by (simp add: list_all2_refl)

lemma same_nodes_trans: "list_all2 same_node a b \<Longrightarrow> list_all2 same_node b c \<Longrightarrow> list_all2 same_node a c"
  using list_all2_trans[of same_node same_node same_node] same_node_trans by blast

lemma same_nodes_ex:
  "list_all2 same_node a b \<Longrightarrow> (\<exists>node \<in> set b. comes_from type strict s node) \<longleftrightarrow> (\<exists>node \<in> set a. comes_from type strict s node)"
  "list_all2 same_node a b \<Longrightarrow> list_ex (\<lambda>node. Cache_IsNodeAllocatable node type strict) b \<longleftrightarrow>
     list_ex (\<lambda>node. Cache_IsNodeAllocatable node type strict) a"
  by (induction a b rule: list_all2_induct) (auto simp: comes_from_same same_nodeD)

abbreviation admits :: "MdsNodeType \<Rightarrow> bool \<Rightarrow> NodeInfo list \<Rightarrow> bool" where
  "admits type strict nodes \<equiv> list_ex (\<lambda>node. Cache_IsNodeAllocatable node type strict) nodes"

abbreviation picked_from :: "MdsNodeType \<Rightarrow> bool \<Rightarrow> NodeInfo list \<Rightarrow> NodeSelection \<Rightarrow> bool" where
  "picked_from type strict nodes s \<equiv> \<exists>node \<in> set nodes. comes_from type strict s node"

lemma next_selection:
  assumes "NextSelectionLocked type strict c = (s, c')" "list_all2 same_node nodes (nc_nodes c)"
  shows "list_all2 same_node nodes (nc_nodes c')" "\<not> admits type strict nodes \<Longrightarrow> se_node_id s = []"
    "admits type strict nodes \<Longrightarrow> picked_from type strict nodes s"
  using NextSelectionLocked_sound[OF assms(1)] same_nodes_trans[OF assms(2)] same_nodes_ex[OF assms(2), of type strict]
  by (auto simp: empty_selection_def)

lemma pick_unique_sound:
  assumes "pick_unique k target type strict picked c = (p, c')" "list_all2 same_node nodes (nc_nodes c)"
    and "distinct (map se_node_id picked)" "\<forall>s \<in> set picked. picked_from type strict nodes s" "length picked \<le> target"
  shows "list_all2 same_node nodes (nc_nodes c') \<and> distinct (map se_node_id p) \<and> length p \<le> target \<and>
    (\<forall>s \<in> set p. picked_from type strict nodes s)"
  using assms
proof (induction k arbitrary: picked c)
  case (Suc k)
  obtain s c1 where s: "NextSelectionLocked type strict c = (s, c1)" by force
  note n = next_selection[OF s Suc.prems(2)]
  show ?case
  proof (cases "length picked \<ge> target \<or> se_node_id s = [] \<or> se_node_id s \<in> set (map se_node_id picked)")
    case True
    then show ?thesis using Suc.prems s n(1) Suc.IH[of picked c1] by (auto split: if_splits)
  next
    case False
    then have "picked_from type strict nodes s" using n(2,3) by blast
    moreover have "pick_unique k target type strict (picked @ [s]) c1 = (p, c')" using False Suc.prems(1) s by (auto split: if_splits)
    ultimately show ?thesis using Suc.IH[of "picked @ [s]" c1] Suc.prems(3-5) n(1) False by auto
  qed
qed simp

lemma pick_fill_sound:
  assumes "pick_fill k type strict picked c = (p, c')" "list_all2 same_node nodes (nc_nodes c)"
    and "\<forall>node \<in> set nodes. nf_node_id node \<noteq> []"
  shows "\<exists>new. p = picked @ new \<and> length new = (if admits type strict nodes then k else 0) \<and>
    (\<forall>s \<in> set new. picked_from type strict nodes s)"
  using assms(1,2)
proof (induction k arbitrary: picked c)
  case (Suc k)
  obtain s c1 where s: "NextSelectionLocked type strict c = (s, c1)" by force
  note n = next_selection[OF s Suc.prems(2)]
  show ?case
  proof (cases "admits type strict nodes")
    case True
    have "se_node_id s \<noteq> []" using n(3)[OF True] assms(3)
      by (fastforce simp: comes_from_def BuildVirtualNodeId_def split: if_splits)
    then have "pick_fill k type strict (picked @ [s]) c1 = (p, c')" using Suc.prems(1) s by simp
    from Suc.IH[OF this n(1)] True show ?thesis using n(3)[OF True] by fastforce
  next
    case False
    then show ?thesis using Suc.prems(1) s n(2) by auto
  qed
qed simp

lemma pick_nodes_picked:
  assumes "pick_nodes count type strict c = (p, c')" "\<forall>node \<in> set (nc_nodes c). nf_node_id node \<noteq> []"
  shows "length p = (if admits type strict (nc_nodes c) then unat count else 0) \<and>
    (\<forall>s \<in> set p. picked_from type strict (nc_nodes c) s)"
proof (cases "nc_nodes c = [] \<or> count = 0")
  case True
  then show ?thesis using assms(1) by (auto simp: pick_nodes_def)
next
  case False
  define target where "target = min (ucast count :: u64) (EstimateLogicalNodeCountLocked type strict c)"
  obtain k q c1 where q: "pick_unique k (unat target) type strict [] c = (q, c1)"
    and p: "pick_fill (unat count - length q) type strict q c1 = (p, c')"
    using assms(1) False by (auto simp: pick_nodes_def Let_def target_def split: prod.splits)
  have u: "list_all2 same_node (nc_nodes c) (nc_nodes c1) \<and> distinct (map se_node_id q) \<and> length q \<le> unat target \<and>
      (\<forall>s \<in> set q. picked_from type strict (nc_nodes c) s)"
    using pick_unique_sound[OF q same_nodes_refl] by simp
  obtain new where new: "p = q @ new" "length new = (if admits type strict (nc_nodes c) then unat count - length q else 0)"
      "\<forall>s \<in> set new. picked_from type strict (nc_nodes c) s"
    using pick_fill_sound[OF p conjunct1[OF u] assms(2)] by blast
  have "length q \<le> unat count"
    using u unat_ucast_up[where ?'a = 32 and ?'b = 64 and w = count] by (auto simp: target_def min_def word_le_nat_alt split: if_splits)
  moreover have "q = []" if "\<not> admits type strict (nc_nodes c)"
  proof (rule ccontr)
    assume "q \<noteq> []"
    then have "picked_from type strict (nc_nodes c) (hd q)" using u by simp
    then show False using that by (auto simp: comes_from_def list_ex_iff)
  qed
  ultimately show ?thesis using new u by auto
qed

text \<open>Picking nodes returns as many selections as asked for if some node admits writes, and none otherwise.
  Every selection names such a node (or one of its virtual nodes), its address and group, and a healthy disk
  of it that can be written.\<close>

theorem pick_nodes_sound:
  assumes "pick_nodes count type strict c = (p, c')" "\<forall>node \<in> set (nc_nodes c). nf_node_id node \<noteq> []"
  shows "length p = (if admits type strict (nc_nodes c) then unat count else 0) \<and>
    (\<forall>s \<in> set p. picked_from type strict (nc_nodes c) s)"
  using assms by (rule pick_nodes_picked)

section \<open>Virtual node ids\<close>

text \<open>The id of a virtual node resolves to the address of its node, if no node listed before has an id that,
  with \<open>-v\<close>, begins it, and no node has that very id.\<close>

theorem virtual_id_resolves:
  assumes "nc_nodes c = before @ node # after" "nf_address node \<noteq> []"
    and "\<forall>other \<in> set (nc_nodes c). nf_node_id other \<noteq> BuildVirtualNodeId (nf_node_id node) i"
    and "\<forall>other \<in> set before. \<not> prefix (nf_node_id other @ ''-v'') (BuildVirtualNodeId (nf_node_id node) i)"
  shows "Cache_ResolveNodeAddress c (BuildVirtualNodeId (nf_node_id node) i) = Some (nf_address node) \<and>
    MatchNodeForLocationLocked (nc_nodes c) (BuildVirtualNodeId (nf_node_id node) i) = Some node"
proof -
  let ?v = "BuildVirtualNodeId (nf_node_id node) i"
  have exact: "find (\<lambda>x. nf_node_id x = ?v) (nc_nodes c) = None" using assms(3) by (auto simp: find_None_iff)
  have "\<not> virtual_of ?v x" if "x \<in> set before" for x using assms(4) that by (simp add: virtual_of_def Let_def)
  then have b: "find (virtual_of ?v) before = None" by (auto simp: find_None_iff)
  have "virtual_of ?v node" by (simp add: virtual_of_def BuildVirtualNodeId_def Let_def to_string_def)
  moreover have "find P (xs @ ys) = (case find P xs of None \<Rightarrow> find P ys | Some x \<Rightarrow> Some x)" for P and xs ys :: "NodeInfo list"
    by (induction xs) auto
  ultimately have "find (virtual_of ?v) (nc_nodes c) = Some node" using b by (simp add: assms(1))
  then show ?thesis using exact assms(2)
    by (simp add: Cache_ResolveNodeAddress_def MatchNodeForLocationLocked_def) (simp add: BuildVirtualNodeId_def)
qed

definition sample_info :: "string \<Rightarrow> string \<Rightarrow> NodeInfo" where
  "sample_info node_id address = \<lparr>nf_node_id = node_id, nf_address = address, nf_group_id = [], nf_type = kVirtualNode, nf_weight = 1,
     nf_virtual_node_count = 4, nf_next_virtual_index = 0, nf_allocatable = True, nf_is_primary = True, nf_sync_ready = True,
     nf_epoch = 1, nf_secondary_node_id = [], nf_secondary_address = [],
     nf_disks = [\<lparr>dk_disk_id = ''d'', dk_capacity_bytes = 10, dk_free_bytes = 5, dk_is_healthy = True\<rparr>], nf_next_disk_index = 0\<rparr>"


section \<open>Instances\<close>

theorem pick_nodes_sound_witness:
  "\<exists>p c'. pick_nodes 3 kOpticalNode False (new_cache [sample_info ''a'' ''A'']) = (p, c') \<and> length p = 3 \<and>
     (\<forall>s \<in> set p. se_address s = ''A'' \<and> se_disk_id s = ''d'')"
proof -
  obtain p c' where p: "pick_nodes 3 kOpticalNode False (new_cache [sample_info ''a'' ''A'']) = (p, c')" by force
  have "\<forall>node \<in> set (nc_nodes (new_cache [sample_info ''a'' ''A''])). nf_node_id node \<noteq> []" by (simp add: new_cache_def sample_info_def)
  from pick_nodes_sound[OF p this] p show ?thesis
    by (auto simp: new_cache_def comes_from_def) (auto simp: sample_info_def Cache_IsNodeAllocatable_def disk_usable_def disk_writable_def)
qed

theorem virtual_id_resolves_witness:
  "Cache_ResolveNodeAddress (new_cache [sample_info ''a'' ''A'']) (BuildVirtualNodeId ''a'' 2) = Some ''A''"
  using virtual_id_resolves[of "new_cache [sample_info ''a'' ''A'']" "[]" "sample_info ''a'' ''A''" "[]" 2]
  by (simp add: new_cache_def BuildVirtualNodeId_def) (simp add: sample_info_def)

end
