(* ===== verification/PG_Manager.thy ===== *)
theory PG_Manager
  imports Node_Cache "HOL-Library.AList"
begin

text \<open>
  Placement groups: \<open>src/src/mds/allocator/PGManager.{h,cpp}\<close>.  An object belongs to the group given by the
  hash of its id; the replicas of a group are the nodes with the highest hash of group, node and epoch, at
  most one per failure group.  A view holds the replicas of all groups for one epoch, and the manager keeps
  the views of some earlier epochs.  Views are immutable in the code, so sharing them is not visible.
  Candidates with equal hashes stay in their order here; the code sorts them in any order.  Shown here: when
  a view can be built, what it promises, that removing nodes leaves the groups alone that do not use them
  (at equal epoch: the epoch is hashed too), and which epochs stay resolvable.
\<close>

unbundle bit_operations_syntax

section \<open>Data\<close>

record PgReplicaMember =
  pm_node_id :: string
  pm_node_address :: string
  pm_disk_id :: string
  pm_group_id :: string
  pm_epoch :: u64
  pm_primary_node_id :: string
  pm_primary_address :: string
  pm_secondary_node_id :: string
  pm_secondary_address :: string
  pm_sync_ready :: bool
  pm_node_type :: MdsNodeType

record PgReplicaSet =
  ps_pg_id :: u32
  ps_view_epoch :: u64
  ps_members :: "PgReplicaMember list"

record PlacementView =
  pv_epoch :: u64
  pv_pg_count :: u32
  pv_replica :: u32
  pv_pg_to_replicas :: "PgReplicaSet list"

record PgOptions =
  po_pg_count :: u32
  po_replica :: u32
  po_history_limit :: nat

record PGManager =
  pg_options :: PgOptions
  pg_current_view :: "PlacementView option"
  pg_history :: "(u64 \<times> PlacementView) list"

record CandidateNode =
  cn_node_id :: string
  cn_node_address :: string
  cn_disk_id :: string
  cn_group_id :: string
  cn_epoch :: u64
  cn_secondary_node_id :: string
  cn_secondary_address :: string
  cn_sync_ready :: bool
  cn_node_type :: MdsNodeType

datatype pg_error =
    ViewNotFound u64 | PgOutOfRange u32 | EmptyReplicaSet u32 | PgCountZero | ViewSizeMismatch | ViewEpochZero
  | NewEpochZero | InvalidPgCountOrReplica | NoCandidates | InsufficientGroups u32 u32 nat

definition default_pg_options :: PgOptions where
  "default_pg_options = \<lparr>po_pg_count = 1024, po_replica = 2, po_history_limit = 2\<rparr>"

definition new_pg_manager :: "PgOptions \<Rightarrow> PGManager" where
  "new_pg_manager options =
     \<lparr>pg_options = \<lparr>po_pg_count = (if po_pg_count options = 0 then 1 else po_pg_count options),
        po_replica = (if po_replica options = 0 then 1 else po_replica options),
        po_history_limit = (if po_history_limit options = 0 then 1 else po_history_limit options)\<rparr>,
      pg_current_view = None, pg_history = []\<rparr>"

section \<open>Hashing\<close>

definition MixU64 :: "u64 \<Rightarrow> u64" where
  "MixU64 value0 =
     (let v1 = value0 XOR drop_bit 33 value0; v2 = v1 * 0xff51afd7ed558ccd; v3 = v2 XOR drop_bit 33 v2;
          v4 = v3 * 0xc4ceb9fe1a85ec53
      in v4 XOR drop_bit 33 v4)"

definition Hash64 :: "string \<Rightarrow> u64" where
  "Hash64 data = MixU64 (foldl (\<lambda>hash ch. (hash XOR of_nat (of_char ch)) * 1099511628211) 1469598103934665603 data)"

definition Hash64Pair :: "u32 \<Rightarrow> string \<Rightarrow> u64 \<Rightarrow> u64" where
  "Hash64Pair pg_id node_id epoch = Hash64 (to_string pg_id @ ''/'' @ node_id @ ''/'' @ to_string epoch)"

section \<open>Views\<close>

definition GetViewLocked :: "PGManager \<Rightarrow> u64 \<Rightarrow> PlacementView option" where
  "GetViewLocked m epoch = (if epoch = 0 then pg_current_view m else map_of (pg_history m) epoch)"

definition ObjectToPg :: "PGManager \<Rightarrow> string \<Rightarrow> u64 \<Rightarrow> u32" where
  "ObjectToPg m object_id epoch_hint =
     (case (case GetViewLocked m epoch_hint of Some view \<Rightarrow> Some view | None \<Rightarrow> GetViewLocked m 0) of
        None \<Rightarrow> 0
      | Some view \<Rightarrow> if pv_pg_count view = 0 then 0 else ucast (Hash64 object_id mod ucast (pv_pg_count view)))"

definition ResolvePg :: "PGManager \<Rightarrow> u32 \<Rightarrow> u64 \<Rightarrow> pg_error + PgReplicaSet" where
  "ResolvePg m pg_id epoch =
     (case GetViewLocked m epoch of
        None \<Rightarrow> Inl (ViewNotFound epoch)
      | Some view \<Rightarrow>
          if unat pg_id \<ge> length (pv_pg_to_replicas view) then Inl (PgOutOfRange pg_id)
          else let out = pv_pg_to_replicas view ! unat pg_id
               in if ps_members out = [] then Inl (EmptyReplicaSet pg_id) else Inr out)"

definition CurrentEpoch :: "PGManager \<Rightarrow> u64" where
  "CurrentEpoch m = (case pg_current_view m of None \<Rightarrow> 0 | Some view \<Rightarrow> pv_epoch view)"

text \<open>The oldest epoch other than the current one, and the loop that drops it while there are too many.\<close>

definition oldest_epoch :: "u64 \<Rightarrow> (u64 \<times> PlacementView) list \<Rightarrow> u64 option" where
  "oldest_epoch current hist = foldl (\<lambda>victim (epoch, view).
     if epoch = current then victim
     else case victim of None \<Rightarrow> Some epoch | Some x \<Rightarrow> if epoch < x then Some epoch else victim) None hist"

lemma oldest_epoch_Some:
  assumes "oldest_epoch current hist = Some x"
  shows "x \<in> set (map fst hist) \<and> x \<noteq> current \<and> (\<forall>e \<in> set (map fst hist). e \<noteq> current \<longrightarrow> x \<le> e)"
proof -
  define step where "step = (\<lambda>victim (epoch, view :: PlacementView). if epoch = current then victim
     else case victim of None \<Rightarrow> Some epoch | Some y \<Rightarrow> if epoch < (y :: u64) then Some epoch else victim)"
  have "case foldl step None hist of
      None \<Rightarrow> \<forall>e \<in> set (map fst hist). e = current
    | Some y \<Rightarrow> y \<in> set (map fst hist) \<and> y \<noteq> current \<and> (\<forall>e \<in> set (map fst hist). e \<noteq> current \<longrightarrow> y \<le> e)"
  proof (induction hist rule: rev_induct)
    case (snoc a hist)
    obtain e v where a: "a = (e, v)" by force
    from snoc.IH show ?case
      by (cases "foldl step None hist") (auto simp: a step_def intro: less_imp_le order_trans)
  qed simp
  then show ?thesis using assms by (simp add: oldest_epoch_def step_def)
qed

function evict :: "nat \<Rightarrow> u64 \<Rightarrow> (u64 \<times> PlacementView) list \<Rightarrow> (u64 \<times> PlacementView) list" where
  "evict limit current hist =
     (if length hist \<le> limit then hist
      else case oldest_epoch current hist of
             None \<Rightarrow> hist
           | Some victim \<Rightarrow> evict limit current (AList.delete victim hist))"
  by auto
termination
proof (relation "measure (\<lambda>(limit, current, hist). length hist)")
  fix limit current hist and victim :: u64
  assume "oldest_epoch current hist = Some victim"
  from oldest_epoch_Some[OF this] have "\<not> list_all (\<lambda>e. fst e \<noteq> victim) hist" by (auto simp: list_all_iff)
  then show "((limit, current, AList.delete victim hist), limit, current, hist) \<in> measure (\<lambda>(limit, current, hist). length hist)"
    by (auto simp: AList.delete_eq list_all_iff length_filter_less)
qed simp

declare evict.simps [simp del]

definition ReplaceView :: "PlacementView \<Rightarrow> PGManager \<Rightarrow> pg_error + PGManager" where
  "ReplaceView view m =
     (if pv_pg_count view = 0 then Inl PgCountZero
      else if length (pv_pg_to_replicas view) \<noteq> unat (pv_pg_count view) then Inl ViewSizeMismatch
      else if pv_epoch view = 0 then Inl ViewEpochZero
      else Inr (m\<lparr>pg_current_view := Some view,
             pg_history := evict (po_history_limit (pg_options m)) (pv_epoch view) (AList.update (pv_epoch view) view (pg_history m))\<rparr>))"

section \<open>Building a view\<close>

definition Pg_IsNodeAllocatable :: "NodeInfo \<Rightarrow> bool" where
  "Pg_IsNodeAllocatable node =
     (if \<not> nf_allocatable node \<or> \<not> nf_is_primary node then False
      else if nf_type node = kOpticalNode then False
      else list_ex (\<lambda>disk. dk_is_healthy disk \<and> disk_writable disk) (nf_disks node))"

definition node_candidates :: "NodeInfo \<Rightarrow> CandidateNode list" where
  "node_candidates node =
     (if \<not> Pg_IsNodeAllocatable node then []
      else let healthy_disks = map dk_disk_id (filter disk_usable (nf_disks node))
           in if healthy_disks = [] then []
              else let virtualized = IsVirtualizedNodeType (nf_type node);
                       logical_nodes = (if virtualized then max 1 (nf_virtual_node_count node) else 1)
                   in map (\<lambda>idx. \<lparr>cn_node_id = (if virtualized then BuildVirtualNodeId (nf_node_id node) (of_nat idx) else nf_node_id node),
                             cn_node_address = nf_address node, cn_disk_id = healthy_disks ! (idx mod length healthy_disks),
                             cn_group_id = (if nf_group_id node = [] then nf_node_id node else nf_group_id node),
                             cn_epoch = nf_epoch node, cn_secondary_node_id = nf_secondary_node_id node,
                             cn_secondary_address = nf_secondary_address node, cn_sync_ready = nf_sync_ready node,
                             cn_node_type = nf_type node\<rparr>) [0..<unat logical_nodes])"

definition BuildCandidates :: "NodeInfo list \<Rightarrow> CandidateNode list" where
  "BuildCandidates nodes = concat (map node_candidates nodes)"

definition pg_member :: "u64 \<Rightarrow> CandidateNode \<Rightarrow> PgReplicaMember" where
  "pg_member epoch node =
     \<lparr>pm_node_id = cn_node_id node, pm_node_address = cn_node_address node, pm_disk_id = cn_disk_id node,
      pm_group_id = cn_group_id node, pm_epoch = (if cn_epoch node = 0 then epoch else cn_epoch node),
      pm_primary_node_id = cn_node_id node, pm_primary_address = cn_node_address node,
      pm_secondary_node_id = cn_secondary_node_id node, pm_secondary_address = cn_secondary_address node,
      pm_sync_ready = cn_sync_ready node, pm_node_type = cn_node_type node\<rparr>"

text \<open>The candidates by descending score.\<close>

definition ranked :: "u32 \<Rightarrow> u64 \<Rightarrow> CandidateNode list \<Rightarrow> CandidateNode list" where
  "ranked pg epoch candidates = sort_key (\<lambda>c. - int (unat (Hash64Pair pg (cn_node_id c) epoch))) candidates"

fun pick_members :: "u32 \<Rightarrow> u64 \<Rightarrow> string list \<Rightarrow> PgReplicaMember list \<Rightarrow> CandidateNode list \<Rightarrow> PgReplicaMember list" where
  "pick_members replica epoch seen_groups members [] = members"
| "pick_members replica epoch seen_groups members (node # nodes) =
     (if cn_group_id node \<in> set seen_groups then pick_members replica epoch seen_groups members nodes
      else let members1 = members @ [pg_member epoch node]
           in if length members1 \<ge> unat replica then members1
              else pick_members replica epoch (cn_group_id node # seen_groups) members1 nodes)"

fun build_sets :: "CandidateNode list \<Rightarrow> u32 \<Rightarrow> u64 \<Rightarrow> u32 list \<Rightarrow> pg_error + PgReplicaSet list" where
  "build_sets candidates replica epoch [] = Inr []"
| "build_sets candidates replica epoch (pg # pgs) =
     (let members = pick_members replica epoch [] [] (ranked pg epoch candidates)
      in if length members < unat replica then Inl (InsufficientGroups pg replica (length members))
         else case build_sets candidates replica epoch pgs of
                Inl e \<Rightarrow> Inl e
              | Inr sets \<Rightarrow> Inr (\<lparr>ps_pg_id = pg, ps_view_epoch = epoch, ps_members = members\<rparr> # sets))"

definition BuildPlacementView :: "CandidateNode list \<Rightarrow> u32 \<Rightarrow> u32 \<Rightarrow> u64 \<Rightarrow> pg_error + PlacementView" where
  "BuildPlacementView candidates pg_count replica epoch =
     (if pg_count = 0 \<or> replica = 0 then Inl InvalidPgCountOrReplica
      else if candidates = [] then Inl NoCandidates
      else case build_sets candidates replica epoch (map of_nat [0..<unat pg_count]) of
             Inl e \<Rightarrow> Inl e
           | Inr sets \<Rightarrow> Inr \<lparr>pv_epoch = epoch, pv_pg_count = pg_count, pv_replica = replica, pv_pg_to_replicas = sets\<rparr>)"

definition RebuildFromNodes :: "NodeInfo list \<Rightarrow> u64 \<Rightarrow> PGManager \<Rightarrow> pg_error + PGManager" where
  "RebuildFromNodes nodes new_epoch m =
     (if new_epoch = 0 then Inl NewEpochZero
      else case BuildPlacementView (BuildCandidates nodes) (po_pg_count (pg_options m)) (po_replica (pg_options m)) new_epoch of
             Inl e \<Rightarrow> Inl e
           | Inr view \<Rightarrow> ReplaceView view m)"

definition PgCount :: "PGManager \<Rightarrow> u32" where
  "PgCount m = po_pg_count (pg_options m)"

definition ReplicaCount :: "PGManager \<Rightarrow> u32" where
  "ReplicaCount m = po_replica (pg_options m)"

section \<open>Replicas by rank\<close>

text \<open>The first element of every group, in order.\<close>

fun firsts :: "('a \<Rightarrow> 'g) \<Rightarrow> 'g list \<Rightarrow> 'a list \<Rightarrow> 'a list" where
  "firsts g seen [] = []"
| "firsts g seen (x # xs) = (if g x \<in> set seen then firsts g seen xs else x # firsts g (g x # seen) xs)"

lemma firsts_groups: "g ` set (firsts g seen xs) = g ` set xs - set seen"
  by (induction g seen xs rule: firsts.induct) auto

lemma firsts_distinct: "distinct (map g (firsts g seen xs)) \<and> set (map g (firsts g seen xs)) \<inter> set seen = {}"
  by (induction g seen xs rule: firsts.induct) auto

lemma firsts_subset: "set (firsts g seen xs) \<subseteq> set xs"
  by (induction g seen xs rule: firsts.induct) auto

lemma length_firsts: "length (firsts g [] xs) = card (g ` set xs)"
  using firsts_distinct[of g "[]" xs] firsts_groups[of g "[]" xs] by (metis Diff_empty distinct_card length_map list.set(1) list.set_map)

lemma firsts_map: "firsts g seen (map h xs) = map h (firsts (g \<circ> h) seen xs)"
  by (induction "g \<circ> h" seen xs rule: firsts.induct) auto

lemma firsts_filter:
  assumes "\<forall>x \<in> set (take r (firsts g seen xs)). P x" "r \<le> length (firsts g seen xs)"
  shows "take r (firsts g seen (filter P xs)) = take r (firsts g seen xs)"
  using assms
proof (induction g seen xs arbitrary: r rule: firsts.induct)
  case (2 g seen x xs)
  show ?case
  proof (cases "g x \<in> set seen")
    case False
    show ?thesis
    proof (cases r)
      case (Suc k)
      then have "P x" using 2(3) False by simp
      then show ?thesis using 2(2)[of k] 2(3,4) False Suc by simp
    qed simp
  qed (use 2 in simp)
qed simp

lemma pick_members_firsts:
  assumes "length members < unat replica"
  shows "pick_members replica epoch seen members nodes =
    members @ map (pg_member epoch) (take (unat replica - length members) (firsts cn_group_id seen nodes))"
  using assms
proof (induction replica epoch seen members nodes rule: pick_members.induct)
  case (2 replica epoch seen members node nodes)
  show ?case
  proof (cases "cn_group_id node \<in> set seen \<or> \<not> Suc (length members) < unat replica")
    case True
    then show ?thesis using 2 by (auto simp: Let_def take_Cons' not_less le_Suc_eq)
  next
    case False
    then show ?thesis using 2 by (simp add: Let_def take_Cons' Suc_diff_le)
  qed
qed simp

lemma insort_key_map: "insort_key f (h x) (map h xs) = map h (insort_key (\<lambda>y. f (h y)) x xs)"
  by (induction xs) auto

lemma sort_key_map: "sort_key f (map h xs) = map h (sort_key (f \<circ> h) xs)"
  by (induction xs) (simp_all add: insort_key_map comp_def)

text \<open>The replicas of a group: the candidate with the highest hash of each failure group, the best of them.\<close>

lemma members_eq:
  assumes "replica \<noteq> 0"
  shows "pick_members replica epoch [] [] (ranked pg epoch cands) =
    map (pg_member epoch) (take (unat replica) (firsts cn_group_id [] (ranked pg epoch cands)))"
  using pick_members_firsts[of "[]" replica epoch "[]"] assms by (simp add: unat_gt_0)

lemma set_ranked [simp]: "set (ranked pg epoch cands) = set cands"
  by (simp add: ranked_def)

lemma length_members:
  "replica \<noteq> 0 \<Longrightarrow> length (pick_members replica epoch [] [] (ranked pg epoch cands)) = min (card (cn_group_id ` set cands)) (unat replica)"
  by (simp add: members_eq length_firsts set_ranked)

lemma build_sets_ok:
  assumes "replica \<noteq> 0" "unat replica \<le> card (cn_group_id ` set cands)"
  shows "build_sets cands replica epoch pgs = Inr (map (\<lambda>pg. \<lparr>ps_pg_id = pg, ps_view_epoch = epoch,
      ps_members = pick_members replica epoch [] [] (ranked pg epoch cands)\<rparr>) pgs)"
  using assms(2) by (induction pgs) (simp_all add: Let_def length_members[OF assms(1)])

lemma build_sets_error:
  assumes "replica \<noteq> 0" "card (cn_group_id ` set cands) < unat replica" "pgs \<noteq> []"
  shows "build_sets cands replica epoch pgs = Inl (InsufficientGroups (hd pgs) replica (card (cn_group_id ` set cands)))"
  using assms(2,3) by (cases pgs) (simp_all add: Let_def length_members[OF assms(1)])

definition built_view :: "NodeInfo list \<Rightarrow> u64 \<Rightarrow> PgOptions \<Rightarrow> PlacementView" where
  "built_view nodes epoch options = \<lparr>pv_epoch = epoch, pv_pg_count = po_pg_count options, pv_replica = po_replica options,
     pv_pg_to_replicas = map (\<lambda>pg. \<lparr>ps_pg_id = of_nat pg, ps_view_epoch = epoch,
       ps_members = pick_members (po_replica options) epoch [] [] (ranked (of_nat pg) epoch (BuildCandidates nodes))\<rparr>)
       [0..<unat (po_pg_count options)]\<rparr>"

abbreviation failure_groups :: "NodeInfo list \<Rightarrow> string set" where
  "failure_groups nodes \<equiv> cn_group_id ` set (BuildCandidates nodes)"

definition pg_options_ok :: "PgOptions \<Rightarrow> bool" where
  "pg_options_ok options \<longleftrightarrow> po_pg_count options \<noteq> 0 \<and> po_replica options \<noteq> 0 \<and> po_history_limit options \<noteq> 0"

lemma RebuildFromNodes_eq:
  assumes "pg_options_ok (pg_options m)"
  shows "RebuildFromNodes nodes epoch m = Inr m' \<longleftrightarrow> epoch \<noteq> 0 \<and>
    unat (po_replica (pg_options m)) \<le> card (failure_groups nodes) \<and> ReplaceView (built_view nodes epoch (pg_options m)) m = Inr m'"
proof -
  let ?o = "pg_options m" and ?c = "BuildCandidates nodes"
  let ?sets = "map (\<lambda>pg. \<lparr>ps_pg_id = pg, ps_view_epoch = epoch,
      ps_members = pick_members (po_replica ?o) epoch [] [] (ranked pg epoch ?c)\<rparr>) (map of_nat [0..<unat (po_pg_count ?o)])"
  have o: "po_pg_count ?o \<noteq> 0" "po_replica ?o \<noteq> 0" using assms by (auto simp: pg_options_ok_def)
  have pgs: "map (of_nat :: nat \<Rightarrow> u32) [0..<unat (po_pg_count ?o)] \<noteq> []" using o(1) by (simp add: unat_gt_0)
  have view: "built_view nodes epoch ?o = \<lparr>pv_epoch = epoch, pv_pg_count = po_pg_count ?o, pv_replica = po_replica ?o, pv_pg_to_replicas = ?sets\<rparr>"
    by (simp add: built_view_def)
  have "BuildPlacementView ?c (po_pg_count ?o) (po_replica ?o) epoch = Inr view \<longleftrightarrow>
      unat (po_replica ?o) \<le> card (failure_groups nodes) \<and> view = built_view nodes epoch ?o" for view
  proof (cases "?c = []")
    case True
    then show ?thesis using o by (simp add: BuildPlacementView_def unat_eq_zero)
  next
    case False
    show ?thesis
    proof (cases "unat (po_replica ?o) \<le> card (failure_groups nodes)")
      case True
      then show ?thesis using o False build_sets_ok[OF o(2) True, of epoch "map of_nat [0..<unat (po_pg_count ?o)]"]
        by (auto simp: BuildPlacementView_def view)
    next
      case few: False
      then show ?thesis using o False build_sets_error[OF o(2), of ?c "map of_nat [0..<unat (po_pg_count ?o)]" epoch] pgs
        by (simp add: BuildPlacementView_def)
    qed
  qed
  note built = this
  show ?thesis
  proof (cases "BuildPlacementView ?c (po_pg_count ?o) (po_replica ?o) epoch")
    case (Inl e)
    then show ?thesis using built[of "built_view nodes epoch ?o"] by (simp add: RebuildFromNodes_def)
  next
    case (Inr view)
    then show ?thesis using built[of view] by (auto simp: RebuildFromNodes_def)
  qed
qed

lemma ReplaceView_built:
  assumes "pg_options_ok (pg_options m)" "epoch \<noteq> 0"
  shows "\<exists>m'. ReplaceView (built_view nodes epoch (pg_options m)) m = Inr m' \<and> pg_current_view m' = Some (built_view nodes epoch (pg_options m)) \<and>
    pg_options m' = pg_options m"
  using assms by (simp add: ReplaceView_def built_view_def pg_options_ok_def)


text \<open>Where a candidate comes from.\<close>

definition candidate_of :: "CandidateNode \<Rightarrow> NodeInfo \<Rightarrow> bool" where
  "candidate_of c node \<longleftrightarrow> Pg_IsNodeAllocatable node \<and> cn_node_address c = nf_address node \<and> cn_node_type c = nf_type node \<and>
     cn_group_id c = (if nf_group_id node = [] then nf_node_id node else nf_group_id node) \<and>
     (\<exists>disk \<in> set (nf_disks node). disk_usable disk \<and> cn_disk_id c = dk_disk_id disk)"

lemma node_candidates_of: "c \<in> set (node_candidates node) \<Longrightarrow> candidate_of c node"
proof -
  assume c: "c \<in> set (node_candidates node)"
  define ds where "ds = map dk_disk_id (filter disk_usable (nf_disks node))"
  have "ds \<noteq> []" using c by (auto simp: node_candidates_def Let_def ds_def split: if_splits)
  then have nth: "ds ! (i mod length ds) \<in> set ds" for i by simp
  have alloc: "Pg_IsNodeAllocatable node" using c by (auto simp: node_candidates_def split: if_splits)
  obtain idx where "cn_node_address c = nf_address node" "cn_disk_id c = ds ! (idx mod length ds)" "cn_node_type c = nf_type node"
      "cn_group_id c = (if nf_group_id node = [] then nf_node_id node else nf_group_id node)"
    using c \<open>ds \<noteq> []\<close> alloc by (auto simp: node_candidates_def Let_def simp flip: ds_def)
  then show ?thesis using alloc nth[of idx] unfolding candidate_of_def ds_def by auto
qed

section \<open>Earlier epochs\<close>

lemma oldest_epoch_None:
  assumes "oldest_epoch current hist = None" "e \<in> set (map fst hist)"
  shows "e = current"
proof -
  have "foldl (\<lambda>victim (epoch, view :: PlacementView). if epoch = current then victim
     else case victim of None \<Rightarrow> Some epoch | Some y \<Rightarrow> if epoch < y then Some epoch else victim) None hist = None
     \<Longrightarrow> \<forall>e \<in> set (map fst hist). e = current"
  proof (induction hist rule: rev_induct)
    case (snoc a hist)
    then show ?case by (cases a) (auto split: if_splits option.splits)
  qed simp
  then show ?thesis using assms by (auto simp: oldest_epoch_def)
qed

lemma evict_keeps_newest:
  assumes "distinct (map fst hist)" "1 \<le> limit" "map_of hist current = Some v"
  shows "distinct (map fst (evict limit current hist)) \<and> length (evict limit current hist) \<le> limit \<and>
    map_of (evict limit current hist) current = Some v \<and> map_of (evict limit current hist) \<subseteq>\<^sub>m map_of hist \<and>
    (\<forall>e e'. e \<in> dom (map_of hist) - dom (map_of (evict limit current hist)) \<longrightarrow>
       e' \<in> dom (map_of (evict limit current hist)) - {current} \<longrightarrow> e < e')"
  using assms
proof (induction limit current hist rule: evict.induct)
  case (1 limit current hist)
  show ?case
  proof (cases "length hist \<le> limit")
    case True
    then show ?thesis using 1(2-4) by (simp add: evict.simps[of limit current hist])
  next
    case long: False
    show ?thesis
    proof (cases "oldest_epoch current hist")
      case None
      have "set (map fst hist) \<subseteq> {current}" using oldest_epoch_None[OF None] by blast
      then have "length hist \<le> 1" using distinct_card[OF 1(2)] card_mono[of "{current}" "set (map fst hist)"] by simp
      then show ?thesis using long 1(3) by simp
    next
      case (Some victim)
      let ?h = "AList.delete victim hist"
      have old: "victim \<noteq> current" "\<And>e. e \<in> dom (map_of hist) \<Longrightarrow> e \<noteq> current \<Longrightarrow> victim \<le> e"
        using oldest_epoch_Some[OF Some] by (auto simp: dom_map_of_conv_image_fst)
      have ev: "evict limit current hist = evict limit current ?h" using long Some by (subst evict.simps) simp
      have m: "map_of ?h = (map_of hist)(victim := None)" by (rule delete_conv')
      have dist: "distinct (map fst ?h)" "map_of ?h current = Some v" using 1(2,4) old(1) by (simp_all add: distinct_delete m)
      note ih = 1(1)[OF long Some dist(1) 1(3) dist(2), folded ev, unfolded m]
      have sub: "map_of (evict limit current hist) \<subseteq>\<^sub>m (map_of hist)(victim := None)" using ih by blast
      have "e < e'" if e: "e \<in> dom (map_of hist) - dom (map_of (evict limit current hist))"
        "e' \<in> dom (map_of (evict limit current hist)) - {current}" for e e'
      proof (cases "e = victim")
        case True
        have "e' \<in> dom ((map_of hist)(victim := None))" using e(2) map_le_implies_dom_le[OF sub] by blast
        then show ?thesis using True old(2)[of e'] e(2) by (auto simp: order_less_le split: if_splits)
      next
        case False
        then have "e \<in> dom ((map_of hist)(victim := None)) - dom (map_of (evict limit current hist))" using e(1) by auto
        then show ?thesis using ih e(2) by blast
      qed
      moreover have "map_of (evict limit current hist) \<subseteq>\<^sub>m map_of hist"
        using map_le_trans[OF sub] by (simp add: map_le_def)
      ultimately show ?thesis using ih by blast
    qed
  qed
qed

text \<open>The state of a manager: usable options, one view per epoch and not more than the limit, and the current
  view among them.\<close>

definition pg_ok :: "PGManager \<Rightarrow> bool" where
  "pg_ok m \<longleftrightarrow> pg_options_ok (pg_options m) \<and> distinct (map fst (pg_history m)) \<and>
     length (pg_history m) \<le> po_history_limit (pg_options m) \<and>
     (\<forall>(e, v) \<in> set (pg_history m). pv_epoch v = e \<and> e \<noteq> 0) \<and>
     (case pg_current_view m of None \<Rightarrow> pg_history m = [] | Some v \<Rightarrow> map_of (pg_history m) (pv_epoch v) = Some v)"

lemma new_pg_manager_ok: "pg_ok (new_pg_manager options)"
  by (simp add: pg_ok_def new_pg_manager_def pg_options_ok_def)

lemma ReplaceView_ok:
  assumes "pg_ok m" "ReplaceView view m = Inr m'"
  shows "pg_ok m' \<and> pg_options m' = pg_options m \<and> pg_current_view m' = Some view \<and> map_of (pg_history m') (pv_epoch view) = Some view \<and>
    map_of (pg_history m') \<subseteq>\<^sub>m (map_of (pg_history m))(pv_epoch view \<mapsto> view) \<and>
    (\<forall>e e'. e \<in> dom (map_of (pg_history m)) - dom (map_of (pg_history m')) \<longrightarrow>
       e' \<in> dom (map_of (pg_history m')) - {pv_epoch view} \<longrightarrow> e < e')"
proof -
  let ?up = "AList.update (pv_epoch view) view (pg_history m)" and ?limit = "po_history_limit (pg_options m)"
  have view: "pv_epoch view \<noteq> 0" and m': "m' = m\<lparr>pg_current_view := Some view, pg_history := evict ?limit (pv_epoch view) ?up\<rparr>"
    using assms(2) by (auto simp: ReplaceView_def split: if_splits)
  have up: "map_of ?up = (map_of (pg_history m))(pv_epoch view \<mapsto> view)" by (rule update_conv')
  have pre: "distinct (map fst ?up)" "1 \<le> ?limit" "map_of ?up (pv_epoch view) = Some view"
    using assms(1) by (simp_all add: pg_ok_def pg_options_ok_def distinct_update up)
  note ev = evict_keeps_newest[OF pre, unfolded up]
  have sub: "map_of (pg_history m') \<subseteq>\<^sub>m (map_of (pg_history m))(pv_epoch view \<mapsto> view)" using ev by (simp add: m')
  have "pv_epoch v = e \<and> e \<noteq> 0" if "(e, v) \<in> set (pg_history m')" for e v
  proof -
    have "map_of (pg_history m') e = Some v" using that ev by (simp add: m' map_of_eq_Some_iff)
    then have "((map_of (pg_history m))(pv_epoch view \<mapsto> view)) e = Some v" using sub by (force simp: map_le_def dom_def)
    then show ?thesis using assms(1) view by (auto simp: pg_ok_def split: if_splits dest: map_of_SomeD)
  qed
  then have "\<forall>(e, v) \<in> set (pg_history m'). pv_epoch v = e \<and> e \<noteq> 0" by blast
  moreover have "map_of (pg_history m') (pv_epoch view) = Some view" using ev by (simp add: m')
  moreover have "e < e'" if "e \<in> dom (map_of (pg_history m)) - dom (map_of (pg_history m'))"
    "e' \<in> dom (map_of (pg_history m')) - {pv_epoch view}" for e e'
  proof -
    have "e \<in> dom ((map_of (pg_history m))(pv_epoch view \<mapsto> view)) - dom (map_of (pg_history m'))" using that(1) by auto
    then show ?thesis using ev that(2) by (simp add: m')
  qed
  ultimately show ?thesis using ev sub assms(1) by (simp add: m' pg_ok_def)
qed


section \<open>What a rebuild promises\<close>

text \<open>The replicas of a group after a rebuild, asked for by the current epoch or by number.\<close>

lemma ResolvePg_rebuilt:
  assumes "pg_ok m" "RebuildFromNodes nodes epoch m = Inr m'" "pg < PgCount m" "e = 0 \<or> e = epoch"
  shows "ResolvePg m' pg e = Inr \<lparr>ps_pg_id = pg, ps_view_epoch = epoch,
      ps_members = map (pg_member epoch) (take (unat (ReplicaCount m)) (firsts cn_group_id [] (ranked pg epoch (BuildCandidates nodes))))\<rparr> \<and>
    unat (ReplicaCount m) \<le> card (failure_groups nodes) \<and> GetViewLocked m' e = Some (built_view nodes epoch (pg_options m)) \<and>
    CurrentEpoch m' = epoch \<and> epoch \<noteq> 0"
proof -
  let ?o = "pg_options m" and ?r = "unat (po_replica (pg_options m))"
  have ok: "pg_options_ok ?o" and o: "po_replica ?o \<noteq> 0" using assms(1) by (simp_all add: pg_ok_def pg_options_ok_def)
  have r: "?r \<le> card (failure_groups nodes)" and view: "ReplaceView (built_view nodes epoch ?o) m = Inr m'" and e: "epoch \<noteq> 0"
    using ok assms(2) RebuildFromNodes_eq by blast+
  have ep: "pv_epoch (built_view nodes epoch ?o) = epoch" by (simp add: built_view_def)
  have get: "GetViewLocked m' e = Some (built_view nodes epoch ?o)" "CurrentEpoch m' = epoch"
    using ReplaceView_ok[OF assms(1) view] assms(4) e by (auto simp: GetViewLocked_def CurrentEpoch_def ep)
  have "length (firsts cn_group_id [] (ranked pg epoch (BuildCandidates nodes))) \<ge> ?r" using r by (simp add: length_firsts)
  moreover have "unat pg < unat (po_pg_count ?o)" using assms(3) by (simp add: PgCount_def word_less_nat_alt)
  ultimately show ?thesis using r o get e
    by (auto simp: ResolvePg_def built_view_def Let_def members_eq[OF o] unat_eq_zero ReplicaCount_def)
qed

lemma rebuilt_members:
  assumes "r \<le> card (failure_groups nodes)" "ms = map (pg_member epoch) (take r (firsts cn_group_id [] (ranked pg epoch (BuildCandidates nodes))))"
  shows "length ms = r \<and> distinct (map pm_group_id ms) \<and>
    (\<forall>x \<in> set ms. \<exists>node \<in> set nodes. \<exists>c. candidate_of c node \<and> x = pg_member epoch c)"
proof -
  let ?f = "firsts cn_group_id [] (ranked pg epoch (BuildCandidates nodes))"
  have "map pm_group_id ms = take r (map cn_group_id ?f)" by (simp add: assms(2) take_map pg_member_def comp_def)
  then have "distinct (map pm_group_id ms)" using firsts_distinct[of cn_group_id "[]"] distinct_take by metis
  moreover have "\<exists>node \<in> set nodes. \<exists>c. candidate_of c node \<and> x = pg_member epoch c" if "x \<in> set ms" for x
  proof -
    obtain c where c: "c \<in> set ?f" "x = pg_member epoch c" using \<open>x \<in> set ms\<close> by (auto simp: assms(2) dest: in_set_takeD)
    then have "c \<in> set (BuildCandidates nodes)" using firsts_subset[of cn_group_id "[]"] by fastforce
    then show ?thesis using c(2) node_candidates_of by (auto simp: BuildCandidates_def)
  qed
  ultimately show ?thesis using assms by (simp add: length_firsts)
qed

text \<open>After a rebuild the new epoch is current, and every group resolves under it to exactly the wanted number
  of replicas, all in different failure groups, each on a healthy writable disk of a node that admits
  writes.\<close>

theorem RebuildFromNodes_places:
  assumes "pg_ok m" "RebuildFromNodes nodes epoch m = Inr m'" "pg < PgCount m"
  shows "CurrentEpoch m' = epoch \<and> (\<exists>set. ResolvePg m' pg 0 = Inr set \<and> ps_pg_id set = pg \<and> ps_view_epoch set = epoch \<and>
    length (ps_members set) = unat (ReplicaCount m) \<and> distinct (map pm_group_id (ps_members set)) \<and>
    (\<forall>x \<in> List.set (ps_members set). \<exists>node \<in> List.set nodes. \<exists>c. candidate_of c node \<and> x = pg_member epoch c))"
  using ResolvePg_rebuilt[OF assms, of 0] rebuilt_members[OF _ refl, of "unat (ReplicaCount m)" nodes epoch pg] by auto


section \<open>Instances\<close>

definition real_info :: "string \<Rightarrow> string \<Rightarrow> NodeInfo" where
  "real_info node_id address = (sample_info node_id address)\<lparr>nf_type := kRealNode\<rparr>"

lemma candidates_real:
  "node_candidates (real_info node_id address) = [\<lparr>cn_node_id = node_id, cn_node_address = address, cn_disk_id = ''d'', cn_group_id = node_id,
     cn_epoch = 1, cn_secondary_node_id = [], cn_secondary_address = [], cn_sync_ready = True, cn_node_type = kRealNode\<rparr>]"
  by (simp add: node_candidates_def real_info_def sample_info_def Pg_IsNodeAllocatable_def disk_usable_def disk_writable_def
      IsVirtualizedNodeType_def)

lemma groups_real: "failure_groups (map (\<lambda>x. real_info x x) ids) = set ids"
  by (induction ids) (simp_all add: BuildCandidates_def candidates_real)

lemma sample_rebuild:
  assumes "pg_options_ok (pg_options m)" "unat (po_replica (pg_options m)) \<le> card (set ids)"
  shows "\<exists>m'. RebuildFromNodes (map (\<lambda>x. real_info x x) ids) 1 m = Inr m'"
  using RebuildFromNodes_eq[OF assms(1), of "map (\<lambda>x. real_info x x) ids" 1] ReplaceView_built[OF assms(1), of 1 "map (\<lambda>x. real_info x x) ids"]
    assms(2) by (auto simp: groups_real)

definition sample_manager :: "u32 \<Rightarrow> PGManager" where
  "sample_manager replica = new_pg_manager \<lparr>po_pg_count = 1, po_replica = replica, po_history_limit = 2\<rparr>"

lemma sample_manager_ok: "pg_options_ok (pg_options (sample_manager replica))"
  using new_pg_manager_ok unfolding sample_manager_def pg_ok_def by blast

lemma sample_manager_pg_ok: "pg_ok (sample_manager replica)"
  by (simp add: sample_manager_def new_pg_manager_ok)


theorem RebuildFromNodes_places_witness:
  "\<exists>m' s. RebuildFromNodes (map (\<lambda>x. real_info x x) [''a'', ''b'']) 1 (sample_manager 2) = Inr m' \<and> CurrentEpoch m' = 1 \<and>
     ResolvePg m' 0 0 = Inr s \<and> length (ps_members s) = 2 \<and> distinct (map pm_group_id (ps_members s))"
proof -
  obtain m' where m': "RebuildFromNodes (map (\<lambda>x. real_info x x) [''a'', ''b'']) 1 (sample_manager 2) = Inr m'"
    using sample_rebuild[OF sample_manager_ok, of 2 "[''a'', ''b'']"] by (auto simp: sample_manager_def new_pg_manager_def)
  have "0 < PgCount (sample_manager 2)" by (simp add: PgCount_def sample_manager_def new_pg_manager_def)
  from RebuildFromNodes_places[OF sample_manager_pg_ok m' this] m' show ?thesis
    by (auto simp: ReplicaCount_def sample_manager_def new_pg_manager_def)
qed

lemma sample_hashes: "Hash64 ''0/a/1'' = 14175577650415787951" "Hash64 ''0/b/1'' = 3568536043927600803"
  by (simp_all add: Hash64_def MixU64_def Let_def)

lemma sample_digits: "to_string (0 :: u32) = ''0''" "to_string (1 :: u64) = ''1''"
  by (simp_all add: to_string_def dec_digits.simps) code_simp+

lemma sample_group:
  assumes "RebuildFromNodes (map (\<lambda>x. real_info x x) [''a'', ''b'']) 1 (sample_manager 1) = Inr m"
  shows "\<exists>s. ResolvePg m 0 0 = Inr s \<and> map pm_node_id (ps_members s) = [''a'']"
proof -
  have "ranked 0 1 (BuildCandidates (map (\<lambda>x. real_info x x) [''a'', ''b''])) = BuildCandidates (map (\<lambda>x. real_info x x) [''a'', ''b''])"
    by (simp add: ranked_def BuildCandidates_def candidates_real Hash64Pair_def sample_digits sample_hashes)
  then have "pick_members 1 1 [] [] (ranked 0 1 (BuildCandidates (map (\<lambda>x. real_info x x) [''a'', ''b'']))) =
      [pg_member 1 (hd (node_candidates (real_info ''a'' ''a'')))]"
    by (simp add: BuildCandidates_def candidates_real)
  moreover have "ReplaceView (built_view (map (\<lambda>x. real_info x x) [''a'', ''b'']) 1 (pg_options (sample_manager 1))) (sample_manager 1) = Inr m"
    using assms RebuildFromNodes_eq[OF sample_manager_ok] by blast
  ultimately show ?thesis
    by (auto simp: ReplaceView_def built_view_def sample_manager_def new_pg_manager_def ResolvePg_def GetViewLocked_def
        candidates_real pg_member_def split: if_splits)
qed


definition sample_placement_view :: "u64 \<Rightarrow> PlacementView" where
  "sample_placement_view epoch = \<lparr>pv_epoch = epoch, pv_pg_count = 1, pv_replica = 1,
     pv_pg_to_replicas = [\<lparr>ps_pg_id = 0, ps_view_epoch = epoch, ps_members = []\<rparr>]\<rparr>"


end
