(* ===== verification/Object_Allocator.thy ===== *)
theory Object_Allocator
  imports PG_Manager
begin

text \<open>
  Where a new object goes: \<open>src/src/mds/allocator/ObjectAllocator.{h,cpp}\<close>, with the message
  \<open>ReplicaLocation\<close> of \<open>src/src/msg/mds.proto\<close>.  The allocator asks the placement groups or, directly, the
  node cache.  The cache and the manager of the placement groups are pointers in the code; here the allocator
  holds the objects, or nothing for a null pointer.  The output vector is described only on success: some
  failures leave a part of the result in it.  Shown here: after the placement groups have been rebuilt, every
  object gets as many locations as asked for, in different failure groups, and always the same ones; and
  what direct allocation returns.
\<close>

section \<open>Data\<close>

datatype RpcStorageTier = STORAGE_TIER_DISK | STORAGE_TIER_OPTICAL

datatype ReplicaState = REPLICA_READY | REPLICA_PENDING | REPLICA_DEGRADED

record ReplicaLocation =
  lo_node_id :: string
  lo_node_address :: string
  lo_disk_id :: string
  lo_object_id :: string
  lo_size :: u64
  lo_checksum :: u32
  lo_group_id :: string
  lo_epoch :: u64
  lo_primary_node_id :: string
  lo_primary_address :: string
  lo_secondary_node_id :: string
  lo_secondary_address :: string
  lo_sync_ready :: bool
  lo_storage_tier :: RpcStorageTier
  lo_replica_state :: ReplicaState
  lo_image_id :: string
  lo_image_offset :: u64
  lo_image_length :: u64
  lo_instance_generation :: u64

record ObjectAllocator =
  oa_cache :: "NodeStateCache option"
  oa_pg_manager :: "PGManager option"

datatype object_alloc_error =
    InvalidAllocateArguments | PgManagerUnavailable | PgEpochUnavailable | PgError pg_error | InsufficientPgReplicas u32 nat
  | InsufficientForType | InsufficientAfterFilter | CacheUnavailable | InsufficientAllocatable | IncompleteDirect
  | InvalidDirectArguments | InsufficientAuthorized | IncompleteAuthorized

section \<open>Allocation by placement group\<close>

definition member_location :: "string \<Rightarrow> PgReplicaMember \<Rightarrow> ReplicaLocation" where
  "member_location object_id member =
     \<lparr>lo_node_id = pm_node_id member, lo_node_address = pm_node_address member, lo_disk_id = pm_disk_id member,
      lo_object_id = object_id, lo_size = 0, lo_checksum = 0, lo_group_id = pm_group_id member, lo_epoch = pm_epoch member,
      lo_primary_node_id = pm_primary_node_id member, lo_primary_address = pm_primary_address member,
      lo_secondary_node_id = pm_secondary_node_id member, lo_secondary_address = pm_secondary_address member,
      lo_sync_ready = pm_sync_ready member, lo_storage_tier = STORAGE_TIER_DISK, lo_replica_state = REPLICA_READY,
      lo_image_id = [], lo_image_offset = 0, lo_image_length = 0, lo_instance_generation = 0\<rparr>"

fun take_members ::
  "u32 \<Rightarrow> string \<Rightarrow> MdsNodeType \<Rightarrow> bool \<Rightarrow> ReplicaLocation list \<Rightarrow> PgReplicaMember list \<Rightarrow> ReplicaLocation list" where
  "take_members replica object_id required_type strict_type out [] = out"
| "take_members replica object_id required_type strict_type out (member # members) =
     (if strict_type \<and> pm_node_type member \<noteq> required_type then take_members replica object_id required_type strict_type out members
      else let out1 = out @ [member_location object_id member]
           in if length out1 \<ge> unat replica then out1 else take_members replica object_id required_type strict_type out1 members)"

fun fill_members :: "u32 \<Rightarrow> string \<Rightarrow> ReplicaLocation list \<Rightarrow> PgReplicaMember list \<Rightarrow> ReplicaLocation list" where
  "fill_members replica object_id out [] = out"
| "fill_members replica object_id out (member # members) =
     (if list_ex (\<lambda>current. lo_node_id current = pm_node_id member \<and> lo_disk_id current = pm_disk_id member) out
      then fill_members replica object_id out members
      else let out1 = out @ [member_location object_id member]
           in if length out1 \<ge> unat replica then out1 else fill_members replica object_id out1 members)"

definition AllocateObjectByPgWithType ::
  "u32 \<Rightarrow> string \<Rightarrow> u64 \<Rightarrow> MdsNodeType \<Rightarrow> bool \<Rightarrow> ObjectAllocator \<Rightarrow> object_alloc_error + ReplicaLocation list" where
  "AllocateObjectByPgWithType replica object_id epoch0 required_type strict_type a =
     (if replica = 0 then Inl InvalidAllocateArguments
      else case oa_pg_manager a of
        None \<Rightarrow> Inl PgManagerUnavailable
      | Some m \<Rightarrow>
          let epoch = (if epoch0 = 0 then CurrentEpoch m else epoch0)
          in if epoch = 0 then Inl PgEpochUnavailable
             else case ResolvePg m (ObjectToPg m object_id epoch) epoch of
               Inl e \<Rightarrow> Inl (PgError e)
             | Inr pg_set \<Rightarrow>
                 if length (ps_members pg_set) < unat replica then Inl (InsufficientPgReplicas replica (length (ps_members pg_set)))
                 else let out1 = take_members replica object_id required_type strict_type [] (ps_members pg_set);
                          out2 = (if \<not> strict_type \<and> length out1 < unat replica then fill_members replica object_id out1 (ps_members pg_set)
                                  else out1)
                      in if length out2 < unat replica then Inl (if strict_type then InsufficientForType else InsufficientAfterFilter)
                         else Inr out2)"

definition AllocateObjectByPg :: "u32 \<Rightarrow> string \<Rightarrow> u64 \<Rightarrow> ObjectAllocator \<Rightarrow> object_alloc_error + ReplicaLocation list" where
  "AllocateObjectByPg replica object_id epoch a = AllocateObjectByPgWithType replica object_id epoch kRealNode False a"

definition AllocateObject :: "u32 \<Rightarrow> string \<Rightarrow> ObjectAllocator \<Rightarrow> object_alloc_error + ReplicaLocation list" where
  "AllocateObject replica object_id a =
     (if replica = 0 then Inl InvalidAllocateArguments
      else case oa_pg_manager a of
        None \<Rightarrow> Inl PgManagerUnavailable
      | Some m \<Rightarrow> AllocateObjectByPg replica object_id (CurrentEpoch m) a)"

section \<open>Direct allocation\<close>

definition selection_location :: "string \<Rightarrow> NodeSelection \<Rightarrow> ReplicaLocation" where
  "selection_location object_id selection =
     \<lparr>lo_node_id = se_node_id selection, lo_node_address = se_address selection, lo_disk_id = se_disk_id selection,
      lo_object_id = object_id, lo_size = 0, lo_checksum = 0, lo_group_id = se_group_id selection, lo_epoch = se_epoch selection,
      lo_primary_node_id = se_node_id selection, lo_primary_address = se_address selection,
      lo_secondary_node_id = se_secondary_node_id selection, lo_secondary_address = se_secondary_address selection,
      lo_sync_ready = se_sync_ready selection, lo_storage_tier = STORAGE_TIER_DISK, lo_replica_state = REPLICA_READY,
      lo_image_id = [], lo_image_offset = 0, lo_image_length = 0, lo_instance_generation = 0\<rparr>"

definition selection_usable :: "NodeSelection \<Rightarrow> bool" where
  "selection_usable selection = (\<not> (se_node_id selection = [] \<or> se_disk_id selection = []))"

fun take_selections :: "u32 \<Rightarrow> string \<Rightarrow> ReplicaLocation list \<Rightarrow> NodeSelection list \<Rightarrow> ReplicaLocation list" where
  "take_selections replica object_id out [] = out"
| "take_selections replica object_id out (selection # selections) =
     (if \<not> selection_usable selection then take_selections replica object_id out selections
      else let out1 = out @ [selection_location object_id selection]
           in if length out1 \<ge> unat replica then out1 else take_selections replica object_id out1 selections)"

definition AllocateObjectDirectByType ::
  "u32 \<Rightarrow> string \<Rightarrow> MdsNodeType \<Rightarrow> ObjectAllocator \<Rightarrow> (object_alloc_error + ReplicaLocation list) \<times> ObjectAllocator" where
  "AllocateObjectDirectByType replica object_id required_type a =
     (if replica = 0 then (Inl InvalidAllocateArguments, a)
      else case oa_cache a of
        None \<Rightarrow> (Inl CacheUnavailable, a)
      | Some cache \<Rightarrow>
          (case PickNodesByType replica required_type cache of
             (selections, cache1) \<Rightarrow>
               let a1 = a\<lparr>oa_cache := Some cache1\<rparr>
               in if length selections < unat replica then (Inl InsufficientAllocatable, a1)
                  else let out = take_selections replica object_id [] selections
                       in if length out < unat replica then (Inl IncompleteDirect, a1) else (Inr out, a1)))"

definition AllocateObjectDirect ::
  "u32 \<Rightarrow> string \<Rightarrow> ObjectAllocator \<Rightarrow> (object_alloc_error + ReplicaLocation list) \<times> ObjectAllocator" where
  "AllocateObjectDirect replica object_id a =
     (if replica = 0 then (Inl InvalidDirectArguments, a)
      else case oa_cache a of
        None \<Rightarrow> (Inl InvalidDirectArguments, a)
      | Some cache \<Rightarrow>
          (case PickNodes replica cache of
             (selections, cache1) \<Rightarrow>
               let a1 = a\<lparr>oa_cache := Some cache1\<rparr>
               in if length selections < unat replica then (Inl InsufficientAuthorized, a1)
                  else let out = map (selection_location object_id) (filter selection_usable selections)
                       in if length out < unat replica then (Inl IncompleteAuthorized, a1) else (Inr out, a1)))"

section \<open>Resolution\<close>

definition Allocator_ResolveNodeAddress :: "ObjectAllocator \<Rightarrow> string \<Rightarrow> string option" where
  "Allocator_ResolveNodeAddress a node_id =
     (case oa_cache a of
        None \<Rightarrow> None
      | Some cache \<Rightarrow> if node_id = [] then None else Cache_ResolveNodeAddress cache node_id)"

definition Allocator_ResolveDiskId :: "ObjectAllocator \<Rightarrow> string \<Rightarrow> u32 \<Rightarrow> string option" where
  "Allocator_ResolveDiskId a node_id numeric_disk_id =
     (case oa_cache a of
        None \<Rightarrow> None
      | Some cache \<Rightarrow> if node_id = [] \<or> numeric_disk_id = 0 then None else Cache_ResolveDiskId cache node_id numeric_disk_id)"

definition SetPgManager :: "PGManager option \<Rightarrow> ObjectAllocator \<Rightarrow> ObjectAllocator" where
  "SetPgManager pg_manager a = a\<lparr>oa_pg_manager := pg_manager\<rparr>"

section \<open>Allocation by placement group finds its replicas\<close>

lemma take_members_eq:
  assumes "length out < unat replica"
  shows "take_members replica object_id t strict out members =
    out @ map (member_location object_id) (take (unat replica - length out) (filter (\<lambda>x. strict \<longrightarrow> pm_node_type x = t) members))"
  using assms
proof (induction replica object_id t strict out members rule: take_members.induct)
  case (2 replica object_id t strict out member members)
  show ?case
  proof (cases "(strict \<and> pm_node_type member \<noteq> t) \<or> \<not> Suc (length out) < unat replica")
    case True
    then show ?thesis using 2 by (auto simp: Let_def take_Cons' not_less le_Suc_eq)
  next
    case False
    then have "\<not> (strict \<and> pm_node_type member \<noteq> t)" "Suc (length out) < unat replica" by auto
    then show ?thesis using 2(2,3) by (auto simp: Let_def take_Cons' Suc_diff_le)
  qed
qed simp

text \<open>The second loop over the members never finds anything to add: without a required type, the first one
  has taken enough.\<close>

lemma AllocateObjectByPgWithType_eq:
  assumes "oa_pg_manager a = Some m" "replica \<noteq> 0" "epoch \<noteq> 0" "ResolvePg m (ObjectToPg m object_id epoch) epoch = Inr pg_set"
    and "unat replica \<le> length (ps_members pg_set)"
  shows "AllocateObjectByPgWithType replica object_id epoch t strict a =
    (let ms = filter (\<lambda>x. strict \<longrightarrow> pm_node_type x = t) (ps_members pg_set)
     in if length ms < unat replica then Inl InsufficientForType else Inr (map (member_location object_id) (take (unat replica) ms)))"
proof -
  have "[] = ([] :: ReplicaLocation list)" "0 < unat replica" using assms(2) by (simp_all add: unat_gt_0)
  then have "take_members replica object_id t strict [] (ps_members pg_set) =
      map (member_location object_id) (take (unat replica) (filter (\<lambda>x. strict \<longrightarrow> pm_node_type x = t) (ps_members pg_set)))"
    by (simp add: take_members_eq)
  then show ?thesis using assms by (cases strict) (simp_all add: AllocateObjectByPgWithType_def Let_def min_def)
qed

lemma ObjectToPg_range:
  assumes "GetViewLocked m epoch = Some view" "pv_pg_count view \<noteq> 0"
  shows "ObjectToPg m object_id epoch < pv_pg_count view"
proof -
  let ?n = "ucast (pv_pg_count view) :: u64"
  have n: "unat ?n = unat (pv_pg_count view)" by (simp add: unat_ucast_up)
  have "0 < unat (pv_pg_count view)" using assms(2) by (simp add: unat_gt_0)
  then have "unat (Hash64 object_id mod ?n) < unat (pv_pg_count view)" by (simp add: unat_mod n)
  moreover have "unat (pv_pg_count view) < 2 ^ 32" by (rule order_less_le_trans[OF unsigned_less]) simp
  ultimately have "unat (ucast (Hash64 object_id mod ?n) :: u32) = unat (Hash64 object_id mod ?n)"
    by (simp add: unsigned_ucast_eq take_bit_eq_mod)
  then show ?thesis using \<open>unat (Hash64 object_id mod ?n) < _\<close> assms by (simp add: ObjectToPg_def word_less_nat_alt)
qed

text \<open>C22: After the placement groups have been rebuilt, every object can be allocated with up to as many replicas as
  the groups have: the allocation returns that many locations, all for this object, in different failure
  groups, each on a healthy writable disk of a node that admits writes.  Asking again, by the current epoch
  or by number, gives the same locations.\<close>

theorem AllocateObject_after_rebuild:
  assumes "pg_ok m" "RebuildFromNodes nodes epoch m = Inr m'" "oa_pg_manager a = Some m'" "replica \<noteq> 0" "replica \<le> ReplicaCount m"
  shows "\<exists>locs. AllocateObject replica object_id a = Inr locs \<and> AllocateObjectByPg replica object_id epoch a = Inr locs \<and>
    length locs = unat replica \<and> distinct (map lo_group_id locs) \<and>
    (\<forall>loc \<in> set locs. lo_object_id loc = object_id \<and>
       (\<exists>node \<in> set nodes. \<exists>c. candidate_of c node \<and> loc = member_location object_id (pg_member epoch c)))"
proof -
  have pgs: "0 < PgCount m" using assms(1) by (simp add: pg_ok_def pg_options_ok_def PgCount_def word_gt_0)
  note view = ResolvePg_rebuilt[OF assms(1,2) pgs, of epoch]
  have "ObjectToPg m' object_id epoch < PgCount m"
    using ObjectToPg_range[of m' epoch "built_view nodes epoch (pg_options m)" object_id] view pgs
    by (simp add: built_view_def PgCount_def word_gt_0)
  note pg = ResolvePg_rebuilt[OF assms(1,2) this, of epoch]
  let ?ms = "map (pg_member epoch) (take (unat (ReplicaCount m)) (firsts cn_group_id [] (ranked (ObjectToPg m' object_id epoch) epoch (BuildCandidates nodes))))"
  have ms: "length ?ms = unat (ReplicaCount m)" "distinct (map pm_group_id ?ms)"
      "\<forall>x \<in> set ?ms. \<exists>node \<in> set nodes. \<exists>c. candidate_of c node \<and> x = pg_member epoch c"
    using rebuilt_members[OF _ refl, of "unat (ReplicaCount m)" nodes epoch "ObjectToPg m' object_id epoch"] pg by blast+
  let ?locs = "map (member_location object_id) (take (unat replica) ?ms)"
  have le: "unat replica \<le> unat (ReplicaCount m)" using assms(5) by (simp add: word_le_nat_alt)
  have "AllocateObjectByPg replica object_id epoch a = Inr ?locs"
    using AllocateObjectByPgWithType_eq[OF assms(3,4) _ conjunct1[OF pg]] pg ms(1) le
    by (simp add: AllocateObjectByPg_def Let_def)
  moreover have "AllocateObject replica object_id a = AllocateObjectByPg replica object_id epoch a"
    using assms(3,4) pg by (simp add: AllocateObject_def)
  moreover have "length ?locs = unat replica" using ms(1) le by simp
  moreover have "distinct (map lo_group_id ?locs)"
    using distinct_take[OF ms(2), of "unat replica"] by (simp add: member_location_def comp_def take_map)
  moreover have "\<forall>loc \<in> set ?locs. lo_object_id loc = object_id \<and>
      (\<exists>node \<in> set nodes. \<exists>c. candidate_of c node \<and> loc = member_location object_id (pg_member epoch c))"
  proof
    fix loc
    assume "loc \<in> set ?locs"
    then obtain x where x: "x \<in> set (take (unat replica) ?ms)" "loc = member_location object_id x" by (auto simp del: set_take_subset)
    then obtain node c where "node \<in> set nodes" "candidate_of c node" "x = pg_member epoch c" using ms(3) in_set_takeD by metis
    then show "lo_object_id loc = object_id \<and>
      (\<exists>node \<in> set nodes. \<exists>c. candidate_of c node \<and> loc = member_location object_id (pg_member epoch c))"
      using x(2) by (auto simp: member_location_def[of _ "pg_member epoch c"] intro!: bexI[of _ node] exI[of _ c])
  qed
  ultimately show ?thesis by metis
qed

text \<open>With a required type, the allocation succeeds exactly if the group of the object has enough members of that
  type, and takes the first of them; nodes of that type outside the group do not count.\<close>

theorem AllocateObject_of_type:
  assumes "oa_pg_manager a = Some m" "replica \<noteq> 0" "epoch \<noteq> 0" "ResolvePg m (ObjectToPg m object_id epoch) epoch = Inr pg_set"
    and "unat replica \<le> length (ps_members pg_set)"
  shows "AllocateObjectByPgWithType replica object_id epoch t True a =
    (let ms = filter (\<lambda>x. pm_node_type x = t) (ps_members pg_set)
     in if length ms < unat replica then Inl InsufficientForType else Inr (map (member_location object_id) (take (unat replica) ms)))"
  using AllocateObjectByPgWithType_eq[OF assms] by simp

section \<open>Direct allocation\<close>

lemma picked_usable:
  assumes "picked_from t strict nodes s" "\<forall>node \<in> set nodes. nf_node_id node \<noteq> [] \<and> (\<forall>disk \<in> set (nf_disks node). dk_disk_id disk \<noteq> [])"
  shows "selection_usable s"
proof -
  obtain node disk where node: "node \<in> set nodes" "disk \<in> set (nf_disks node)" "se_disk_id s = dk_disk_id disk"
      "se_node_id s = nf_node_id node \<or> (\<exists>i. se_node_id s = BuildVirtualNodeId (nf_node_id node) i)"
    using assms(1) by (auto simp: comes_from_def split: if_splits)
  then have "dk_disk_id disk \<noteq> []" "nf_node_id node \<noteq> []" using assms(2) by blast+
  then show ?thesis using node(3,4) by (auto simp: selection_usable_def BuildVirtualNodeId_def)
qed

lemma take_selections_all:
  assumes "\<forall>s \<in> set selections. selection_usable s" "length out + length selections = unat replica"
  shows "take_selections replica object_id out selections = out @ map (selection_location object_id) selections"
  using assms by (induction replica object_id out selections rule: take_selections.induct) (auto simp: Let_def simp flip: length_0_conv)

definition named :: "NodeStateCache \<Rightarrow> bool" where
  "named c \<longleftrightarrow> (\<forall>node \<in> set (nc_nodes c). nf_node_id node \<noteq> [] \<and> (\<forall>disk \<in> set (nf_disks node). dk_disk_id disk \<noteq> []))"

text \<open>C26: Direct allocation, when nodes and disks have names: it succeeds exactly if some node admits writes (of
  the required type, if there is one), and then returns as many locations as asked for, each on a healthy
  writable disk of such a node.  It does not promise different nodes.\<close>

theorem AllocateObjectDirect_iff:
  assumes "oa_cache a = Some c" "named c" "replica \<noteq> 0"
  shows "(if admits kOpticalNode False (nc_nodes c)
     then \<exists>p. fst (AllocateObjectDirect replica object_id a) = Inr (map (selection_location object_id) p) \<and> length p = unat replica \<and>
            (\<forall>s \<in> set p. picked_from kOpticalNode False (nc_nodes c) s)
     else fst (AllocateObjectDirect replica object_id a) = Inl InsufficientAuthorized) \<and>
    (if admits t True (nc_nodes c)
     then \<exists>p. fst (AllocateObjectDirectByType replica object_id t a) = Inr (map (selection_location object_id) p) \<and> length p = unat replica \<and>
            (\<forall>s \<in> set p. picked_from t True (nc_nodes c) s)
     else fst (AllocateObjectDirectByType replica object_id t a) = Inl InsufficientAllocatable)"
proof -
  have names: "\<forall>node \<in> set (nc_nodes c). nf_node_id node \<noteq> []" using assms(2) by (simp add: named_def)
  have r: "0 < unat replica" using assms(3) by (simp add: unat_gt_0)
  obtain p c1 where p: "PickNodes replica c = (p, c1)" by force
  obtain q c2 where q: "PickNodesByType replica t c = (q, c2)" by force
  note p' = pick_nodes_picked[OF p[unfolded PickNodes_def] names] and q' = pick_nodes_picked[OF q[unfolded PickNodesByType_def] names]
  have p_usable: "\<forall>s \<in> set p. selection_usable s" and q_usable: "\<forall>s \<in> set q. selection_usable s"
    using p' q' picked_usable[where nodes = "nc_nodes c"] assms(2) unfolding named_def by blast+
  have "take_selections replica object_id [] q = map (selection_location object_id) q" if "length q = unat replica"
    using take_selections_all[OF q_usable, of "[]"] that by simp
  moreover have "filter selection_usable p = p" using p_usable by (simp add: filter_id_conv)
  ultimately show ?thesis using p' q' r assms(1,3) p q
    by (auto simp: AllocateObjectDirect_def AllocateObjectDirectByType_def Let_def)
qed

section \<open>Instances\<close>

theorem AllocateObject_after_rebuild_witness:
  "\<exists>m' locs. RebuildFromNodes (map (\<lambda>x. real_info x x) [''a'', ''b'']) 1 (sample_manager 2) = Inr m' \<and>
     AllocateObject 2 ''obj'' \<lparr>oa_cache = None, oa_pg_manager = Some m'\<rparr> = Inr locs \<and> length locs = 2 \<and> distinct (map lo_group_id locs)"
proof -
  obtain m' where m': "RebuildFromNodes (map (\<lambda>x. real_info x x) [''a'', ''b'']) 1 (sample_manager 2) = Inr m'"
    using sample_rebuild[OF sample_manager_ok, of 2 "[''a'', ''b'']"] by (auto simp: sample_manager_def new_pg_manager_def)
  have "(2 :: u32) \<noteq> 0" "2 \<le> ReplicaCount (sample_manager 2)" by (simp_all add: ReplicaCount_def sample_manager_def new_pg_manager_def)
  from AllocateObject_after_rebuild[OF sample_manager_pg_ok m' _ this, of "\<lparr>oa_cache = None, oa_pg_manager = Some m'\<rparr>" "''obj''"] m'
  show ?thesis by auto
qed

definition sample_typed_manager :: PGManager where
  "sample_typed_manager = (sample_manager 1)\<lparr>pg_history := [(1, \<lparr>pv_epoch = 1, pv_pg_count = 1, pv_replica = 2,
     pv_pg_to_replicas = [\<lparr>ps_pg_id = 0, ps_view_epoch = 1,
       ps_members = map (\<lambda>x. pg_member 1 (hd (node_candidates x))) [sample_info ''a'' ''A'', real_info ''b'' ''B'']\<rparr>]\<rparr>)]\<rparr>"

theorem AllocateObject_of_type_witness:
  "AllocateObjectByPgWithType 1 ''obj'' 1 kRealNode True \<lparr>oa_cache = None, oa_pg_manager = Some sample_typed_manager\<rparr> =
     Inr [member_location ''obj'' (pg_member 1 (hd (node_candidates (real_info ''b'' ''B''))))]"
proof -
  let ?ms = "map (\<lambda>x. pg_member 1 (hd (node_candidates x))) [sample_info ''a'' ''A'', real_info ''b'' ''B'']"
  have pg: "ObjectToPg sample_typed_manager ''obj'' 1 = 0"
    using ObjectToPg_range[of sample_typed_manager 1 _ "''obj''"] by (simp add: sample_typed_manager_def GetViewLocked_def word_less_nat_alt unat_eq_zero)
  have "ResolvePg sample_typed_manager 0 1 = Inr \<lparr>ps_pg_id = 0, ps_view_epoch = 1, ps_members = ?ms\<rparr>"
    by (simp add: sample_typed_manager_def ResolvePg_def GetViewLocked_def)
  moreover have "cn_node_type (hd (node_candidates (sample_info ''a'' ''A''))) = kVirtualNode"
    by (simp add: node_candidates_def sample_info_def Pg_IsNodeAllocatable_def disk_usable_def disk_writable_def IsVirtualizedNodeType_def
        upt_rec[of 0])
  then have "filter (\<lambda>x. pm_node_type x = kRealNode) ?ms = [pg_member 1 (hd (node_candidates (real_info ''b'' ''B'')))]"
    by (simp add: candidates_real pg_member_def)
  ultimately show ?thesis
    using AllocateObject_of_type[of "\<lparr>oa_cache = None, oa_pg_manager = Some sample_typed_manager\<rparr>" sample_typed_manager 1 1 "''obj''"
        "\<lparr>ps_pg_id = 0, ps_view_epoch = 1, ps_members = ?ms\<rparr>" kRealNode]
    by (simp add: pg)
qed

theorem AllocateObjectDirect_iff_witness:
  "\<exists>p. fst (AllocateObjectDirect 3 ''obj'' \<lparr>oa_cache = Some (new_cache [sample_info ''a'' ''A'']), oa_pg_manager = None\<rparr>) = Inr p \<and>
     length p = 3 \<and>
     fst (AllocateObjectDirectByType 3 ''obj'' kRealNode \<lparr>oa_cache = Some (new_cache [sample_info ''a'' ''A'']), oa_pg_manager = None\<rparr>) =
       Inl InsufficientAllocatable"
proof -
  have a: "admits kOpticalNode False (nc_nodes (new_cache [sample_info ''a'' ''A'']))"
    "\<not> admits kRealNode True (nc_nodes (new_cache [sample_info ''a'' ''A'']))"
    by (simp_all add: new_cache_def Cache_IsNodeAllocatable_def sample_info_def disk_usable_def disk_writable_def)
  have "named (new_cache [sample_info ''a'' ''A''])" by (simp add: named_def new_cache_def sample_info_def)
  from AllocateObjectDirect_iff[OF _ this, of "\<lparr>oa_cache = Some (new_cache [sample_info ''a'' ''A'']), oa_pg_manager = None\<rparr>" 3 "''obj''" kRealNode] a
  show ?thesis by auto
qed

end
