(* ===== verification/Cms_Registry.thy ===== *)
theory Cms_Registry
  imports Object_Allocator Rocks_Store Optical_Model "HOL-Library.List_Lexorder" "HOL-Library.Char_ord"
begin

text \<open>
  The registry of nodes that the metadata server owns: \<open>src/src/mds/allocator/CmsNodeRegistry.{h,cpp}\<close>.  The
  scheduler proposes the catalogue of all nodes; a commit checks it against the catalogue in force, gives new
  nodes a compact id, stores a snapshot, and only then replaces the catalogue, the node cache and the
  placement groups.  Messages (\<open>mds.proto\<close>, \<open>scheduler.proto\<close>) are records of the fields the code reads;
  enums are numbers, since a message may hold a number without name; a submessage is optional where the code
  asks for its presence.  Parameters are the database, the serialisation of the snapshot (\<open>catalog_codec\<close>) and the
  rounding of \<open>long double\<close>; utilisations are numbers, not NaN.  Shown here: compact ids are unique within
  their family and never change or return, retired nodes stay retired, a refused proposal changes nothing, a
  restart restores the last commit, virtual ids resolve to their node, and what the node cache admits the
  registry admits.
\<close>

section \<open>Messages\<close>

abbreviation "MANAGED_KIND_METADATA \<equiv> (2 :: int)"
abbreviation "MANAGED_KIND_OPTICAL_LIBRARY \<equiv> (3 :: int)"
abbreviation "MANAGED_EXECUTION_PHYSICAL \<equiv> (1 :: int)"
abbreviation "MANAGED_EXECUTION_VIRTUAL \<equiv> (2 :: int)"
abbreviation "MANAGED_DEVICE_HDD \<equiv> (1 :: int)"
abbreviation "MANAGED_DEVICE_SSD \<equiv> (2 :: int)"
abbreviation "MANAGED_DEVICE_DISC \<equiv> (3 :: int)"
abbreviation "MANAGED_DEVICE_OPTICAL_DRIVE \<equiv> (4 :: int)"
abbreviation "MANAGED_LIFECYCLE_WORKING \<equiv> (2 :: int)"
abbreviation "MANAGED_LIFECYCLE_RETIRED \<equiv> (5 :: int)"
abbreviation "MANAGED_HEALTH_HEALTHY \<equiv> (1 :: int)"
abbreviation "MANAGED_POWER_MEDIUM \<equiv> (3 :: int)"
abbreviation "MANAGED_POWER_PEAK \<equiv> (4 :: int)"
abbreviation "MANAGED_ADMIN_ENABLED \<equiv> (1 :: int)"
abbreviation "MANAGED_SERVICE_READ_WRITE \<equiv> (1 :: int)"

record ManagedDeviceGroup =
  mg_kind :: int
  mg_device_count :: u32
  mg_per_device_bandwidth :: u64
  mg_max_concurrency :: u32
  mg_per_device_write_bandwidth :: u64

record ManagedPowerProfile =
  mp_peak_milliwatts :: u64
  mp_medium_milliwatts :: u64
  mp_standby_milliwatts :: u64

record ManagedNodeSpec =
  ms_node_id :: string
  ms_kind :: int
  ms_execution_mode :: int
  ms_logical_node_count :: u32
  ms_participates_in_placement :: bool
  ms_external_network_bandwidth :: u64
  ms_device_groups :: "ManagedDeviceGroup list"
  ms_power :: ManagedPowerProfile
  ms_instance_generation :: u64

record ManagedDeviceInventory =
  md_device_id :: string
  md_kind :: int
  md_capacity_bytes :: u64
  md_free_bytes :: u64
  md_is_healthy :: bool

record ManagedOpticalLibraryStatus =
  mo_observed :: bool
  mo_staging_capacity_bytes :: u64
  mo_staging_used_bytes :: u64
  mo_telemetry_version :: u32
  mo_inventory_valid :: bool
  mo_staging_valid :: bool
  mo_background_valid :: bool
  mo_valid_until_ms :: u64
  mo_accepts_archive_writes :: bool

record ManagedNodeReadiness =
  mr_observed :: bool
  mr_initialization_complete :: bool
  mr_inventory_ready :: bool
  mr_metadata_ready :: bool

record ManagedNodeView =
  mv_spec :: "ManagedNodeSpec option"
  mv_lifecycle :: int
  mv_health :: int
  mv_power_level :: int
  mv_last_utilization :: rat
  mv_last_queue_depth :: u32
  mv_actuated_power_level :: int
  mv_compact_id :: u64
  mv_service_address :: string
  mv_administrative_state :: int
  mv_service_mode :: int
  mv_last_heartbeat_ms :: u64
  mv_inventory_devices :: "ManagedDeviceInventory list"
  mv_optical_library :: ManagedOpticalLibraryStatus
  mv_readiness :: ManagedNodeReadiness

record PlacementNodeView =
  pl_node_id :: string
  pl_address :: string

record CmsNodeCatalogEntry =
  ce_placement_view :: "PlacementNodeView option"
  ce_managed_view :: "ManagedNodeView option"

record CmsNodeCatalogSnapshot =
  cat_format_version :: u32
  cat_cms_generation :: u64
  cat_scheduler_generation :: u64
  cat_next_storage_compact_id :: u32
  cat_next_optical_compact_id :: u32
  cat_nodes :: "CmsNodeCatalogEntry list"

text \<open>Reading an absent submessage gives the default message.\<close>

definition default_spec :: ManagedNodeSpec where
  "default_spec = \<lparr>ms_node_id = [], ms_kind = 0, ms_execution_mode = 0, ms_logical_node_count = 0, ms_participates_in_placement = False,
     ms_external_network_bandwidth = 0, ms_device_groups = [],
     ms_power = \<lparr>mp_peak_milliwatts = 0, mp_medium_milliwatts = 0, mp_standby_milliwatts = 0\<rparr>, ms_instance_generation = 0\<rparr>"

definition default_view :: ManagedNodeView where
  "default_view = \<lparr>mv_spec = None, mv_lifecycle = 0, mv_health = 0, mv_power_level = 0, mv_last_utilization = 0, mv_last_queue_depth = 0,
     mv_actuated_power_level = 0, mv_compact_id = 0, mv_service_address = [], mv_administrative_state = 0, mv_service_mode = 0,
     mv_last_heartbeat_ms = 0, mv_inventory_devices = [],
     mv_optical_library = \<lparr>mo_observed = False, mo_staging_capacity_bytes = 0, mo_staging_used_bytes = 0, mo_telemetry_version = 0,
       mo_inventory_valid = False, mo_staging_valid = False, mo_background_valid = False, mo_valid_until_ms = 0,
       mo_accepts_archive_writes = False\<rparr>,
     mv_readiness = \<lparr>mr_observed = False, mr_initialization_complete = False, mr_inventory_ready = False, mr_metadata_ready = False\<rparr>\<rparr>"

definition spec :: "ManagedNodeView \<Rightarrow> ManagedNodeSpec" where
  "spec node = (case mv_spec node of Some s \<Rightarrow> s | None \<Rightarrow> default_spec)"

definition managed_view :: "CmsNodeCatalogEntry \<Rightarrow> ManagedNodeView" where
  "managed_view entry = (case ce_managed_view entry of Some v \<Rightarrow> v | None \<Rightarrow> default_view)"

definition placement_view :: "CmsNodeCatalogEntry \<Rightarrow> PlacementNodeView" where
  "placement_view entry = (case ce_placement_view entry of Some v \<Rightarrow> v | None \<Rightarrow> \<lparr>pl_node_id = [], pl_address = []\<rparr>)"

definition set_compact_id :: "u32 \<Rightarrow> CmsNodeCatalogEntry \<Rightarrow> CmsNodeCatalogEntry" where
  "set_compact_id cid entry = entry\<lparr>ce_managed_view := Some ((managed_view entry)\<lparr>mv_compact_id := ucast cid\<rparr>)\<rparr>"

section \<open>The registry\<close>

record 'db CmsNodeRegistry =
  rg_cache :: "NodeStateCache option"
  rg_pg_manager :: "PGManager option"
  rg_store :: "'db RocksMetaStore option"
  rg_nodes :: "(string \<times> CmsNodeCatalogEntry) list"
  rg_cms_generation :: u64
  rg_scheduler_generation :: u64
  rg_next_storage_compact_id :: u32
  rg_next_optical_compact_id :: u32

definition new_registry :: "NodeStateCache option \<Rightarrow> PGManager option \<Rightarrow> 'db RocksMetaStore option \<Rightarrow> 'db CmsNodeRegistry" where
  "new_registry cache pg_manager st =
     \<lparr>rg_cache = cache, rg_pg_manager = pg_manager, rg_store = st, rg_nodes = [], rg_cms_generation = 1, rg_scheduler_generation = 0,
      rg_next_storage_compact_id = 1, rg_next_optical_compact_id = 1\<rparr>"

record catalog_codec =
  SerializeCatalog :: "CmsNodeCatalogSnapshot \<Rightarrow> bytes option"
  ParseCatalog :: "bytes \<Rightarrow> CmsNodeCatalogSnapshot option"

definition catalog_codec_laws :: "catalog_codec \<Rightarrow> bool" where
  "catalog_codec_laws C \<longleftrightarrow> (\<forall>s bs. SerializeCatalog C s = Some bs \<longrightarrow> ParseCatalog C bs = Some s)"

datatype cms_error =
    CmsSerializeFailed | CmsStoreError store_error | InvalidCatalogSnapshot | EntryLacksIdentity | InvalidOrDuplicateIdentity
  | SchedulerGenerationRequired | StaleGeneration | MissingManagedIdentity | IdentitiesDiffer | DuplicateNode string
  | KindCannotChange string | InstanceCannotChange string | RetiredCannotRejoin string | CompactIdsExhausted | OmittedMember string

section \<open>Admission and weight\<close>

definition Cms_IsDataDevice :: "int \<Rightarrow> bool" where
  "Cms_IsDataDevice kind \<longleftrightarrow> kind = MANAGED_DEVICE_HDD \<or> kind = MANAGED_DEVICE_SSD"

definition Cms_SaturatingAdd :: "u64 \<Rightarrow> u64 \<Rightarrow> u64" where
  "Cms_SaturatingAdd lhs rhs = (if rhs > - 1 - lhs then - 1 else lhs + rhs)"

definition Cms_SaturatingMultiply :: "u64 \<Rightarrow> u64 \<Rightarrow> u64" where
  "Cms_SaturatingMultiply lhs rhs = (if lhs \<noteq> 0 \<and> rhs > - 1 div lhs then - 1 else lhs * rhs)"

definition IsRetired :: "ManagedNodeView \<Rightarrow> bool" where
  "IsRetired node \<longleftrightarrow> mv_lifecycle node = MANAGED_LIFECYCLE_RETIRED"

definition optical_archive :: "ManagedNodeView \<Rightarrow> bool" where
  "optical_archive node \<longleftrightarrow> ms_kind (spec node) = MANAGED_KIND_OPTICAL_LIBRARY \<and>
     mo_telemetry_version (mv_optical_library node) = 1 \<and> mo_accepts_archive_writes (mv_optical_library node)"

definition optical_unready :: "(rat \<Rightarrow> rat) \<Rightarrow> ManagedNodeView \<Rightarrow> bool" where
  "optical_unready rl node \<longleftrightarrow>
     (let optical = mv_optical_library node
      in (mo_telemetry_version optical \<noteq> 0 \<and>
          (\<not> mo_accepts_archive_writes optical \<or> \<not> mo_observed optical \<or> \<not> mo_inventory_valid optical \<or> \<not> mo_staging_valid optical \<or>
           \<not> mo_background_valid optical \<or> \<not> mr_observed (mv_readiness node) \<or> \<not> mr_initialization_complete (mv_readiness node) \<or>
           \<not> mr_metadata_ready (mv_readiness node) \<or> \<not> mr_inventory_ready (mv_readiness node) \<or>
           mv_last_heartbeat_ms node > mo_valid_until_ms optical)) \<or>
         (mo_staging_capacity_bytes optical > 0 \<and>
          rl (to_ld rl (mo_staging_used_bytes optical) / to_ld rl (mo_staging_capacity_bytes optical)) \<ge> rl (8 / 10)))"

definition serves_data :: "ManagedNodeView \<Rightarrow> ManagedDeviceInventory \<Rightarrow> bool" where
  "serves_data node device \<longleftrightarrow> Cms_IsDataDevice (md_kind device) \<or>
     (ms_kind (spec node) = MANAGED_KIND_OPTICAL_LIBRARY \<and> md_kind device = MANAGED_DEVICE_DISC)"

definition IsWriteAllocatable :: "(rat \<Rightarrow> rat) \<Rightarrow> ManagedNodeView \<Rightarrow> bool" where
  "IsWriteAllocatable rl node =
     (if mv_spec node = None \<or> (\<not> ms_participates_in_placement (spec node) \<and> \<not> optical_archive node) \<or>
         mv_lifecycle node \<noteq> MANAGED_LIFECYCLE_WORKING \<or> mv_health node \<noteq> MANAGED_HEALTH_HEALTHY \<or>
         mv_administrative_state node \<noteq> MANAGED_ADMIN_ENABLED \<or> mv_service_mode node \<noteq> MANAGED_SERVICE_READ_WRITE \<or>
         (mv_power_level node \<noteq> MANAGED_POWER_MEDIUM \<and> mv_power_level node \<noteq> MANAGED_POWER_PEAK) then False
      else if ms_kind (spec node) = MANAGED_KIND_METADATA then False
      else if ms_kind (spec node) = MANAGED_KIND_OPTICAL_LIBRARY \<and> optical_unready rl node then False
      else if ms_execution_mode (spec node) = MANAGED_EXECUTION_PHYSICAL \<and>
              mv_actuated_power_level node \<noteq> MANAGED_POWER_MEDIUM \<and> mv_actuated_power_level node \<noteq> MANAGED_POWER_PEAK then False
      else list_ex (\<lambda>device. md_is_healthy device \<and> md_free_bytes device > 0 \<and> serves_data node device) (mv_inventory_devices node))"

definition group_bandwidth :: "ManagedDeviceGroup \<Rightarrow> u64" where
  "group_bandwidth g =
     (let per_device = (if mg_per_device_write_bandwidth g = 0 then mg_per_device_bandwidth g else mg_per_device_write_bandwidth g);
          concurrency = (if mg_max_concurrency g = 0 then mg_device_count g else min (mg_device_count g) (mg_max_concurrency g))
      in Cms_SaturatingMultiply per_device (ucast concurrency))"

text \<open>The conversion of a scaled bandwidth back to 64 bits truncates; a value out of range is undefined in the
  code and wraps here.\<close>

definition SchedulingWeight :: "(rat \<Rightarrow> rat) \<Rightarrow> ManagedNodeView \<Rightarrow> u32" where
  "SchedulingWeight rl node =
     (if \<not> IsWriteAllocatable rl node then 1
      else let internal = foldl (\<lambda>internal g.
                 if (if ms_kind (spec node) = MANAGED_KIND_OPTICAL_LIBRARY then mg_kind g = MANAGED_DEVICE_OPTICAL_DRIVE else Cms_IsDataDevice (mg_kind g))
                 then Cms_SaturatingAdd internal (group_bandwidth g) else internal) 0 (ms_device_groups (spec node));
               effective0 = min internal (ms_external_network_bandwidth (spec node));
               power = ms_power (spec node);
               effective =
                 (if mv_power_level node = MANAGED_POWER_MEDIUM \<and> mp_peak_milliwatts power > mp_standby_milliwatts power
                  then let numerator = (if mp_medium_milliwatts power > mp_standby_milliwatts power
                                        then mp_medium_milliwatts power - mp_standby_milliwatts power else 0);
                           denominator = mp_peak_milliwatts power - mp_standby_milliwatts power
                       in from_ld (rl (rl (to_ld rl effective0 * to_ld rl numerator) / to_ld rl denominator))
                  else effective0);
               load_factor = max (rl (1 / 10)) (rl (1 - mv_last_utilization node));
               queue_factor = rl (1 / rl (1 + of_nat (unat (mv_last_queue_depth node))));
               raw = rl (rl (rl (to_ld rl effective / to_ld rl 100000000) * load_factor) * queue_factor)
           in of_nat (nat (max 1 (min 1000 \<lceil>raw\<rceil>))))"

definition BuildNodeInfo :: "(rat \<Rightarrow> rat) \<Rightarrow> CmsNodeCatalogEntry \<Rightarrow> NodeInfo" where
  "BuildNodeInfo rl entry =
     (let managed = managed_view entry;
          disks = map (\<lambda>device. \<lparr>dk_disk_id = md_device_id device, dk_capacity_bytes = md_capacity_bytes device,
              dk_free_bytes = md_free_bytes device, dk_is_healthy = md_is_healthy device\<rparr>)
            (filter (serves_data managed) (mv_inventory_devices managed))
      in \<lparr>nf_node_id = ms_node_id (spec managed),
          nf_address = (if mv_service_address managed = [] then pl_address (placement_view entry) else mv_service_address managed),
          nf_group_id = ms_node_id (spec managed),
          nf_type = (if ms_kind (spec managed) = MANAGED_KIND_OPTICAL_LIBRARY then kOpticalNode
                     else if ms_execution_mode (spec managed) = MANAGED_EXECUTION_VIRTUAL then kVirtualNode else kRealNode),
          nf_weight = SchedulingWeight rl managed, nf_virtual_node_count = max 1 (ms_logical_node_count (spec managed)),
          nf_next_virtual_index = 0, nf_allocatable = (if disks = [] then False else IsWriteAllocatable rl managed),
          nf_is_primary = True, nf_sync_ready = True, nf_epoch = 1, nf_secondary_node_id = [], nf_secondary_address = [],
          nf_disks = disks, nf_next_disk_index = 0\<rparr>)"

section \<open>Persistence and publication\<close>

definition PersistLocked ::
  "'db rocksdb \<Rightarrow> catalog_codec \<Rightarrow> (string \<times> CmsNodeCatalogEntry) list \<Rightarrow> u64 \<Rightarrow> u64 \<Rightarrow> u32 \<Rightarrow> u32 \<Rightarrow> 'db RocksMetaStore option \<Rightarrow>
   (cms_error + unit) \<times> 'db RocksMetaStore option" where
  "PersistLocked R C nodes cms_generation scheduler_generation next_storage next_optical st0 =
     (case st0 of
        None \<Rightarrow> (Inr (), None)
      | Some st \<Rightarrow>
          (case SerializeCatalog C \<lparr>cat_format_version = 1, cat_cms_generation = cms_generation, cat_scheduler_generation = scheduler_generation,
                  cat_next_storage_compact_id = next_storage, cat_next_optical_compact_id = next_optical, cat_nodes = map snd nodes\<rparr> of
             None \<Rightarrow> (Inl CmsSerializeFailed, Some st)
           | Some payload \<Rightarrow>
               (case Store_Put R CmsNodeCatalogSnapshotKey payload st of
                  (Inl e, st1) \<Rightarrow> (Inl (CmsStoreError e), Some st1)
                | (Inr _, st1) \<Rightarrow> (Inr (), Some st1))))"

definition PublishPlacementLocked :: "(rat \<Rightarrow> rat) \<Rightarrow> 'db CmsNodeRegistry \<Rightarrow> 'db CmsNodeRegistry" where
  "PublishPlacementLocked rl r =
     (let placement_nodes = map (\<lambda>item. BuildNodeInfo rl (snd item)) (rg_nodes r);
          has_allocatable_disk_node = list_ex (\<lambda>node. nf_allocatable node \<and> nf_type node \<noteq> kOpticalNode) placement_nodes
      in r\<lparr>rg_cache := map_option (ReplaceNodes placement_nodes) (rg_cache r),
           rg_pg_manager := map_option (\<lambda>m. if has_allocatable_disk_node
             then (case RebuildFromNodes placement_nodes (rg_cms_generation r) m of Inl _ \<Rightarrow> m | Inr m1 \<Rightarrow> m1) else m) (rg_pg_manager r)\<rparr>)"

definition optical_entry :: "CmsNodeCatalogEntry \<Rightarrow> bool" where
  "optical_entry entry \<longleftrightarrow> ms_kind (spec (managed_view entry)) = MANAGED_KIND_OPTICAL_LIBRARY"

definition max_compact_id :: "bool \<Rightarrow> u32" where
  "max_compact_id optical = (if optical then 0x00ffffff else 0x0000ffff)"

text \<open>The loop over the entries of a snapshot: the nodes so far, the compact ids of both families and the next
  free ones.\<close>

fun restore_entries ::
  "CmsNodeCatalogEntry list \<Rightarrow> (string \<times> CmsNodeCatalogEntry) list \<Rightarrow> u64 list \<Rightarrow> u64 list \<Rightarrow> u32 \<Rightarrow> u32 \<Rightarrow>
   cms_error + ((string \<times> CmsNodeCatalogEntry) list \<times> u32 \<times> u32)" where
  "restore_entries [] restored storage_ids optical_ids next_storage next_optical = Inr (restored, next_storage, next_optical)"
| "restore_entries (entry # entries) restored storage_ids optical_ids next_storage next_optical =
     (if ce_managed_view entry = None \<or> mv_spec (managed_view entry) = None then Inl EntryLacksIdentity
      else let node_id = ms_node_id (spec (managed_view entry));
               cid = mv_compact_id (managed_view entry);
               optical = optical_entry entry;
               ids = (if optical then optical_ids else storage_ids)
           in if node_id = [] \<or> cid = 0 \<or> cid > ucast (max_compact_id optical) \<or> cid \<in> set ids \<or> map_of restored node_id \<noteq> None
              then Inl InvalidOrDuplicateIdentity
              else restore_entries entries (map_put node_id entry restored)
                     (if optical then storage_ids else cid # storage_ids) (if optical then cid # optical_ids else optical_ids)
                     (if optical then next_storage else max next_storage (ucast cid + 1))
                     (if optical then max next_optical (ucast cid + 1) else next_optical))"

definition Cms_Restore ::
  "'db rocksdb \<Rightarrow> catalog_codec \<Rightarrow> (rat \<Rightarrow> rat) \<Rightarrow> 'db CmsNodeRegistry \<Rightarrow> (cms_error + unit) \<times> 'db CmsNodeRegistry" where
  "Cms_Restore R C rl r =
     (case rg_store r of
        None \<Rightarrow> (Inr (), r)
      | Some st \<Rightarrow>
          (case Store_Get R CmsNodeCatalogSnapshotKey st of
             Missing \<Rightarrow> (Inr (), r)
           | GetError e \<Rightarrow> if e = DbStatus [] then (Inr (), r) else (Inl (CmsStoreError e), r)
           | Found payload \<Rightarrow>
               (case ParseCatalog C payload of
                  None \<Rightarrow> (Inl InvalidCatalogSnapshot, r)
                | Some snapshot \<Rightarrow>
                    if cat_format_version snapshot \<noteq> 1 \<or> cat_cms_generation snapshot = 0 then (Inl InvalidCatalogSnapshot, r)
                    else (case restore_entries (cat_nodes snapshot) [] [] [] (max 1 (cat_next_storage_compact_id snapshot))
                                 (max 1 (cat_next_optical_compact_id snapshot)) of
                            Inl e \<Rightarrow> (Inl e, r)
                          | Inr (restored, next_storage, next_optical) \<Rightarrow>
                              (Inr (), PublishPlacementLocked rl (r\<lparr>rg_nodes := restored, rg_cms_generation := cat_cms_generation snapshot,
                                 rg_scheduler_generation := cat_scheduler_generation snapshot,
                                 rg_next_storage_compact_id := next_storage, rg_next_optical_compact_id := next_optical\<rparr>))))))"

section \<open>Commit\<close>

definition instance_generation :: "CmsNodeCatalogEntry \<Rightarrow> u64" where
  "instance_generation entry =
     (let g = ms_instance_generation (spec (managed_view entry)) in if g = 0 then 1 else g)"

text \<open>The compact id of a proposed node and the counters after it.\<close>

definition assign_id ::
  "(string \<times> CmsNodeCatalogEntry) list \<Rightarrow> string \<Rightarrow> CmsNodeCatalogEntry \<Rightarrow> u32 \<Rightarrow> u32 \<Rightarrow> cms_error + (u32 \<times> u32 \<times> u32)" where
  "assign_id nodes node_id entry next_storage next_optical =
     (case map_of nodes node_id of
        Some existing \<Rightarrow>
          if ms_kind (spec (managed_view existing)) \<noteq> ms_kind (spec (managed_view entry)) then Inl (KindCannotChange node_id)
          else if instance_generation existing \<noteq> instance_generation entry then Inl (InstanceCannotChange node_id)
          else if IsRetired (managed_view existing) \<and> \<not> IsRetired (managed_view entry) then Inl (RetiredCannotRejoin node_id)
          else Inr (ucast (mv_compact_id (managed_view existing)), next_storage, next_optical)
      | None \<Rightarrow>
          let optical = optical_entry entry; next_id = (if optical then next_optical else next_storage)
          in if next_id > max_compact_id optical then Inl CompactIdsExhausted
             else Inr (next_id, (if optical then next_storage else next_storage + 1), (if optical then next_optical + 1 else next_optical)))"

fun commit_entries ::
  "(string \<times> CmsNodeCatalogEntry) list \<Rightarrow> CmsNodeCatalogEntry list \<Rightarrow> (string \<times> CmsNodeCatalogEntry) list \<Rightarrow> u32 \<Rightarrow> u32 \<Rightarrow>
   cms_error + ((string \<times> CmsNodeCatalogEntry) list \<times> u32 \<times> u32)" where
  "commit_entries nodes [] next_nodes next_storage next_optical = Inr (next_nodes, next_storage, next_optical)"
| "commit_entries nodes (entry # entries) next_nodes next_storage next_optical =
     (let node_id = ms_node_id (spec (managed_view entry))
      in if ce_managed_view entry = None \<or> mv_spec (managed_view entry) = None \<or> node_id = [] then Inl MissingManagedIdentity
         else if ce_placement_view entry \<noteq> None \<and> pl_node_id (placement_view entry) \<noteq> [] \<and> pl_node_id (placement_view entry) \<noteq> node_id
         then Inl IdentitiesDiffer
         else if map_of next_nodes node_id \<noteq> None then Inl (DuplicateNode node_id)
         else case assign_id nodes node_id entry next_storage next_optical of
                Inl e \<Rightarrow> Inl e
              | Inr (cid, next_storage1, next_optical1) \<Rightarrow>
                  commit_entries nodes entries (map_put node_id (set_compact_id cid entry) next_nodes) next_storage1 next_optical1)"

definition assignments :: "'db CmsNodeRegistry \<Rightarrow> (string \<times> u32) list" where
  "assignments r = map (\<lambda>(node_id, entry). (node_id, ucast (mv_compact_id (managed_view entry)))) (rg_nodes r)"

definition Cms_Commit ::
  "'db rocksdb \<Rightarrow> catalog_codec \<Rightarrow> (rat \<Rightarrow> rat) \<Rightarrow> u64 \<Rightarrow> CmsNodeCatalogEntry list \<Rightarrow> 'db CmsNodeRegistry \<Rightarrow>
   (cms_error + (u64 \<times> (string \<times> u32) list)) \<times> 'db CmsNodeRegistry" where
  "Cms_Commit R C rl scheduler_generation proposed r =
     (if scheduler_generation = 0 then (Inl SchedulerGenerationRequired, r)
      else if scheduler_generation < rg_scheduler_generation r then (Inl StaleGeneration, r)
      else if scheduler_generation > rg_scheduler_generation r
      then case commit_entries (rg_nodes r) proposed [] (rg_next_storage_compact_id r) (rg_next_optical_compact_id r) of
             Inl e \<Rightarrow> (Inl e, r)
           | Inr (next_nodes, next_storage, next_optical) \<Rightarrow>
               (case find (\<lambda>current. map_of next_nodes (fst current) = None) (rg_nodes r) of
                  Some current \<Rightarrow> (Inl (OmittedMember (fst current)), r)
                | None \<Rightarrow>
                    (case PersistLocked R C next_nodes (rg_cms_generation r + 1) scheduler_generation next_storage next_optical (rg_store r) of
                       (Inl e, st) \<Rightarrow> (Inl e, r\<lparr>rg_store := st\<rparr>)
                     | (Inr _, st) \<Rightarrow>
                         let r1 = PublishPlacementLocked rl (r\<lparr>rg_store := st, rg_nodes := next_nodes, rg_next_storage_compact_id := next_storage,
                               rg_next_optical_compact_id := next_optical, rg_scheduler_generation := scheduler_generation,
                               rg_cms_generation := rg_cms_generation r + 1\<rparr>)
                         in (Inr (rg_cms_generation r1, assignments r1), r1)))
      else (Inr (rg_cms_generation r, assignments r), r))"

section \<open>Lookups\<close>

definition Cms_Snapshot :: "'db CmsNodeRegistry \<Rightarrow> CmsNodeCatalogEntry list \<times> u64 \<times> u64" where
  "Cms_Snapshot r = (map snd (rg_nodes r), rg_cms_generation r, rg_scheduler_generation r)"

definition Cms_IsWriteAdmitted :: "(rat \<Rightarrow> rat) \<Rightarrow> 'db CmsNodeRegistry \<Rightarrow> string \<Rightarrow> bool" where
  "Cms_IsWriteAdmitted rl r node_id =
     (if node_id = [] then False
      else case map_of (rg_nodes r) node_id of
             Some entry \<Rightarrow> IsWriteAllocatable rl (managed_view entry)
           | None \<Rightarrow>
               (case find (\<lambda>item. length node_id > length (fst item @ ''-v'') \<and> prefix (fst item @ ''-v'') node_id) (rg_nodes r) of
                  Some item \<Rightarrow> IsWriteAllocatable rl (managed_view (snd item))
                | None \<Rightarrow> False))"

definition GetInstanceGeneration :: "'db CmsNodeRegistry \<Rightarrow> string \<Rightarrow> u64 option" where
  "GetInstanceGeneration r node_id = (if node_id = [] then None else map_option instance_generation (map_of (rg_nodes r) node_id))"

definition GetCommittedNode :: "'db CmsNodeRegistry \<Rightarrow> string \<Rightarrow> CmsNodeCatalogEntry option" where
  "GetCommittedNode r node_id = (if node_id = [] then None else map_of (rg_nodes r) node_id)"

definition logical_match :: "string \<Rightarrow> string \<times> CmsNodeCatalogEntry \<Rightarrow> bool" where
  "logical_match allocation_id item \<longleftrightarrow>
     (let pre = fst item @ ''-v''
      in prefix pre allocation_id \<and> length allocation_id \<noteq> length pre \<and> list_all is_digit (drop (length pre) allocation_id) \<and>
         ms_execution_mode (spec (managed_view (snd item))) = MANAGED_EXECUTION_VIRTUAL)"

definition ResolveLogicalNodeId :: "'db CmsNodeRegistry \<Rightarrow> string \<Rightarrow> string option" where
  "ResolveLogicalNodeId r allocation_id =
     (if allocation_id = [] then None
      else if map_of (rg_nodes r) allocation_id \<noteq> None then Some allocation_id
      else map_option fst (find (logical_match allocation_id) (rg_nodes r)))"

section \<open>Well-formed registries\<close>

abbreviation compact_id :: "CmsNodeCatalogEntry \<Rightarrow> u64" where
  "compact_id entry \<equiv> mv_compact_id (managed_view entry)"

definition entry_identity :: "string \<Rightarrow> CmsNodeCatalogEntry \<Rightarrow> bool" where
  "entry_identity node_id entry \<longleftrightarrow> ce_managed_view entry \<noteq> None \<and> mv_spec (managed_view entry) \<noteq> None \<and>
     ms_node_id (spec (managed_view entry)) = node_id \<and> node_id \<noteq> []"

text \<open>Every node stands under its own id, with a compact id in the range of its family and below the counter of
  the family, and no two nodes of a family share one.\<close>

definition registry_catalog_ok :: "(string \<times> CmsNodeCatalogEntry) list \<Rightarrow> u32 \<Rightarrow> u32 \<Rightarrow> bool" where
  "registry_catalog_ok nodes next_storage next_optical \<longleftrightarrow> sorted_wrt (<) (map fst nodes) \<and> 1 \<le> unat next_storage \<and> 1 \<le> unat next_optical \<and>
     (\<forall>k e. map_of nodes k = Some e \<longrightarrow> entry_identity k e \<and> compact_id e \<noteq> 0 \<and>
        unat (compact_id e) \<le> unat (max_compact_id (optical_entry e)) \<and>
        unat (compact_id e) < unat (if optical_entry e then next_optical else next_storage)) \<and>
     (\<forall>k e k' e'. map_of nodes k = Some e \<longrightarrow> map_of nodes k' = Some e' \<longrightarrow> optical_entry e = optical_entry e' \<longrightarrow>
        compact_id e = compact_id e' \<longrightarrow> k = k')"

definition cms_ok :: "'db CmsNodeRegistry \<Rightarrow> bool" where
  "cms_ok r \<longleftrightarrow> registry_catalog_ok (rg_nodes r) (rg_next_storage_compact_id r) (rg_next_optical_compact_id r)"

lemma publish_fields [simp]:
  "rg_nodes (PublishPlacementLocked rl r) = rg_nodes r" "rg_store (PublishPlacementLocked rl r) = rg_store r"
  "rg_cms_generation (PublishPlacementLocked rl r) = rg_cms_generation r"
  "rg_scheduler_generation (PublishPlacementLocked rl r) = rg_scheduler_generation r"
  "rg_next_storage_compact_id (PublishPlacementLocked rl r) = rg_next_storage_compact_id r"
  "rg_next_optical_compact_id (PublishPlacementLocked rl r) = rg_next_optical_compact_id r"
  by (simp_all add: PublishPlacementLocked_def Let_def)

lemma new_registry_ok: "cms_ok (new_registry cache pg_manager st)"
  by (simp add: cms_ok_def registry_catalog_ok_def new_registry_def)

lemma set_compact_id_fields [simp]:
  "compact_id (set_compact_id cid entry) = ucast cid" "spec (managed_view (set_compact_id cid entry)) = spec (managed_view entry)"
  "mv_lifecycle (managed_view (set_compact_id cid entry)) = mv_lifecycle (managed_view entry)"
  "optical_entry (set_compact_id cid entry) = optical_entry entry"
  "instance_generation (set_compact_id cid entry) = instance_generation entry"
  "mv_spec (managed_view (set_compact_id cid entry)) = mv_spec (managed_view entry)"
  "ce_managed_view (set_compact_id cid entry) \<noteq> None"
  by (simp_all add: set_compact_id_def managed_view_def optical_entry_def instance_generation_def spec_def)

section \<open>Restoring a snapshot\<close>

lemma max_compact_id_less: "unat (max_compact_id b) < 2 ^ 24"
  by (simp add: max_compact_id_def)

lemma unat_max: "unat (max a b) = max (unat a) (unat (b :: 'w :: len word))"
  by (simp add: max_def word_le_nat_alt)

lemma unat_next_id:
  assumes "unat (cid :: u64) \<le> unat (max_compact_id b)"
  shows "unat (ucast cid + 1 :: u32) = unat cid + 1" "unat (ucast cid :: u32) = unat cid"
proof -
  have small: "unat cid < 2 ^ 24" using assms max_compact_id_less[of b] by simp
  then have "unat cid < 2 ^ 32" by (rule order_less_trans) simp
  then show c: "unat (ucast cid :: u32) = unat cid" by (simp add: unsigned_ucast_eq take_bit_eq_mod)
  show "unat (ucast cid + 1 :: u32) = unat cid + 1"
    using unat_add_no_wrap[of "ucast cid :: u32" 1] small c by simp
qed

text \<open>A node added to a catalogue that is well formed.\<close>

lemma registry_catalog_ok_add:
  assumes "registry_catalog_ok nodes ns no" "map_of nodes k = None" "entry_identity k e" "compact_id e \<noteq> 0"
    and "unat (compact_id e) \<le> unat (max_compact_id (optical_entry e))"
    and "\<And>k' e'. map_of nodes k' = Some e' \<Longrightarrow> optical_entry e' = optical_entry e \<Longrightarrow> compact_id e' \<noteq> compact_id e"
    and "unat ns \<le> unat ns'" "unat no \<le> unat no'" "unat (compact_id e) < unat (if optical_entry e then no' else ns')"
  shows "registry_catalog_ok (map_put k e nodes) ns' no'"
proof -
  have sorted: "sorted_wrt (<) (map fst (map_put k e nodes))" using assms(1) by (simp add: registry_catalog_ok_def sorted_map_put)
  have one: "1 \<le> unat ns'" "1 \<le> unat no'" using assms(1,7,8) by (auto simp: registry_catalog_ok_def)
  have "entry_identity k' e' \<and> compact_id e' \<noteq> 0 \<and> unat (compact_id e') \<le> unat (max_compact_id (optical_entry e')) \<and>
      unat (compact_id e') < unat (if optical_entry e' then no' else ns')" if "map_of (map_put k e nodes) k' = Some e'" for k' e'
  proof (cases "k' = k")
    case True
    then show ?thesis using that assms(3-5,9) by simp
  next
    case False
    then have "map_of nodes k' = Some e'" using that by simp
    then have old: "entry_identity k' e'" "compact_id e' \<noteq> 0" "unat (compact_id e') \<le> unat (max_compact_id (optical_entry e'))"
        "unat (compact_id e') < unat (if optical_entry e' then no else ns)"
      using assms(1) unfolding registry_catalog_ok_def by blast+
    then show ?thesis using assms(7,8) by (auto split: if_splits)
  qed
  moreover have "k1 = k2" if "map_of (map_put k e nodes) k1 = Some e1" "map_of (map_put k e nodes) k2 = Some e2"
      "optical_entry e1 = optical_entry e2" "compact_id e1 = compact_id e2" for k1 e1 k2 e2
  proof -
    have inj: "k1 = k2" if "map_of nodes k1 = Some e1" "map_of nodes k2 = Some e2"
      using assms(1) that \<open>optical_entry e1 = _\<close> \<open>compact_id e1 = _\<close> unfolding registry_catalog_ok_def by blast
    show ?thesis using that assms(6) inj by (auto split: if_splits)
  qed
  ultimately show ?thesis unfolding registry_catalog_ok_def using sorted one by blast
qed

lemma restore_entries_ok:
  assumes "restore_entries entries restored sids oids ns no = Inr (nodes, ns', no')" "registry_catalog_ok restored ns no"
    and "\<forall>k e. map_of restored k = Some e \<longrightarrow> compact_id e \<in> set (if optical_entry e then oids else sids)"
  shows "registry_catalog_ok nodes ns' no'"
  using assms
proof (induction entries restored sids oids ns no rule: restore_entries.induct)
  case (2 entry entries restored sids oids ns no)
  let ?k = "ms_node_id (spec (managed_view entry))" and ?o = "optical_entry entry"
  let ?ns = "if ?o then ns else max ns (ucast (compact_id entry) + 1)" and ?no = "if ?o then max no (ucast (compact_id entry) + 1) else no"
  have guard: "\<not> (ce_managed_view entry = None \<or> mv_spec (managed_view entry) = None)"
      "\<not> (?k = [] \<or> compact_id entry = 0 \<or> compact_id entry > ucast (max_compact_id ?o) \<or>
        compact_id entry \<in> set (if ?o then oids else sids) \<or> map_of restored ?k \<noteq> None)"
    using 2(2) by (auto simp: Let_def split: if_splits)
  have range: "unat (compact_id entry) \<le> unat (max_compact_id ?o)"
    using guard(2) by (simp add: not_less word_le_nat_alt unat_ucast_up)
  note nid = unat_next_id(1)[OF range]
  have rest: "restore_entries entries (map_put ?k entry restored) (if ?o then sids else compact_id entry # sids)
      (if ?o then compact_id entry # oids else oids) ?ns ?no = Inr (nodes, ns', no')"
    using 2(2) guard by (simp add: Let_def split: if_splits)
  have ok: "registry_catalog_ok (map_put ?k entry restored) ?ns ?no"
  proof (rule registry_catalog_ok_add[OF 2(3)])
    show "compact_id e' \<noteq> compact_id entry" if "map_of restored k' = Some e'" "optical_entry e' = ?o" for k' e'
      using 2(4)[rule_format, OF that(1)] that(2) guard(2) by (auto split: if_splits)
  qed (use guard range nid in \<open>auto simp: entry_identity_def unat_max\<close>)
  have ids: "\<forall>k e. map_of (map_put ?k entry restored) k = Some e \<longrightarrow>
      compact_id e \<in> set (if optical_entry e then (if ?o then compact_id entry # oids else oids) else (if ?o then sids else compact_id entry # sids))"
  proof (intro allI impI)
    fix k e
    assume "map_of (map_put ?k entry restored) k = Some e"
    then have "k = ?k \<and> e = entry \<or> compact_id e \<in> set (if optical_entry e then oids else sids)"
      using 2(4)[rule_format, of k e] by (auto split: if_splits)
    then show "compact_id e \<in> set (if optical_entry e then (if ?o then compact_id entry # oids else oids)
        else (if ?o then sids else compact_id entry # sids))" by auto
  qed
  show ?case using 2(1)[OF guard(1) refl refl refl refl guard(2) rest ok ids] .
qed auto

text \<open>A restore either changes nothing or takes over the whole snapshot.\<close>

lemma Cms_Restore_cases:
  assumes "Cms_Restore R C rl r = (res, r')"
  shows "r' = r \<or> (\<exists>st payload snapshot nodes ns no. rg_store r = Some st \<and> Store_Get R CmsNodeCatalogSnapshotKey st = Found payload \<and>
    ParseCatalog C payload = Some snapshot \<and> restore_entries (cat_nodes snapshot) [] [] []
      (max 1 (cat_next_storage_compact_id snapshot)) (max 1 (cat_next_optical_compact_id snapshot)) = Inr (nodes, ns, no) \<and>
    res = Inr () \<and> r' = PublishPlacementLocked rl (r\<lparr>rg_nodes := nodes, rg_cms_generation := cat_cms_generation snapshot,
      rg_scheduler_generation := cat_scheduler_generation snapshot,
      rg_next_storage_compact_id := ns, rg_next_optical_compact_id := no\<rparr>))"
  using assms by (auto simp: Cms_Restore_def split: option.splits get_result.splits if_splits sum.splits prod.splits)

lemma Cms_Restore_ok:
  assumes "Cms_Restore R C rl r = (res, r')" "cms_ok r"
  shows "cms_ok r'"
proof (cases "r' = r")
  case False
  have one: "1 \<le> unat (max 1 x)" for x :: u32 by (simp add: unat_max)
  from Cms_Restore_cases[OF assms(1)] False obtain snapshot :: CmsNodeCatalogSnapshot and nodes ns no where
      restore: "restore_entries (cat_nodes snapshot) [] [] [] (max 1 (cat_next_storage_compact_id snapshot))
        (max 1 (cat_next_optical_compact_id snapshot)) = Inr (nodes, ns, no)" and
      r': "r' = PublishPlacementLocked rl (r\<lparr>rg_nodes := nodes, rg_cms_generation := cat_cms_generation snapshot,
        rg_scheduler_generation := cat_scheduler_generation snapshot, rg_next_storage_compact_id := ns, rg_next_optical_compact_id := no\<rparr>)"
    by blast
  show ?thesis using restore_entries_ok[OF restore] one by (simp add: cms_ok_def registry_catalog_ok_def r')
qed (use assms in simp)

section \<open>Committing a proposal\<close>

text \<open>What a commit keeps of a node: its kind, its incarnation, its compact id, and its retirement.\<close>

definition same_member :: "CmsNodeCatalogEntry \<Rightarrow> CmsNodeCatalogEntry \<Rightarrow> bool" where
  "same_member old new \<longleftrightarrow> compact_id new = compact_id old \<and> ms_kind (spec (managed_view new)) = ms_kind (spec (managed_view old)) \<and>
     instance_generation new = instance_generation old \<and> (IsRetired (managed_view old) \<longrightarrow> IsRetired (managed_view new))"

text \<open>The loop of a commit over the catalogue in force \<open>(nodes, ns0, no0)\<close>: the new catalogue with the nodes
  proposed so far is well formed, keeps what it must of old nodes, and gives new ones ids that were free.\<close>

definition commit_inv ::
  "(string \<times> CmsNodeCatalogEntry) list \<Rightarrow> u32 \<Rightarrow> u32 \<Rightarrow> (string \<times> CmsNodeCatalogEntry) list \<Rightarrow> u32 \<Rightarrow> u32 \<Rightarrow> bool" where
  "commit_inv nodes ns0 no0 next ns no \<longleftrightarrow> registry_catalog_ok next ns no \<and> unat ns0 \<le> unat ns \<and> unat no0 \<le> unat no \<and>
     (\<forall>k e. map_of next k = Some e \<longrightarrow> (case map_of nodes k of
        Some old \<Rightarrow> same_member old e
      | None \<Rightarrow> unat (if optical_entry e then no0 else ns0) \<le> unat (compact_id e)))"

lemma assign_id_known:
  assumes "registry_catalog_ok nodes ns0 no0" "map_of nodes k = Some old" "assign_id nodes k entry ns no = Inr (cid, ns', no')"
  shows "same_member old (set_compact_id cid entry) \<and> ns' = ns \<and> no' = no \<and> optical_entry entry = optical_entry old \<and>
    unat cid = unat (compact_id old)"
proof -
  have guards: "ms_kind (spec (managed_view old)) = ms_kind (spec (managed_view entry))" "instance_generation old = instance_generation entry"
      "IsRetired (managed_view old) \<longrightarrow> IsRetired (managed_view entry)" and res: "cid = ucast (compact_id old)" "ns' = ns" "no' = no"
    using assms(2,3) by (auto simp: assign_id_def split: if_splits)
  have "unat (compact_id old) \<le> unat (max_compact_id (optical_entry old))" using assms(1,2) unfolding registry_catalog_ok_def by blast
  then have u: "unat cid = unat (compact_id old)" using unat_next_id(2) res(1) by blast
  then have "(ucast cid :: u64) = compact_id old" by (intro word_unat_eq_iff[THEN iffD2]) (simp add: unat_ucast_up)
  then show ?thesis using guards res u by (simp add: same_member_def optical_entry_def IsRetired_def)
qed

lemma assign_id_new:
  assumes "map_of nodes k = None" "assign_id nodes k entry ns no = Inr (cid, ns', no')"
  shows "cid = (if optical_entry entry then no else ns) \<and> unat cid \<le> unat (max_compact_id (optical_entry entry)) \<and>
    unat ns \<le> unat ns' \<and> unat no \<le> unat no' \<and> unat cid < unat (if optical_entry entry then no' else ns')"
proof -
  have cid: "cid = (if optical_entry entry then no else ns)" "cid \<le> max_compact_id (optical_entry entry)"
      "ns' = (if optical_entry entry then ns else ns + 1)" "no' = (if optical_entry entry then no + 1 else no)"
    using assms by (auto simp: assign_id_def Let_def split: if_splits)
  then have le: "unat cid \<le> unat (max_compact_id (optical_entry entry))" by (simp add: word_le_nat_alt)
  then have "unat cid < 2 ^ 24" using max_compact_id_less[of "optical_entry entry"] by simp
  then have "unat (cid + 1) = unat cid + 1" using unat_add_no_wrap[of cid 1] by simp
  then show ?thesis using cid(1,3,4) le by (cases "optical_entry entry") simp_all
qed

lemma commit_inv_start: "registry_catalog_ok nodes ns no \<Longrightarrow> commit_inv nodes ns no [] ns no"
  by (simp add: commit_inv_def registry_catalog_ok_def)

lemma entry_identity_set_compact_id [simp]: "entry_identity k (set_compact_id cid entry) \<longleftrightarrow> entry_identity k entry \<or>
    ce_managed_view entry = None \<and> mv_spec (managed_view entry) \<noteq> None \<and> ms_node_id (spec (managed_view entry)) = k \<and> k \<noteq> []"
  by (auto simp: entry_identity_def)

text \<open>Two nodes of a family never get the same id: an old one keeps its own, a new one gets one above all.\<close>

lemma commit_step_fresh:
  assumes "registry_catalog_ok nodes ns0 no0" "commit_inv nodes ns0 no0 next ns no" "map_of next k = None"
    and "assign_id nodes k entry ns no = Inr (cid, ns', no')"
    and "map_of next k' = Some e'" "optical_entry e' = optical_entry entry"
  shows "compact_id e' \<noteq> ucast cid"
proof -
  have u: "unat (ucast cid :: u64) = unat cid" by (simp add: unat_ucast_up)
  have e': "unat (compact_id e') < unat (if optical_entry e' then no else ns)"
      "case map_of nodes k' of Some old \<Rightarrow> same_member old e' | None \<Rightarrow> unat (if optical_entry e' then no0 else ns0) \<le> unat (compact_id e')"
    using assms(2,5) unfolding commit_inv_def registry_catalog_ok_def by blast+
  show ?thesis
  proof (cases "map_of nodes k")
    case None
    then show ?thesis using assign_id_new[OF None assms(4)] e'(1) assms(6) u by auto
  next
    case (Some old)
    note known = assign_id_known[OF assms(1) Some assms(4)]
    have old: "unat (compact_id old) < unat (if optical_entry old then no0 else ns0)" using assms(1) Some unfolding registry_catalog_ok_def by blast
    show ?thesis
    proof (cases "map_of nodes k'")
      case None
      then show ?thesis using e'(2) old known assms(6) u by auto
    next
      case (Some old')
      then have same: "same_member old' e'" using e'(2) by simp
      then have "optical_entry old' = optical_entry old" using known assms(6) by (simp add: same_member_def optical_entry_def)
      then have "compact_id old' \<noteq> compact_id old"
        using assms(1,3,5) Some \<open>map_of nodes k = Some old\<close> unfolding registry_catalog_ok_def by (metis option.distinct(1))
      then show ?thesis using same known by (auto simp: same_member_def)
    qed
  qed
qed

lemma commit_step:
  assumes "registry_catalog_ok nodes ns0 no0" "commit_inv nodes ns0 no0 next ns no" "map_of next k = None" "entry_identity k entry"
    and "assign_id nodes k entry ns no = Inr (cid, ns', no')"
  shows "commit_inv nodes ns0 no0 (map_put k (set_compact_id cid entry) next) ns' no'"
proof -
  let ?e = "set_compact_id cid entry"
  have u: "unat (ucast cid :: u64) = unat cid" by (simp add: unat_ucast_up)
  have next_ok: "registry_catalog_ok next ns no" and le0: "unat ns0 \<le> unat ns" "unat no0 \<le> unat no" using assms(2) by (simp_all add: commit_inv_def)
  have old: "compact_id old \<noteq> 0 \<and> unat (compact_id old) \<le> unat (max_compact_id (optical_entry old)) \<and>
      unat (compact_id old) < unat (if optical_entry old then no0 else ns0)" if "map_of nodes k = Some old" for old
    using assms(1) that unfolding registry_catalog_ok_def by blast
  have mono: "unat ns \<le> unat ns'" "unat no \<le> unat no'" and range: "unat cid \<le> unat (max_compact_id (optical_entry entry))"
    and below: "unat cid < unat (if optical_entry entry then no' else ns')" and pos: "0 < unat cid"
    and member: "case map_of nodes k of Some old \<Rightarrow> same_member old ?e
      | None \<Rightarrow> unat (if optical_entry ?e then no0 else ns0) \<le> unat (compact_id ?e)"
  proof -
    have one: "1 \<le> unat ns" "1 \<le> unat no" using next_ok by (simp_all add: registry_catalog_ok_def)
    show "unat ns \<le> unat ns'" "unat no \<le> unat no'" "unat cid \<le> unat (max_compact_id (optical_entry entry))"
      "unat cid < unat (if optical_entry entry then no' else ns')" "0 < unat cid"
      "case map_of nodes k of Some old \<Rightarrow> same_member old ?e
        | None \<Rightarrow> unat (if optical_entry ?e then no0 else ns0) \<le> unat (compact_id ?e)"
      using assign_id_new[OF _ assms(5)] assign_id_known[OF assms(1) _ assms(5)] old le0 one u
      by (cases "map_of nodes k"; force simp: unat_gt_0)+
  qed
  have "registry_catalog_ok (map_put k ?e next) ns' no'"
  proof (rule registry_catalog_ok_add[OF next_ok assms(3)])
    show "compact_id e' \<noteq> compact_id ?e" if "map_of next k' = Some e'" "optical_entry e' = optical_entry ?e" for k' e'
      using commit_step_fresh[OF assms(1-3,5) that(1)] that(2) by simp
    have "unat (ucast cid :: u64) \<noteq> unat (0 :: u64)" using pos u by simp
    then show "compact_id ?e \<noteq> 0" by auto
  qed (use assms(4) mono range below u in auto)
  then show ?thesis unfolding commit_inv_def using assms(2) mono le0 member
    by (auto simp: commit_inv_def split: if_splits)
qed

lemma commit_entries_inv:
  assumes "commit_entries nodes entries next ns no = Inr (next', ns', no')" "registry_catalog_ok nodes ns0 no0" "commit_inv nodes ns0 no0 next ns no"
  shows "commit_inv nodes ns0 no0 next' ns' no'"
  using assms
proof (induction nodes entries "next" ns no rule: commit_entries.induct)
  case (2 nodes entry entries "next" ns no)
  let ?k = "ms_node_id (spec (managed_view entry))"
  have guards: "entry_identity ?k entry" "map_of next ?k = None" "ce_managed_view entry \<noteq> None" "mv_spec (managed_view entry) \<noteq> None" "?k \<noteq> []"
      "\<not> (ce_placement_view entry \<noteq> None \<and> pl_node_id (placement_view entry) \<noteq> [] \<and> pl_node_id (placement_view entry) \<noteq> ?k)"
    using 2(2) by (auto simp: Let_def entry_identity_def split: if_splits)
  then have eq: "commit_entries nodes (entry # entries) next ns no = (case assign_id nodes ?k entry ns no of Inl e \<Rightarrow> Inl e
      | Inr (cid, ns1, no1) \<Rightarrow> commit_entries nodes entries (map_put ?k (set_compact_id cid entry) next) ns1 no1)"
    by (auto simp: Let_def)
  obtain cid ns1 no1 where a: "assign_id nodes ?k entry ns no = Inr (cid, ns1, no1)"
    using 2(2) unfolding eq by (cases "assign_id nodes ?k entry ns no") auto
  have rest: "commit_entries nodes entries (map_put ?k (set_compact_id cid entry) next) ns1 no1 = Inr (next', ns', no')"
    using 2(2) unfolding eq a by simp
  show ?case
    by (rule 2(1)[OF refl _ _ _ a refl refl rest 2(3) commit_step[OF 2(3,4) guards(2,1) a]]) (use guards in auto)
qed simp

lemma Cms_Commit_cases:
  assumes "Cms_Commit R C rl g proposed r = (res, r')"
  obtains (refused) e st where "res = Inl e" "r' = r\<lparr>rg_store := st\<rparr>"
      "st = rg_store r \<or> (\<exists>nodes ns no. PersistLocked R C nodes (rg_cms_generation r + 1) g ns no (rg_store r) = (Inl e, st))"
    | (same) "g = rg_scheduler_generation r" "r' = r" "res = Inr (rg_cms_generation r, assignments r)"
    | (committed) nodes ns no st where "rg_scheduler_generation r < g"
      "commit_entries (rg_nodes r) proposed [] (rg_next_storage_compact_id r) (rg_next_optical_compact_id r) = Inr (nodes, ns, no)"
      "\<And>k. map_of (rg_nodes r) k \<noteq> None \<Longrightarrow> map_of nodes k \<noteq> None"
      "PersistLocked R C nodes (rg_cms_generation r + 1) g ns no (rg_store r) = (Inr (), st)"
      "r' = PublishPlacementLocked rl (r\<lparr>rg_store := st, rg_nodes := nodes, rg_next_storage_compact_id := ns,
         rg_next_optical_compact_id := no, rg_scheduler_generation := g, rg_cms_generation := rg_cms_generation r + 1\<rparr>)"
      "res = Inr (rg_cms_generation r', assignments r')"
proof -
  show thesis
  proof (cases "g \<noteq> 0 \<and> rg_scheduler_generation r < g")
    case False
    then consider "g = 0" | "g \<noteq> 0" "g < rg_scheduler_generation r" | "g \<noteq> 0" "g = rg_scheduler_generation r" by fastforce
    then show thesis
    proof cases
      case 1 then show thesis using assms by (intro refused[of SchedulerGenerationRequired "rg_store r"]) (simp_all add: Cms_Commit_def)
    next
      case 2 then show thesis using assms by (intro refused[of StaleGeneration "rg_store r"]) (simp_all add: Cms_Commit_def)
    next
      case 3 then show thesis using assms by (intro same) (auto simp: Cms_Commit_def)
    qed
  next
    case True
    then have "g \<noteq> 0" "\<not> g < rg_scheduler_generation r" "rg_scheduler_generation r < g" by auto
    note run = assms[unfolded Cms_Commit_def, simplified this if_True if_False simp_thms]
    show thesis
    proof (cases "commit_entries (rg_nodes r) proposed [] (rg_next_storage_compact_id r) (rg_next_optical_compact_id r)")
      case (Inl e)
      then show thesis using run by (intro refused[of e "rg_store r"]) simp_all
    next
      case (Inr out)
      obtain nodes ns no where out: "out = (nodes, ns, no)" by (cases out)
      show thesis
      proof (cases "find (\<lambda>current. map_of nodes (fst current) = None) (rg_nodes r)")
        case (Some current)
        then show thesis using run Inr out
          by (intro refused[of "OmittedMember (fst current)" "rg_store r"]) simp_all
      next
        case None
        have kept: "map_of nodes k \<noteq> None" if "map_of (rg_nodes r) k \<noteq> None" for k
          using None that by (fastforce simp: find_None_iff dest: map_of_SomeD)
        obtain p st where p: "PersistLocked R C nodes (rg_cms_generation r + 1) g ns no (rg_store r) = (p, st)" by force
        show thesis
        proof (cases p)
          case (Inl e)
          show thesis
          proof (rule refused[of e st])
            show "st = rg_store r \<or> (\<exists>nodes ns no. PersistLocked R C nodes (rg_cms_generation r + 1) g ns no (rg_store r) = (Inl e, st))"
              using p Inl by blast
          qed (use run \<open>commit_entries _ _ _ _ _ = Inr out\<close> out None p Inl in simp_all)
        next
          case pok: (Inr u)
          let ?r = "PublishPlacementLocked rl (r\<lparr>rg_store := st, rg_nodes := nodes, rg_next_storage_compact_id := ns,
             rg_next_optical_compact_id := no, rg_scheduler_generation := g, rg_cms_generation := rg_cms_generation r + 1\<rparr>)"
          have r': "r' = ?r" and res: "res = Inr (rg_cms_generation ?r, assignments ?r)"
            using run \<open>commit_entries _ _ _ _ _ = Inr out\<close> out None p pok by (auto simp: Let_def)
          show thesis
            by (rule committed[of nodes ns no st])
               (use True \<open>commit_entries _ _ _ _ _ = Inr out\<close> out p pok kept in \<open>simp_all add: r' res\<close>)
        qed
      qed
    qed
  qed
qed

lemma Cms_Commit_catalog:
  assumes "Cms_Commit R C rl g proposed r = (res, r')" "cms_ok r"
  shows "cms_ok r' \<and> (\<forall>k old. map_of (rg_nodes r) k = Some old \<longrightarrow> (\<exists>new. map_of (rg_nodes r') k = Some new \<and> same_member old new)) \<and>
    (\<forall>k new. map_of (rg_nodes r') k = Some new \<longrightarrow> map_of (rg_nodes r) k = None \<longrightarrow>
       unat (if optical_entry new then rg_next_optical_compact_id r else rg_next_storage_compact_id r) \<le> unat (compact_id new))"
  using assms(1)
proof (cases rule: Cms_Commit_cases)
  case (committed nodes ns no st)
  have inv: "commit_inv (rg_nodes r) (rg_next_storage_compact_id r) (rg_next_optical_compact_id r) nodes ns no"
    using commit_entries_inv[OF committed(2)] commit_inv_start assms(2) unfolding cms_ok_def by blast
  have "\<exists>new. map_of nodes k = Some new \<and> same_member old new" if "map_of (rg_nodes r) k = Some old" for k old
  proof -
    obtain new where "map_of nodes k = Some new" using committed(3)[of k] \<open>map_of (rg_nodes r) k = Some old\<close> by auto
    then show ?thesis using inv that by (fastforce simp: commit_inv_def)
  qed
  moreover have "unat (if optical_entry new then rg_next_optical_compact_id r else rg_next_storage_compact_id r) \<le> unat (compact_id new)"
    if "map_of nodes k = Some new" "map_of (rg_nodes r) k = None" for k new
    using inv that unfolding commit_inv_def by fastforce
  ultimately show ?thesis using inv committed(5) by (simp add: cms_ok_def commit_inv_def)
qed (use assms(2) in \<open>auto simp: cms_ok_def same_member_def\<close>)

section \<open>Every reachable registry\<close>

inductive cms_step :: "'db rocksdb \<Rightarrow> catalog_codec \<Rightarrow> (rat \<Rightarrow> rat) \<Rightarrow> 'db CmsNodeRegistry \<Rightarrow> 'db CmsNodeRegistry \<Rightarrow> bool"
  for R C rl where
  commit: "Cms_Commit R C rl g proposed r = (res, r') \<Longrightarrow> cms_step R C rl r r'"
| restore: "Cms_Restore R C rl r = (res, r') \<Longrightarrow> cms_step R C rl r r'"

lemma reachable_cms_ok: "(cms_step R C rl)\<^sup>*\<^sup>* r r' \<Longrightarrow> cms_ok r \<Longrightarrow> cms_ok r'"
  by (induction rule: rtranclp_induct) (auto elim!: cms_step.cases dest: Cms_Commit_catalog Cms_Restore_ok)

text \<open>C17: However proposals, refusals, failures of the store and restarts follow each other: the nodes of the registry
  have compact ids that are not 0, fit the bits of their family and differ within it.\<close>

theorem compact_ids_unique:
  assumes "(cms_step R C rl)\<^sup>*\<^sup>* (new_registry cache pg_manager st) r" "GetCommittedNode r k = Some e"
  shows "ms_node_id (spec (managed_view e)) = k \<and> compact_id e \<noteq> 0 \<and> unat (compact_id e) \<le> unat (max_compact_id (optical_entry e)) \<and>
    (\<forall>k' e'. GetCommittedNode r k' = Some e' \<and> k' \<noteq> k \<and> optical_entry e' = optical_entry e \<longrightarrow> compact_id e' \<noteq> compact_id e)"
proof -
  have ok: "cms_ok r" using reachable_cms_ok[OF assms(1) new_registry_ok] .
  have "map_of (rg_nodes r) k = Some e" using assms(2) by (simp add: GetCommittedNode_def split: if_splits)
  moreover have "map_of (rg_nodes r) k' = Some e'" if "GetCommittedNode r k' = Some e'" for k' e'
    using that by (simp add: GetCommittedNode_def split: if_splits)
  ultimately show ?thesis using ok unfolding cms_ok_def registry_catalog_ok_def entry_identity_def by blast
qed

inductive commit_step :: "'db rocksdb \<Rightarrow> catalog_codec \<Rightarrow> (rat \<Rightarrow> rat) \<Rightarrow> 'db CmsNodeRegistry \<Rightarrow> 'db CmsNodeRegistry \<Rightarrow> bool"
  for R C rl where
  "Cms_Commit R C rl g proposed r = (res, r') \<Longrightarrow> commit_step R C rl r r'"

lemma same_member_trans: "same_member a b \<Longrightarrow> same_member b c \<Longrightarrow> same_member a c"
  by (auto simp: same_member_def)

lemma commits_keep:
  assumes "(commit_step R C rl)\<^sup>*\<^sup>* r r'" "cms_ok r"
  shows "cms_ok r' \<and> (\<forall>k old. map_of (rg_nodes r) k = Some old \<longrightarrow> (\<exists>new. map_of (rg_nodes r') k = Some new \<and> same_member old new))"
  using assms
proof (induction rule: rtranclp_induct)
  case base
  then show ?case by (auto simp: same_member_def)
next
  case (step r1 r2)
  then obtain g proposed res where "Cms_Commit R C rl g proposed r1 = (res, r2)" by (auto elim: commit_step.cases)
  then show ?case using Cms_Commit_catalog[of R C rl g proposed r1 res r2] step.IH[OF step.prems] same_member_trans by meson
qed

text \<open>C16: Through any sequence of commits, accepted or not, a node keeps its compact id, its kind and its
  incarnation, a retired node stays retired and none disappears; no new node gets an id that another has.\<close>

theorem commits_keep_members:
  assumes "(commit_step R C rl)\<^sup>*\<^sup>* r r'" "cms_ok r" "GetCommittedNode r k = Some old"
  shows "\<exists>new. GetCommittedNode r' k = Some new \<and> compact_id new = compact_id old \<and>
    ms_kind (spec (managed_view new)) = ms_kind (spec (managed_view old)) \<and> GetInstanceGeneration r' k = GetInstanceGeneration r k \<and>
    (IsRetired (managed_view old) \<longrightarrow> IsRetired (managed_view new)) \<and>
    (\<forall>k' e. GetCommittedNode r' k' = Some e \<and> k' \<noteq> k \<and> optical_entry e = optical_entry old \<longrightarrow> compact_id e \<noteq> compact_id old)"
proof -
  note kept = commits_keep[OF assms(1,2)]
  have k: "k \<noteq> []" "map_of (rg_nodes r) k = Some old" using assms(3) by (auto simp: GetCommittedNode_def split: if_splits)
  then obtain new where new: "map_of (rg_nodes r') k = Some new" "same_member old new" using kept by blast
  have "compact_id e \<noteq> compact_id old" if "map_of (rg_nodes r') k' = Some e" "k' \<noteq> k" "optical_entry e = optical_entry old" for k' e
  proof -
    have "optical_entry new = optical_entry old" "compact_id new = compact_id old" using new(2) by (simp_all add: same_member_def optical_entry_def)
    then show ?thesis using kept that new(1) unfolding cms_ok_def registry_catalog_ok_def by metis
  qed
  then show ?thesis using new k by (auto simp: GetCommittedNode_def GetInstanceGeneration_def same_member_def split: if_splits)
qed

section \<open>Refusals and restarts\<close>

lemma PersistLocked_contents:
  assumes "rocks_laws R view" "PersistLocked R C nodes g sg ns no (Some st) = (p, st1)"
  shows "\<exists>st'. st1 = Some st' \<and> (case p of
      Inl e \<Rightarrow> contents view st' = contents view st
    | Inr _ \<Rightarrow> \<exists>payload. SerializeCatalog C \<lparr>cat_format_version = 1, cat_cms_generation = g, cat_scheduler_generation = sg,
          cat_next_storage_compact_id = ns, cat_next_optical_compact_id = no, cat_nodes = map snd nodes\<rparr> = Some payload \<and>
        contents view st' = (contents view st)(CmsNodeCatalogSnapshotKey \<mapsto> payload))"
proof (cases "SerializeCatalog C \<lparr>cat_format_version = 1, cat_cms_generation = g, cat_scheduler_generation = sg,
    cat_next_storage_compact_id = ns, cat_next_optical_compact_id = no, cat_nodes = map snd nodes\<rparr>")
  case None
  then show ?thesis using assms(2) by (auto simp: PersistLocked_def)
next
  case (Some payload)
  obtain q st' where put: "Store_Put R CmsNodeCatalogSnapshotKey payload st = (q, st')" by force
  have "contents view st' = (if q = Inr () then (contents view st)(CmsNodeCatalogSnapshotKey \<mapsto> payload) else contents view st)"
    using Store_Put_contents[OF assms(1) put] by blast
  then show ?thesis using assms(2) Some put by (cases q) (auto simp: PersistLocked_def)
qed

definition stored :: "('db \<Rightarrow> string \<rightharpoonup> bytes) \<Rightarrow> 'db CmsNodeRegistry \<Rightarrow> string \<rightharpoonup> bytes" where
  "stored view r = (case rg_store r of None \<Rightarrow> Map.empty | Some st \<Rightarrow> contents view st)"

text \<open>C21: A refused commit, for whatever reason, changes nothing: not the catalogue, the counters and generations,
  not the node cache and the placement groups, not the contents of the store.\<close>

theorem refused_commit_changes_nothing:
  assumes "rocks_laws R view" "Cms_Commit R C rl g proposed r = (Inl e, r')"
  shows "r' = r\<lparr>rg_store := rg_store r'\<rparr> \<and> stored view r' = stored view r"
  using assms(2)
proof (cases rule: Cms_Commit_cases)
  case (refused e' st)
  have "stored view r' = stored view r"
  proof (cases "st = rg_store r")
    case False
    then obtain nodes ns no where p: "PersistLocked R C nodes (rg_cms_generation r + 1) g ns no (rg_store r) = (Inl e', st)" using refused(3) by blast
    show ?thesis
    proof (cases "rg_store r")
      case None
      then show ?thesis using p by (simp add: PersistLocked_def)
    next
      case (Some st0)
      then show ?thesis using PersistLocked_contents[OF assms(1) p[unfolded Some]] refused(2) by (auto simp: stored_def)
    qed
  qed (simp add: refused(2) stored_def)
  then show ?thesis using refused(2) by simp
qed auto

lemma map_put_last: "\<forall>a \<in> fst ` set acc. a < k \<Longrightarrow> map_put k v acc = acc @ [(k, v)]"
  by (induction acc) (auto simp: not_less_iff_gr_or_eq)

lemma restore_entries_catalog:
  assumes "registry_catalog_ok (acc @ nodes) ns no"
    and "sids = map (\<lambda>(k, e). compact_id e) (filter (\<lambda>(k, e). \<not> optical_entry e) (rev acc))"
    and "oids = map (\<lambda>(k, e). compact_id e) (filter (\<lambda>(k, e). optical_entry e) (rev acc))"
  shows "restore_entries (map snd nodes) acc sids oids ns no = Inr (acc @ nodes, ns, no)"
  using assms
proof (induction nodes arbitrary: acc sids oids)
  case (Cons item nodes)
  obtain k e where item: "item = (k, e)" by force
  have sorted: "sorted_wrt (<) (map fst (acc @ item # nodes))" using Cons.prems(1) by (simp add: registry_catalog_ok_def)
  then have dist: "distinct (map fst (acc @ item # nodes))" using strict_sorted_iff by blast
  have at: "map_of (acc @ item # nodes) k' = Some e'" if "(k', e') \<in> set (acc @ item # nodes)" for k' e'
    using that dist by (metis map_of_eq_Some_iff)
  have e: "entry_identity k e" "compact_id e \<noteq> 0" "unat (compact_id e) \<le> unat (max_compact_id (optical_entry e))"
      "unat (compact_id e) < unat (if optical_entry e then no else ns)"
    using Cons.prems(1) at[of k e] unfolding registry_catalog_ok_def item by (metis in_set_conv_decomp)+
  have other: "compact_id e' \<noteq> compact_id e" if "(k', e') \<in> set acc" "optical_entry e' = optical_entry e" for k' e'
  proof
    assume "compact_id e' = compact_id e"
    then have "k' = k" using Cons.prems(1) at[of k' e'] at[of k e] that unfolding registry_catalog_ok_def item by fastforce
    then show False using dist that(1) by (force simp: item)
  qed
  have "map_put k e acc = acc @ [(k, e)]" using sorted by (intro map_put_last) (auto simp: sorted_wrt_append item)
  moreover have "map_of acc k = None" using dist by (auto simp: item map_of_eq_None_iff)
  moreover have "compact_id e \<notin> set (if optical_entry e then oids else sids)" 
  proof
    assume "compact_id e \<in> set (if optical_entry e then oids else sids)"
    then have "\<exists>k' e'. (k', e') \<in> set acc \<and> optical_entry e' = optical_entry e \<and> compact_id e' = compact_id e"
      by (cases "optical_entry e") (force simp: Cons.prems(2,3))+
    then show False using other by blast
  qed
  moreover have "\<not> compact_id e > ucast (max_compact_id (optical_entry e))" using e(3) by (simp add: not_less word_le_nat_alt unat_ucast_up)
  moreover have "(if optical_entry e then ns else max ns (ucast (compact_id e) + 1)) = ns"
      "(if optical_entry e then max no (ucast (compact_id e) + 1) else no) = no"
    using e(4) unat_next_id(1)[OF e(3)] by (auto intro!: max_absorb1 simp: word_le_nat_alt)
  ultimately have step: "restore_entries (e # map snd nodes) acc sids oids ns no = restore_entries (map snd nodes) (acc @ [(k, e)])
      (if optical_entry e then sids else compact_id e # sids) (if optical_entry e then compact_id e # oids else oids) ns no"
    using e(1,2) by (auto simp: Let_def entry_identity_def)
  have "restore_entries (map snd nodes) (acc @ [(k, e)]) (if optical_entry e then sids else compact_id e # sids)
      (if optical_entry e then compact_id e # oids else oids) ns no = Inr ((acc @ [(k, e)]) @ nodes, ns, no)"
    by (rule Cons.IH) (use Cons.prems in \<open>simp_all add: item\<close>)
  then show ?case using step by (simp add: item)
qed simp

text \<open>C18: What was committed survives a restart: a fresh registry on the store of a committed one either reports a
  failure of the database, or has the same nodes, generations and counters.  (The generation must not have
  wrapped to 0, which a restore refuses.)\<close>

theorem restart_restores_commit:
  assumes "rocks_laws R view" "catalog_codec_laws C" "cms_ok r" "rg_store r = Some st"
    and "Cms_Commit R C rl g proposed r = (Inr out, r')" "rg_scheduler_generation r < g" "rg_cms_generation r + 1 \<noteq> 0"
    and "Cms_Restore R C rl (new_registry cache pg_manager (rg_store r')) = (res, r'')"
  shows "(\<exists>st' e. rg_store r' = Some st' \<and> Store_Get R CmsNodeCatalogSnapshotKey st' = GetError e) \<or>
    res = Inr () \<and> rg_nodes r'' = rg_nodes r' \<and> rg_cms_generation r'' = rg_cms_generation r' \<and>
      rg_scheduler_generation r'' = rg_scheduler_generation r' \<and> rg_next_storage_compact_id r'' = rg_next_storage_compact_id r' \<and>
      rg_next_optical_compact_id r'' = rg_next_optical_compact_id r'"
  using assms(5)
proof (cases rule: Cms_Commit_cases)
  case (committed nodes ns no st1)
  let ?snapshot = "\<lparr>cat_format_version = 1, cat_cms_generation = rg_cms_generation r + 1, cat_scheduler_generation = g,
    cat_next_storage_compact_id = ns, cat_next_optical_compact_id = no, cat_nodes = map snd nodes\<rparr>"
  have ok: "registry_catalog_ok nodes ns no" using Cms_Commit_catalog[OF assms(5,3)] committed(5) by (simp add: cms_ok_def)
  obtain st' payload where st': "st1 = Some st'" "SerializeCatalog C ?snapshot = Some payload"
      "contents view st' CmsNodeCatalogSnapshotKey = Some payload"
    using PersistLocked_contents[OF assms(1) committed(4)[unfolded assms(4)]] by auto
  have "max 1 ns = ns" "max 1 no = no" using ok by (auto simp: registry_catalog_ok_def max_def word_le_nat_alt)
  then have restored: "restore_entries (cat_nodes ?snapshot) [] [] [] (max 1 ns) (max 1 no) = Inr (nodes, ns, no)"
    using restore_entries_catalog[of "[]" nodes ns no] ok by simp
  have parse: "ParseCatalog C payload = Some ?snapshot" using assms(2) st'(2) by (simp add: catalog_codec_laws_def)
  have store: "rg_store r' = Some st'" using committed(5) st'(1) by simp
  show ?thesis
  proof (cases "Store_Get R CmsNodeCatalogSnapshotKey st'")
    case (Found v)
    then have "v = payload" using Store_Get_Found[OF assms(1) Found] st'(3) by simp
    then show ?thesis using assms(7,8) Found parse restored committed(5) st'(1)
      by (auto simp: Cms_Restore_def new_registry_def)
  next
    case Missing
    then show ?thesis using Store_Get_Missing[OF assms(1) Missing] st'(3) by simp
  next
    case (GetError e)
    then show ?thesis using store by blast
  qed
qed (use assms(6) in auto)

section \<open>Lookups\<close>

lemma virtual_id_inject:
  assumes "k @ ''-v'' @ ds = k' @ ''-v'' @ ds'" "list_all is_digit ds" "list_all is_digit ds'"
  shows "k = k'"
proof -
  have d: "takeWhile is_digit (rev (k @ ''-v'' @ ds)) = rev ds" if "list_all is_digit ds" for k ds
    using that by (subst rev_append, simp) (subst takeWhile_append2, auto simp: list_all_iff is_digit_def)
  have "rev ds = rev ds'" using d[OF assms(2), of k] d[OF assms(3), of k'] assms(1) by metis
  then show ?thesis using assms(1) by simp
qed

text \<open>C20: Unlike in the node cache, the id of a virtual node always resolves to its node, as long as no node has
  that very id.\<close>

theorem ResolveLogicalNodeId_virtual:
  assumes "cms_ok r" "GetCommittedNode r k = Some e" "ms_execution_mode (spec (managed_view e)) = MANAGED_EXECUTION_VIRTUAL"
    and "GetCommittedNode r (BuildVirtualNodeId k i) = None"
  shows "ResolveLogicalNodeId r (BuildVirtualNodeId k i) = Some k"
proof -
  let ?v = "BuildVirtualNodeId k i"
  have k: "map_of (rg_nodes r) k = Some e" using assms(2) by (simp add: GetCommittedNode_def split: if_splits)
  have v: "?v \<noteq> []" by (simp add: BuildVirtualNodeId_def)
  then have none: "map_of (rg_nodes r) ?v = None" using assms(4) by (simp add: GetCommittedNode_def)
  have digits: "list_all is_digit (to_string i)" using dec_digits_all_digits by (auto simp: to_string_def list_all_iff)
  have "logical_match ?v (k, e)" using assms(3) digits by (simp add: logical_match_def BuildVirtualNodeId_def to_string_def)
  then have "find (logical_match ?v) (rg_nodes r) \<noteq> None" using map_of_SomeD[OF k] by (auto simp: find_None_iff)
  then obtain item where item: "find (logical_match ?v) (rg_nodes r) = Some item" by blast
  then have m: "logical_match ?v item" by (auto simp: find_Some_iff)
  then obtain ds where "?v = fst item @ ''-v'' @ ds" "list_all is_digit ds" by (auto simp: logical_match_def Let_def prefix_def)
  then have "fst item = k" using virtual_id_inject[of k "to_string i" "fst item" ds] digits by (simp add: BuildVirtualNodeId_def)
  then show ?thesis using item none v by (simp add: ResolveLogicalNodeId_def)
qed

section \<open>What is published\<close>

lemma BuildNodeInfo_id: "entry_identity k e \<Longrightarrow> nf_node_id (BuildNodeInfo rl e) = k"
  by (simp add: BuildNodeInfo_def entry_identity_def Let_def)

lemma BuildNodeInfo_admits: "Cache_IsNodeAllocatable (BuildNodeInfo rl e) t strict \<Longrightarrow> IsWriteAllocatable rl (managed_view e)"
  by (auto simp: Cache_IsNodeAllocatable_def BuildNodeInfo_def Let_def split: if_splits)

lemma find_published:
  assumes "\<And>item. item \<in> set nodes \<Longrightarrow> P (f item) \<longleftrightarrow> Q item"
  shows "find P (map f nodes) = map_option f (find Q nodes)"
  using assms by (induction nodes) auto

lemma find_key: "find (\<lambda>item. fst item = k) nodes = map_option (Pair k) (map_of nodes k)"
  by (induction nodes) auto

text \<open>C19: The node cache published by a commit or a restore never admits a node, or a virtual node, that the
  registry does not admit.\<close>

theorem published_admission_sound:
  assumes "cms_ok r" "rg_cache (PublishPlacementLocked rl r) = Some cache" "Cache_IsWriteAdmitted cache node_id"
  shows "Cms_IsWriteAdmitted rl r node_id"
proof -
  let ?f = "\<lambda>item. BuildNodeInfo rl (snd item)"
  have nodes: "nc_nodes cache = map ?f (rg_nodes r)"
    using assms(2) by (auto simp: PublishPlacementLocked_def Let_def ReplaceNodes_def)
  have "distinct (map fst (rg_nodes r))" using assms(1) by (simp add: cms_ok_def registry_catalog_ok_def strict_sorted_iff)
  then have at: "map_of (rg_nodes r) (fst item) = Some (snd item)" if "item \<in> set (rg_nodes r)" for item
    using that by (cases item) simp
  have ident: "nf_node_id (?f item) = fst item" if "item \<in> set (rg_nodes r)" for item
  proof (rule BuildNodeInfo_id)
    show "entry_identity (fst item) (snd item)" using assms(1) at[OF that] unfolding cms_ok_def registry_catalog_ok_def by blast
  qed
  have exact: "find (\<lambda>node. nf_node_id node = node_id) (nc_nodes cache) = map_option ?f (find (\<lambda>item. fst item = node_id) (rg_nodes r))"
    unfolding nodes by (rule find_published) (simp add: ident)
  have slot: "find (virtual_of node_id) (nc_nodes cache) =
      map_option ?f (find (\<lambda>item. length node_id > length (fst item @ ''-v'') \<and> prefix (fst item @ ''-v'') node_id) (rg_nodes r))"
    unfolding nodes by (rule find_published) (simp add: ident virtual_of_def Let_def)
  obtain node where node: "MatchNodeForLocationLocked (nc_nodes cache) node_id = Some node" "Cache_IsNodeAllocatable node (nf_type node) True"
      "node_id \<noteq> []"
    using assms(3) by (auto simp: Cache_IsWriteAdmitted_def split: if_splits option.splits)
  show ?thesis
  proof (cases "map_of (rg_nodes r) node_id")
    case (Some e)
    then have "node = BuildNodeInfo rl e" using node(1) exact by (simp add: MatchNodeForLocationLocked_def find_key)
    then show ?thesis using Some node(3) BuildNodeInfo_admits[OF node(2)[unfolded \<open>node = _\<close>]] by (simp add: Cms_IsWriteAdmitted_def)
  next
    case None
    then obtain item where item: "node = ?f item"
        "find (\<lambda>item. length node_id > length (fst item @ ''-v'') \<and> prefix (fst item @ ''-v'') node_id) (rg_nodes r) = Some item"
      using node(1) exact slot by (auto simp: MatchNodeForLocationLocked_def find_key)
    then show ?thesis using None node(3) BuildNodeInfo_admits[OF node(2)[unfolded item(1)]] by (simp add: Cms_IsWriteAdmitted_def)
  qed
qed

text \<open>If fewer nodes have a usable disk than replicas are wanted, publishing leaves the placement groups as they
  were, with all the nodes they had: the failure of the rebuild is ignored.\<close>

theorem failed_rebuild_keeps_placement:
  assumes "rg_pg_manager r = Some m" "pg_ok m"
    and "card (failure_groups (map (\<lambda>item. BuildNodeInfo rl (snd item)) (rg_nodes r))) < unat (ReplicaCount m)"
  shows "rg_pg_manager (PublishPlacementLocked rl r) = Some m"
proof -
  let ?nodes = "map (\<lambda>item. BuildNodeInfo rl (snd item)) (rg_nodes r)"
  have "RebuildFromNodes ?nodes (rg_cms_generation r) m \<noteq> Inr m'" for m'
    using RebuildFromNodes_eq[of m ?nodes "rg_cms_generation r" m'] assms(2,3) by (auto simp: pg_ok_def ReplicaCount_def)
  then obtain e where "RebuildFromNodes ?nodes (rg_cms_generation r) m = Inl e" by (cases "RebuildFromNodes ?nodes (rg_cms_generation r) m") auto
  then show ?thesis using assms(1) by (simp add: PublishPlacementLocked_def Let_def)
qed

text \<open>The weight of a node in the round robin lies between 1 and 1000, whatever the load report says.\<close>

theorem SchedulingWeight_range: "1 \<le> unat (SchedulingWeight rl node) \<and> unat (SchedulingWeight rl node) \<le> 1000"
proof -
  have u: "unat (of_nat n :: u32) = n" if "n \<le> 1000" for n :: nat
    using that by (simp add: unsigned_of_nat take_bit_nat_eq_self)
  define n where "n x = nat (max 1 (min 1000 x))" for x :: int
  have "1 \<le> n x" "n x \<le> 1000" for x by (auto simp: n_def)
  then have "1 \<le> unat (of_nat (n x) :: u32) \<and> unat (of_nat (n x) :: u32) \<le> 1000" for x by (simp only: u)
  then show ?thesis unfolding SchedulingWeight_def Let_def n_def[symmetric]
    by (cases "IsWriteAllocatable rl node") (simp_all only: if_True if_False not_not simp_thms unsigned_1 order_refl one_le_numeral)
qed

section \<open>Instances\<close>

definition sample_entry :: "string \<Rightarrow> int \<Rightarrow> CmsNodeCatalogEntry" where
  "sample_entry node_id lifecycle = \<lparr>ce_placement_view = None, ce_managed_view = Some (default_view
     \<lparr>mv_spec := Some (default_spec\<lparr>ms_node_id := node_id, ms_kind := 1, ms_execution_mode := MANAGED_EXECUTION_VIRTUAL,
        ms_participates_in_placement := True\<rparr>),
      mv_lifecycle := lifecycle, mv_health := MANAGED_HEALTH_HEALTHY, mv_power_level := MANAGED_POWER_PEAK,
      mv_administrative_state := MANAGED_ADMIN_ENABLED, mv_service_mode := MANAGED_SERVICE_READ_WRITE, mv_service_address := ''addr'',
      mv_inventory_devices := [\<lparr>md_device_id = ''d'', md_kind = MANAGED_DEVICE_HDD, md_capacity_bytes = 10, md_free_bytes = 5,
        md_is_healthy = True\<rparr>]\<rparr>)\<rparr>"

lemma sample_entry_fields [simp]:
  "ms_node_id (spec (managed_view (sample_entry k l))) = k" "ms_kind (spec (managed_view (sample_entry k l))) = 1"
  "ms_execution_mode (spec (managed_view (sample_entry k l))) = MANAGED_EXECUTION_VIRTUAL"
  "mv_lifecycle (managed_view (sample_entry k l)) = l" "mv_spec (managed_view (sample_entry k l)) \<noteq> None"
  "ce_managed_view (sample_entry k l) \<noteq> None" "ce_placement_view (sample_entry k l) = None" "\<not> optical_entry (sample_entry k l)"
  "instance_generation (sample_entry k l) = 1"
  by (simp_all add: sample_entry_def managed_view_def spec_def optical_entry_def instance_generation_def default_spec_def)

abbreviation sample_proposal :: "CmsNodeCatalogEntry list" where
  "sample_proposal \<equiv> [sample_entry ''a'' MANAGED_LIFECYCLE_RETIRED, sample_entry ''a-v2'' MANAGED_LIFECYCLE_WORKING]"

abbreviation sample_nodes :: "(string \<times> CmsNodeCatalogEntry) list" where
  "sample_nodes \<equiv> [(''a'', set_compact_id 1 (sample_entry ''a'' MANAGED_LIFECYCLE_RETIRED)),
     (''a-v2'', set_compact_id 2 (sample_entry ''a-v2'' MANAGED_LIFECYCLE_WORKING))]"

lemma sample_commit_entries: "commit_entries [] sample_proposal [] 1 1 = Inr (sample_nodes, 3, 1)"
  by (simp add: assign_id_def Let_def max_compact_id_def)


lemma sample_commit:
  assumes "PersistLocked R C sample_nodes 2 1 3 1 st = (Inr (), st')"
  shows "\<exists>out r. Cms_Commit R C rl 1 sample_proposal (new_registry cache None st) = (Inr out, r) \<and> rg_nodes r = sample_nodes \<and>
    rg_store r = st' \<and> cms_ok r \<and> rg_scheduler_generation r = 1"
proof -
  obtain res r where r: "Cms_Commit R C rl 1 sample_proposal (new_registry cache None st) = (res, r)" by force
  have "cms_ok r" using Cms_Commit_catalog[OF r new_registry_ok] by blast
  moreover have "\<exists>out. res = Inr out" "rg_nodes r = sample_nodes" "rg_store r = st'" "rg_scheduler_generation r = 1"
    using r assms sample_commit_entries by (auto simp: Cms_Commit_def new_registry_def Let_def simp del: commit_entries.simps)
  ultimately show ?thesis using r by blast
qed

lemma persist_nothing: "PersistLocked R C nodes g sg ns no None = (Inr (), None)"
  by (simp add: PersistLocked_def)

definition no_codec :: catalog_codec where
  "no_codec = \<lparr>SerializeCatalog = (\<lambda>_. None), ParseCatalog = (\<lambda>_. None)\<rparr>"

lemma sample_committed:
  "\<exists>out r. Cms_Commit map_db no_codec (\<lambda>x. x) 1 sample_proposal (new_registry cache None None) = (Inr out, r) \<and>
     rg_nodes r = sample_nodes \<and> cms_ok r \<and> rg_scheduler_generation r = 1"
  using sample_commit[OF persist_nothing, of map_db no_codec] by blast

theorem compact_ids_unique_witness:
  "\<exists>r e e'. (cms_step map_db no_codec (\<lambda>x. x))\<^sup>*\<^sup>* (new_registry None None None) r \<and> GetCommittedNode r ''a'' = Some e \<and>
     GetCommittedNode r ''a-v2'' = Some e' \<and> compact_id e \<noteq> 0 \<and> compact_id e' \<noteq> compact_id e"
proof -
  obtain out r where r: "Cms_Commit map_db no_codec (\<lambda>x. x) 1 sample_proposal (new_registry None None None) = (Inr out, r)"
      "rg_nodes r = sample_nodes"
    using sample_committed by blast
  have reach: "(cms_step map_db no_codec (\<lambda>x. x))\<^sup>*\<^sup>* (new_registry None None None) r" using cms_step.commit[OF r(1)] by blast
  obtain e e' where e: "GetCommittedNode r ''a'' = Some e" "GetCommittedNode r ''a-v2'' = Some e'" "optical_entry e' = optical_entry e"
    by (simp add: GetCommittedNode_def r(2))
  have "compact_id e \<noteq> 0 \<and> compact_id e' \<noteq> compact_id e"
    using compact_ids_unique[OF reach e(1)] e(2,3) by (metis list.inject list.distinct(1))
  then show ?thesis using reach e by blast
qed

theorem commits_keep_members_witness:
  "\<exists>r r' new. (commit_step map_db no_codec (\<lambda>x. x))\<^sup>*\<^sup>* r r' \<and> rg_scheduler_generation r = 1 \<and> rg_scheduler_generation r' = 2 \<and>
     GetCommittedNode r' ''a'' = Some new \<and> compact_id new = 1 \<and> IsRetired (managed_view new)"
proof -
  let ?more = "sample_entry ''b'' MANAGED_LIFECYCLE_WORKING # sample_proposal"
  obtain out r where r: "Cms_Commit map_db no_codec (\<lambda>x. x) 1 sample_proposal (new_registry None None None) = (Inr out, r)"
      "rg_nodes r = sample_nodes" "cms_ok r" "rg_scheduler_generation r = 1"
    using sample_committed by blast
  obtain res r' where r': "Cms_Commit map_db no_codec (\<lambda>x. x) 2 ?more r = (res, r')" by force
  have counters: "rg_next_storage_compact_id r = 3" "rg_next_optical_compact_id r = 1" "rg_store r = None"
    using r(1) sample_commit_entries by (auto simp: Cms_Commit_def new_registry_def Let_def persist_nothing simp del: commit_entries.simps)
  have "\<exists>nodes. commit_entries (rg_nodes r) ?more [] 3 1 = Inr (nodes, 4, 1) \<and> dom (map_of nodes) = {''a'', ''a-v2'', ''b''}"
    by (simp add: r(2) assign_id_def Let_def max_compact_id_def IsRetired_def)
  then obtain nodes where nodes: "commit_entries (rg_nodes r) ?more [] 3 1 = Inr (nodes, 4, 1)" "dom (map_of nodes) = {''a'', ''a-v2'', ''b''}"
    by blast
  have "''a'' \<in> dom (map_of nodes)" "''a-v2'' \<in> dom (map_of nodes)" unfolding nodes(2) by simp_all
  then have "find (\<lambda>current. map_of nodes (fst current) = None) (rg_nodes r) = None" by (simp add: r(2) domIff)
  then have g: "rg_scheduler_generation r' = 2"
    using r' nodes(1) r(4) counters by (auto simp: Cms_Commit_def Let_def persist_nothing simp del: commit_entries.simps)
  have steps: "(commit_step map_db no_codec (\<lambda>x. x))\<^sup>*\<^sup>* r r'" using commit_step.intros[OF r'] by blast
  have a: "GetCommittedNode r ''a'' = Some (set_compact_id 1 (sample_entry ''a'' MANAGED_LIFECYCLE_RETIRED))" by (simp add: GetCommittedNode_def r(2))
  show ?thesis using commits_keep_members[OF steps r(3) a] steps g r(4) by (auto simp: IsRetired_def)
qed

definition sample_cms_store :: "(string \<rightharpoonup> bytes) RocksMetaStore" where
  "sample_cms_store = \<lparr>db_handle = Some Map.empty, namespace_disabled = False\<rparr>"

theorem refused_commit_changes_nothing_witness:
  "\<exists>r r'. rg_nodes r = sample_nodes \<and>
     Cms_Commit map_db no_codec (\<lambda>x. x) 2 [sample_entry ''a'' MANAGED_LIFECYCLE_WORKING] r = (Inl (RetiredCannotRejoin ''a''), r') \<and>
     rg_nodes r' = rg_nodes r \<and> stored (\<lambda>m. m) r' = stored (\<lambda>m. m) r"
proof -
  obtain r :: "(string \<rightharpoonup> bytes) CmsNodeRegistry" where r: "rg_nodes r = sample_nodes" "rg_scheduler_generation r = 1" using sample_committed[of None] by blast
  define r1 where "r1 = r\<lparr>rg_store := Some sample_cms_store\<rparr>"
  have refuse: "Cms_Commit map_db no_codec (\<lambda>x. x) 2 [sample_entry ''a'' MANAGED_LIFECYCLE_WORKING] r1 = (Inl (RetiredCannotRejoin ''a''), r1)"
    by (simp add: Cms_Commit_def r1_def r assign_id_def IsRetired_def)
  then show ?thesis using refused_commit_changes_nothing[OF map_db_laws refuse] by (intro exI[of _ r1]) (simp add: r1_def r)
qed

definition sample_snapshot :: CmsNodeCatalogSnapshot where
  "sample_snapshot = \<lparr>cat_format_version = 1, cat_cms_generation = 2, cat_scheduler_generation = 1, cat_next_storage_compact_id = 3,
     cat_next_optical_compact_id = 1, cat_nodes = map snd sample_nodes\<rparr>"

definition sample_catalog_codec :: catalog_codec where
  "sample_catalog_codec = \<lparr>SerializeCatalog = (\<lambda>s. if s = sample_snapshot then Some [1] else None), ParseCatalog = (\<lambda>bs. Some sample_snapshot)\<rparr>"

lemma sample_catalog_codec_laws: "catalog_codec_laws sample_catalog_codec"
  by (auto simp: catalog_codec_laws_def sample_catalog_codec_def)

theorem restart_restores_commit_witness:
  "\<exists>out r' r''. Cms_Commit map_db sample_catalog_codec (\<lambda>x. x) 1 sample_proposal (new_registry None None (Some sample_cms_store)) = (Inr out, r') \<and>
     Cms_Restore map_db sample_catalog_codec (\<lambda>x. x) (new_registry None None (rg_store r')) = (Inr (), r'') \<and> rg_nodes r'' = rg_nodes r' \<and>
     map fst (rg_nodes r'') = [''a'', ''a-v2'']"
proof -
  let ?st = "sample_cms_store\<lparr>db_handle := Some [CmsNodeCatalogSnapshotKey \<mapsto> [1]]\<rparr>"
  have "\<lparr>cat_format_version = 1, cat_cms_generation = 2, cat_scheduler_generation = 1, cat_next_storage_compact_id = 3,
      cat_next_optical_compact_id = 1, cat_nodes = map snd sample_nodes\<rparr> = sample_snapshot" by (simp add: sample_snapshot_def)
  then have persist: "PersistLocked map_db sample_catalog_codec sample_nodes 2 1 3 1 (Some sample_cms_store) = (Inr (), Some ?st)"
    by (simp add: PersistLocked_def sample_catalog_codec_def Store_Put_def sample_cms_store_def Denied_def map_db_def)
  from sample_commit[OF persist, of "\<lambda>x. x" None] obtain out r' where
    r': "Cms_Commit map_db sample_catalog_codec (\<lambda>x. x) 1 sample_proposal (new_registry None None (Some sample_cms_store)) = (Inr out, r')"
      "rg_nodes r' = sample_nodes" "rg_store r' = Some ?st"
    by blast
  obtain res r'' where r'': "Cms_Restore map_db sample_catalog_codec (\<lambda>x. x) (new_registry None None (rg_store r')) = (res, r'')" by force
  have "Store_Get map_db CmsNodeCatalogSnapshotKey ?st = Found [1]"
    by (simp add: Store_Get_def sample_cms_store_def Denied_def map_db_def)
  then have "res = Inr () \<and> rg_nodes r'' = rg_nodes r'"
    using restart_restores_commit[OF map_db_laws sample_catalog_codec_laws new_registry_ok _ r'(1) _ _ r''] r'(3) by (auto simp: new_registry_def)
  then show ?thesis using r' r'' by auto
qed

theorem ResolveLogicalNodeId_virtual_witness:
  "\<exists>r :: (string \<rightharpoonup> bytes) CmsNodeRegistry. rg_nodes r = sample_nodes \<and> ResolveLogicalNodeId r (BuildVirtualNodeId ''a-v2'' 1) = Some ''a-v2''"
proof -
  obtain r :: "(string \<rightharpoonup> bytes) CmsNodeRegistry" where r: "rg_nodes r = sample_nodes" "cms_ok r" using sample_committed[of None] by blast
  have node: "GetCommittedNode r ''a-v2'' = Some (set_compact_id 2 (sample_entry ''a-v2'' MANAGED_LIFECYCLE_WORKING))"
    "GetCommittedNode r (BuildVirtualNodeId ''a-v2'' 1) = None"
    by (simp_all add: GetCommittedNode_def r(1) BuildVirtualNodeId_def)
  show ?thesis using ResolveLogicalNodeId_virtual[OF r(2) node(1) _ node(2)] r(1) by auto
qed

theorem published_admission_sound_witness:
  "\<exists>r :: (string \<rightharpoonup> bytes) CmsNodeRegistry. rg_nodes r = sample_nodes \<and> Cms_IsWriteAdmitted (\<lambda>x. x) r ''a-v2''"
proof -
  obtain r :: "(string \<rightharpoonup> bytes) CmsNodeRegistry" where r: "rg_nodes r = sample_nodes" "cms_ok r" using sample_committed[of None] by blast
  define r1 where "r1 = r\<lparr>rg_cache := Some (new_cache [])\<rparr>"
  have ok: "cms_ok r1" "rg_nodes r1 = sample_nodes" using r by (simp_all add: r1_def cms_ok_def)
  let ?c = "ReplaceNodes (map (\<lambda>item. BuildNodeInfo (\<lambda>x. x) (snd item)) sample_nodes) (new_cache [])"
  have cache: "rg_cache (PublishPlacementLocked (\<lambda>x. x) r1) = Some ?c"
    by (simp add: PublishPlacementLocked_def r1_def r(1) Let_def)
  let ?e = "set_compact_id 2 (sample_entry ''a-v2'' MANAGED_LIFECYCLE_WORKING)"
  have "Cache_IsNodeAllocatable (BuildNodeInfo (\<lambda>x. x) ?e) (nf_type (BuildNodeInfo (\<lambda>x. x) ?e)) True"
    by (simp add: Cache_IsNodeAllocatable_def BuildNodeInfo_def Let_def IsWriteAllocatable_def set_compact_id_def managed_view_def
        sample_entry_def default_view_def default_spec_def spec_def serves_data_def Cms_IsDataDevice_def disk_usable_def disk_writable_def)
  moreover have "nf_node_id (BuildNodeInfo rl (set_compact_id cid (sample_entry k l))) = k" for rl cid k l
    by (simp add: BuildNodeInfo_def Let_def)
  ultimately have "Cache_IsWriteAdmitted ?c ''a-v2''"
    by (simp add: Cache_IsWriteAdmitted_def MatchNodeForLocationLocked_def ReplaceNodes_def)
  then show ?thesis using published_admission_sound[OF ok(1) cache] ok(2) by blast
qed

theorem failed_rebuild_keeps_placement_witness:
  "rg_pg_manager (PublishPlacementLocked (\<lambda>x. x) (new_registry None (Some (sample_manager 2)) (None :: nat RocksMetaStore option))) =
     Some (sample_manager 2)"
  using failed_rebuild_keeps_placement[of "new_registry None (Some (sample_manager 2)) (None :: nat RocksMetaStore option)" "sample_manager 2" "\<lambda>x. x"]
    sample_manager_pg_ok[of 2]
  by (simp add: new_registry_def BuildCandidates_def ReplicaCount_def sample_manager_def new_pg_manager_def)

end
