(* ===== verification/Spec2Isabelle.thy ===== *)
theory Spec2Isabelle
  imports Inode_Codecs Page_Layout Meta_Codec Archive_Lease Candidate_Queue Drain_Safety Workflow_Model Cms_Registry
begin

text \<open>
  A verification library for ZBStorage, a tiered storage system.  A metadata server (MDS) keeps the
  namespace and the location of every file, a scheduler keeps the catalogue of storage, metadata and
  optical nodes with their power state and life cycle, and data nodes hold the objects on disk, in a
  virtual pool or on optical discs.  Cold files are archived to optical images.

  \<^bold>\<open>Theories and sources\<close> (paths under \<open>src/src/\<close>)

  \<^item> \<open>ZB_Prelude\<close>: word and list lemmas, little- and big-endian byte codecs and the collections of
    simplification rules that the other theories share.
  \<^item> \<open>Decimal_Utils\<close>: \<open>mds/masstree_meta/MasstreeDecimalUtils.h\<close>, arithmetic on decimal strings.
  \<^item> \<open>Optical_Profile\<close>: \<open>MasstreeOpticalProfile.h\<close> and \<open>MasstreeOpticalAllocator.cpp\<close>, the numbering of
    optical images and the allocator that packs files into them.
  \<^item> \<open>Unified_Inode\<close>, \<open>Inode_Location\<close>, \<open>Inode_Codecs\<close>: \<open>mds/storage/UnifiedInodeRecord.{h,cpp}\<close>,
    \<open>UnifiedInodeLocation.h\<close>, \<open>LhmInodeId.h\<close> and \<open>MasstreeInodeRecordCodec.cpp\<close>, the 256-byte inode
    record, its conversions and the locations stored in it.
  \<^item> \<open>Stream_Codec\<close>, \<open>Page_Layout\<close>: \<open>MasstreePageLayout.{h,cpp}\<close>, \<open>MasstreeValueCodec.h\<close>, the pages of the
    bulk-imported namespace.
  \<^item> \<open>Meta_Schema\<close>, \<open>Meta_Codec\<close>, \<open>Rocks_Store\<close>: \<open>mds/storage/MetaSchema.h\<close>, \<open>MetaCodec.cpp\<close>,
    \<open>RocksMetaStore.cpp\<close>, the keys and values of the metadata database and the guarded access to it.
  \<^item> \<open>Archive_Lease\<close>, \<open>Candidate_Queue\<close>: \<open>mds/archive/ArchiveLeaseManager.cpp\<close>, \<open>ArchiveCandidateQueue.h\<close>,
    \<open>FileArchiveCandidateQueue.h\<close>, who may archive a file and which file is archived next.
  \<^item> \<open>Node_Model\<close>, \<open>Node_Records\<close>, \<open>Node_Power\<close>, \<open>Node_Lifecycle\<close>: \<open>storage_model/NodeModel.h\<close>,
    \<open>storage_model/StorageModel.cpp\<close>, \<open>scheduler/model/ManagedNode.cpp\<close>,
    \<open>scheduler/power/NodePowerManager.cpp\<close>, the node catalogue, its power policy and the life of a node.
  \<^item> \<open>Optical_Model\<close>, \<open>Workflow_Model\<close>: \<open>storage_model/Identifiers.h\<close>, \<open>OpticalModel.h\<close>, \<open>NamespaceModel.h\<close>,
    \<open>WorkflowModel.h\<close> and their functions in \<open>StorageModel.cpp\<close>, discs and slots, images, file records and
    the plans of batch transfers.
  \<^item> \<open>Node_Cache\<close>, \<open>PG_Manager\<close>, \<open>Object_Allocator\<close>: \<open>NodeInfo\<close> of \<open>mds/config/MdsConfig.h\<close> and
    \<open>mds/allocator/NodeStateCache\<close>, \<open>PGManager\<close>, \<open>ObjectAllocator\<close> (\<open>.{h,cpp}\<close>), the choice of nodes and disks
    for a new object by round robin or by placement group.
  \<^item> \<open>Cms_Registry\<close>: \<open>mds/allocator/CmsNodeRegistry.{h,cpp}\<close>, the catalogue of nodes that the metadata server
    commits, persists in the store of \<open>Rocks_Store\<close> and publishes to the cache and the placement groups.
  \<^item> \<open>Cluster_State\<close>: \<open>scheduler/model/ClusterState.{h,cpp}\<close>, \<open>scheduler/health/FailureDetector.cpp\<close>, heartbeats and
    the views that older clients see, on top of the node catalogue, and the table of lifecycle operations.
  \<^item> \<open>Shell_Actuator\<close>, \<open>Lifecycle_Manager\<close>: \<open>scheduler/lifecycle/NodeActuator.cpp\<close>, \<open>LifecycleManager.cpp\<close>,
    \<open>scheduler/power/PowerActuationController.cpp\<close>, starting, stopping and powering nodes through commands.
  \<^item> \<open>Drain_Migration\<close>, \<open>Drain_Safety\<close>: \<open>scheduler/migration/DrainMigrationCoordinator.{h,cpp}\<close>, the migration of
    all data off a node before it is retired, and its safety for every backend.

  \<^bold>\<open>Conventions.\<close>  A function keeps the name it has in the code; the fields of a structure are prefixed by
  an abbreviation of its name (\<open>n_lifecycle\<close> is \<open>NodeRecord::lifecycle\<close>).  Unsigned integers are words of
  their width, so additions wrap where the code wraps.  A function that returns \<open>bool\<close> and an error
  message is a value of a sum type, \<open>Inl\<close> with one constructor per message; methods of a class take its
  state and return it changed.  Hash maps are association lists with distinct keys.  Each call that takes
  the mutex of its class is one step.  Output pointers are results, so the checks for null pointers have
  no counterpart.

  \<^bold>\<open>Parameters.\<close>  RocksDB is the locale of \<open>Rocks_Store\<close>, protocol buffers serialisation is a pair of
  functions that are inverse to each other, clocks and random numbers are arguments.  Floating-point
  numbers are rationals with the rounding of \<open>double\<close> and \<open>long double\<close> as a parameter (\<open>float_env\<close>), which
  also supplies the random draws.  The shell, the actuators, the migration backend and its hooks are records
  of functions; the clock of the lifecycle manager is a function from the number of the reading.  All theorems hold for every choice of these parameters unless a
  hypothesis says otherwise.

  \<^bold>\<open>What is shown.\<close>  The codecs are inverse to each other on exactly the inputs they accept; the image
  allocator never overfills an image and never skips one; the lease of an archive task excludes every
  other holder until it expires; the candidate queues return a best candidate and respect their capacity;
  the node catalogue stays well formed over every sequence of operations, a node only moves forward
  through its life cycle, the loop of the power policy ends and accounts energy within physical bounds, and
  the policy never drops below the minimum of nodes online; lifecycle operations exclude each other, end,
  and survive a restart; values reach the shell quoted; a drain deletes an object only after its copy was
  verified and committed, and reports completion only for a retired node; the index of discs and slots is
  one-to-one and its compact form exact; a placement view is built exactly when there are enough failure
  groups, and gives every object the wanted number of replicas in different ones; at equal epoch a group
  keeps its replicas when nodes it does not use disappear; compact node ids are unique, keep their node
  through every commit and survive a restart, and the published cache admits no node that the registry does
  not admit.  Theorems also record where the
  code departs from this: a placeholder in a node id, the rollback of a failed start, standby recorded as
  medium power, wrapping remainders and image regions, virtual node ids that resolve to another node, and
  the eviction order of the file queue.

  \<^bold>\<open>Bounds and fuel.\<close>  No function uses fuel: loops are structural recursions or come with a measure (the
  policy loop of \<open>Node_Power\<close> decreases the time left, the eviction of old placement views their number).

  \<^bold>\<open>Not modelled.\<close>  RPC servers and clients, configuration parsing, threads, file access and the
  vendored libraries only move data between the components above; the manifest lists them one by one.
\<close>

end
